(* ===== verification/Prelude.thy ===== *)
theory Prelude
  imports Main "HOL-Library.Signed_Division" "HOL-Library.Monad_Syntax"
begin

text \<open>
  Shared vocabulary of the development: the error values of the backend (the classes
  under \<open>src/backend/src\<close> that extend \<open>AppError\<close>), the result type of an operation that may
  throw, the JavaScript values a request body can hold, and the model of one database
  table as the accessor of \<open>src/backend/src/modules/tenancy/scoped-db.js\<close> presents it:
  rows under an auto-increment primary key, read, inserted and updated by a predicate.
  The collections \<open>result_simps\<close> and \<open>table_simps\<close> carry most component proofs.
\<close>

named_theorems result_simps "evaluation and inversion of the result type"
named_theorems table_simps "reads after writes on a table"

section \<open>Results\<close>

text \<open>
  A thrown error is a value. Each constructor is one error class of the source;
  \<open>ValidationError\<close> carries its code (without the \<open>VALIDATION_\<close> prefix the class adds) and
  \<open>ValidationFieldError\<close> the code, the field and the issue of its one detail entry.
\<close>

datatype app_error =
    ValidationError string
  | ValidationFieldError string string string
  | FolioClosedError nat
  | LineItemAlreadyVoidedError nat
  | LineItemNotFoundError
  | InvalidPaymentTransitionError string string
  | RefundExceedsCapturedAmountError nat int int
  | CrossReservationFolioMoveError
  | CannotVoidInvoicedLineError nat
  | CannotPayArBilledFolioDirectlyError nat
  | BackdatingNotPermittedError
  | BusinessDayClosedError
  | ArAccountNotFoundError
  | CompanyProfileNotFoundError
  | CreditLimitExceededError nat int int
  | CreditLimitOverrideReasonRequiredError
  | NoChargesToInvoiceError
  | InvoiceAlreadyVoidError nat
  | PaymentApplicationExceedsInvoiceError nat int int
  | PaymentApplicationExceedsPaymentError nat int int
  | PaymentAlreadyVoidError nat
  | InvoiceNotOnPaymentAccountError nat
  | CurrencyMismatchError
  | RefundNotStuckError
  | PaymentGatewayNotConfiguredError
  | PaymentGatewayRecordMismatchError nat
  | GatewayRequestError
  | PropertyPayoutNotConfiguredError
  | SettlementAlreadyVoidedError nat
  | OrderNotOpenError nat string
  | PlainError
  | OverbookingThresholdExceededError nat string
  | ArrivalBeforeBusinessDateError string string
  | WaitlistArrivalPassedError string string
  | InvalidReservationTransitionError string string
  | RoomUnavailableError nat
  | RoomNotCleanError nat
  | RoomOutOfOrderError nat
  | RoomNotActiveError nat string
  | FolioBalanceOwingError int nat
  | RoomChangeBlockedError string
  | RoomStateError string
  | NightAuditAlreadyCompletedError string
  | NightAuditAlreadyRunningError string
  | NightAuditBlockingConditionsError
  | NightAuditPrematureError string string
  | PropertyNotOpenedError
  | StockTakeNotOpenError nat
  | StockTakeAlreadyCompletedError nat
  | StockTakeAlreadyCancelledError nat
  | InsufficientStockOverrideRequiredError "(nat \<times> int) list"
  | InsufficientStockForTransferError nat nat int int
  | ReceiveAtStoreOnlyError nat
  | SupermarketRequestMustComeFromStoreError
  | RequestItemNotAtOutletError "nat list"
  | StockTakeCannotRaiseStockError nat "nat list"
  | StockTransferRequestNotFoundError
  | StockTransferRequestNotPendingError nat
  | TopUpRequiresShortIssueError nat
  | RequestAlreadyToppedUpError nat nat
  | InsufficientStockForIssueError "nat list"
  | OrderItemAlreadyVoidedError nat
  | OrderPaymentInProgressError nat
  | OrderHasCapturedPaymentError nat nat
  | RoomChargeRejectedError string
  | SettlementGroupsMismatchError string
  | SettlementPaidByGatewayError nat nat
  | RegisterPaymentInvalidError string
  | ShiftAlreadyOpenError nat
  | ShiftAlreadyClosedError nat
  | ShiftNotFoundError
  | ShiftNotYoursError nat
  | TabNotYoursError nat
  | TabNotTransferableError nat
  | StoreOutletNotAPointOfSaleError
  | SupermarketOutletNotARegisterError
  | DiscountNeedsApprovalError nat
  | VoucherNoLongerAvailableError string nat
  | VoucherNotOnCardError
  | DuplicateEntry string
  | TypeError

type_synonym 'a result = "app_error + 'a"

definition rbind :: "'a result \<Rightarrow> ('a \<Rightarrow> 'b result) \<Rightarrow> 'b result" where
  "rbind m f = (case m of Inl e \<Rightarrow> Inl e | Inr x \<Rightarrow> f x)"

definition require :: "bool \<Rightarrow> app_error \<Rightarrow> unit result" where
  "require c e = (if c then Inr () else Inl e)"

definition the_or :: "'a option \<Rightarrow> app_error \<Rightarrow> 'a result" where
  "the_or x e = (case x of None \<Rightarrow> Inl e | Some a \<Rightarrow> Inr a)"

lemma rbind_simps [simp, result_simps]:
  "rbind (Inl e) f = Inl e"
  "rbind (Inr x) f = f x"
  by (simp_all add: rbind_def)

lemma rbind_eq_Inr [result_simps]:
  "rbind m f = Inr y \<longleftrightarrow> (\<exists>x. m = Inr x \<and> f x = Inr y)"
  by (cases m) auto

lemma rbind_InrE: "rbind m f = Inr y \<Longrightarrow> (\<And>x. m = Inr x \<Longrightarrow> f x = Inr y \<Longrightarrow> P) \<Longrightarrow> P"
  by (cases m) auto

lemma rbind_eq_Inl [result_simps]:
  "rbind m f = Inl e \<longleftrightarrow> m = Inl e \<or> (\<exists>x. m = Inr x \<and> f x = Inl e)"
  by (cases m) auto

lemma require_eq_Inr [simp, result_simps]: "require c e = Inr u \<longleftrightarrow> c"
  by (simp add: require_def)

lemma require_eq_Inl [simp, result_simps]: "require c e = Inl e' \<longleftrightarrow> \<not> c \<and> e' = e"
  by (auto simp: require_def)

lemma require_True [simp, result_simps]: "require True e = Inr ()"
  by (simp add: require_def)

lemma require_False [simp, result_simps]: "require False e = Inl e"
  by (simp add: require_def)

lemma the_or_simps [simp, result_simps]:
  "the_or None e = Inl e"
  "the_or (Some a) e = Inr a"
  by (simp_all add: the_or_def)

lemma the_or_eq_Inr [simp, result_simps]: "the_or x e = Inr a \<longleftrightarrow> x = Some a"
  by (cases x) auto

lemma the_or_eq_Inl [simp, result_simps]: "the_or x e = Inl e' \<longleftrightarrow> x = None \<and> e' = e"
  by (cases x) auto

text \<open>A loop whose body may throw: the first error ends it.\<close>

fun foldM :: "('s \<Rightarrow> 'a \<Rightarrow> 's result) \<Rightarrow> 's \<Rightarrow> 'a list \<Rightarrow> 's result" where
  "foldM f s [] = Inr s"
| "foldM f s (x # xs) = rbind (f s x) (\<lambda>s'. foldM f s' xs)"

lemma foldM_append: "foldM f s (xs @ ys) = rbind (foldM f s xs) (\<lambda>s'. foldM f s' ys)"
proof (induction xs arbitrary: s)
  case (Cons x xs)
  then show ?case by (cases "f s x") simp_all
qed simp

lemma foldM_inv:
  assumes "foldM f s xs = Inr s'" "P s"
    and "\<And>s x s'. x \<in> set xs \<Longrightarrow> P s \<Longrightarrow> f s x = Inr s' \<Longrightarrow> P s'"
  shows "P s'"
  using assms
proof (induction xs arbitrary: s)
  case (Cons x xs)
  from Cons.prems(1) obtain s1 where "f s x = Inr s1" "foldM f s1 xs = Inr s'"
    by (auto simp: rbind_eq_Inr)
  then show ?case using Cons.IH [of s1] Cons.prems(2,3) by auto
qed simp

text \<open>JavaScript's truth test on an optional text: missing and empty are both false.\<close>

definition given :: "string option \<Rightarrow> bool" where
  "given r = (case r of None \<Rightarrow> False | Some s \<Rightarrow> s \<noteq> [])"

lemma given_simps [simp]: "\<not> given None" "given (Some s) \<longleftrightarrow> s \<noteq> []"
  by (simp_all add: given_def)

section \<open>Values a request body can hold\<close>

text \<open>
  \<open>JNum\<close> carries the text \<open>String(n)\<close> prints for the JSON number, which is all the code
  ever reads of one; \<open>JOther\<close> is an object or a boolean (an array is not modelled: its text is
  that of its elements).
\<close>

datatype js_value = JUndefined | JNull | JNum string | JStr string | JOther

section \<open>Tables\<close>

text \<open>
  One MySQL table as a query sees it: rows in primary-key order and the auto-increment
  counter. An insert takes the next key; an update rewrites every row its \<open>where\<close> clause
  selects and reports how many there were.
\<close>

record 'r table =
  next_id :: nat
  rows :: "(nat \<times> 'r) list"

definition t_empty :: "'r table" where
  "t_empty = \<lparr>next_id = 1, rows = []\<rparr>"

definition t_get :: "'r table \<Rightarrow> nat \<Rightarrow> 'r option" where
  "t_get t k = map_of (rows t) k"

definition t_insert :: "'r \<Rightarrow> 'r table \<Rightarrow> 'r table" where
  "t_insert r t = \<lparr>next_id = Suc (next_id t), rows = rows t @ [(next_id t, r)]\<rparr>"

definition t_update :: "(nat \<Rightarrow> 'r \<Rightarrow> bool) \<Rightarrow> ('r \<Rightarrow> 'r) \<Rightarrow> 'r table \<Rightarrow> 'r table" where
  "t_update P f t =
     \<lparr>next_id = next_id t, rows = map (\<lambda>(i, r). (i, if P i r then f r else r)) (rows t)\<rparr>"

definition t_select :: "(nat \<Rightarrow> 'r \<Rightarrow> bool) \<Rightarrow> 'r table \<Rightarrow> (nat \<times> 'r) list" where
  "t_select P t = filter (\<lambda>(i, r). P i r) (rows t)"

definition t_first :: "(nat \<Rightarrow> 'r \<Rightarrow> bool) \<Rightarrow> 'r table \<Rightarrow> (nat \<times> 'r) option" where
  "t_first P t = (case t_select P t of [] \<Rightarrow> None | x # _ \<Rightarrow> Some x)"

definition t_wf :: "'r table \<Rightarrow> bool" where
  "t_wf t \<longleftrightarrow> distinct (map fst (rows t)) \<and> (\<forall>(i, r) \<in> set (rows t). i < next_id t)"

definition t_delete :: "(nat \<Rightarrow> 'r \<Rightarrow> bool) \<Rightarrow> 'r table \<Rightarrow> 'r table" where
  "t_delete P t = \<lparr>next_id = next_id t, rows = filter (\<lambda>(i, r). \<not> P i r) (rows t)\<rparr>"

abbreviation by_id :: "nat \<Rightarrow> nat \<Rightarrow> 'r \<Rightarrow> bool" where
  "by_id k \<equiv> (\<lambda>i r. i = k)"

lemma t_wf_empty [simp, intro]: "t_wf t_empty"
  by (simp add: t_wf_def t_empty_def)

lemma t_get_empty [simp, table_simps]: "t_get t_empty k = None"
  by (simp add: t_get_def t_empty_def)

lemma t_get_next [simp]: "t_wf t \<Longrightarrow> t_get t (next_id t) = None"
  by (force simp: t_wf_def t_get_def map_of_eq_None_iff)

lemma t_get_lt: "t_wf t \<Longrightarrow> t_get t k = Some r \<Longrightarrow> k < next_id t"
  by (auto simp: t_wf_def t_get_def dest!: map_of_SomeD)

lemma t_get_insert [table_simps]:
  "t_wf t \<Longrightarrow> t_get (t_insert r t) k = (if k = next_id t then Some r else t_get t k)"
  using t_get_next [of t]
  by (cases "map_of (rows t) k") (auto simp: t_insert_def t_get_def map_add_def)

lemma t_get_update [table_simps]:
  "t_get (t_update P f t) k = map_option (\<lambda>r. if P k r then f r else r) (t_get t k)"
proof -
  have "map_of (map (\<lambda>(i, r). (i, if P i r then f r else r)) xs) k =
        map_option (\<lambda>r. if P k r then f r else r) (map_of xs k)" for xs
    by (induction xs) auto
  then show ?thesis by (simp add: t_get_def t_update_def)
qed

lemma t_get_delete_id [table_simps]: "t_get (t_delete (\<lambda>i r. i \<in> K) t) k = (if k \<in> K then None else t_get t k)"
proof -
  have "map_of (filter (\<lambda>(i, r). i \<notin> K) xs) k = (if k \<in> K then None else map_of xs k)" for xs :: "(nat \<times> 'a) list"
    by (induction xs) auto
  then show ?thesis by (simp add: t_get_def t_delete_def)
qed

lemma t_wf_delete [simp, intro]: "t_wf t \<Longrightarrow> t_wf (t_delete P t)"
  by (auto simp: t_wf_def t_delete_def distinct_map_filter)

lemma t_wf_insert [simp, intro]: "t_wf t \<Longrightarrow> t_wf (t_insert r t)"
  by (auto simp: t_wf_def t_insert_def)

lemma t_wf_update [simp, intro]: "t_wf t \<Longrightarrow> t_wf (t_update P f t)"
  by (auto simp: t_wf_def t_update_def comp_def case_prod_unfold)

lemma next_id_simps [simp, table_simps]:
  "next_id (t_insert r t) = Suc (next_id t)"
  "next_id (t_update P f t) = next_id t"
  by (simp_all add: t_insert_def t_update_def)

lemma t_select_insert [table_simps]:
  "t_select P (t_insert r t) = t_select P t @ (if P (next_id t) r then [(next_id t, r)] else [])"
  by (simp add: t_select_def t_insert_def)

lemma t_select_set [table_simps]:
  "t_wf t \<Longrightarrow> (i, r) \<in> set (t_select P t) \<longleftrightarrow> t_get t i = Some r \<and> P i r"
  by (auto simp: t_select_def t_get_def t_wf_def)

lemma t_select_update [table_simps]:
  "t_select P (t_update Q f t) =
     map (\<lambda>(i, r). (i, if Q i r then f r else r))
       (t_select (\<lambda>i r. P i (if Q i r then f r else r)) t)"
  by (simp add: t_select_def t_update_def filter_map comp_def case_prod_unfold)

text \<open>The sum of a column over the rows a \<open>where\<close> clause selects.\<close>

definition t_total :: "(nat \<Rightarrow> 'r \<Rightarrow> bool) \<Rightarrow> ('r \<Rightarrow> int) \<Rightarrow> 'r table \<Rightarrow> int" where
  "t_total P g t = sum_list (map (\<lambda>(i, r). g r) (t_select P t))"

lemma t_total_empty [simp]: "t_total P g t_empty = 0"
  by (simp add: t_total_def t_select_def t_empty_def)

lemma t_total_insert [table_simps]:
  "t_total P g (t_insert r t) = t_total P g t + (if P (next_id t) r then g r else 0)"
  by (simp add: t_total_def t_select_insert)

lemma t_total_update [table_simps]:
  "t_total P g (t_update Q f t) =
     t_total (\<lambda>i r. P i (if Q i r then f r else r)) (\<lambda>r. g r) t
     + t_total (\<lambda>i r. Q i r \<and> P i (f r)) (\<lambda>r. g (f r) - g r) t"
proof -
  have "sum_list (map (\<lambda>(i, r). g r) (map (\<lambda>(i, r). (i, if Q i r then f r else r))
          (filter (\<lambda>(i, r). P i (if Q i r then f r else r)) xs))) =
        sum_list (map (\<lambda>(i, r). g r) (filter (\<lambda>(i, r). P i (if Q i r then f r else r)) xs))
        + sum_list (map (\<lambda>(i, r). g (f r) - g r) (filter (\<lambda>(i, r). Q i r \<and> P i (f r)) xs))"
    for xs
    by (induction xs) (auto split: if_splits)
  then show ?thesis
    unfolding t_total_def t_select_update unfolding t_select_def .
qed

lemma t_total_cong:
  assumes "\<And>i r. (i, r) \<in> set (rows t) \<Longrightarrow> P i r = P' i r"
    and "\<And>i r. (i, r) \<in> set (rows t) \<Longrightarrow> P i r \<Longrightarrow> g r = g' r"
  shows "t_total P g t = t_total P' g' t"
proof -
  have "t_select P t = t_select P' t"
    using assms(1) by (auto simp: t_select_def intro!: filter_cong)
  moreover have "map (\<lambda>(i, r). g r) (t_select P t) = map (\<lambda>(i, r). g' r) (t_select P t)"
    using assms(2) by (auto simp: t_select_def)
  ultimately show ?thesis unfolding t_total_def by (simp only:)
qed

lemma t_total_none:
  assumes "\<And>i r. (i, r) \<in> set (rows t) \<Longrightarrow> \<not> P i r"
  shows "t_total P g t = 0"
proof -
  have "t_select P t = []"
    using assms by (auto simp: t_select_def filter_empty_conv)
  then show ?thesis by (simp add: t_total_def)
qed

lemma t_total_split:
  "t_total P g t = t_total (\<lambda>i r. P i r \<and> Q i r) g t + t_total (\<lambda>i r. P i r \<and> \<not> Q i r) g t"
proof -
  have "sum_list (map (\<lambda>(i, r). g r) (filter (\<lambda>(i, r). P i r) xs)) =
        sum_list (map (\<lambda>(i, r). g r) (filter (\<lambda>(i, r). P i r \<and> Q i r) xs)) +
        sum_list (map (\<lambda>(i, r). g r) (filter (\<lambda>(i, r). P i r \<and> \<not> Q i r) xs))" for xs
    by (induction xs) auto
  then show ?thesis by (simp add: t_total_def t_select_def)
qed

lemma t_total_nonneg: "(\<And>i r. (i, r) \<in> set (rows t) \<Longrightarrow> P i r \<Longrightarrow> 0 \<le> g r) \<Longrightarrow> 0 \<le> t_total P g t"
  by (auto simp: t_total_def t_select_def intro!: sum_list_nonneg)

lemma rows_insert [table_simps]: "set (rows (t_insert r t)) = insert (next_id t, r) (set (rows t))"
  by (simp add: t_insert_def)

lemma rows_get: "t_wf t \<Longrightarrow> (i, r) \<in> set (rows t) \<longleftrightarrow> t_get t i = Some r"
  by (simp add: t_wf_def t_get_def)

text \<open>What an update does to a sum, in the three shapes the code has.\<close>

lemma t_total_update_same:
  assumes "\<And>i r. (i, r) \<in> set (rows t) \<Longrightarrow> Q i r \<Longrightarrow> P i (f r) = P i r \<and> g (f r) = g r"
  shows "t_total P g (t_update Q f t) = t_total P g t"
proof -
  have "t_total (\<lambda>i r. Q i r \<and> P i (f r)) (\<lambda>r. g (f r) - g r) t = 0"
  proof -
    have "t_total (\<lambda>i r. Q i r \<and> P i (f r)) (\<lambda>r. g (f r) - g r) t = t_total (\<lambda>i r. Q i r \<and> P i (f r)) (\<lambda>_. 0) t"
      by (rule t_total_cong) (use assms in auto)
    then show ?thesis by (simp add: t_total_def case_prod_unfold)
  qed
  moreover have "t_total (\<lambda>i r. P i (if Q i r then f r else r)) (\<lambda>r. g r) t = t_total P g t"
    by (rule t_total_cong) (use assms in auto)
  ultimately show ?thesis by (simp add: t_total_update)
qed

lemma t_total_update_drop:
  assumes "\<And>i r. Q i r \<Longrightarrow> \<not> P i (f r)"
  shows "t_total P g (t_update Q f t) = t_total P g t - t_total (\<lambda>i r. P i r \<and> Q i r) g t"
proof -
  have "t_total (\<lambda>i r. Q i r \<and> P i (f r)) (\<lambda>r. g (f r) - g r) t = 0"
    by (rule t_total_none) (use assms in auto)
  moreover have "t_total (\<lambda>i r. P i (if Q i r then f r else r)) (\<lambda>r. g r) t = t_total (\<lambda>i r. P i r \<and> \<not> Q i r) g t"
    by (rule t_total_cong) (use assms in auto)
  ultimately show ?thesis using t_total_split [of P g t Q] by (simp add: t_total_update)
qed

lemma filter_map_of:
  "distinct (map fst xs) \<Longrightarrow>
   filter (\<lambda>(i, r). i = k \<and> P i r) xs = (case map_of xs k of None \<Rightarrow> [] | Some r \<Rightarrow> if P k r then [(k, r)] else [])"
proof (induction xs)
  case (Cons x xs)
  obtain i r where x: "x = (i, r)" by (cases x)
  show ?case
  proof (cases "i = k")
    case True
    have "\<forall>p \<in> set xs. fst p \<noteq> k" using Cons.prems x True by auto
    then have "filter (\<lambda>(i, r). i = k \<and> P i r) xs = []" by (auto simp: filter_empty_conv)
    then show ?thesis using x True by simp
  next
    case False
    then show ?thesis using Cons x by simp
  qed
qed simp

lemma t_total_at:
  "t_wf t \<Longrightarrow> t_total (\<lambda>i r. P i r \<and> i = k) g t = (case t_get t k of None \<Rightarrow> 0 | Some r \<Rightarrow> if P k r then g r else 0)"
proof -
  assume "t_wf t"
  then have "filter (\<lambda>(i, r). i = k \<and> P i r) (rows t) = (case t_get t k of None \<Rightarrow> [] | Some r \<Rightarrow> if P k r then [(k, r)] else [])"
    by (simp add: t_wf_def t_get_def filter_map_of)
  then show ?thesis by (simp add: t_total_def t_select_def conj_commute split: option.splits)
qed

lemma t_total_drop_row:
  assumes "t_wf t" "t_get t k = Some r" "\<And>r. \<not> P k (f r)"
  shows "t_total P g (t_update (by_id k) f t) = t_total P g t - (if P k r then g r else 0)"
proof -
  have "t_total P g (t_update (by_id k) f t) = t_total P g t - t_total (\<lambda>i r. P i r \<and> i = k) g t"
    using assms(3) by (intro t_total_update_drop) auto
  then show ?thesis using t_total_at [OF assms(1), of P k g] assms(2) by simp
qed

lemma t_total_ge:
  assumes "t_wf t" "t_get t k = Some r" "P k r" "\<And>i r. t_get t i = Some r \<Longrightarrow> P i r \<Longrightarrow> 0 \<le> g r"
  shows "g r \<le> t_total P g t"
proof -
  have "t_total P g t = t_total (\<lambda>i r. P i r \<and> i = k) g t + t_total (\<lambda>i r. P i r \<and> i \<noteq> k) g t"
    by (rule t_total_split)
  moreover have "0 \<le> t_total (\<lambda>i r. P i r \<and> i \<noteq> k) g t"
    using assms by (intro t_total_nonneg) (simp add: rows_get)
  ultimately show ?thesis using assms t_total_at [OF assms(1), of P k g] by simp
qed

lemma t_first_SomeD: "t_wf t \<Longrightarrow> t_first P t = Some (i, r) \<Longrightarrow> t_get t i = Some r \<and> P i r"
  using t_select_set [of t i r P] by (auto simp: t_first_def split: list.splits)

lemma t_first_NoneD: "t_wf t \<Longrightarrow> t_first P t = None \<Longrightarrow> t_get t i = Some r \<Longrightarrow> \<not> P i r"
  using t_select_set [of t i r P] by (auto simp: t_first_def split: list.splits)

lemma t_select_distinct: "t_wf t \<Longrightarrow> distinct (map fst (t_select P t))"
  by (auto simp: t_wf_def t_select_def distinct_map_filter)

lemma t_get_update_id [table_simps]:
  "t_get (t_update (by_id j) f t) k = (if k = j then map_option f (t_get t k) else t_get t k)"
  by (cases "t_get t k") (auto simp: t_get_update)

text \<open>An update by key and condition is an update by key.\<close>

lemma t_update_where: "t_update (\<lambda>i r. i = k \<and> Q r) f t = t_update (by_id k) (\<lambda>r. if Q r then f r else r) t"
  by (auto simp: t_update_def)

lemma t_total_change_row:
  assumes "t_wf t" "t_get t k = Some r"
  shows "t_total P g (t_update (by_id k) f t) =
    t_total P g t - (if P k r then g r else 0) + (if P k (f r) then g (f r) else 0)"
proof -
  have 1: "t_total (\<lambda>i r. P i (if i = k then f r else r)) g t = t_total (\<lambda>i r. P i r \<and> i \<noteq> k) g t
      + (if P k (f r) then g r else 0)"
  proof -
    have "t_total (\<lambda>i r. P i (if i = k then f r else r)) g t =
        t_total (\<lambda>i r. P i (if i = k then f r else r) \<and> i = k) g t + t_total (\<lambda>i r. P i (if i = k then f r else r) \<and> i \<noteq> k) g t"
      by (rule t_total_split)
    moreover have "t_total (\<lambda>i r. P i (if i = k then f r else r) \<and> i = k) g t = (if P k (f r) then g r else 0)"
      using t_total_at [OF assms(1), of "\<lambda>i r. P i (if i = k then f r else r)" k g] assms(2) by simp
    moreover have "t_total (\<lambda>i r. P i (if i = k then f r else r) \<and> i \<noteq> k) g t = t_total (\<lambda>i r. P i r \<and> i \<noteq> k) g t"
      by (rule t_total_cong) auto
    ultimately show ?thesis by simp
  qed
  have 2: "t_total (\<lambda>i r. i = k \<and> P i (f r)) (\<lambda>r. g (f r) - g r) t = (if P k (f r) then g (f r) - g r else 0)"
    using t_total_at [OF assms(1), of "\<lambda>i r. P i (f r)" k "\<lambda>r. g (f r) - g r"] assms(2) by (simp add: conj_commute)
  have 3: "t_total P g t = t_total (\<lambda>i r. P i r \<and> i \<noteq> k) g t + (if P k r then g r else 0)"
    using t_total_split [of P g t "\<lambda>i r. i = k"] t_total_at [OF assms(1), of P k g] assms(2) by simp
  show ?thesis unfolding t_total_update 1 2 3 by simp
qed

end
