(* ===== verification/Decimal.thy ===== *)
theory Decimal
  imports Prelude "HOL-Library.Multiset"
begin

text \<open>
  Exact decimal text: the JavaScript primitives \<open>shared/money.js\<close> and \<open>shared/quantity.js\<close>
  rest on (\<open>String.prototype.split\<close>, \<open>trim\<close>, \<open>padStart\<close>, the \<open>BigInt\<close> parser and
  printer) and the scaled conversion both files repeat, with its round trip. The locale
  \<open>fixed_point_codec\<close> is the contract every DECIMAL column type meets.
\<close>

section \<open>JavaScript string primitives\<close>

definition is_ws :: "char \<Rightarrow> bool" where
  "is_ws c \<longleftrightarrow> (of_char c :: nat) \<in> {9, 10, 11, 12, 13, 32, 160}"

definition js_trim :: "string \<Rightarrow> string" where
  "js_trim s = rev (dropWhile is_ws (rev (dropWhile is_ws s)))"

definition is_digit :: "char \<Rightarrow> bool" where
  "is_digit c \<longleftrightarrow> 48 \<le> (of_char c :: nat) \<and> (of_char c :: nat) \<le> 57"

definition digit_val :: "char \<Rightarrow> nat" where
  "digit_val c = (let n = of_char c :: nat in
     if 97 \<le> n then n - 87 else if 65 \<le> n then n - 55 else n - 48)"

definition digit_char :: "nat \<Rightarrow> char" where
  "digit_char d = char_of (48 + d)"

fun js_split :: "char \<Rightarrow> string \<Rightarrow> string list" where
  "js_split d [] = [[]]"
| "js_split d (c # cs) =
     (if c = d then [] # js_split d cs
      else (case js_split d cs of [] \<Rightarrow> [[c]] | p # ps \<Rightarrow> (c # p) # ps))"

definition pad_start :: "nat \<Rightarrow> char \<Rightarrow> string \<Rightarrow> string" where
  "pad_start k c s = replicate (k - length s) c @ s"

definition of_digits :: "nat \<Rightarrow> string \<Rightarrow> nat" where
  "of_digits b ds = foldl (\<lambda>a c. a * b + digit_val c) 0 ds"

text \<open>\<open>BigInt(text)\<close>: blank text is zero, a sign is for decimal literals only, and anything else is a \<open>SyntaxError\<close>.\<close>

definition is_radix_digit :: "nat \<Rightarrow> char \<Rightarrow> bool" where
  "is_radix_digit b c \<longleftrightarrow>
     (is_digit c \<or> (65 \<le> (of_char c :: nat) \<and> (of_char c :: nat) \<le> 70) \<or>
      (97 \<le> (of_char c :: nat) \<and> (of_char c :: nat) \<le> 102)) \<and> digit_val c < b"

definition radix_literal :: "nat \<Rightarrow> string \<Rightarrow> int option" where
  "radix_literal b ds =
     (if ds \<noteq> [] \<and> list_all (is_radix_digit b) ds then Some (int (of_digits b ds)) else None)"

definition decimal_literal :: "string \<Rightarrow> int option" where
  "decimal_literal ds =
     (if ds \<noteq> [] \<and> list_all is_digit ds then Some (int (of_digits 10 ds)) else None)"

definition js_BigInt :: "string \<Rightarrow> int option" where
  "js_BigInt s =
     (case js_trim s of
        [] \<Rightarrow> Some 0
      | c # cs \<Rightarrow>
          if c = CHR ''-'' then map_option uminus (decimal_literal cs)
          else if c = CHR ''+'' then decimal_literal cs
          else (case cs of
              x # ds \<Rightarrow>
                if c = CHR ''0'' \<and> (x = CHR ''x'' \<or> x = CHR ''X'') then radix_literal 16 ds
                else if c = CHR ''0'' \<and> (x = CHR ''o'' \<or> x = CHR ''O'') then radix_literal 8 ds
                else if c = CHR ''0'' \<and> (x = CHR ''b'' \<or> x = CHR ''B'') then radix_literal 2 ds
                else decimal_literal (c # cs)
            | [] \<Rightarrow> decimal_literal [c]))"

fun show_nat :: "nat \<Rightarrow> string" where
  "show_nat n = (if n < 10 then [digit_char n] else show_nat (n div 10) @ [digit_char (n mod 10)])"

declare show_nat.simps [simp del]

section \<open>The scaled conversion\<close>

text \<open>\<open>const [whole, fraction = ''] = text.split('.')\<close>\<close>

definition split_point :: "string \<Rightarrow> string \<times> string" where
  "split_point s = (case js_split CHR ''.'' s of
       [] \<Rightarrow> ([], []) | [w] \<Rightarrow> (w, []) | w # f # _ \<Rightarrow> (w, f))"

definition or_zero :: "string \<Rightarrow> string" where
  "or_zero s = (if s = [] then ''0'' else s)"

definition pad_fraction :: "nat \<Rightarrow> string \<Rightarrow> string" where
  "pad_fraction k f = take k (f @ replicate k CHR ''0'')"

definition to_scaled :: "nat \<Rightarrow> string \<Rightarrow> int option" where
  "to_scaled k s =
     (let (whole, fraction) = split_point s;
          negative = (take 1 whole = ''-'');
          whole_abs = (if negative then drop 1 whole else whole)
      in do {
        w \<leftarrow> js_BigInt (or_zero whole_abs);
        f \<leftarrow> js_BigInt (or_zero (pad_fraction k fraction));
        Some (if negative then - (w * 10 ^ k + f) else w * 10 ^ k + f)
      })"

definition from_scaled :: "nat \<Rightarrow> int \<Rightarrow> string" where
  "from_scaled k c =
     (let n = nat \<bar>c\<bar>
      in (if c < 0 then ''-'' else '''') @ show_nat (n div 10 ^ k) @ ''.'' @
         pad_start k CHR ''0'' (show_nat (n mod 10 ^ k)))"

text \<open>Everything a closed conversion unfolds to, for evaluation by \<open>simp\<close>.\<close>

lemmas decimal_eval = to_scaled_def from_scaled_def split_point_def js_BigInt_def js_trim_def is_ws_def
  or_zero_def pad_fraction_def decimal_literal_def radix_literal_def is_digit_def of_digits_def
  digit_val_def show_nat.simps pad_start_def digit_char_def

section \<open>Digits\<close>

lemma int_div_mod: "int (n div m) * int m + int (n mod m) = int n"
  by (metis div_mult_mod_eq of_nat_add of_nat_mult)

lemma of_char_digit [simp]: "d < 10 \<Longrightarrow> (of_char (digit_char d) :: nat) = 48 + d"
  by (simp add: digit_char_def)

lemma is_digit_digit_char [simp]: "d < 10 \<Longrightarrow> is_digit (digit_char d)"
  by (simp add: is_digit_def)

lemma digit_val_digit_char [simp]: "d < 10 \<Longrightarrow> digit_val (digit_char d) = d"
  by (simp add: digit_val_def)

lemma digit_not_special:
  "is_digit c \<Longrightarrow> \<not> is_ws c \<and> c \<noteq> CHR ''-'' \<and> c \<noteq> CHR ''+'' \<and> c \<noteq> CHR ''.'' \<and>
     c \<noteq> CHR ''x'' \<and> c \<noteq> CHR ''X'' \<and> c \<noteq> CHR ''o'' \<and> c \<noteq> CHR ''O'' \<and> c \<noteq> CHR ''b'' \<and> c \<noteq> CHR ''B''"
  by (auto simp: is_digit_def is_ws_def)

lemma digit_val_lt: "is_digit c \<Longrightarrow> digit_val c < 10"
  by (auto simp: is_digit_def digit_val_def)

lemma of_digits_append [simp]:
  "of_digits b (ds @ [c]) = of_digits b ds * b + digit_val c"
  by (simp add: of_digits_def)

lemma of_digits_zeros: "of_digits b (replicate k CHR ''0'' @ ds) = of_digits b ds"
  by (induction k) (simp_all add: of_digits_def digit_val_def)

lemma show_nat_digits: "list_all is_digit (show_nat n)"
  by (induction n rule: show_nat.induct) (subst show_nat.simps, simp)

lemma show_nat_nonempty [simp]: "show_nat n \<noteq> []"
  by (subst show_nat.simps) simp

lemma of_digits_show_nat [simp]: "of_digits 10 (show_nat n) = n"
proof (induction n rule: show_nat.induct)
  case (1 n)
  then show ?case
    by (subst show_nat.simps) (auto simp: of_digits_def [of _ "[_]"])
qed

lemma length_show_nat: "n < 10 ^ k \<Longrightarrow> 0 < k \<Longrightarrow> length (show_nat n) \<le> k"
proof (induction n arbitrary: k rule: show_nat.induct)
  case (1 n)
  show ?case
  proof (cases "n < 10")
    case True
    with "1.prems" show ?thesis by (subst show_nat.simps) simp
  next
    case False
    then obtain j where k: "k = Suc j" and j: "0 < j"
      using "1.prems" by (cases k; cases "k - 1") auto
    with "1.prems" have "n div 10 < 10 ^ j" by (simp add: less_mult_imp_div_less mult.commute)
    with "1.IH" [OF False this j] False k show ?thesis by (subst show_nat.simps) simp
  qed
qed

lemma js_trim_digits: "list_all is_digit ds \<Longrightarrow> js_trim ds = ds"
proof -
  assume ds: "list_all is_digit ds"
  have "dropWhile is_ws xs = xs" if "list_all is_digit xs" for xs
    using that by (cases xs) (auto dest: digit_not_special)
  moreover have "list_all is_digit (rev ds)" using ds by (simp add: list_all_iff)
  ultimately show ?thesis using ds by (simp add: js_trim_def)
qed

lemma js_BigInt_digits:
  assumes "list_all is_digit ds" and "ds \<noteq> []"
  shows "js_BigInt ds = Some (int (of_digits 10 ds))"
proof -
  obtain c cs where ds: "ds = c # cs" using assms(2) by (cases ds) auto
  have c: "is_digit c" and cs: "list_all is_digit cs" using assms(1) ds by auto
  have trim: "js_trim ds = c # cs" using js_trim_digits [OF assms(1)] ds by simp
  have lit: "decimal_literal (c # cs) = Some (int (of_digits 10 ds))"
    using assms ds by (simp add: decimal_literal_def)
  show ?thesis
  proof (cases cs)
    case Nil
    with trim lit digit_not_special [OF c] show ?thesis by (simp add: js_BigInt_def)
  next
    case (Cons x xs)
    with cs have "is_digit x" by simp
    with Cons trim lit digit_not_special [OF c] digit_not_special [OF \<open>is_digit x\<close>]
    show ?thesis by (simp add: js_BigInt_def)
  qed
qed

lemma js_split_first: "d \<notin> set w \<Longrightarrow> js_split d (w @ d # f) = w # js_split d f"
  by (induction w) auto

lemma js_split_none: "d \<notin> set w \<Longrightarrow> js_split d w = [w]"
  by (induction w) auto

lemma digits_no_char:
  "list_all is_digit ds \<Longrightarrow> \<not> is_digit c \<Longrightarrow> c \<notin> set ds"
  by (auto simp: list_all_iff)

lemma point_not_digit [simp]: "\<not> is_digit CHR ''.''" "\<not> is_digit CHR ''-''"
  by (simp_all add: is_digit_def)

lemma split_point_eq:
  "CHR ''.'' \<notin> set w \<Longrightarrow> CHR ''.'' \<notin> set f \<Longrightarrow> split_point (w @ ''.'' @ f) = (w, f)"
  by (simp add: split_point_def js_split_first js_split_none)

lemma pad_start_digits:
  "list_all is_digit s \<Longrightarrow> list_all is_digit (pad_start k CHR ''0'' s)"
  by (auto simp: pad_start_def is_digit_def list_all_iff)

lemma length_pad_start: "length s \<le> k \<Longrightarrow> length (pad_start k c s) = k"
  by (simp add: pad_start_def)

lemma of_digits_pad_start [simp]: "of_digits b (pad_start k CHR ''0'' s) = of_digits b s"
  by (simp add: pad_start_def of_digits_zeros)

text \<open>Text with \<open>k\<close> fraction digits reads as the integer its digits spell.\<close>

lemma to_scaled_digits:
  assumes w: "list_all is_digit w" "w \<noteq> []" and f: "list_all is_digit f" "length f = k" and k: "0 < k"
  shows "to_scaled k (w @ ''.'' @ f) = Some (int (of_digits 10 w) * 10 ^ k + int (of_digits 10 f))"
    and "to_scaled k (''-'' @ w @ ''.'' @ f) = Some (- (int (of_digits 10 w) * 10 ^ k + int (of_digits 10 f)))"
proof -
  have f0: "f \<noteq> []" using f(2) k by auto
  have nopt: "CHR ''.'' \<notin> set w" "CHR ''.'' \<notin> set f" 
    using digits_no_char [OF w(1) point_not_digit(1)] digits_no_char [OF f(1) point_not_digit(1)] by auto
  have hd: "take 1 w \<noteq> ''-''" using w by (cases w) (auto simp: is_digit_def)
  have "split_point (w @ ''.'' @ f) = (w, f)" using nopt by (rule split_point_eq)
  then show "to_scaled k (w @ ''.'' @ f) = Some (int (of_digits 10 w) * 10 ^ k + int (of_digits 10 f))"
    using w f f0 hd k by (simp add: to_scaled_def pad_fraction_def or_zero_def js_BigInt_digits)
  have "split_point ((''-'' @ w) @ ''.'' @ f) = (''-'' @ w, f)" using nopt by (intro split_point_eq) auto
  then show "to_scaled k (''-'' @ w @ ''.'' @ f) = Some (- (int (of_digits 10 w) * 10 ^ k + int (of_digits 10 f)))"
    using w f f0 k by (simp add: to_scaled_def pad_fraction_def or_zero_def js_BigInt_digits)
qed

theorem to_from_scaled: "0 < k \<Longrightarrow> to_scaled k (from_scaled k c) = Some c"
proof -
  assume k: "0 < k"
  define n where "n = nat \<bar>c\<bar>"
  let ?w = "show_nat (n div 10 ^ k)" and ?f = "pad_start k CHR ''0'' (show_nat (n mod 10 ^ k))"
  have "length (show_nat (n mod 10 ^ k)) \<le> k"
    using k by (intro length_show_nat) simp_all
  then have f: "list_all is_digit ?f" "length ?f = k"
    by (simp_all add: pad_start_digits show_nat_digits length_pad_start)
  note sc = to_scaled_digits [OF show_nat_digits [of "n div 10 ^ k"] show_nat_nonempty f k]
  have n: "int (n div 10 ^ k) * 10 ^ k + int (n mod 10 ^ k) = int n"
    using int_div_mod [of n "10 ^ k"] by simp
  show ?thesis
  proof (cases "c < 0")
    case True
    then have "from_scaled k c = ''-'' @ ?w @ ''.'' @ ?f"
      by (simp add: from_scaled_def Let_def n_def)
    with True sc(2) n show ?thesis by (simp add: n_def)
  next
    case False
    then have "from_scaled k c = ?w @ ''.'' @ ?f"
      by (simp add: from_scaled_def Let_def n_def)
    with False sc(1) n show ?thesis by (simp add: n_def)
  qed
qed

section \<open>The contract of a DECIMAL column\<close>

text \<open>
  A column type is a printer and a parser that agree. What its clients compute on column
  values (sums, differences, comparisons) then computes on the integers behind them.
\<close>

definition sum_values :: "(string \<Rightarrow> int option) \<Rightarrow> (int \<Rightarrow> string) \<Rightarrow> string list \<Rightarrow> string option" where
  "sum_values dec enc vs = map_option enc
     (foldl (\<lambda>acc v. do { t \<leftarrow> acc; x \<leftarrow> dec v; Some (t + x) }) (Some 0) vs)"

definition compare_values :: "(string \<Rightarrow> int option) \<Rightarrow> string \<Rightarrow> string \<Rightarrow> int option" where
  "compare_values dec a b = do { x \<leftarrow> dec a; y \<leftarrow> dec b;
     Some (if x - y < 0 then -1 else if x - y > 0 then 1 else 0) }"

definition negate_value :: "(string \<Rightarrow> int option) \<Rightarrow> (int \<Rightarrow> string) \<Rightarrow> string \<Rightarrow> string option" where
  "negate_value dec enc v = map_option (\<lambda>x. enc (- x)) (dec v)"

locale fixed_point_codec =
  fixes enc :: "int \<Rightarrow> string" and dec :: "string \<Rightarrow> int option"
  assumes dec_enc: "dec (enc c) = Some c"
begin

lemma enc_inj: "enc a = enc b \<longleftrightarrow> a = b"
  using dec_enc by (metis option.inject)

lemma sum_enc: "sum_values dec enc (map enc cs) = Some (enc (sum_list cs))"
proof -
  have "foldl (\<lambda>acc v. do { t \<leftarrow> acc; x \<leftarrow> dec v; Some (t + x) }) (Some a) (map enc cs) = Some (a + sum_list cs)" for a
    by (induction cs arbitrary: a) (simp_all add: dec_enc)
  then show ?thesis by (simp add: sum_values_def)
qed

lemma sum_enc_perm: "mset cs = mset ds \<Longrightarrow> sum_values dec enc (map enc cs) = sum_values dec enc (map enc ds)"
  by (simp add: sum_enc flip: sum_mset_sum_list)

lemma negate_enc: "negate_value dec enc (enc c) = Some (enc (- c))"
  by (simp add: negate_value_def dec_enc)

lemma compare_enc: "compare_values dec (enc a) (enc b) = Some (sgn (a - b))"
  by (auto simp: compare_values_def dec_enc sgn_if)

end

end
