(* ===== verification/Money.thy ===== *)
theory Money
  imports Decimal
begin

text \<open>
  \<open>shared/money.js\<close> and \<open>shared/quantity.js\<close>: money as text with 2 decimals, quantities as
  text with 3, every computation on the integers behind them. The string operations follow
  the files; beside each stands the same operation on cents, which the other theories use
  for the value of a DECIMAL(..,2) column, with a lemma that the two agree. A \<open>None\<close> is the
  \<open>SyntaxError\<close> the \<open>BigInt\<close> parser throws on text that is not a number.
\<close>

section \<open>Conversions\<close>

definition toCents :: "string \<Rightarrow> int option" where
  "toCents = to_scaled 2"

definition fromCents :: "int \<Rightarrow> string" where
  "fromCents = from_scaled 2"

definition toQtyUnits :: "string \<Rightarrow> int option" where
  "toQtyUnits = to_scaled 3"

definition fromQtyUnits :: "int \<Rightarrow> string" where
  "fromQtyUnits = from_scaled 3"

interpretation mny: fixed_point_codec fromCents toCents
  by unfold_locales (simp add: toCents_def fromCents_def to_from_scaled)

interpretation qty: fixed_point_codec fromQtyUnits toQtyUnits
  by unfold_locales (simp add: toQtyUnits_def fromQtyUnits_def to_from_scaled)

section \<open>Sums, signs, comparison\<close>

definition sumMoney :: "string list \<Rightarrow> string option" where
  "sumMoney = sum_values toCents fromCents"

definition negateMoney :: "string \<Rightarrow> string option" where
  "negateMoney = negate_value toCents fromCents"

definition compareMoney :: "string \<Rightarrow> string \<Rightarrow> int option" where
  "compareMoney = compare_values toCents"

definition sumQuantity :: "string list \<Rightarrow> string option" where
  "sumQuantity = sum_values toQtyUnits fromQtyUnits"

definition negateQuantity :: "string \<Rightarrow> string option" where
  "negateQuantity = negate_value toQtyUnits fromQtyUnits"

definition compareQuantity :: "string \<Rightarrow> string \<Rightarrow> int option" where
  "compareQuantity = compare_values toQtyUnits"

definition multiplyQuantityByInteger :: "string \<Rightarrow> int \<Rightarrow> string option" where
  "multiplyQuantityByInteger q n = map_option (\<lambda>u. fromQtyUnits (u * n)) (toQtyUnits q)"

section \<open>Rounding\<close>

text \<open>
  \<open>(abs * 2n + denominator) / (2n * denominator)\<close> with the sign put back: half-up on the
  magnitude. BigInt division truncates towards zero; both operands are non-negative here
  except in \<open>divideMoney\<close>, which divides the signed total.
\<close>

definition round_half_up :: "int \<Rightarrow> int \<Rightarrow> int" where
  "round_half_up num den =
     (let r = (\<bar>num\<bar> * 2 + den) sdiv (2 * den) in if num < 0 then - r else r)"

definition divide_cents :: "int \<Rightarrow> int \<Rightarrow> int" where
  "divide_cents amt n = (if n = 0 then 0 else (amt * 2 + n) sdiv (2 * n))"

definition divideMoney :: "string \<Rightarrow> int \<Rightarrow> string option" where
  "divideMoney amt n =
     (if n = 0 then Some ''0.00'' else map_option (\<lambda>t. fromCents (divide_cents t n)) (toCents amt))"

text \<open>A percentage is read at 4 decimals; the sign of its whole part does not reach its fraction.\<close>

definition rate_scaled :: "string \<Rightarrow> int option" where
  "rate_scaled s =
     (let (whole, fraction) = split_point s in do {
        w \<leftarrow> js_BigInt (or_zero whole);
        f \<leftarrow> js_BigInt (or_zero (pad_fraction 4 fraction));
        Some (w * 10000 + f) })"

definition percent_cents :: "int \<Rightarrow> int \<Rightarrow> int" where
  "percent_cents amount rate = round_half_up (amount * rate) (100 * 10000)"

definition percentOfMoney :: "string \<Rightarrow> string \<Rightarrow> string option" where
  "percentOfMoney amount rate =
     do { a \<leftarrow> toCents amount; r \<leftarrow> rate_scaled rate; Some (fromCents (percent_cents a r)) }"

definition inclusive_cents :: "int \<Rightarrow> int \<Rightarrow> int" where
  "inclusive_cents amt rate = round_half_up (amt * rate) (1000000 + rate)"

definition inclusiveTaxPortion :: "string \<Rightarrow> string \<Rightarrow> string option" where
  "inclusiveTaxPortion amt rate =
     do { t \<leftarrow> toCents amt; r \<leftarrow> rate_scaled rate;
          if 1000000 + r = 0 then None else Some (fromCents (inclusive_cents t r)) }"

definition extended_cost_cents :: "int \<Rightarrow> int \<Rightarrow> int" where
  "extended_cost_cents cost units = round_half_up (cost * units) 1000"

definition extendedCost :: "string \<Rightarrow> string \<Rightarrow> string option" where
  "extendedCost unitCost quantity =
     do { c \<leftarrow> toCents unitCost; q \<leftarrow> toQtyUnits quantity; Some (fromCents (extended_cost_cents c q)) }"

section \<open>The string operations compute on cents\<close>

lemma toCents_fromCents [simp]: "toCents (fromCents c) = Some c"
  by (rule mny.dec_enc)

lemma toQtyUnits_fromQtyUnits [simp]: "toQtyUnits (fromQtyUnits u) = Some u"
  by (rule qty.dec_enc)

lemma fromCents_0: "fromCents 0 = ''0.00''"
  by code_simp

lemma sumMoney_cents: "sumMoney (map fromCents cs) = Some (fromCents (sum_list cs))"
  unfolding sumMoney_def by (rule mny.sum_enc)

lemma negateMoney_cents: "negateMoney (fromCents c) = Some (fromCents (- c))"
  unfolding negateMoney_def by (rule mny.negate_enc)

lemma compareMoney_cents: "compareMoney (fromCents a) (fromCents b) = Some (sgn (a - b))"
  unfolding compareMoney_def by (rule mny.compare_enc)

lemma divideMoney_cents: "divideMoney (fromCents t) n = Some (fromCents (divide_cents t n))"
  by (simp add: divideMoney_def divide_cents_def fromCents_0)

lemma rate_scaled_from_scaled: "0 \<le> r \<Longrightarrow> rate_scaled (from_scaled 4 r) = Some r"
proof -
  assume r: "0 \<le> r"
  let ?n = "nat r"
  let ?w = "show_nat (?n div 10 ^ 4)" and ?f = "pad_start 4 CHR ''0'' (show_nat (?n mod 10 ^ 4))"
  have "length (show_nat (?n mod 10 ^ 4)) \<le> 4" by (intro length_show_nat) simp_all
  then have f: "list_all is_digit ?f" "length ?f = 4"
    by (simp_all add: pad_start_digits show_nat_digits length_pad_start)
  then have f0: "?f \<noteq> []" by auto
  have w: "list_all is_digit ?w" by (rule show_nat_digits)
  have "split_point (?w @ ''.'' @ ?f) = (?w, ?f)"
    using digits_no_char [OF w point_not_digit(1)] digits_no_char [OF f(1) point_not_digit(1)]
    by (rule split_point_eq)
  moreover have "from_scaled 4 r = ?w @ ''.'' @ ?f" using r by (simp add: from_scaled_def Let_def)
  moreover have "int (?n div 10000) * 10000 + int (?n mod 10000) = r"
    using r int_div_mod [of "nat r" 10000] by simp
  ultimately show ?thesis
    using js_BigInt_digits [OF w] js_BigInt_digits [OF f(1) f0] f f0
    by (simp add: rate_scaled_def or_zero_def pad_fraction_def)
qed

lemma percentOfMoney_cents:
  "0 \<le> r \<Longrightarrow> percentOfMoney (fromCents a) (from_scaled 4 r) = Some (fromCents (percent_cents a r))"
  by (simp add: percentOfMoney_def rate_scaled_from_scaled)

lemma inclusiveTaxPortion_cents:
  "0 \<le> r \<Longrightarrow> inclusiveTaxPortion (fromCents a) (from_scaled 4 r) = Some (fromCents (inclusive_cents a r))"
  by (simp add: inclusiveTaxPortion_def rate_scaled_from_scaled)

lemma extendedCost_cents:
  "extendedCost (fromCents c) (fromQtyUnits q) = Some (fromCents (extended_cost_cents c q))"
  by (simp add: extendedCost_def)

section \<open>Rounding is to the nearest cent\<close>

lemma sdiv_nonneg: "0 \<le> a \<Longrightarrow> 0 < b \<Longrightarrow> a sdiv b = (a div b :: int)"
  by (cases "a = 0") (simp_all add: signed_divide_int_def)

lemma round_half_up_nonneg:
  assumes "0 \<le> num" and "0 < den"
  shows "round_half_up num den = (num * 2 + den) div (2 * den)"
  using assms by (simp add: round_half_up_def Let_def sdiv_nonneg)

lemma round_half_up_minus: "round_half_up (- num) den = - round_half_up num den" if "0 < den"
  using that by (cases "num = 0") (auto simp: round_half_up_def Let_def sdiv_nonneg)

lemma round_half_up_bounds_nonneg:
  assumes "0 \<le> num" and "0 < den"
  shows "2 * num - den < 2 * (round_half_up num den * den)"
    and "2 * (round_half_up num den * den) \<le> 2 * num + den"
    and "0 \<le> round_half_up num den"
proof -
  let ?r = "round_half_up num den"
  have r: "?r = (num * 2 + den) div (2 * den)" using assms by (rule round_half_up_nonneg)
  have "(num * 2 + den) = 2 * den * ?r + (num * 2 + den) mod (2 * den)"
    unfolding r by (simp only: mult_div_mod_eq)
  moreover have "0 \<le> (num * 2 + den) mod (2 * den)" "(num * 2 + den) mod (2 * den) < 2 * den"
    using assms by simp_all
  ultimately show "2 * num - den < 2 * (?r * den)" "2 * (?r * den) \<le> 2 * num + den"
    by (simp_all add: mult.commute mult.left_commute)
  show "0 \<le> ?r" unfolding r using assms by (simp add: pos_imp_zdiv_nonneg_iff)
qed

lemma round_half_up_error:
  assumes "0 < den"
  shows "2 * \<bar>round_half_up num den * den - num\<bar> \<le> den"
proof (cases "0 \<le> num")
  case True
  from round_half_up_bounds_nonneg [OF True assms] show ?thesis by (auto simp: abs_if)
next
  case False
  then have "0 \<le> - num" by simp
  from round_half_up_bounds_nonneg [OF this assms] show ?thesis
    unfolding round_half_up_minus [OF assms] by (auto simp: abs_if)
qed

text \<open>A rounding that agrees with an integer candidate to within half a unit, strictly, is that integer.\<close>

lemma round_half_up_exact:
  assumes "0 < den" shows "round_half_up (q * den) den = q"
proof -
  have "2 * \<bar>round_half_up (q * den) den * den - q * den\<bar> \<le> den"
    using assms by (rule round_half_up_error)
  then have "2 * \<bar>(round_half_up (q * den) den - q) * den\<bar> \<le> den"
    by (simp add: algebra_simps)
  then have "2 * \<bar>round_half_up (q * den) den - q\<bar> * den \<le> 1 * den"
    using assms by (simp add: abs_mult)
  then have "2 * \<bar>round_half_up (q * den) den - q\<bar> \<le> 1"
    unfolding mult_le_cancel_right using assms by auto
  then have "\<bar>round_half_up (q * den) den - q\<bar> = 0" by arith
  then show ?thesis by simp
qed

lemma round_half_up_mono_nonneg:
  assumes "0 \<le> a" "a \<le> b" "0 < den"
  shows "round_half_up a den \<le> round_half_up b den"
  using assms by (simp add: round_half_up_nonneg zdiv_mono1)

lemma percent_cents_error: "2 * \<bar>percent_cents a r * 1000000 - a * r\<bar> \<le> 1000000"
  using round_half_up_error [of "100 * 10000" "a * r"] by (simp add: percent_cents_def)

lemma percent_cents_0 [simp]: "percent_cents 0 r = 0" "percent_cents a 0 = 0"
  using round_half_up_exact [of "100 * 10000" 0] by (simp_all add: percent_cents_def)

lemma percent_cents_minus: "percent_cents (- a) r = - percent_cents a r"
  by (simp add: percent_cents_def round_half_up_minus)

lemma percent_cents_nonneg: "0 \<le> a \<Longrightarrow> 0 \<le> r \<Longrightarrow> 0 \<le> percent_cents a r"
  by (simp add: percent_cents_def round_half_up_bounds_nonneg(3))

lemma percent_cents_le:
  assumes "0 \<le> a" "0 \<le> r" "r \<le> 1000000"
  shows "percent_cents a r \<le> a"
proof -
  have "percent_cents a r \<le> round_half_up (a * 1000000) 1000000"
    unfolding percent_cents_def using assms
    by (simp add: round_half_up_mono_nonneg mult_left_mono)
  then show ?thesis by (simp add: round_half_up_exact)
qed

lemma inclusive_cents_bounds:
  assumes "0 \<le> t" "0 \<le> r"
  shows "0 \<le> inclusive_cents t r" and "inclusive_cents t r \<le> t"
proof -
  show "0 \<le> inclusive_cents t r"
    using assms by (simp add: inclusive_cents_def round_half_up_bounds_nonneg(3))
  have "inclusive_cents t r \<le> round_half_up (t * (1000000 + r)) (1000000 + r)"
    unfolding inclusive_cents_def using assms
    by (intro round_half_up_mono_nonneg) (auto simp: algebra_simps)
  then show "inclusive_cents t r \<le> t" using assms by (simp add: round_half_up_exact)
qed

text \<open>
  Taking the tax out of an inclusive price and charging it again on the net gives the price
  back to within one cent, for any rate up to 100%.
\<close>

lemma inclusive_then_percent:
  assumes "0 \<le> t" "0 \<le> r" "r \<le> 1000000"
  shows "\<bar>(t - inclusive_cents t r) + percent_cents (t - inclusive_cents t r) r - t\<bar> \<le> 1"
proof -
  let ?x = "inclusive_cents t r" and ?p = "percent_cents (t - inclusive_cents t r) r"
  have e1: "2 * \<bar>?x * (1000000 + r) - t * r\<bar> \<le> 1000000 + r"
    unfolding inclusive_cents_def using assms by (intro round_half_up_error) simp
  have e2: "2 * \<bar>?p * 1000000 - (t - ?x) * r\<bar> \<le> 1000000" by (rule percent_cents_error)
  define a where "a = ?p * 1000000 - (t - ?x) * r"
  define b where "b = ?x * (1000000 + r) - t * r"
  define z where "z = ?p - ?x"
  have "z * 1000000 = a - b" by (simp add: a_def b_def z_def algebra_simps)
  then have "\<bar>a - b\<bar> = \<bar>z\<bar> * 1000000" by (metis abs_mult abs_numeral)
  moreover have ab: "\<bar>a\<bar> \<le> 500000" "\<bar>b\<bar> \<le> 1000000"
    using e1 e2 assms(3) by (simp_all add: a_def b_def)
  ultimately have "\<bar>z\<bar> * 1000000 \<le> 1500000"
    using order_trans [OF abs_triangle_ineq4 add_mono [OF ab]] by simp
  then have "\<bar>z\<bar> \<le> 1" by simp
  then have "\<bar>?p - ?x\<bar> \<le> 1" by (simp add: z_def)
  then show ?thesis by simp
qed

section \<open>Properties\<close>


text \<open>
  \<open>percentOfMoney\<close> rounds to the nearest cent: the printed amount is within half a cent
  of \<open>amount * rate / 100\<close>, never negative for a charge, and never above the charge for a
  rate of at most 100%.
\<close>

theorem percent_of_money_half_up:
  assumes "0 \<le> rate"
  shows "\<exists>p. percentOfMoney (fromCents amount) (from_scaled 4 rate) = Some (fromCents p)
     \<and> 2 * \<bar>p * 1000000 - amount * rate\<bar> \<le> 1000000
     \<and> (0 \<le> amount \<longrightarrow> 0 \<le> p) \<and> (0 \<le> amount \<and> rate \<le> 1000000 \<longrightarrow> p \<le> amount)"
  using assms percentOfMoney_cents [OF assms, of amount] percent_cents_error [of amount rate]
  by (auto intro: percent_cents_nonneg percent_cents_le)

theorem percent_of_money_half_up_witness:
  "\<exists>p. percentOfMoney (fromCents 1050) (from_scaled 4 75000) = Some (fromCents p) \<and> p = 79"
proof -
  obtain p where "percentOfMoney (fromCents 1050) (from_scaled 4 75000) = Some (fromCents p)"
    and "2 * \<bar>p * 1000000 - 1050 * 75000\<bar> \<le> 1000000"
    using percent_of_money_half_up [of 75000 1050] by auto
  moreover have "percent_cents 1050 75000 = 79"
    by (simp add: percent_cents_def round_half_up_nonneg)
  ultimately show ?thesis
    using percentOfMoney_cents [of 75000 1050] by (auto simp: mny.enc_inj)
qed

end
