(* ===== verification/Validation.thy ===== *)
theory Validation
  imports Money
begin

text \<open>
  The amount checks every money request passes: \<open>shared/payment-amount.js\<close>,
  \<open>shared/tip-amount.js\<close>, \<open>shared/discount-input.js\<close>, \<open>shared/service-charge.js\<close> and
  \<open>shared/outlet-types.js\<close>. The ceilings come from the environment, which is a parameter.
  The lemmas say exactly which text is accepted, and that accepted text never makes a later
  conversion throw.
\<close>

section \<open>The pattern\<close>

text \<open>\<open>/^\d+(\.\d{1,2})?$/\<close>\<close>

definition is_amount_text :: "string \<Rightarrow> bool" where
  "is_amount_text s =
     (let whole = takeWhile is_digit s; rest = dropWhile is_digit s in
      whole \<noteq> [] \<and>
      (case rest of [] \<Rightarrow> True
       | c # f \<Rightarrow> c = CHR ''.'' \<and> list_all is_digit f \<and> (length f = 1 \<or> length f = 2)))"

text \<open>\<open>typeof v === 'string' || typeof v === 'number' ? String(v).trim() : ''\<close>\<close>

definition text_or_number :: "js_value \<Rightarrow> string" where
  "text_or_number v = (case v of JStr s \<Rightarrow> js_trim s | JNum s \<Rightarrow> js_trim s | _ \<Rightarrow> [])"

definition text_only :: "js_value \<Rightarrow> string" where
  "text_only v = (case v of JStr s \<Rightarrow> js_trim s | _ \<Rightarrow> [])"

definition cents_of :: "string \<Rightarrow> int" where
  "cents_of s = (case toCents s of Some c \<Rightarrow> c | None \<Rightarrow> 0)"

text \<open>A ceiling from the environment; a garbage or zero value falls back to the default.\<close>

definition env_ceiling :: "string \<Rightarrow> string option \<Rightarrow> string" where
  "env_ceiling dflt raw = (case raw of None \<Rightarrow> dflt
     | Some r \<Rightarrow> if is_amount_text (js_trim r) \<and> cents_of (js_trim r) > 0 then js_trim r else dflt)"

section \<open>Payments and adjustments\<close>

definition maxPaymentAmount :: "string option \<Rightarrow> string" where
  "maxPaymentAmount env = env_ceiling ''10000000.00'' env"

definition assertPaymentAmount :: "string option \<Rightarrow> js_value \<Rightarrow> string result" where
  "assertPaymentAmount env amount =
     (let text = text_or_number amount in
      if \<not> is_amount_text text then Inl (ValidationFieldError ''INVALID_AMOUNT'' ''amount'' ''invalid'')
      else if cents_of text \<le> 0 then Inl (ValidationFieldError ''INVALID_AMOUNT'' ''amount'' ''not_positive'')
      else if cents_of text > cents_of (maxPaymentAmount env)
        then Inl (ValidationFieldError ''INVALID_AMOUNT'' ''amount'' ''too_large'')
      else Inr text)"

definition drop_minus :: "string \<Rightarrow> string" where
  "drop_minus s = (if take 1 s = ''-'' then drop 1 s else s)"

definition assertAdjustmentAmount :: "string option \<Rightarrow> js_value \<Rightarrow> string result" where
  "assertAdjustmentAmount env amount =
     (let text = text_or_number amount; magnitude = drop_minus text in
      if \<not> is_amount_text magnitude then Inl (ValidationFieldError ''INVALID_AMOUNT'' ''amount'' ''invalid'')
      else if cents_of magnitude = 0 then Inl (ValidationFieldError ''INVALID_AMOUNT'' ''amount'' ''zero'')
      else if cents_of magnitude > cents_of (maxPaymentAmount env)
        then Inl (ValidationFieldError ''INVALID_AMOUNT'' ''amount'' ''too_large'')
      else Inr text)"

section \<open>Tips\<close>

definition maxTipAmount :: "string option \<Rightarrow> string" where
  "maxTipAmount env = env_ceiling ''1000000.00'' env"

definition assertTipAmount :: "string option \<Rightarrow> js_value \<Rightarrow> string result" where
  "assertTipAmount env tip =
     (if tip = JUndefined \<or> tip = JNull then Inr ''0.00''
      else let text = text_only tip in
        if \<not> is_amount_text text then Inl (ValidationFieldError ''INVALID_TIP'' ''tip_amount'' ''invalid'')
        else if cents_of text > cents_of (maxTipAmount env)
          then Inl (ValidationFieldError ''INVALID_TIP'' ''tip_amount'' ''too_large'')
        else Inr text)"

section \<open>Discounts\<close>

definition maxDiscountAmount :: "string option \<Rightarrow> string" where
  "maxDiscountAmount env = env_ceiling ''1000000.00'' env"

record discount_input =
  di_scope :: string
  di_type :: string
  di_value :: string

definition assertDiscountInput :: "string option \<Rightarrow> js_value \<Rightarrow> js_value \<Rightarrow> js_value \<Rightarrow> discount_input result" where
  "assertDiscountInput env scope type v =
     (if scope \<noteq> JStr ''order'' \<and> scope \<noteq> JStr ''line''
        then Inl (ValidationFieldError ''INVALID_DISCOUNT'' ''scope'' ''invalid'')
      else if type \<noteq> JStr ''percent'' \<and> type \<noteq> JStr ''fixed''
        then Inl (ValidationFieldError ''INVALID_DISCOUNT'' ''type'' ''invalid'')
      else let text = text_only v in
        if \<not> is_amount_text text then Inl (ValidationFieldError ''INVALID_DISCOUNT'' ''value'' ''invalid'')
        else if cents_of text \<le> 0 then Inl (ValidationFieldError ''INVALID_DISCOUNT'' ''value'' ''not_positive'')
        else if type = JStr ''percent'' \<and> cents_of text > 10000
          then Inl (ValidationFieldError ''INVALID_DISCOUNT'' ''value'' ''too_large'')
        else if type = JStr ''fixed'' \<and> cents_of text > cents_of (maxDiscountAmount env)
          then Inl (ValidationFieldError ''INVALID_DISCOUNT'' ''value'' ''too_large'')
        else Inr \<lparr>di_scope = (case scope of JStr s \<Rightarrow> s | _ \<Rightarrow> []),
                  di_type = (case type of JStr t \<Rightarrow> t | _ \<Rightarrow> []), di_value = text\<rparr>)"

section \<open>Outlets and the service charge\<close>

record outlet =
  o_type :: string
  o_status :: string
  o_service_charge_percent :: "string option"
  o_qr_service_charge_mode :: string

definition isSupermarketOutlet :: "outlet option \<Rightarrow> bool" where
  "isSupermarketOutlet ot = (case ot of None \<Rightarrow> False | Some x \<Rightarrow> o_type x = ''supermarket'')"

definition taxChargeTypeForOutlet :: "outlet option \<Rightarrow> string" where
  "taxChargeTypeForOutlet ot = (if isSupermarketOutlet ot then ''supermarket_sale'' else ''pos_charge'')"

definition isPointOfSaleOutlet :: "outlet option \<Rightarrow> bool" where
  "isPointOfSaleOutlet ot = (case ot of None \<Rightarrow> False | Some x \<Rightarrow> o_type x \<noteq> ''store'')"

definition isRegisterOutlet :: "outlet option \<Rightarrow> bool" where
  "isRegisterOutlet ot = (isPointOfSaleOutlet ot \<and> \<not> isSupermarketOutlet ot)"

definition isHotelSellingOutlet :: "outlet option \<Rightarrow> bool" where
  "isHotelSellingOutlet ot = (case ot of None \<Rightarrow> False
     | Some x \<Rightarrow> o_status x = ''active'' \<and> isPointOfSaleOutlet ot \<and> \<not> isSupermarketOutlet ot)"

definition serviceChargeApplies :: "outlet option \<Rightarrow> bool" where
  "serviceChargeApplies ot = (case ot of None \<Rightarrow> False
     | Some x \<Rightarrow> \<not> isSupermarketOutlet ot \<and> o_type x \<noteq> ''store'')"

definition stored_percent :: "outlet option \<Rightarrow> string" where
  "stored_percent ot = (case ot of None \<Rightarrow> ''7.50''
     | Some x \<Rightarrow> (case o_service_charge_percent x of None \<Rightarrow> ''7.50'' | Some p \<Rightarrow> p))"

definition registerServiceChargePercent :: "outlet option \<Rightarrow> string" where
  "registerServiceChargePercent ot = (if serviceChargeApplies ot then stored_percent ot else ''0'')"

definition qrServiceChargePercent :: "outlet option \<Rightarrow> string option" where
  "qrServiceChargePercent ot =
     (if \<not> serviceChargeApplies ot \<or> map_option o_qr_service_charge_mode ot \<noteq> Some ''charge''
      then None else Some (stored_percent ot))"

text \<open>\<open>/^\d{1,2}(\.\d{1,2})?$/\<close>\<close>

definition is_percent_text :: "string \<Rightarrow> bool" where
  "is_percent_text s \<longleftrightarrow> is_amount_text s \<and> length (takeWhile is_digit s) \<le> 2"

definition parseServiceChargePercent :: "js_value \<Rightarrow> string result" where
  "parseServiceChargePercent v =
     (let text = text_or_number v; (whole, fraction) = split_point text;
          hundredths = int (of_digits 10 whole) * 100 + int (of_digits 10 (pad_fraction 2 fraction)) in
      if \<not> is_percent_text text
        then Inl (ValidationFieldError ''INVALID_SERVICE_CHARGE_PERCENT'' ''service_charge_percent'' ''invalid'')
      else if hundredths > 30 * 100
        then Inl (ValidationFieldError ''INVALID_SERVICE_CHARGE_PERCENT'' ''service_charge_percent'' ''too_large'')
      else Inr (whole @ ''.'' @ pad_fraction 2 fraction))"

definition parseQrMode :: "js_value \<Rightarrow> string result" where
  "parseQrMode v =
     (if v = JStr ''charge'' \<or> v = JStr ''none'' then Inr (case v of JStr s \<Rightarrow> s | _ \<Rightarrow> [])
      else Inl (ValidationFieldError ''INVALID_QR_SERVICE_CHARGE_MODE'' ''qr_service_charge_mode'' ''invalid''))"

section \<open>What amount text denotes\<close>

lemma is_amount_textE:
  assumes "is_amount_text s"
  obtains w f where "list_all is_digit w" "w \<noteq> []" "list_all is_digit f" "length f \<le> 2"
    "s = w @ (if f = [] then [] else CHR ''.'' # f)"
proof -
  let ?w = "takeWhile is_digit s" and ?r = "dropWhile is_digit s"
  have s: "s = ?w @ ?r" by simp
  have w: "list_all is_digit ?w" by (auto simp: list_all_iff dest: set_takeWhileD)
  from assms have w0: "?w \<noteq> []"
    and r: "?r = [] \<or> (\<exists>f. ?r = CHR ''.'' # f \<and> list_all is_digit f \<and> (length f = 1 \<or> length f = 2))"
    by (auto simp: is_amount_text_def Let_def split: list.splits)
  from r show thesis
  proof
    assume "?r = []"
    with s w w0 that [of ?w "[]"] show thesis by simp
  next
    assume "\<exists>f. ?r = CHR ''.'' # f \<and> list_all is_digit f \<and> (length f = 1 \<or> length f = 2)"
    then obtain f where f: "?r = CHR ''.'' # f" "list_all is_digit f" "length f = 1 \<or> length f = 2" by blast
    then have "f \<noteq> []" by auto
    moreover have "s = ?w @ (if f = [] then [] else CHR ''.'' # f)"
      using f(1) \<open>f \<noteq> []\<close> takeWhile_dropWhile_id [of is_digit s] by simp
    ultimately show thesis using that [OF w w0 f(2)] f(3) by auto
  qed
qed

lemma is_amount_textI:
  assumes "list_all is_digit w" "w \<noteq> []" "list_all is_digit f" "length f \<le> 2"
  shows "is_amount_text (w @ (if f = [] then [] else CHR ''.'' # f))"
proof -
  have tw: "takeWhile is_digit (w @ r) = w \<and> dropWhile is_digit (w @ r) = r"
    if "r = [] \<or> hd r = CHR ''.''" for r
    using assms(1) that by (cases r) (auto simp: list_all_iff takeWhile_append dropWhile_append)
  have "f \<noteq> [] \<Longrightarrow> length f = 1 \<or> length f = 2"
    using assms(4) by (cases f; cases "tl f") auto
  with assms tw [of "if f = [] then [] else CHR ''.'' # f"] show ?thesis
    by (auto simp: is_amount_text_def)
qed

lemma of_digits_append_zeros: "of_digits b (ds @ replicate k CHR ''0'') = of_digits b ds * b ^ k"
proof (induction k)
  case (Suc k)
  have "ds @ replicate (Suc k) CHR ''0'' = (ds @ replicate k CHR ''0'') @ [CHR ''0'']"
    by (simp add: replicate_append_same)
  with Suc show ?case by (simp only: of_digits_append) (simp add: digit_val_def)
qed simp

text \<open>An accepted amount converts: it is never negative and never a \<open>SyntaxError\<close>.\<close>

lemma toCents_amount_text:
  assumes "is_amount_text s"
  shows "\<exists>c. toCents s = Some c \<and> 0 \<le> c"
proof -
  from assms obtain w f where w: "list_all is_digit w" "w \<noteq> []"
    and f: "list_all is_digit f" "length f \<le> 2"
    and s: "s = w @ (if f = [] then [] else CHR ''.'' # f)" by (rule is_amount_textE)
  let ?p = "f @ replicate (2 - length f) CHR ''0''"
  have nodot: "CHR ''.'' \<notin> set w" "CHR ''.'' \<notin> set f"
    using digits_no_char [OF w(1) point_not_digit(1)] digits_no_char [OF f(1) point_not_digit(1)] .
  have split: "split_point s = (w, f)"
    using nodot s by (simp add: split_point_def js_split_none js_split_first)
  have p: "pad_fraction 2 f = ?p" using f(2) by (simp add: pad_fraction_def)
  have pd: "list_all is_digit ?p" "?p \<noteq> []"
    using f by (auto simp: list_all_iff is_digit_def)
  have hd: "take 1 w \<noteq> ''-''" using w by (cases w) (auto simp: is_digit_def)
  show ?thesis
    using w hd pd(2) js_BigInt_digits [OF w] js_BigInt_digits [OF pd]
    by (simp add: toCents_def to_scaled_def split p or_zero_def del: append_is_Nil_conv)
qed

lemma cents_of_nonneg: "is_amount_text s \<Longrightarrow> 0 \<le> cents_of s"
  using toCents_amount_text by (fastforce simp: cents_of_def)

lemma cents_of_toCents: "is_amount_text s \<Longrightarrow> toCents s = Some (cents_of s)"
  using toCents_amount_text by (fastforce simp: cents_of_def)

lemma cents_of_fromCents [simp]: "cents_of (fromCents c) = c"
  by (simp add: cents_of_def)

lemma env_ceiling_pos: "0 < cents_of dflt \<Longrightarrow> 0 < cents_of (env_ceiling dflt raw)"
  by (simp add: env_ceiling_def split: option.splits)

section \<open>Properties\<close>

text \<open>
  A payment amount is accepted exactly when its trimmed text is plain decimal digits with
  at most two decimals, worth more than zero and at most the ceiling; what is returned is that
  text, and converting it to cents cannot throw. Signs, exponents, NaN and separators are refused.
\<close>

theorem assert_payment_amount_iff:
  "assertPaymentAmount env v = Inr t \<longleftrightarrow>
     t = text_or_number v \<and> is_amount_text t \<and>
     (\<exists>c. toCents t = Some c \<and> 0 < c \<and> c \<le> cents_of (maxPaymentAmount env))"
proof (cases "is_amount_text (text_or_number v)")
  case True
  then show ?thesis
    using cents_of_toCents [OF True] by (auto simp: assertPaymentAmount_def Let_def split: if_splits)
next
  case False
  then show ?thesis by (auto simp: assertPaymentAmount_def Let_def)
qed

text \<open>
  A tip is never negative and never above the ceiling, whatever the request carries: the
  text the check returns is worth between zero and \<open>MAX_TIP_AMOUNT\<close>, and a missing tip is worth zero.
\<close>

theorem assert_tip_bounds:
  assumes "assertTipAmount env tip = Inr t"
  shows "\<exists>c. toCents t = Some c \<and> 0 \<le> c \<and> c \<le> cents_of (maxTipAmount env)"
proof -
  have pos: "0 < cents_of (maxTipAmount env)"
    unfolding maxTipAmount_def
    by (rule env_ceiling_pos) (simp add: cents_of_def toCents_def decimal_eval)
  have zero: "toCents ''0.00'' = Some 0" using toCents_fromCents [of 0] by (simp add: fromCents_0)
  show ?thesis
  proof (cases "tip = JUndefined \<or> tip = JNull")
    case True
    with assms pos zero show ?thesis by (simp add: assertTipAmount_def)
  next
    case False
    with assms have "is_amount_text t" "cents_of t \<le> cents_of (maxTipAmount env)"
      by (auto simp: assertTipAmount_def Let_def split: if_splits)
    then show ?thesis using cents_of_nonneg cents_of_toCents by blast
  qed
qed

theorem assert_tip_bounds_witness:
  "\<exists>c. toCents ''2.5'' = Some c \<and> 0 \<le> c \<and> c \<le> cents_of (maxTipAmount None)"
proof -
  have "assertTipAmount None (JStr '' 2.5 '') = Inr ''2.5''"
    by (simp add: assertTipAmount_def text_only_def is_amount_text_def maxTipAmount_def env_ceiling_def
        cents_of_def toCents_def decimal_eval)
  then show ?thesis by (rule assert_tip_bounds)
qed

end
