(* ===== verification/Allocation.thy ===== *)
theory Allocation
  imports Money "HOL-Library.Product_Lexorder"
begin

text \<open>
  \<open>shared/line-allocation.js\<close>: splitting a total over weighted lines by largest remainder.
  The model follows the code line by line (the truncated shares, the order of the fractional
  parts, the loop that hands out the leftover cents); the lemmas give the closed form of that
  loop, and from it that the parts add up to the total and never exceed their weights.
\<close>

section \<open>The code\<close>

text \<open>\<open>for (let k = 0; remainder > 0n; k = (k + 1) % order.length)\<close>\<close>

fun hand_out :: "nat list \<Rightarrow> nat \<Rightarrow> nat \<Rightarrow> int list \<Rightarrow> int list" where
  "hand_out order k 0 out = out"
| "hand_out order k (Suc r) out =
     hand_out order (Suc k mod length order) r (out[order ! k := out ! (order ! k) + 1])"

definition frac_part :: "int \<Rightarrow> int list \<Rightarrow> nat \<Rightarrow> int" where
  "frac_part amt ws i = (amt * ws ! i) smod sum_list ws"

definition frac_order :: "int \<Rightarrow> int list \<Rightarrow> nat list" where
  "frac_order amt ws = sort_key (\<lambda>i. (- frac_part amt ws i, i)) [0..<length ws]"

definition base_shares :: "int \<Rightarrow> int list \<Rightarrow> int list" where
  "base_shares amt ws = map (\<lambda>w. (amt * w) sdiv sum_list ws) ws"

definition allocateCents :: "int \<Rightarrow> int list \<Rightarrow> int list" where
  "allocateCents amt ws =
     (if ws = [] then []
      else if sum_list ws = 0 then amt # replicate (length ws - 1) 0
      else let base = base_shares amt ws; remainder = amt - sum_list base
           in hand_out (frac_order amt ws) 0 (nat remainder) base)"

definition allocateLineNetAndTax :: "int list \<Rightarrow> int \<Rightarrow> int \<Rightarrow> (int \<times> int) list" where
  "allocateLineNetAndTax weights subtotal taxAmount =
     (let gross = sum_list weights; nets = allocateCents subtotal weights
      in if subtotal + taxAmount = gross
         then map (\<lambda>i. (nets ! i, weights ! i - nets ! i)) [0..<length weights]
         else let taxes = allocateCents taxAmount weights
              in map (\<lambda>i. (nets ! i, taxes ! i)) [0..<length weights])"

section \<open>The loop in closed form\<close>

lemma length_hand_out [simp]: "length (hand_out order k r out) = length out"
  by (induction order k r out rule: hand_out.induct) auto

lemma hand_out_nth:
  assumes "distinct order" "set order \<subseteq> {..<length out}" "k + r \<le> length order" "i < length out"
  shows "hand_out order k r out ! i = out ! i + (if i \<in> set (take r (drop k order)) then 1 else 0)"
  using assms
proof (induction r arbitrary: k out)
  case 0
  then show ?case by simp
next
  case (Suc r)
  let ?j = "order ! k" and ?out = "out[order ! k := out ! (order ! k) + 1]"
  have k: "k < length order" using Suc.prems by simp
  then have j: "?j < length out" using Suc.prems(2) nth_mem by blast
  have drop: "drop k order = ?j # drop (Suc k) order" using k by (simp add: Cons_nth_drop_Suc)
  have notin: "?j \<notin> set (take r (drop (Suc k) order))"
    using Suc.prems(1) drop by (metis distinct.simps(2) distinct_drop in_set_takeD)
  show ?case
  proof (cases "r = 0")
    case True
    then show ?thesis using j drop Suc.prems(4) by (auto simp: nth_list_update)
  next
    case False
    with Suc.prems(3) have "Suc k < length order" by simp
    then have "Suc k mod length order = Suc k" by simp
    moreover have "hand_out order (Suc k) r ?out ! i =
        ?out ! i + (if i \<in> set (take r (drop (Suc k) order)) then 1 else 0)"
      using Suc.prems by (intro Suc.IH) auto
    ultimately show ?thesis using j drop notin Suc.prems(4) by (auto simp: nth_list_update)
  qed
qed

lemma list_update_sum: "i < length xs \<Longrightarrow> sum_list (xs[i := x]) = sum_list xs - xs ! i + (x :: int)"
  by (induction xs arbitrary: i) (auto split: nat.splits)

lemma sum_list_hand_out:
  assumes "set order \<subseteq> {..<length out}" "order \<noteq> []" "k < length order"
  shows "sum_list (hand_out order k r out) = sum_list out + int r"
  using assms
proof (induction r arbitrary: k out)
  case (Suc r)
  have "order ! k < length out" using Suc.prems nth_mem by blast
  then have "sum_list (out[order ! k := out ! (order ! k) + 1]) = sum_list out + 1"
    by (simp add: list_update_sum)
  with Suc show ?case by simp
qed simp

lemma frac_order_props [simp]:
  "set (frac_order amt ws) = {..<length ws}"
  "distinct (frac_order amt ws)"
  "length (frac_order amt ws) = length ws"
  by (auto simp: frac_order_def)

lemma frac_order_nonempty [simp]: "frac_order amt ws = [] \<longleftrightarrow> ws = []"
  by (metis frac_order_props(3) length_0_conv)

lemma frac_order_descending:
  assumes "j \<le> k" "k < length ws"
  shows "frac_part amt ws (frac_order amt ws ! k) \<le> frac_part amt ws (frac_order amt ws ! j)"
proof -
  let ?key = "\<lambda>i. (- frac_part amt ws i, i)"
  have "sorted (map ?key (frac_order amt ws))" by (simp add: frac_order_def)
  with assms have "?key (frac_order amt ws ! j) \<le> ?key (frac_order amt ws ! k)"
    by (simp add: sorted_iff_nth_mono)
  then show ?thesis by (auto simp: less_eq_prod_def)
qed

section \<open>Weights that are not negative\<close>

lemma smod_nonneg: "0 \<le> a \<Longrightarrow> 0 < b \<Longrightarrow> a smod b = (a mod b :: int)"
  using smod_sdiv_mult_eq [of a b] by (simp add: sdiv_nonneg minus_sdiv_mult_eq_smod [symmetric] minus_div_mult_eq_mod)

lemma sum_list_pos: "\<forall>w \<in> set ws. 0 \<le> w \<Longrightarrow> sum_list ws \<noteq> 0 \<Longrightarrow> 0 < (sum_list ws :: int)"
  using sum_list_nonneg [of ws] by force

lemma base_plus_frac:
  assumes "\<forall>w \<in> set ws. 0 \<le> w" "sum_list ws \<noteq> 0" "0 \<le> amt" "i < length ws"
  shows "base_shares amt ws ! i * sum_list ws + frac_part amt ws i = amt * ws ! i"
    and "0 \<le> frac_part amt ws i" and "frac_part amt ws i < sum_list ws"
    and "0 \<le> base_shares amt ws ! i"
proof -
  have pos: "0 < sum_list ws" using assms(1,2) by (rule sum_list_pos)
  have n: "0 \<le> amt * ws ! i" using assms by simp
  then show "base_shares amt ws ! i * sum_list ws + frac_part amt ws i = amt * ws ! i"
    "0 \<le> frac_part amt ws i" "frac_part amt ws i < sum_list ws" "0 \<le> base_shares amt ws ! i"
    using pos assms(4)
    by (simp_all add: base_shares_def frac_part_def sdiv_nonneg smod_nonneg pos_imp_zdiv_nonneg_iff)
qed

lemma remainder_bounds:
  assumes ws: "\<forall>w \<in> set ws. 0 \<le> w" "sum_list ws \<noteq> 0" and amt: "0 \<le> amt"
  defines "rem \<equiv> amt - sum_list (base_shares amt ws)"
  shows "0 \<le> rem" and "nat rem \<le> card {i. i < length ws \<and> 0 < frac_part amt ws i}"
    and "nat rem \<le> length ws"
proof -
  let ?S = "sum_list ws" and ?n = "length ws" and ?f = "frac_part amt ws"
  let ?P = "{i. i < ?n \<and> 0 < ?f i}"
  note b = base_plus_frac [OF ws amt]
  have pos: "0 < ?S" using ws by (rule sum_list_pos)
  have "(\<Sum>i<?n. base_shares amt ws ! i * ?S + ?f i) = (\<Sum>i<?n. amt * ws ! i)"
    using b(1) by (intro sum.cong) auto
  then have "sum_list (base_shares amt ws) * ?S + (\<Sum>i<?n. ?f i) = amt * ?S"
    by (simp add: sum.distrib sum_list_sum_nth atLeast0LessThan base_shares_def
        flip: sum_distrib_left sum_distrib_right)
  then have fr: "(\<Sum>i<?n. ?f i) = rem * ?S" by (simp add: rem_def algebra_simps)
  have f0: "0 \<le> (\<Sum>i<?n. ?f i)" using b(2) by (intro sum_nonneg) auto
  then show r0: "0 \<le> rem" using fr pos by (simp add: zero_le_mult_iff)
  have "(\<Sum>i<?n. ?f i) = (\<Sum>i\<in>?P. ?f i)"
    using b(2) by (intro sum.mono_neutral_right) force+
  also have "\<dots> \<le> (\<Sum>i\<in>?P. ?S)" using b(3) by (intro sum_mono) (auto intro: less_imp_le)
  also have "\<dots> = int (card ?P) * ?S" by simp
  finally have "rem \<le> int (card ?P)" using fr pos by simp
  then show le: "nat rem \<le> card ?P" using r0 by simp
  also have "card ?P \<le> card {..<?n}" by (rule card_mono) auto
  finally show "nat rem \<le> ?n" by simp
qed

text \<open>The leftover cents go to lines whose exact share was not whole.\<close>

lemma handed_out_positive:
  assumes ws: "\<forall>w \<in> set ws. 0 \<le> w" "sum_list ws \<noteq> 0" and amt: "0 \<le> amt"
    and i: "i \<in> set (take (nat (amt - sum_list (base_shares amt ws))) (frac_order amt ws))"
  shows "0 < frac_part amt ws i"
proof (rule ccontr)
  let ?n = "length ws" and ?o = "frac_order amt ws" and ?f = "frac_part amt ws"
  let ?r = "nat (amt - sum_list (base_shares amt ws))" and ?P = "{i. i < ?n \<and> 0 < frac_part amt ws i}"
  assume neg: "\<not> 0 < ?f i"
  from i obtain j where j: "j < ?r" "j < ?n" "i = ?o ! j"
    by (auto simp: in_set_conv_nth)
  have "?P \<subseteq> set (take j ?o)"
  proof
    fix p assume p: "p \<in> ?P"
    then have "p \<in> set ?o" by simp
    then obtain k where k: "k < ?n" "p = ?o ! k" by (metis frac_order_props(3) in_set_conv_nth)
    have "k < j"
    proof (rule ccontr)
      assume "\<not> k < j"
      then have "?f (?o ! k) \<le> ?f (?o ! j)" using k by (intro frac_order_descending) auto
      with p k neg j show False by simp
    qed
    with k j show "p \<in> set (take j ?o)" by (auto simp: in_set_conv_nth)
  qed
  then have "card ?P \<le> card (set (take j ?o))" by (intro card_mono) auto
  also have "\<dots> \<le> j" by (metis card_length length_take min.cobounded2 order.trans)
  finally show False using remainder_bounds(2) [OF ws amt] j(1) by simp
qed

lemma length_allocateCents [simp]: "length (allocateCents amt ws) = length ws"
  by (cases ws) (auto simp: allocateCents_def Let_def base_shares_def)

lemma allocateCents_nth:
  assumes "\<forall>w \<in> set ws. 0 \<le> w" "sum_list ws \<noteq> 0" "0 \<le> amt" "i < length ws"
  defines "r \<equiv> nat (amt - sum_list (base_shares amt ws))"
  shows "allocateCents amt ws ! i =
    base_shares amt ws ! i + (if i \<in> set (take r (frac_order amt ws)) then 1 else 0)"
proof -
  have "length (base_shares amt ws) = length ws" by (simp add: base_shares_def)
  then show ?thesis
    using assms remainder_bounds(3) [OF assms(1-3)]
    by (auto simp: allocateCents_def Let_def hand_out_nth)
qed

lemma sum_allocateCents:
  assumes "\<forall>w \<in> set ws. 0 \<le> w" "0 \<le> amt" "ws \<noteq> []"
  shows "sum_list (allocateCents amt ws) = amt"
proof (cases "sum_list ws = 0")
  case True
  with assms show ?thesis by (simp add: allocateCents_def sum_list_replicate)
next
  case False
  have "length (base_shares amt ws) = length ws" by (simp add: base_shares_def)
  with False assms remainder_bounds(1) [OF assms(1) False assms(2)] show ?thesis
    by (simp add: allocateCents_def Let_def sum_list_hand_out)
qed

lemma allocateCents_nonneg:
  assumes "\<forall>w \<in> set ws. 0 \<le> w" "0 \<le> amt" "i < length ws"
  shows "0 \<le> allocateCents amt ws ! i"
proof (cases "sum_list ws = 0")
  case True
  with assms show ?thesis by (cases i) (auto simp: allocateCents_def)
next
  case False
  show ?thesis
    using allocateCents_nth [OF assms(1) False assms(2,3)] base_plus_frac(4) [OF assms(1) False assms(2,3)]
    by (auto split: if_splits)
qed

lemma allocateCents_le_weight:
  assumes ws: "\<forall>w \<in> set ws. 0 \<le> w" and amt: "0 \<le> amt" "amt \<le> sum_list ws" and i: "i < length ws"
  shows "allocateCents amt ws ! i \<le> ws ! i"
proof (cases "sum_list ws = 0")
  case True
  then have "amt = 0" using amt by simp
  moreover have "0 \<le> ws ! i" using ws i by simp
  ultimately show ?thesis using True i by (cases i) (auto simp: allocateCents_def)
next
  case False
  let ?S = "sum_list ws" and ?b = "base_shares amt ws ! i" and ?f = "frac_part amt ws i"
  have pos: "0 < ?S" using ws False by (rule sum_list_pos)
  note b = base_plus_frac [OF ws False amt(1) i]
  have "amt * ws ! i \<le> ?S * ws ! i" using ws i amt by (intro mult_right_mono) auto
  then have le: "?b * ?S + ?f \<le> ws ! i * ?S" using b(1) by (simp add: mult.commute)
  have "?b \<le> ws ! i"
  proof -
    have "?b * ?S \<le> ws ! i * ?S" using le b(2) by linarith
    then show ?thesis using pos by simp
  qed
  moreover have "0 < ?f \<Longrightarrow> ?b < ws ! i"
  proof -
    assume "0 < ?f"
    then have "?b * ?S < ws ! i * ?S" using le by linarith
    then show "?b < ws ! i" using pos by simp
  qed
  ultimately show ?thesis
    using allocateCents_nth [OF ws False amt(1) i] handed_out_positive [OF ws False amt(1), of i]
    by (auto split: if_splits)
qed

section \<open>Properties\<close>

text \<open>
  Largest-remainder allocation is exact and fair: for non-negative weights the parts add
  up to the total to the cent, each part is within one cent of its exact proportion, and when
  the total does not exceed the weights no part exceeds its own weight.
\<close>

theorem allocate_cents_exact:
  assumes "\<forall>w \<in> set ws. 0 \<le> w" "0 < sum_list ws" "0 \<le> amt"
  shows "sum_list (allocateCents amt ws) = amt \<and> length (allocateCents amt ws) = length ws
    \<and> (\<forall>i < length ws. 0 \<le> allocateCents amt ws ! i
         \<and> \<bar>allocateCents amt ws ! i * sum_list ws - amt * ws ! i\<bar> < sum_list ws
         \<and> (amt \<le> sum_list ws \<longrightarrow> allocateCents amt ws ! i \<le> ws ! i))"
proof -
  have ne: "ws \<noteq> []" "sum_list ws \<noteq> 0" using assms(2) by auto
  have "\<bar>allocateCents amt ws ! i * sum_list ws - amt * ws ! i\<bar> < sum_list ws" if i: "i < length ws" for i
    using allocateCents_nth [OF assms(1) ne(2) assms(3) i] base_plus_frac [OF assms(1) ne(2) assms(3) i]
      handed_out_positive [OF assms(1) ne(2) assms(3), of i]
    by (auto simp: algebra_simps abs_if split: if_splits)
  then show ?thesis
    using assms ne sum_allocateCents [OF assms(1,3) ne(1)] allocateCents_nonneg [OF assms(1,3)]
      allocateCents_le_weight [OF assms(1,3)] by simp
qed

theorem allocate_cents_exact_witness:
  "sum_list (allocateCents 100 [1, 1, 1]) = 100 \<and> 0 \<le> allocateCents 100 [1, 1, 1] ! 2"
  using allocate_cents_exact [of "[1, 1, 1]" 100] by auto

end
