(* ===== verification/DiscountPricing.thy ===== *)
theory DiscountPricing
  imports Allocation
begin

text \<open>
  \<open>shared/discount-pricing.js\<close> and \<open>shared/pos-pricing.js\<close>: what discounts take off a check.
  Amounts are cents; a percent value is in hundredths of a percent, as its DECIMAL(..,2) column
  stores it. The fold over the discounts carries what each line has left and what each split
  group has been given, as the code's \<open>remaining\<close> and \<open>groups\<close> do; the invariant
  \<open>pricing_ok\<close> ties the two together at every step.
\<close>

section \<open>Check lines\<close>

record check_item =
  ci_id :: nat
  ci_group :: "nat option"
  ci_unit_price :: int
  ci_quantity :: int
  ci_modifiers :: "int option list"
  ci_menu_item :: nat

definition computeItemLineTotal :: "check_item \<Rightarrow> int" where
  "computeItemLineTotal it =
     (ci_unit_price it + sum_list (map (\<lambda>m. case m of None \<Rightarrow> 0 | Some d \<Rightarrow> d) (ci_modifiers it)))
     * ci_quantity it"

record discount =
  d_id :: nat
  d_scope :: string
  d_type :: string
  d_value :: int
  d_max_amount :: "int option"
  d_menu_item :: "nat option"
  d_order_item :: "nat option"

definition amountOffCents :: "discount \<Rightarrow> int \<Rightarrow> int" where
  "amountOffCents d base =
     (if base \<le> 0 then 0
      else let wanted = (if d_type d = ''percent'' then percent_cents base (d_value d * 100) else d_value d);
               capped = (case d_max_amount d of None \<Rightarrow> wanted
                         | Some ceiling \<Rightarrow> if wanted > ceiling then ceiling else wanted)
           in if capped > base then base else capped)"

section \<open>The fold\<close>

record part =
  p_discount :: nat
  p_amount :: int
  p_base_before :: int

record pricing =
  remaining :: "nat \<Rightarrow> int"
  g_discount :: "nat option \<Rightarrow> int"
  g_parts :: "nat option \<Rightarrow> part list"
  results :: "part list"

definition line_cents :: "check_item list \<Rightarrow> nat \<Rightarrow> int" where
  "line_cents items i = (case map_of (map (\<lambda>it. (ci_id it, computeItemLineTotal it)) items) i of
     None \<Rightarrow> 0 | Some c \<Rightarrow> c)"

text \<open>Object keys: numeric groups ascending, then \<open>'null'\<close>.\<close>

definition group_keys :: "check_item list \<Rightarrow> nat option list" where
  "group_keys items =
     map Some (sort (remdups (List.map_filter ci_group items))) @
     (if None \<in> set (map ci_group items) then [None] else [])"

definition lineMatches :: "discount \<Rightarrow> check_item \<Rightarrow> bool" where
  "lineMatches d it = (case d_menu_item d of
     Some m \<Rightarrow> ci_menu_item it = m | None \<Rightarrow> d_order_item d = Some (ci_id it))"

text \<open>Takes the shares off what the lines have left.\<close>

definition take_shares :: "(check_item \<times> int) list \<Rightarrow> (nat \<Rightarrow> int) \<Rightarrow> (nat \<Rightarrow> int)" where
  "take_shares ps r = foldl (\<lambda>r (it, s). r(ci_id it := r (ci_id it) - s)) r ps"

definition group_share :: "(check_item \<times> int) list \<Rightarrow> nat option \<Rightarrow> int" where
  "group_share ps g = sum_list (map snd (filter (\<lambda>(it, s). ci_group it = g) ps))"

definition left_in :: "check_item list \<Rightarrow> (nat \<Rightarrow> int) \<Rightarrow> int" where
  "left_in ms r = sum_list (map (\<lambda>it. r (ci_id it)) ms)"

definition members :: "check_item list \<Rightarrow> nat option \<Rightarrow> check_item list" where
  "members items g = filter (\<lambda>it. ci_group it = g) items"

definition line_step :: "check_item list \<Rightarrow> pricing \<Rightarrow> discount \<Rightarrow> pricing" where
  "line_step items st d =
     (let targets = filter (lineMatches d) items;
          weights = map (\<lambda>it. remaining st (ci_id it)) targets;
          base = sum_list weights;
          amount = amountOffCents d base;
          ps = zip targets (allocateCents amount weights);
          st' = (if amount > 0 then st\<lparr>
              remaining := take_shares ps (remaining st),
              g_discount := (\<lambda>g. g_discount st g + group_share ps g),
              g_parts := (\<lambda>g. g_parts st g @
                (if group_share ps g = 0 then []
                 else [\<lparr>p_discount = d_id d, p_amount = group_share ps g,
                        p_base_before = left_in (filter (\<lambda>it. ci_group it = g) targets) (remaining st)\<rparr>]))\<rparr>
            else st)
      in st'\<lparr>results := results st' @ [\<lparr>p_discount = d_id d, p_amount = amount, p_base_before = base\<rparr>]\<rparr>)"

definition group_step :: "check_item list \<Rightarrow> (nat \<Rightarrow> int) \<Rightarrow> (nat option \<times> int) \<Rightarrow> (nat \<Rightarrow> int)" where
  "group_step items r ks =
     (let (key, share) = ks; ms = members items key
      in if share = 0 then r
         else take_shares (zip ms (allocateCents share (map (\<lambda>it. r (ci_id it)) ms))) r)"

definition order_step :: "check_item list \<Rightarrow> pricing \<Rightarrow> discount \<Rightarrow> pricing" where
  "order_step items st d =
     (let keys = group_keys items;
          bases = map (\<lambda>k. left_in (members items k) (remaining st)) keys;
          base = sum_list bases;
          amount = amountOffCents d base;
          ks = zip keys (allocateCents amount bases);
          share = (\<lambda>g. case map_of ks g of None \<Rightarrow> 0 | Some s \<Rightarrow> s);
          st' = (if amount > 0 then st\<lparr>
              remaining := foldl (group_step items) (remaining st) ks,
              g_discount := (\<lambda>g. g_discount st g + share g),
              g_parts := (\<lambda>g. g_parts st g @
                (if share g = 0 then []
                 else [\<lparr>p_discount = d_id d, p_amount = share g,
                        p_base_before = left_in (members items g) (remaining st)\<rparr>]))\<rparr>
            else st)
      in st'\<lparr>results := results st' @ [\<lparr>p_discount = d_id d, p_amount = amount, p_base_before = base\<rparr>]\<rparr>)"

definition pricing_start :: "check_item list \<Rightarrow> pricing" where
  "pricing_start items = \<lparr>remaining = line_cents items, g_discount = (\<lambda>_. 0), g_parts = (\<lambda>_. []), results = []\<rparr>"

definition run_discounts :: "check_item list \<Rightarrow> discount list \<Rightarrow> pricing" where
  "run_discounts items ds =
     foldl (order_step items)
       (foldl (line_step items) (pricing_start items) (filter (\<lambda>d. d_scope d = ''line'') ds))
       (filter (\<lambda>d. d_scope d = ''order'') ds)"

record group_out =
  go_key :: "nat option"
  go_gross :: int
  go_discount :: int
  go_base :: int
  go_parts :: "part list"

record priced =
  grossTotal :: int
  discountTotal :: int
  baseTotal :: int
  groups_out :: "group_out list"
  lines_out :: "(nat \<times> int \<times> int) list"
  discounts_out :: "part list"

definition group_gross :: "check_item list \<Rightarrow> nat option \<Rightarrow> int" where
  "group_gross items g = left_in (members items g) (line_cents items)"

definition applyDiscounts :: "check_item list \<Rightarrow> discount list \<Rightarrow> priced" where
  "applyDiscounts items ds =
     (let st = run_discounts items ds; keys = group_keys items;
          gross = sum_list (map (group_gross items) keys);
          off = sum_list (map (g_discount st) keys)
      in \<lparr>grossTotal = gross, discountTotal = off, baseTotal = gross - off,
          groups_out = map (\<lambda>g. \<lparr>go_key = g, go_gross = group_gross items g, go_discount = g_discount st g,
             go_base = group_gross items g - g_discount st g, go_parts = g_parts st g\<rparr>) keys,
          lines_out = map (\<lambda>it. (ci_id it, line_cents items (ci_id it), remaining st (ci_id it))) items,
          discounts_out = results st\<rparr>)"

text \<open>The approval limit is compared exactly, in cents times hundredths of a percent.\<close>

definition isWithinPercentLimit :: "int \<Rightarrow> int \<Rightarrow> int \<Rightarrow> bool" where
  "isWithinPercentLimit amount base limitScaled =
     (if amount = 0 then True else if base \<le> 0 then False else amount * 10000 \<le> limitScaled * base)"

definition effectivePercent :: "int \<Rightarrow> int \<Rightarrow> string" where
  "effectivePercent amount base =
     (if base \<le> 0 then ''0.00''
      else let scaled = (amount * 20000 + base) sdiv (2 * base) in fromCents scaled)"

section \<open>One spread over some lines\<close>

lemma amountOffCents_bounds:
  assumes "0 \<le> d_value d" "case d_max_amount d of None \<Rightarrow> True | Some m \<Rightarrow> 0 \<le> m" "0 \<le> base"
  shows "0 \<le> amountOffCents d base" and "amountOffCents d base \<le> base"
  using assms by (auto simp: amountOffCents_def Let_def percent_cents_nonneg split: option.splits)

definition share_of :: "(check_item \<times> int) list \<Rightarrow> nat \<Rightarrow> int" where
  "share_of ps i = (case map_of (map (\<lambda>(it, s). (ci_id it, s)) ps) i of None \<Rightarrow> 0 | Some s \<Rightarrow> s)"

lemma take_shares_eq:
  "distinct (map (ci_id \<circ> fst) ps) \<Longrightarrow> take_shares ps r i = r i - share_of ps i"
proof (induction ps arbitrary: r)
  case Nil
  then show ?case by (simp add: take_shares_def share_of_def)
next
  case (Cons p ps)
  obtain it s where p: "p = (it, s)" by (cases p)
  have "map_of (map (\<lambda>(it, s). (ci_id it, s)) ps) (ci_id it) = None"
    using Cons.prems p by (force simp: map_of_eq_None_iff)
  with Cons p show ?case by (auto simp: take_shares_def share_of_def)
qed

lemma share_of_nth:
  assumes "distinct (map ci_id ms)" "length ss = length ms" "k < length ms"
  shows "share_of (zip ms ss) (ci_id (ms ! k)) = ss ! k"
proof -
  let ?al = "map (\<lambda>(it, s). (ci_id it, s)) (zip ms ss)"
  have "map fst ?al = map ci_id ms" using assms(2) by (simp add: list_eq_iff_nth_eq)
  moreover have "(ci_id (ms ! k), ss ! k) \<in> set ?al"
    using assms(2,3) by (force simp: set_zip)
  ultimately show ?thesis using assms(1) by (simp add: share_of_def map_of_eq_Some_iff)
qed

lemma share_of_other: "i \<notin> ci_id ` set ms \<Longrightarrow> share_of (zip ms ss) i = 0"
proof -
  assume "i \<notin> ci_id ` set ms"
  then have "map_of (map (\<lambda>(it, s). (ci_id it, s)) (zip ms ss)) i = None"
    by (force simp: map_of_eq_None_iff dest: set_zip_leftD)
  then show ?thesis by (simp add: share_of_def)
qed

text \<open>Summed over the lines of the check, the shares are what each group was given.\<close>

lemma sum_share_of:
  assumes "distinct (map ci_id items)" "length ss = length (filter P items)"
  shows "sum_list (map (\<lambda>it. share_of (zip (filter P items) ss) (ci_id it)) (filter Q items)) =
    sum_list (map snd (filter (\<lambda>(it, s). Q it) (zip (filter P items) ss)))"
  using assms
proof (induction items arbitrary: ss)
  case (Cons x xs)
  have x: "ci_id x \<notin> ci_id ` set xs" and d: "distinct (map ci_id xs)" using Cons.prems by auto
  have fx: "ci_id x \<notin> ci_id ` set (filter P xs)" using x by auto
  show ?case
  proof (cases "P x")
    case True
    with Cons.prems obtain s ss' where ss: "ss = s # ss'" "length ss' = length (filter P xs)"
      by (cases ss) auto
    have "share_of (zip (filter P (x # xs)) ss) (ci_id it) = share_of (zip (filter P xs) ss') (ci_id it)"
      if "it \<in> set xs" for it
    proof -
      have "ci_id it \<in> ci_id ` set xs" using that by simp
      with x have "ci_id it \<noteq> ci_id x" by metis
      then show ?thesis using True ss by (simp add: share_of_def)
    qed
    then have "sum_list (map (\<lambda>it. share_of (zip (filter P (x # xs)) ss) (ci_id it)) (filter Q xs)) =
        sum_list (map (\<lambda>it. share_of (zip (filter P xs) ss') (ci_id it)) (filter Q xs))"
      by (intro arg_cong [where f = sum_list] map_cong) auto
    moreover have "share_of (zip (filter P (x # xs)) ss) (ci_id x) = s"
      using True ss by (simp add: share_of_def)
    ultimately show ?thesis using Cons.IH [OF d ss(2)] True ss by simp
  next
    case False
    with Cons share_of_other [OF fx] d show ?thesis by simp
  qed
qed simp

lemma spread_facts:
  assumes ids: "distinct (map ci_id items)"
    and r: "\<forall>it \<in> set items. 0 \<le> r (ci_id it)"
    and amt: "0 \<le> amt" "amt \<le> left_in (filter P items) r"
  defines "ms \<equiv> filter P items"
  defines "ps \<equiv> zip ms (allocateCents amt (map (\<lambda>it. r (ci_id it)) ms))"
  defines "r' \<equiv> take_shares ps r"
  shows "\<forall>it \<in> set items. 0 \<le> r' (ci_id it) \<and> r' (ci_id it) \<le> r (ci_id it)"
    and "\<forall>it \<in> set items. \<not> P it \<longrightarrow> r' (ci_id it) = r (ci_id it)"
    and "left_in (filter Q items) r' = left_in (filter Q items) r - sum_list (map snd (filter (\<lambda>(it, s). Q it) ps))"
    and "ms \<noteq> [] \<Longrightarrow> sum_list (map snd ps) = amt"
    and "\<forall>(it, s) \<in> set ps. 0 \<le> s"
proof -
  let ?ws = "map (\<lambda>it. r (ci_id it)) ms" and ?ss = "allocateCents amt (map (\<lambda>it. r (ci_id it)) ms)"
  have ws: "\<forall>w \<in> set ?ws. 0 \<le> w" using r by (auto simp: ms_def)
  have le: "amt \<le> sum_list ?ws" using amt(2) by (simp add: left_in_def ms_def)
  have len: "length ?ss = length ms" by simp
  have dm: "distinct (map ci_id ms)" using ids by (simp add: ms_def distinct_map_filter)
  have "map (ci_id \<circ> fst) ps = map ci_id ms"
    using len by (simp add: ps_def list_eq_iff_nth_eq)
  then have eq: "r' i = r i - share_of ps i" for i
    unfolding r'_def using dm by (intro take_shares_eq) simp
  show "\<forall>it \<in> set items. 0 \<le> r' (ci_id it) \<and> r' (ci_id it) \<le> r (ci_id it)"
  proof
    fix it assume it: "it \<in> set items"
    show "0 \<le> r' (ci_id it) \<and> r' (ci_id it) \<le> r (ci_id it)"
    proof (cases "ci_id it \<in> ci_id ` set ms")
      case True
      then obtain k where k: "k < length ms" "ci_id it = ci_id (ms ! k)"
        by (metis imageE in_set_conv_nth)
      then have "share_of ps (ci_id it) = ?ss ! k"
        using share_of_nth [OF dm len k(1)] by (simp add: ps_def)
      moreover have "0 \<le> ?ss ! k" "?ss ! k \<le> r (ci_id it)"
        using allocateCents_nonneg [OF ws amt(1)] allocateCents_le_weight [OF ws amt(1) le] k by auto
      ultimately show ?thesis using eq by simp
    next
      case False
      then show ?thesis using r it eq by (simp add: ps_def share_of_other)
    qed
  qed
  show "\<forall>it \<in> set items. \<not> P it \<longrightarrow> r' (ci_id it) = r (ci_id it)"
  proof (intro ballI impI)
    fix it assume it: "it \<in> set items" "\<not> P it"
    then have "ci_id it \<notin> ci_id ` set ms"
      using ids by (auto simp: ms_def distinct_map dest: inj_onD)
    then show "r' (ci_id it) = r (ci_id it)" by (simp add: eq ps_def share_of_other)
  qed
  have "left_in (filter Q items) r' =
      sum_list (map (\<lambda>it. r (ci_id it) - share_of ps (ci_id it)) (filter Q items))"
    by (simp add: left_in_def eq)
  also have "\<dots> = left_in (filter Q items) r - sum_list (map (\<lambda>it. share_of ps (ci_id it)) (filter Q items))"
    by (simp add: left_in_def sum_list_subtractf)
  also have "sum_list (map (\<lambda>it. share_of ps (ci_id it)) (filter Q items)) =
      sum_list (map snd (filter (\<lambda>(it, s). Q it) ps))"
    unfolding ps_def ms_def using ids len by (intro sum_share_of) (simp_all add: ms_def)
  finally show "left_in (filter Q items) r' = left_in (filter Q items) r - sum_list (map snd (filter (\<lambda>(it, s). Q it) ps))" .
  show "ms \<noteq> [] \<Longrightarrow> sum_list (map snd ps) = amt"
    using sum_allocateCents [OF ws amt(1)] by (simp add: ps_def)
  show "\<forall>(it, s) \<in> set ps. 0 \<le> s"
    using allocateCents_nonneg [OF ws amt(1)] by (auto simp: ps_def set_zip)
qed


section \<open>The lines of a check, group by group\<close>

lemma sum_list_one: "distinct ks \<Longrightarrow> sum_list (map (\<lambda>g. if a = g then c else (0::int)) ks) = (if a \<in> set ks then c else 0)"
  by (induction ks) auto

lemma group_keys_props:
  "distinct (group_keys items)" "ci_group ` set items \<subseteq> set (group_keys items)"
proof -
  have s: "set (List.map_filter ci_group items) = {g. Some g \<in> ci_group ` set items}" for items
    by (induction items) (auto simp: List.map_filter_simps split: option.splits)
  show "distinct (group_keys items)" by (auto simp: group_keys_def distinct_map)
  show "ci_group ` set items \<subseteq> set (group_keys items)"
  proof
    fix g assume "g \<in> ci_group ` set items"
    then show "g \<in> set (group_keys items)" by (cases g) (auto simp: group_keys_def s)
  qed
qed

lemma left_in_partition:
  assumes "distinct ks" "ci_group ` set items \<subseteq> set ks"
  shows "sum_list (map (\<lambda>g. left_in (members items g) r) ks) = left_in items r"
  using assms(2)
proof (induction items)
  case Nil
  show ?case by (simp add: left_in_def members_def)
next
  case (Cons x xs)
  have "left_in (members (x # xs) g) r = (if ci_group x = g then r (ci_id x) else 0) + left_in (members xs g) r" for g
    by (simp add: left_in_def members_def)
  then show ?case
    using Cons assms(1) by (simp add: sum_list_addf sum_list_one left_in_def)
qed

lemma left_in_groups: "sum_list (map (\<lambda>g. left_in (members items g) r) (group_keys items)) = left_in items r"
  using group_keys_props by (rule left_in_partition)

lemma left_in_nonneg: "\<forall>it \<in> set items. 0 \<le> r (ci_id it) \<Longrightarrow> 0 \<le> left_in (filter P items) r"
  by (auto simp: left_in_def intro!: sum_list_nonneg)

text \<open>One group's share, spread over its own lines, leaves the other groups alone.\<close>

lemma group_step_facts:
  assumes ids: "distinct (map ci_id items)"
    and r: "\<forall>it \<in> set items. 0 \<le> r (ci_id it)"
    and s: "0 \<le> s" "s \<le> left_in (members items k) r"
  defines "r' \<equiv> group_step items r (k, s)"
  shows "\<forall>it \<in> set items. 0 \<le> r' (ci_id it) \<and> r' (ci_id it) \<le> r (ci_id it)"
    and "left_in (members items g) r' = left_in (members items g) r - (if g = k then s else 0)"
proof -
  let ?P = "\<lambda>it. ci_group it = k"
  let ?ps = "zip (members items k) (allocateCents s (map (\<lambda>it. r (ci_id it)) (members items k)))"
  note f = spread_facts [of items r s ?P, OF ids r s(1) s(2) [unfolded members_def], folded members_def]
  have r': "r' = (if s = 0 then r else take_shares ?ps r)" by (simp add: r'_def group_step_def Let_def)
  show "\<forall>it \<in> set items. 0 \<le> r' (ci_id it) \<and> r' (ci_id it) \<le> r (ci_id it)"
    using f(1) r by (simp add: r')
  have grp: "ci_group it = k" if "(it, z) \<in> set ?ps" for it z
    using that by (auto simp: members_def dest!: set_zip_leftD)
  have "sum_list (map snd (filter (\<lambda>(it, s). ci_group it = g) ?ps)) = (if g = k then s else 0)" if "s \<noteq> 0"
  proof (cases "g = k")
    case True
    then have "filter (\<lambda>(it, s). ci_group it = g) ?ps = ?ps" using grp by (auto simp: filter_id_conv)
    moreover have "members items k \<noteq> []" using that s by (auto simp: left_in_def)
    ultimately show ?thesis using f(4) True by simp
  next
    case False
    then have "filter (\<lambda>(it, s). ci_group it = g) ?ps = []" using grp by (auto simp: filter_empty_conv)
    then show ?thesis using False by simp
  qed
  note sums = this
  have moved: "left_in (members items g) (take_shares ?ps r) =
      left_in (members items g) r - sum_list (map snd (filter (\<lambda>(it, s). ci_group it = g) ?ps))"
    using f(3) [of "\<lambda>it. ci_group it = g"] by (simp only: members_def)
  show "left_in (members items g) r' = left_in (members items g) r - (if g = k then s else 0)"
  proof (cases "s = 0")
    case True
    then show ?thesis by (simp add: r')
  next
    case False
    then have "r' = take_shares ?ps r" by (simp add: r')
    then show ?thesis using moved sums [OF False] by (simp only:)
  qed
qed

definition share_at :: "(nat option \<times> int) list \<Rightarrow> nat option \<Rightarrow> int" where
  "share_at ks g = (case map_of ks g of None \<Rightarrow> 0 | Some s \<Rightarrow> s)"

lemma group_steps_facts:
  assumes "distinct (map ci_id items)" "distinct (map fst ks)"
    and "\<forall>it \<in> set items. 0 \<le> r (ci_id it)"
    and "\<forall>(k, s) \<in> set ks. 0 \<le> s \<and> s \<le> left_in (members items k) r"
  shows "(\<forall>it \<in> set items. 0 \<le> foldl (group_step items) r ks (ci_id it)
            \<and> foldl (group_step items) r ks (ci_id it) \<le> r (ci_id it))
    \<and> (\<forall>g. left_in (members items g) (foldl (group_step items) r ks) = left_in (members items g) r - share_at ks g)"
  using assms(2-)
proof (induction ks arbitrary: r)
  case Nil
  then show ?case by (simp add: share_at_def)
next
  case (Cons p ks)
  obtain k s where p: "p = (k, s)" by (cases p)
  let ?r = "group_step items r (k, s)"
  have s: "0 \<le> s" "s \<le> left_in (members items k) r" using Cons.prems p by auto
  note f = group_step_facts [OF assms(1) Cons.prems(2) s]
  have k: "k \<notin> fst ` set ks" using Cons.prems p by simp
  have "\<forall>(k', s') \<in> set ks. 0 \<le> s' \<and> s' \<le> left_in (members items k') ?r"
  proof (clarify)
    fix k' s' assume in_ks: "(k', s') \<in> set ks"
    then have "k' \<noteq> k" using k by force
    moreover have "0 \<le> s' \<and> s' \<le> left_in (members items k') r" using Cons.prems(3) in_ks by auto
    ultimately show "0 \<le> s' \<and> s' \<le> left_in (members items k') ?r" using f(2) by simp
  qed
  then have IH: "(\<forall>it \<in> set items. 0 \<le> foldl (group_step items) ?r ks (ci_id it)
            \<and> foldl (group_step items) ?r ks (ci_id it) \<le> ?r (ci_id it))
    \<and> (\<forall>g. left_in (members items g) (foldl (group_step items) ?r ks) = left_in (members items g) ?r - share_at ks g)"
    using Cons.IH [of ?r] Cons.prems(1) f(1) by simp
  have "share_at ((k, s) # ks) g = (if g = k then s else 0) + share_at ks g" for g
  proof -
    have "map_of ks k = None" using k by (simp add: map_of_eq_None_iff)
    then show ?thesis by (simp add: share_at_def)
  qed
  then show ?case using IH f p by (auto intro: order_trans)
qed

lemma sum_share_at:
  "distinct ks \<Longrightarrow> length ss = length ks \<Longrightarrow> sum_list (map (share_at (zip ks ss)) ks) = sum_list ss"
proof (induction ks arbitrary: ss)
  case (Cons k ks)
  then obtain s ss' where ss: "ss = s # ss'" by (cases ss) auto
  have "share_at (zip (k # ks) ss) g = share_at (zip ks ss') g" if "g \<in> set ks" for g
    using Cons.prems that by (auto simp: share_at_def ss)
  then have "sum_list (map (share_at (zip (k # ks) ss)) ks) = sum_list (map (share_at (zip ks ss')) ks)"
    by (intro arg_cong [where f = sum_list] map_cong) auto
  moreover have "share_at (zip (k # ks) ss) k = s" by (simp add: share_at_def ss)
  ultimately show ?case using Cons.IH [of ss'] Cons.prems ss by simp
qed simp

section \<open>The invariant of the fold\<close>

definition discount_ok :: "discount \<Rightarrow> bool" where
  "discount_ok d \<longleftrightarrow> 0 \<le> d_value d \<and> (case d_max_amount d of None \<Rightarrow> True | Some m \<Rightarrow> 0 \<le> m)"

definition pricing_ok :: "check_item list \<Rightarrow> pricing \<Rightarrow> bool" where
  "pricing_ok items st \<longleftrightarrow>
     (\<forall>it \<in> set items. 0 \<le> remaining st (ci_id it) \<and> remaining st (ci_id it) \<le> line_cents items (ci_id it))
   \<and> (\<forall>g. g_discount st g = group_gross items g - left_in (members items g) (remaining st))
   \<and> sum_list (map p_amount (results st)) = left_in items (line_cents items) - left_in items (remaining st)"

lemma pricing_ok_start:
  assumes "\<forall>it \<in> set items. 0 \<le> line_cents items (ci_id it)"
  shows "pricing_ok items (pricing_start items)"
  using assms by (simp add: pricing_ok_def pricing_start_def group_gross_def)

lemma pricing_ok_advance:
  assumes "pricing_ok items st"
    and "\<forall>it \<in> set items. 0 \<le> remaining st' (ci_id it) \<and> remaining st' (ci_id it) \<le> remaining st (ci_id it)"
    and "\<And>g. left_in (members items g) (remaining st') = left_in (members items g) (remaining st) - share g"
    and "g_discount st' = (\<lambda>g. g_discount st g + share g)"
    and "left_in items (remaining st') = left_in items (remaining st) - amt"
    and "sum_list (map p_amount (results st')) = sum_list (map p_amount (results st)) + amt"
  shows "pricing_ok items st'"
  using assms unfolding pricing_ok_def by (auto dest: bspec intro: order_trans)

lemma pricing_ok_line_step:
  assumes ids: "distinct (map ci_id items)" and st: "pricing_ok items st" and d: "discount_ok d"
  shows "pricing_ok items (line_step items st d)"
proof -
  let ?P = "lineMatches d" and ?r = "remaining st"
  let ?ms = "filter ?P items"
  let ?amt = "amountOffCents d (sum_list (map (\<lambda>it. ?r (ci_id it)) ?ms))"
  let ?ps = "zip ?ms (allocateCents ?amt (map (\<lambda>it. ?r (ci_id it)) ?ms))"
  have r: "\<forall>it \<in> set items. 0 \<le> ?r (ci_id it)" using st by (simp add: pricing_ok_def)
  have base: "0 \<le> left_in ?ms ?r" using r by (rule left_in_nonneg)
  have amt: "0 \<le> ?amt" "?amt \<le> left_in ?ms ?r"
    using amountOffCents_bounds [of d "left_in ?ms ?r"] d base by (simp_all add: discount_ok_def left_in_def)
  note f = spread_facts [OF ids r amt]
  show ?thesis
  proof (cases "0 < ?amt")
    case False
    then show ?thesis using amt(1) st by (simp add: pricing_ok_def line_step_def Let_def)
  next
    case True
    then have ne: "?ms \<noteq> []" using amt by (auto simp: left_in_def)
    have tot: "left_in items (take_shares ?ps ?r) = left_in items ?r - ?amt"
      using f(3) [of "\<lambda>_. True"] f(4) [OF ne] by simp
    have grp: "left_in (members items g) (take_shares ?ps ?r) = left_in (members items g) ?r - group_share ?ps g" for g
      using f(3) [of "\<lambda>it. ci_group it = g"] by (simp add: members_def group_share_def)
    have "pricing.remaining (line_step items st d) = take_shares ?ps ?r"
      "g_discount (line_step items st d) = (\<lambda>g. g_discount st g + group_share ?ps g)"
      "sum_list (map p_amount (results (line_step items st d))) = sum_list (map p_amount (results st)) + ?amt"
      using True by (simp_all add: line_step_def Let_def)
    then show ?thesis
      using f(1) tot grp by (intro pricing_ok_advance [OF st, where share = "group_share ?ps" and amt = ?amt]) (simp_all only: simp_thms)
  qed
qed

lemma pricing_ok_order_step:
  assumes ids: "distinct (map ci_id items)" and st: "pricing_ok items st" and d: "discount_ok d"
  shows "pricing_ok items (order_step items st d)"
proof -
  let ?r = "remaining st" and ?keys = "group_keys items"
  let ?bases = "map (\<lambda>k. left_in (members items k) ?r) ?keys"
  let ?amt = "amountOffCents d (sum_list ?bases)"
  let ?ks = "zip ?keys (allocateCents ?amt ?bases)"
  have r: "\<forall>it \<in> set items. 0 \<le> ?r (ci_id it)" using st by (simp add: pricing_ok_def)
  have bases: "\<forall>b \<in> set ?bases. 0 \<le> b" using left_in_nonneg [OF r] by (simp add: members_def)
  have "0 \<le> sum_list ?bases" using bases by (intro sum_list_nonneg) blast
  then have amt: "0 \<le> ?amt" "?amt \<le> sum_list ?bases"
    using amountOffCents_bounds [of d "sum_list ?bases"] d by (simp_all add: discount_ok_def)
  have "map fst ?ks = ?keys" by simp
  then have dk: "distinct (map fst ?ks)" using group_keys_props(1) by simp
  have "\<forall>(k, s) \<in> set ?ks. 0 \<le> s \<and> s \<le> left_in (members items k) ?r"
  proof (clarify)
    fix k s assume "(k, s) \<in> set ?ks"
    then obtain i where i: "i < length ?keys" "k = ?keys ! i" "s = allocateCents ?amt ?bases ! i"
      by (auto simp: set_zip)
    then show "0 \<le> s \<and> s \<le> left_in (members items k) ?r"
      using allocateCents_nonneg [OF bases amt(1), of i] allocateCents_le_weight [OF bases amt, of i] by simp
  qed
  note f = group_steps_facts [OF ids dk r this]
  show ?thesis
  proof (cases "0 < ?amt")
    case False
    then show ?thesis using amt(1) st by (simp add: pricing_ok_def order_step_def Let_def)
  next
    case True
    then have ne: "?bases \<noteq> []" using amt by auto
    let ?r' = "foldl (group_step items) ?r ?ks"
    have "left_in items ?r' = sum_list (map (\<lambda>g. left_in (members items g) ?r - share_at ?ks g) ?keys)"
      unfolding left_in_groups [of items ?r', symmetric]
      by (intro arg_cong [where f = sum_list] map_cong refl spec [OF conjunct2 [OF f]])
    also have "\<dots> = left_in items ?r - sum_list (map (share_at ?ks) ?keys)"
      by (simp add: sum_list_subtractf left_in_groups)
    also have "sum_list (map (share_at ?ks) ?keys) = ?amt"
      using sum_share_at [OF group_keys_props(1)] sum_allocateCents [OF bases amt(1) ne] by simp
    finally have tot: "left_in items ?r' = left_in items ?r - ?amt" .
    let ?st' = "order_step items st d"
    have rem: "remaining ?st' = ?r'" using True by (simp add: order_step_def Let_def)
    show ?thesis
    proof (rule pricing_ok_advance [OF st])
      show "\<forall>it \<in> set items. 0 \<le> remaining ?st' (ci_id it) \<and> remaining ?st' (ci_id it) \<le> ?r (ci_id it)"
        unfolding rem by (rule conjunct1 [OF f])
      show "\<And>g. left_in (members items g) (remaining ?st') = left_in (members items g) ?r - share_at ?ks g"
        unfolding rem by (rule spec [OF conjunct2 [OF f]])
      show "g_discount ?st' = (\<lambda>g. g_discount st g + share_at ?ks g)"
        using True by (simp add: order_step_def Let_def share_at_def)
      show "left_in items (remaining ?st') = left_in items ?r - ?amt" unfolding rem by (rule tot)
      show "sum_list (map p_amount (results ?st')) = sum_list (map p_amount (results st)) + ?amt"
        using True by (simp add: order_step_def Let_def)
    qed
  qed
qed

lemma pricing_ok_folds:
  assumes "distinct (map ci_id items)" "\<forall>d \<in> set ds. discount_ok d"
  shows "pricing_ok items st \<Longrightarrow> pricing_ok items (foldl (line_step items) st ds)"
    and "pricing_ok items st \<Longrightarrow> pricing_ok items (foldl (order_step items) st ds)"
  using assms by (induction ds arbitrary: st) (simp_all add: pricing_ok_line_step pricing_ok_order_step)

lemma pricing_ok_run:
  assumes "distinct (map ci_id items)" "\<forall>it \<in> set items. 0 \<le> line_cents items (ci_id it)"
    "\<forall>d \<in> set ds. discount_ok d"
  shows "pricing_ok items (run_discounts items ds)"
  using assms unfolding run_discounts_def by (intro pricing_ok_folds pricing_ok_start) auto

lemma line_cents_item:
  "distinct (map ci_id items) \<Longrightarrow> it \<in> set items \<Longrightarrow> line_cents items (ci_id it) = computeItemLineTotal it"
proof -
  assume d: "distinct (map ci_id items)" and it: "it \<in> set items"
  have "map_of (map (\<lambda>it. (ci_id it, computeItemLineTotal it)) items) (ci_id it) = Some (computeItemLineTotal it)"
    using d it by (intro map_of_is_SomeI) (simp_all add: comp_def)
  then show ?thesis by (simp add: line_cents_def)
qed

section \<open>Properties\<close>

text \<open>
  C35: Pricing a check conserves money whatever the discounts: with unique line ids, lines that
  are not negative and discounts whose values are not negative, the grand totals are the sums
  of the group totals and of the line totals, the discount total is the sum of what each discount took, every line
  and every group keeps a base between zero and its gross, and nothing is discounted below zero.
\<close>

theorem apply_discounts_conserves:
  assumes "distinct (map ci_id items)" "\<forall>it \<in> set items. 0 \<le> computeItemLineTotal it"
    "\<forall>d \<in> set ds. discount_ok d"
  shows "grossTotal (applyDiscounts items ds) = sum_list (map computeItemLineTotal items)
    \<and> baseTotal (applyDiscounts items ds) = sum_list (map (\<lambda>(i, gross, base). base) (lines_out (applyDiscounts items ds)))
    \<and> discountTotal (applyDiscounts items ds) = sum_list (map p_amount (discounts_out (applyDiscounts items ds)))
    \<and> 0 \<le> baseTotal (applyDiscounts items ds)
    \<and> baseTotal (applyDiscounts items ds) \<le> grossTotal (applyDiscounts items ds)
    \<and> (\<forall>(i, gross, base) \<in> set (lines_out (applyDiscounts items ds)). 0 \<le> base \<and> base \<le> gross)
    \<and> (\<forall>g \<in> set (groups_out (applyDiscounts items ds)). 0 \<le> go_base g \<and> go_base g \<le> go_gross g
         \<and> go_discount g = go_gross g - go_base g)"
proof -
  let ?st = "run_discounts items ds"
  have lc: "\<forall>it \<in> set items. line_cents items (ci_id it) = computeItemLineTotal it"
    using line_cents_item [OF assms(1)] by blast
  have ok: "pricing_ok items ?st" using assms lc by (intro pricing_ok_run) auto
  have rem: "\<forall>it \<in> set items. 0 \<le> remaining ?st (ci_id it) \<and> remaining ?st (ci_id it) \<le> line_cents items (ci_id it)"
    using ok by (simp add: pricing_ok_def)
  have gd: "g_discount ?st g = group_gross items g - left_in (members items g) (remaining ?st)" for g
    using ok by (simp add: pricing_ok_def)
  have gross: "sum_list (map (group_gross items) (group_keys items)) = left_in items (line_cents items)"
    unfolding group_gross_def by (rule left_in_groups)
  have off: "sum_list (map (g_discount ?st) (group_keys items))
      = left_in items (line_cents items) - left_in items (remaining ?st)"
  proof -
    have "map (g_discount ?st) (group_keys items) =
        map (\<lambda>g. group_gross items g - left_in (members items g) (remaining ?st)) (group_keys items)"
      by (intro map_cong refl gd)
    then have "sum_list (map (g_discount ?st) (group_keys items)) = sum_list
        (map (\<lambda>g. group_gross items g - left_in (members items g) (remaining ?st)) (group_keys items))"
      by (rule arg_cong)
    then show ?thesis using gross by (simp add: sum_list_subtractf left_in_groups)
  qed
  have lines: "left_in items (line_cents items) = sum_list (map computeItemLineTotal items)"
    unfolding left_in_def using lc by (intro arg_cong [where f = sum_list] map_cong) auto
  have le: "left_in (filter P items) (remaining ?st) \<le> left_in (filter P items) (line_cents items)" for P
    unfolding left_in_def using rem by (intro sum_list_mono) auto
  have nn: "0 \<le> left_in (filter P items) (remaining ?st)" for P
    using rem by (intro left_in_nonneg) auto
  let ?out = "applyDiscounts items ds"
  have "grossTotal ?out = sum_list (map computeItemLineTotal items)"
    and disc: "discountTotal ?out = sum_list (map p_amount (discounts_out ?out))"
    and base: "baseTotal ?out = left_in items (remaining ?st)"
    using gross off lines ok by (simp_all add: applyDiscounts_def Let_def pricing_ok_def)
  moreover have "left_in items (remaining ?st) = sum_list (map (\<lambda>(i, gross, base). base) (lines_out ?out))"
    by (simp add: applyDiscounts_def Let_def comp_def left_in_def)
  moreover have "0 \<le> baseTotal ?out" "baseTotal ?out \<le> grossTotal ?out"
    using base nn [of "\<lambda>_. True"] le [of "\<lambda>_. True"] lines calculation(1) by simp_all
  moreover have "\<forall>(i, gross, base) \<in> set (lines_out ?out). 0 \<le> base \<and> base \<le> gross"
    using rem by (auto simp: applyDiscounts_def Let_def)
  moreover have "\<forall>g \<in> set (groups_out ?out). 0 \<le> go_base g \<and> go_base g \<le> go_gross g
      \<and> go_discount g = go_gross g - go_base g"
    using le nn by (auto simp: applyDiscounts_def Let_def gd group_gross_def members_def)
  ultimately show ?thesis by simp
qed

definition soup_and_wine :: "check_item list" where
  "soup_and_wine =
     [\<lparr>ci_id = 1, ci_group = None, ci_unit_price = 1050, ci_quantity = 2, ci_modifiers = [Some 50], ci_menu_item = 7\<rparr>,
      \<lparr>ci_id = 2, ci_group = Some 1, ci_unit_price = 300, ci_quantity = 1, ci_modifiers = [], ci_menu_item = 9\<rparr>]"

definition ten_percent_and_a_fixed_line :: "discount list" where
  "ten_percent_and_a_fixed_line =
     [\<lparr>d_id = 1, d_scope = ''order'', d_type = ''percent'', d_value = 1000, d_max_amount = None,
       d_menu_item = None, d_order_item = None\<rparr>,
      \<lparr>d_id = 2, d_scope = ''line'', d_type = ''fixed'', d_value = 500, d_max_amount = Some 400,
       d_menu_item = Some 9, d_order_item = None\<rparr>]"

theorem apply_discounts_conserves_witness:
  "grossTotal (applyDiscounts soup_and_wine ten_percent_and_a_fixed_line) = 2500
    \<and> 0 \<le> baseTotal (applyDiscounts soup_and_wine ten_percent_and_a_fixed_line)
    \<and> baseTotal (applyDiscounts soup_and_wine ten_percent_and_a_fixed_line) \<le> 2500"
  using apply_discounts_conserves [of soup_and_wine ten_percent_and_a_fixed_line]
  by (simp add: soup_and_wine_def ten_percent_and_a_fixed_line_def computeItemLineTotal_def discount_ok_def)

end
