(* ===== verification/Calendar.thy ===== *)
theory Calendar
  imports Prelude
begin

text \<open>
  Business dates. The backend keeps a date as \<open>'YYYY-MM-DD'\<close> text, compares it as text and
  computes on it through \<open>Date.UTC\<close>; here a date is its three numbers, ordered as that text
  is, and \<open>day_number\<close> is the ECMAScript day count of a UTC date. The theory holds the date
  arithmetic of \<open>modules/ar/ageing.js\<close>, \<open>modules/billing/dunning.js\<close> and
  \<open>modules/expenses/recurrence.js\<close>.
\<close>

section \<open>Dates\<close>

datatype date = Date (year: int) (month: int) (day: int)

instantiation date :: linorder
begin

definition less_eq_date :: "date \<Rightarrow> date \<Rightarrow> bool" where
  "less_eq_date a b \<longleftrightarrow> year a < year b \<or> year a = year b \<and>
     (month a < month b \<or> month a = month b \<and> day a \<le> day b)"

definition less_date :: "date \<Rightarrow> date \<Rightarrow> bool" where
  "less_date a b \<longleftrightarrow> year a < year b \<or> year a = year b \<and>
     (month a < month b \<or> month a = month b \<and> day a < day b)"

instance
  by standard (auto simp: less_eq_date_def less_date_def date.expand)

end

definition is_leap :: "int \<Rightarrow> bool" where
  "is_leap y \<longleftrightarrow> (y mod 4 = 0 \<and> y mod 100 \<noteq> 0) \<or> y mod 400 = 0"

text \<open>\<open>Date.UTC(year, month + 1, 0)\<close>; the month here counts from 1.\<close>

definition daysInMonth :: "int \<Rightarrow> int \<Rightarrow> int" where
  "daysInMonth y m = (if m = 2 then if is_leap y then 29 else 28
                      else if m = 4 \<or> m = 6 \<or> m = 9 \<or> m = 11 then 30 else 31)"

definition valid_date :: "date \<Rightarrow> bool" where
  "valid_date d \<longleftrightarrow> 1 \<le> month d \<and> month d \<le> 12 \<and> 1 \<le> day d \<and> day d \<le> daysInMonth (year d) (month d)"

text \<open>\<open>DayFromYear\<close> of the ECMAScript standard, and the days of the months before \<open>m\<close>.\<close>

definition year_start :: "int \<Rightarrow> int" where
  "year_start y = 365 * (y - 1970) + (y - 1969) div 4 - (y - 1901) div 100 + (y - 1601) div 400"

definition month_start :: "int \<Rightarrow> int \<Rightarrow> int" where
  "month_start y m = sum_list (map (\<lambda>k. daysInMonth y (int k)) [1 ..< nat m])"

definition day_number :: "date \<Rightarrow> int" where
  "day_number d = year_start (year d) + month_start (year d) (month d) + (day d - 1)"

definition daysBetween :: "date \<Rightarrow> date \<Rightarrow> int" where
  "daysBetween a b = day_number b - day_number a"

definition getUTCDay :: "date \<Rightarrow> int" where
  "getUTCDay d = (day_number d + 4) mod 7"

definition next_day :: "date \<Rightarrow> date" where
  "next_day d = (if day d < daysInMonth (year d) (month d) then Date (year d) (month d) (day d + 1)
                 else if month d < 12 then Date (year d) (month d + 1) 1
                 else Date (year d + 1) 1 1)"

definition add_days :: "date \<Rightarrow> nat \<Rightarrow> date" where
  "add_days d n = (next_day ^^ n) d"

definition addMonthsClamped :: "date \<Rightarrow> int \<Rightarrow> int \<Rightarrow> date" where
  "addMonthsClamped d n target =
     (let z = month d - 1 + n; y = year d + z div 12; m = z mod 12 + 1
      in Date y m (min target (daysInMonth y m)))"

section \<open>The calendar is consistent\<close>

lemma daysInMonth_bounds: "28 \<le> daysInMonth y m" "daysInMonth y m \<le> 31"
  by (auto simp: daysInMonth_def)

lemma month_start_simps:
  "month_start y 1 = 0"
  "1 \<le> m \<Longrightarrow> month_start y (m + 1) = month_start y m + daysInMonth y m"
proof -
  show "month_start y 1 = 0" by (simp add: month_start_def)
  assume m: "1 \<le> m"
  then have "nat (m + 1) = Suc (nat m)" by simp
  then have "[1 ..< nat (m + 1)] = [1 ..< nat m] @ [nat m]" using m by (simp add: nat_add_distrib)
  then show "month_start y (m + 1) = month_start y m + daysInMonth y m"
    using m unfolding month_start_def by simp
qed

lemma month_cases:
  "1 \<le> m \<Longrightarrow> m \<le> 12 \<Longrightarrow> m = 1 \<or> m = 2 \<or> m = 3 \<or> m = 4 \<or> m = 5 \<or> m = 6 \<or> m = 7 \<or> m = 8
     \<or> m = 9 \<or> m = 10 \<or> m = 11 \<or> m = (12::int)"
  by arith

lemma month_start_table:
  "month_start y 2 = 31" "month_start y 3 = 31 + daysInMonth y 2" "month_start y 4 = 62 + daysInMonth y 2"
  "month_start y 5 = 92 + daysInMonth y 2" "month_start y 6 = 123 + daysInMonth y 2"
  "month_start y 7 = 153 + daysInMonth y 2" "month_start y 8 = 184 + daysInMonth y 2"
  "month_start y 9 = 215 + daysInMonth y 2" "month_start y 10 = 245 + daysInMonth y 2"
  "month_start y 11 = 276 + daysInMonth y 2" "month_start y 12 = 306 + daysInMonth y 2"
  "month_start y 13 = 337 + daysInMonth y 2"
  using month_start_simps(1) [of y] month_start_simps(2) [of 1 y] month_start_simps(2) [of 2 y]
    month_start_simps(2) [of 3 y] month_start_simps(2) [of 4 y] month_start_simps(2) [of 5 y]
    month_start_simps(2) [of 6 y] month_start_simps(2) [of 7 y] month_start_simps(2) [of 8 y]
    month_start_simps(2) [of 9 y] month_start_simps(2) [of 10 y] month_start_simps(2) [of 11 y]
    month_start_simps(2) [of 12 y]
  by (simp_all add: daysInMonth_def)

lemma div_succ: "0 < k \<Longrightarrow> (x + 1) div k = x div k + (if (x + 1) mod k = 0 then 1 else (0::int))"
proof -
  assume k: "0 < k"
  let ?q = "x div k" and ?r = "x mod k"
  have x: "x = k * ?q + ?r" and r: "0 \<le> ?r" "?r < k" using k by simp_all
  show ?thesis
  proof (cases "?r + 1 = k")
    case True
    have "k * (?q + 1) = k * ?q + k" by (rule distrib_left [of k ?q 1, simplified])
    then have e: "x + 1 = k * (?q + 1)" using x True by linarith
    show ?thesis using k unfolding e by simp
  next
    case False
    then have r': "0 \<le> ?r + 1" "?r + 1 < k" using r by simp_all
    have e: "x + 1 = k * ?q + (?r + 1)" using x by linarith
    have "(x + 1) div k = ?q" using e r' by (rule int_div_pos_eq)
    moreover have "(x + 1) mod k = ?r + 1" using e r' by (rule int_mod_pos_eq)
    ultimately show ?thesis using r by simp
  qed
qed

lemma year_start_Suc: "year_start (y + 1) = year_start y + 337 + daysInMonth y 2"
proof -
  have a: "y - 1969 + 1 = y + (- 492) * 4" "y - 1901 + 1 = y + (- 19) * 100" "y - 1601 + 1 = y + (- 4) * 400"
    by simp_all
  have b: "y + (- 492) * 4 = y + 1 - 1969" "y + (- 19) * 100 = y + 1 - 1901" "y + (- 4) * 400 = y + 1 - 1601"
    by simp_all
  have d4: "(y + 1 - 1969) div 4 = (y - 1969) div 4 + (if y mod 4 = 0 then 1 else 0)"
    using div_succ [of 4 "y - 1969"] unfolding a mod_mult_self1 unfolding b by (simp only: zero_less_numeral)
  have d100: "(y + 1 - 1901) div 100 = (y - 1901) div 100 + (if y mod 100 = 0 then 1 else 0)"
    using div_succ [of 100 "y - 1901"] unfolding a mod_mult_self1 unfolding b by (simp only: zero_less_numeral)
  have d400: "(y + 1 - 1601) div 400 = (y - 1601) div 400 + (if y mod 400 = 0 then 1 else 0)"
    using div_succ [of 400 "y - 1601"] unfolding a mod_mult_self1 unfolding b by (simp only: zero_less_numeral)
  have dv: "y mod 400 = 0 \<Longrightarrow> y mod 100 = 0" "y mod 100 = 0 \<Longrightarrow> y mod 4 = 0"
    unfolding mod_eq_0_iff_dvd using dvd_trans [of 100 400 y] dvd_trans [of 4 100 y] by simp_all
  have "year_start (y + 1) = year_start y + 365 + (if y mod 4 = 0 then 1 else 0)
      - (if y mod 100 = 0 then 1 else 0) + (if y mod 400 = 0 then 1 else 0)"
    unfolding year_start_def d4 d100 d400 by simp
  then show ?thesis using dv by (auto simp: daysInMonth_def is_leap_def)
qed

lemma year_start_mono: "a \<le> b \<Longrightarrow> year_start a \<le> year_start b"
proof (induction "nat (b - a)" arbitrary: b)
  case 0
  then show ?case by simp
next
  case (Suc n)
  then have "year_start a \<le> year_start (b - 1)" by simp
  moreover have "year_start b = year_start (b - 1) + 337 + daysInMonth (b - 1) 2"
    using year_start_Suc [of "b - 1"] by simp
  ultimately show ?case using daysInMonth_bounds [of "b - 1" 2] by linarith
qed

lemma month_start_mono: "1 \<le> m \<Longrightarrow> m \<le> n \<Longrightarrow> month_start y m \<le> month_start y n"
proof (induction "nat (n - m)" arbitrary: n)
  case 0
  then show ?case by simp
next
  case (Suc k)
  then have "month_start y m \<le> month_start y (n - 1)" by simp
  moreover have "month_start y n = month_start y (n - 1) + daysInMonth y (n - 1)"
    using month_start_simps(2) [of "n - 1" y] Suc.hyps(2) Suc.prems by simp
  ultimately show ?case using daysInMonth_bounds [of y "n - 1"] by linarith
qed

text \<open>The text order of two valid dates is the order of their day numbers.\<close>

lemma day_number_less:
  assumes "valid_date a" "valid_date b" "a < b"
  shows "day_number a < day_number b"
proof -
  consider (year) "year a < year b" | (month) "year a = year b" "month a < month b"
    | (day) "year a = year b" "month a = month b" "day a < day b"
    using assms(3) by (auto simp: less_date_def)
  then show ?thesis
  proof cases
    case year
    have "month_start (year a) (month a) + daysInMonth (year a) (month a) \<le> month_start (year a) 13"
      using month_start_simps(2) [of "month a" "year a"] month_start_mono [of "month a + 1" 13 "year a"] assms(1)
      by (simp add: valid_date_def)
    moreover have "year_start (year a + 1) \<le> year_start (year b)" using year by (intro year_start_mono) simp
    moreover have "0 \<le> month_start (year b) (month b)"
      using month_start_mono [of 1 "month b" "year b"] assms(2) by (simp add: valid_date_def month_start_simps(1))
    ultimately show ?thesis
      using assms(1,2) by (simp add: day_number_def valid_date_def year_start_Suc month_start_table)
  next
    case month
    have "month_start (year a) (month a) + daysInMonth (year a) (month a) \<le> month_start (year a) (month b)"
      using month_start_simps(2) [of "month a" "year a"] month_start_mono [of "month a + 1" "month b" "year a"]
        assms(1) month by (simp add: valid_date_def)
    then show ?thesis using assms(1,2) month by (simp add: day_number_def valid_date_def)
  next
    case day
    then show ?thesis by (simp add: day_number_def)
  qed
qed

lemma day_number_less_iff:
  "valid_date a \<Longrightarrow> valid_date b \<Longrightarrow> day_number a < day_number b \<longleftrightarrow> a < b"
  by (metis day_number_less less_asym linorder_less_linear order_less_irrefl)

lemma day_number_le_iff:
  "valid_date a \<Longrightarrow> valid_date b \<Longrightarrow> day_number a \<le> day_number b \<longleftrightarrow> a \<le> b"
  by (metis day_number_less_iff not_less)

lemma valid_next_day: "valid_date d \<Longrightarrow> valid_date (next_day d)"
  using daysInMonth_bounds(1) [of "year d" "month d + 1"] daysInMonth_bounds(1) [of "year d + 1" 1]
  by (auto simp: valid_date_def next_day_def)

lemma day_number_next_day: "valid_date d \<Longrightarrow> day_number (next_day d) = day_number d + 1"
  using month_start_simps(2) [of "month d" "year d"]
  by (auto simp: valid_date_def next_day_def day_number_def month_start_simps(1) year_start_Suc
      month_start_table daysInMonth_def [of _ 12])

lemma valid_add_days: "valid_date d \<Longrightarrow> valid_date (add_days d n)"
  by (induction n) (simp_all add: add_days_def valid_next_day)

lemma day_number_add_days: "valid_date d \<Longrightarrow> day_number (add_days d n) = day_number d + int n"
  by (induction n) (simp_all add: add_days_def day_number_next_day valid_add_days [unfolded add_days_def])

lemma valid_addMonthsClamped:
  assumes "1 \<le> target"
  shows "valid_date (addMonthsClamped d n target)"
  using assms daysInMonth_bounds(1) [of "year d + (month d - 1 + n) div 12" "(month d - 1 + n) mod 12 + 1"]
    pos_mod_bound [of 12 "month d - 1 + n"]
  by (simp add: addMonthsClamped_def Let_def valid_date_def)

lemma addMonthsClamped_later:
  assumes "1 \<le> month d" "month d \<le> 12" "0 < n"
  shows "d < addMonthsClamped d n target"
proof -
  let ?z = "month d - 1 + n"
  have "year d * 12 + (month d - 1) < year d * 12 + ?z" using assms by simp
  then show ?thesis using assms by (auto simp: addMonthsClamped_def Let_def less_date_def)
qed

end
