(* ===== verification/TaxEngine.thy ===== *)
theory TaxEngine
  imports Money Calendar
begin

text \<open>
  \<open>modules/cashiering/tax-engine.js\<close> with \<open>resolveEffectiveTax\<close> of \<open>modules/setup/service.js\<close>:
  which tax versions apply to a charge on a business date, and what they add to it. Charge
  amounts are cents; a tax rate is the DECIMAL(12,4) column \<open>taxes.rate\<close>, in ten-thousandths
  (of a percent, or of the currency unit for a flat tax). A tax line carries ten-thousandths
  too, since a flat tax passes its rate on as the amount, unrounded.
\<close>

section \<open>Resolving versions\<close>

record tax =
  tax_code :: string
  tax_name :: string
  tax_rate :: int
  calculation_method :: string
  is_compound :: bool
  is_inclusive :: bool
  applies_to :: string
  effective_from :: date
  effective_to :: "date option"
  priority :: "int option"
  tax_enabled :: bool

definition covers :: "date \<Rightarrow> tax \<Rightarrow> bool" where
  "covers d v \<longleftrightarrow> effective_from v \<le> d \<and> (case effective_to v of None \<Rightarrow> True | Some e \<Rightarrow> d \<le> e)"

definition resolveEffectiveTax :: "tax list \<Rightarrow> date \<Rightarrow> tax option" where
  "resolveEffectiveTax versions d = find (covers d) versions"

text \<open>The \<open>Map\<close> by tax code iterates its keys in order of first appearance.\<close>

fun codes_in_order :: "tax list \<Rightarrow> string list" where
  "codes_in_order [] = []"
| "codes_in_order (t # ts) = tax_code t # filter (\<lambda>c. c \<noteq> tax_code t) (codes_in_order ts)"

definition versions_of :: "tax list \<Rightarrow> string \<Rightarrow> tax list" where
  "versions_of allTaxRows code = filter (\<lambda>t. tax_code t = code) allTaxRows"

definition exact_match_charge_types :: "string list" where
  "exact_match_charge_types = [''supermarket_sale'']"

definition tax_applies :: "string \<Rightarrow> tax \<Rightarrow> bool" where
  "tax_applies chargeType v \<longleftrightarrow> tax_enabled v \<and>
     (if chargeType \<in> set exact_match_charge_types then applies_to v = chargeType
      else applies_to v = ''all'' \<or> applies_to v = chargeType)"

definition priority_of :: "tax \<Rightarrow> int" where
  "priority_of t = (case priority t of None \<Rightarrow> 0 | Some p \<Rightarrow> p)"

definition resolveApplicableTaxVersions :: "tax list \<Rightarrow> date \<Rightarrow> string \<Rightarrow> tax list" where
  "resolveApplicableTaxVersions allTaxRows d chargeType =
     sort_key priority_of
       (filter (tax_applies chargeType)
         (List.map_filter (\<lambda>c. resolveEffectiveTax (versions_of allTaxRows c) d) (codes_in_order allTaxRows)))"

section \<open>Applying them to a charge\<close>

record tax_line =
  tl_code :: string
  tl_name :: string
  tl_amount :: int

record taxed =
  netAmount :: int
  grossAmount :: int
  taxLines :: "tax_line list"

text \<open>\<open>sumMoney\<close> reads a 4-decimal rate to two decimals: the rest of its fraction is cut off.\<close>

definition rate_as_cents :: "int \<Rightarrow> int" where
  "rate_as_cents r = r sdiv 100"

definition tax_step :: "int \<Rightarrow> taxed \<Rightarrow> tax \<Rightarrow> taxed" where
  "tax_step baseAmount st t =
     (if calculation_method t = ''flat_amount'' then
        st\<lparr>grossAmount := grossAmount st + rate_as_cents (tax_rate t),
           taxLines := taxLines st @ [\<lparr>tl_code = tax_code t, tl_name = tax_name t, tl_amount = tax_rate t\<rparr>]\<rparr>
      else let taxableBase = (if is_compound t then grossAmount st else baseAmount) in
        if is_inclusive t then
          let amount = inclusive_cents taxableBase (tax_rate t) in
          st\<lparr>netAmount := netAmount st + (- amount),
             taxLines := taxLines st @ [\<lparr>tl_code = tax_code t, tl_name = tax_name t, tl_amount = amount * 100\<rparr>]\<rparr>
        else
          let amount = percent_cents taxableBase (tax_rate t) in
          st\<lparr>grossAmount := grossAmount st + amount,
             taxLines := taxLines st @ [\<lparr>tl_code = tax_code t, tl_name = tax_name t, tl_amount = amount * 100\<rparr>]\<rparr>)"

definition computeChargeWithTax :: "int \<Rightarrow> tax list \<Rightarrow> taxed" where
  "computeChargeWithTax baseAmount versions =
     foldl (tax_step baseAmount) \<lparr>netAmount = baseAmount, grossAmount = baseAmount, taxLines = []\<rparr> versions"

text \<open>A DECIMAL(..,2) column rounds what is written to it half away from zero.\<close>

definition column_cents :: "int \<Rightarrow> int" where
  "column_cents tenthousandths = round_half_up tenthousandths 100"

lemma column_cents_exact [simp]: "column_cents (c * 100) = c"
  unfolding column_cents_def by (rule round_half_up_exact) simp

section \<open>Resolution\<close>

lemma find_append: "find P (xs @ ys) = (case find P xs of None \<Rightarrow> find P ys | Some x \<Rightarrow> Some x)"
  by (induction xs) auto

lemma find_filter_none: "\<forall>x \<in> set ys. \<not> P x \<Longrightarrow> find P ys = None"
  by (induction ys) auto

lemma resolveEffectiveTax_SomeD:
  assumes "resolveEffectiveTax vs d = Some v"
  shows "v \<in> set vs" "covers d v"
  using assms by (auto simp: resolveEffectiveTax_def find_Some_iff)

lemma set_codes_in_order [simp]: "set (codes_in_order ts) = tax_code ` set ts"
  by (induction ts) auto

lemma distinct_codes_in_order [simp]: "distinct (codes_in_order ts)"
  by (induction ts) auto

lemma codes_in_order_append_old:
  "tax_code t \<in> tax_code ` set ts \<Longrightarrow> codes_in_order (ts @ [t]) = codes_in_order ts"
proof (induction ts)
  case (Cons x xs)
  show ?case
  proof (cases "tax_code t \<in> tax_code ` set xs")
    case True
    then show ?thesis using Cons by simp
  next
    case False
    then have e: "tax_code x = tax_code t" using Cons.prems by auto
    have "codes_in_order (xs @ [t]) = codes_in_order xs @ [tax_code t]"
      using False by (induction xs) auto
    then show ?thesis using e by simp
  qed
qed simp

lemma codes_in_order_append_new:
  "tax_code t \<notin> tax_code ` set ts \<Longrightarrow> codes_in_order (ts @ [t]) = codes_in_order ts @ [tax_code t]"
  by (induction ts) auto

lemma map_filter_append: "List.map_filter f (xs @ ys) = List.map_filter f xs @ List.map_filter f ys"
  by (simp add: List.map_filter_def)

lemma set_map_filter: "set (List.map_filter f xs) = {y. \<exists>x \<in> set xs. f x = Some y}"
  by (induction xs) (auto simp: List.map_filter_simps split: option.splits)

lemma distinct_resolved_codes:
  assumes "distinct cs" "\<And>c v. f c = Some v \<Longrightarrow> tax_code v = c"
  shows "distinct (map tax_code (List.map_filter f cs))"
  using assms(1) by (induction cs) (auto simp: List.map_filter_simps set_map_filter assms(2) split: option.splits)

lemma map_filter_cong: "(\<And>x. x \<in> set xs \<Longrightarrow> f x = g x) \<Longrightarrow> List.map_filter f xs = List.map_filter g xs"
  by (induction xs) (auto simp: List.map_filter_simps split: option.splits)

text \<open>A version that does not cover the date changes nothing, whatever code it carries.\<close>

lemma resolved_append_irrelevant:
  assumes "\<not> covers d t"
  shows "List.map_filter (\<lambda>c. resolveEffectiveTax (versions_of (ts @ [t]) c) d) (codes_in_order (ts @ [t])) =
    List.map_filter (\<lambda>c. resolveEffectiveTax (versions_of ts c) d) (codes_in_order ts)"
proof -
  have eq: "resolveEffectiveTax (versions_of (ts @ [t]) c) d = resolveEffectiveTax (versions_of ts c) d" for c
    using assms by (simp add: resolveEffectiveTax_def versions_of_def find_append split: option.splits)
  show ?thesis
  proof (cases "tax_code t \<in> tax_code ` set ts")
    case True
    then show ?thesis by (simp add: eq codes_in_order_append_old)
  next
    case False
    then have "versions_of ts (tax_code t) = []" unfolding versions_of_def filter_empty_conv by (metis imageI)
    then have "List.map_filter (\<lambda>c. resolveEffectiveTax (versions_of ts c) d) [tax_code t] = []"
      by (simp add: resolveEffectiveTax_def List.map_filter_simps)
    then show ?thesis using False by (simp add: eq codes_in_order_append_new map_filter_append)
  qed
qed

section \<open>What the taxes add up to\<close>

definition whole_cents :: "tax \<Rightarrow> bool" where
  "whole_cents t \<longleftrightarrow> calculation_method t = ''flat_amount'' \<longrightarrow> 100 dvd tax_rate t"

definition lines_total :: "tax_line list \<Rightarrow> int" where
  "lines_total ls = sum_list (map (\<lambda>l. column_cents (tl_amount l)) ls)"

lemma rate_as_cents_exact: "100 dvd r \<Longrightarrow> rate_as_cents r = column_cents r"
proof -
  assume "100 dvd r"
  then obtain k where r: "r = k * 100" by (auto simp: dvd_def mult.commute)
  have "k * 100 sdiv 100 = k"
    by (simp add: signed_divide_int_def sgn_mult abs_mult mult.assoc [symmetric] mult_sgn_abs)
  then show ?thesis using r by (simp add: rate_as_cents_def)
qed

lemma tax_step_balance:
  assumes "whole_cents t"
  shows "grossAmount (tax_step b st t) - netAmount (tax_step b st t) - lines_total (taxLines (tax_step b st t))
       = grossAmount st - netAmount st - lines_total (taxLines st)"
  using assms rate_as_cents_exact [of "tax_rate t"]
  by (auto simp: tax_step_def Let_def lines_total_def whole_cents_def)

lemma tax_steps_balance:
  assumes "\<forall>t \<in> set ts. whole_cents t"
  shows "grossAmount (foldl (tax_step b) st ts) - netAmount (foldl (tax_step b) st ts)
           - lines_total (taxLines (foldl (tax_step b) st ts))
       = grossAmount st - netAmount st - lines_total (taxLines st)"
  using assms by (induction ts arbitrary: st) (simp_all add: tax_step_balance)

lemma tax_steps_bounds:
  assumes "\<forall>t \<in> set ts. 0 \<le> tax_rate t" "0 \<le> b" "b \<le> grossAmount st" "netAmount st \<le> b"
  shows "b \<le> grossAmount (foldl (tax_step b) st ts) \<and> netAmount (foldl (tax_step b) st ts) \<le> b"
  using assms
proof (induction ts arbitrary: st)
  case (Cons t ts)
  let ?st = "tax_step b st t"
  have r: "0 \<le> tax_rate t" and base: "0 \<le> (if is_compound t then grossAmount st else b)" using Cons.prems by simp_all
  have "0 \<le> percent_cents (if is_compound t then grossAmount st else b) (tax_rate t)"
    using base r by (rule percent_cents_nonneg)
  moreover have "0 \<le> inclusive_cents (if is_compound t then grossAmount st else b) (tax_rate t)"
    using inclusive_cents_bounds [OF base r] by simp
  moreover have "0 \<le> rate_as_cents (tax_rate t)" using r by (simp add: rate_as_cents_def sdiv_nonneg)
  ultimately have "b \<le> grossAmount ?st" "netAmount ?st \<le> b"
    using Cons.prems by (auto simp: tax_step_def Let_def)
  then show ?case using Cons by simp
qed simp

lemma one_line_per_tax: "length (taxLines (foldl (tax_step b) st ts)) = length (taxLines st) + length ts"
  by (induction ts arbitrary: st) (auto simp: tax_step_def Let_def)

section \<open>Properties\<close>

text \<open>
  Resolving the taxes of a charge is reproducible and exact: at most one version per tax
  code comes out, in priority order, each one switched on, effective on the business date and
  meant for the charge type (a supermarket sale never picks up a tax that applies to all), and
  writing a version that does not cover the date, such as tomorrow's rate, changes nothing.
\<close>

theorem resolve_taxes_reproducible:
  "distinct (map tax_code (resolveApplicableTaxVersions taxrows d ct))
   \<and> sorted (map priority_of (resolveApplicableTaxVersions taxrows d ct))
   \<and> set (resolveApplicableTaxVersions taxrows d ct) \<subseteq>
       {v. v \<in> set taxrows \<and> covers d v \<and> tax_enabled v \<and> (applies_to v = ct \<or> applies_to v = ''all'' \<and> ct \<noteq> ''supermarket_sale'')}
   \<and> (\<not> covers d t \<longrightarrow>
       resolveApplicableTaxVersions (taxrows @ [t]) d ct = resolveApplicableTaxVersions taxrows d ct)"
proof -
  let ?f = "\<lambda>c. resolveEffectiveTax (versions_of taxrows c) d"
  have code: "tax_code v = c" "v \<in> set taxrows" "covers d v" if "?f c = Some v" for c v
    using resolveEffectiveTax_SomeD [OF that] by (auto simp: versions_of_def)
  have "distinct (map tax_code (List.map_filter ?f (codes_in_order taxrows)))"
    by (rule distinct_resolved_codes) (auto simp: code)
  then have "distinct (map tax_code (filter (tax_applies ct) (List.map_filter ?f (codes_in_order taxrows))))"
    by (rule distinct_map_filter)
  then have "distinct (map tax_code (resolveApplicableTaxVersions taxrows d ct))"
    by (simp add: resolveApplicableTaxVersions_def distinct_map)
  moreover have "set (resolveApplicableTaxVersions taxrows d ct) \<subseteq>
       {v. v \<in> set taxrows \<and> covers d v \<and> tax_enabled v \<and> (applies_to v = ct \<or> applies_to v = ''all'' \<and> ct \<noteq> ''supermarket_sale'')}"
    using code by (auto simp: resolveApplicableTaxVersions_def set_map_filter tax_applies_def
        exact_match_charge_types_def split: if_splits)
  ultimately show ?thesis
    by (simp add: resolveApplicableTaxVersions_def resolved_append_irrelevant)
qed

definition vat_2025 :: tax where
  "vat_2025 = \<lparr>tax_code = ''VAT'', tax_name = ''VAT'', tax_rate = 75000, calculation_method = ''percentage'',
     is_compound = False, is_inclusive = False, applies_to = ''all'', effective_from = Date 2025 1 1,
     effective_to = None, priority = Some 1, tax_enabled = True\<rparr>"

definition vat_2027 :: tax where
  "vat_2027 = vat_2025\<lparr>tax_rate := 100000, effective_from := Date 2027 1 1\<rparr>"

theorem resolve_taxes_reproducible_witness:
  "resolveApplicableTaxVersions ([vat_2025] @ [vat_2027]) (Date 2026 5 1) ''room_charge''
     = resolveApplicableTaxVersions [vat_2025] (Date 2026 5 1) ''room_charge''
   \<and> \<not> covers (Date 2026 5 1) vat_2027"
proof -
  have "\<not> covers (Date 2026 5 1) vat_2027"
    by (simp add: covers_def vat_2027_def vat_2025_def less_eq_date_def)
  then show ?thesis
    using resolve_taxes_reproducible [of "[vat_2025]" "Date 2026 5 1" "''room_charge''" vat_2027] by simp
qed

text \<open>
  Taxing a charge accounts for every cent: with rates that are not negative and flat rates
  in whole cents, the gross amount exceeds the net amount by exactly the sum of the tax lines,
  there is one line per tax in order, and the quoted amount lies between net and gross.
\<close>

theorem compute_charge_accounts:
  assumes "\<forall>t \<in> set ts. 0 \<le> tax_rate t \<and> whole_cents t" "0 \<le> base"
  shows "grossAmount (computeChargeWithTax base ts) =
      netAmount (computeChargeWithTax base ts) + lines_total (taxLines (computeChargeWithTax base ts))
    \<and> length (taxLines (computeChargeWithTax base ts)) = length ts
    \<and> netAmount (computeChargeWithTax base ts) \<le> base \<and> base \<le> grossAmount (computeChargeWithTax base ts)"
proof -
  let ?st = "\<lparr>netAmount = base, grossAmount = base, taxLines = []\<rparr>"
  show ?thesis
    using tax_steps_balance [of ts base ?st] tax_steps_bounds [of ts base ?st] one_line_per_tax [of base ?st ts] assms
    by (simp add: computeChargeWithTax_def lines_total_def)
qed

theorem compute_charge_accounts_witness:
  "grossAmount (computeChargeWithTax 10000 [vat_2025, vat_2027]) =
     netAmount (computeChargeWithTax 10000 [vat_2025, vat_2027])
     + lines_total (taxLines (computeChargeWithTax 10000 [vat_2025, vat_2027]))
   \<and> grossAmount (computeChargeWithTax 10000 [vat_2025, vat_2027]) = 11750"
proof -
  have "grossAmount (computeChargeWithTax 10000 [vat_2025, vat_2027]) = 11750" by code_simp
  then show ?thesis
    using compute_charge_accounts [of "[vat_2025, vat_2027]" 10000]
    by (simp add: vat_2025_def vat_2027_def whole_cents_def)
qed

end
