(* ===== verification/Store.thy ===== *)
theory Store
  imports TaxEngine
begin

text \<open>
  The tables of one property the money modules share: folios and their lines, payments,
  accounts receivable. A row is a record of the columns the code reads or writes; columns
  that only carry descriptions of an event (folio numbers, references, actor stamps) are left
  out where nothing reads them. \<open>hotel\<close> is the whole of it, as one transaction sees it.
  Money columns are cents.

  The locale \<open>derived_column\<close> is the rule both balances follow (\<open>folios.balance\<close> and
  \<open>ar_accounts.current_balance\<close>): never adjusted in place, always written back from the rows
  it summarises. Its lemmas are what the operations' proofs rest on.
\<close>

section \<open>Rows\<close>

datatype line_type = RoomCharge | PosCharge | TaxLine | Adjustment | PaymentLine | RefundLine

datatype payment_status = INITIATED | PENDING | CAPTURED | FAILED | EXPIRED | VOIDED
  | REFUNDED | PARTIALLY_REFUNDED | CANCELLED

record folio =
  f_reservation :: nat
  f_status :: string
  f_balance :: int
  f_currency :: string
  f_billed_to :: string
  f_company :: "nat option"

record folio_line =
  l_folio :: nat
  l_type :: line_type
  l_description :: string
  l_amount :: int
  l_currency :: string
  l_tax_amount :: int
  l_method :: "string option"
  l_payment :: "nat option"
  l_business_date :: date
  l_related :: "nat option"
  l_voided :: bool
  l_void_reason :: "string option"

record payment =
  p_folio :: "nat option"
  p_order :: "nat option"
  p_target :: string
  p_key :: string
  p_provider :: string
  p_reference :: string
  p_amt :: int
  p_currency :: string
  p_status :: payment_status
  p_parent :: "nat option"
  p_provider_payment :: "string option"
  p_access_code :: "string option"
  p_subaccount :: "string option"
  p_failure :: "string option"
  p_created :: int

record ar_account =
  a_company :: nat
  a_limit :: int
  a_currency :: string
  a_mode :: string
  a_status :: string
  a_opening :: int
  a_balance :: int
  a_over :: bool

record company =
  c_name :: string
  c_terms :: nat

record ar_invoice =
  i_account :: nat
  i_number :: string
  i_currency :: string
  i_total :: int
  i_status :: string
  i_issued :: date
  i_due :: date

record ar_invoice_line =
  il_invoice :: nat
  il_line :: nat
  il_amount :: int

record ar_payment =
  ap_account :: nat
  ap_amount :: int
  ap_currency :: string
  ap_date :: "date option"
  ap_voided :: bool

record ar_application =
  aa_payment :: nat
  aa_invoice :: nat
  aa_amount :: int
  aa_voided :: bool

record daily_rate =
  dr_reservation :: nat
  dr_date :: date
  dr_rate :: int
  dr_currency :: string

record terminal_account =
  ta_provider :: "string option"
  ta_number :: string
  ta_label :: "string option"
  ta_bank :: "string option"

record terminal_detail =
  td_payment :: nat
  td_provider :: "string option"
  td_reference :: "string option"
  td_label :: "string option"
  td_last4 :: "string option"

record refund_check =
  rc_payment :: nat
  rc_reason :: "string option"
  rc_attempts :: nat
  rc_result :: "string option"
  rc_last :: "int option"
  rc_date :: "date option"

record pos_order =
  po_outlet :: nat
  po_status :: string

record settlement =
  s_order :: nat
  s_payment :: "nat option"
  s_tip_line :: "nat option"
  s_voided :: bool
  s_void_reason :: "string option"

text \<open>A Paystack subaccount money is paid out to, of an outlet or of the property.\<close>

record payout_account =
  pa_owner :: nat
  pa_code :: string
  pa_active :: bool

record sale_intent =
  si_payment :: nat
  si_outlet :: nat

record hotel =
  property_id :: nat
  business_date :: "date option"
  folios :: "folio table"
  line_items :: "folio_line table"
  payments :: "payment table"
  taxes :: "tax list"
  accounts :: "ar_account table"
  companies :: "company table"
  invoices :: "ar_invoice table"
  invoice_lines :: "ar_invoice_line table"
  invoice_seq :: "nat option"
  ar_payments :: "ar_payment table"
  applications :: "ar_application table"
  daily_rates :: "daily_rate table"
  block_of :: "nat \<Rightarrow> nat option"
  closed_days :: "date list"
  reported_days :: "date list"
  terminal_accounts :: "terminal_account table"
  terminal_details :: "terminal_detail table"
  refund_checks :: "refund_check table"
  orders :: "pos_order table"
  settlements :: "settlement table"
  outlet_payouts :: "payout_account table"
  property_payouts :: "payout_account table"
  sale_intents :: "sale_intent table"

text \<open>A property that has been set up and has done no business.\<close>

definition new_hotel :: hotel where
  "new_hotel = \<lparr>property_id = 1, business_date = Some (Date 2026 5 1), folios = t_empty, line_items = t_empty,
     payments = t_empty, taxes = [], accounts = t_empty, companies = t_empty, invoices = t_empty,
     invoice_lines = t_empty, invoice_seq = None, ar_payments = t_empty, applications = t_empty,
     daily_rates = t_empty, block_of = (\<lambda>_. None), closed_days = [], reported_days = [],
     terminal_accounts = t_empty, terminal_details = t_empty, refund_checks = t_empty,
     orders = t_empty, settlements = t_empty, outlet_payouts = t_empty, property_payouts = t_empty, sale_intents = t_empty\<rparr>"

section \<open>Columns written back from the rows they summarise\<close>

locale derived_column =
  fixes column :: "'db \<Rightarrow> nat \<Rightarrow> int option"
    and truth :: "'db \<Rightarrow> nat \<Rightarrow> int"
    and recompute :: "nat \<Rightarrow> 'db \<Rightarrow> 'db"
  assumes recompute_here: "column db k \<noteq> None \<Longrightarrow> column (recompute k db) k = Some (truth db k)"
    and recompute_absent: "column db k = None \<Longrightarrow> column (recompute k db) k = None"
    and recompute_elsewhere: "j \<noteq> k \<Longrightarrow> column (recompute k db) j = column db j"
    and truth_recompute: "truth (recompute k db) j = truth db j"
begin

definition right_at :: "'db \<Rightarrow> nat \<Rightarrow> bool" where
  "right_at db k \<longleftrightarrow> (\<forall>b. column db k = Some b \<longrightarrow> b = truth db k)"

lemma right_after: "right_at (recompute k db) k"
  using recompute_here [of db k] recompute_absent [of db k] truth_recompute [of k db k]
  by (cases "column db k") (auto simp: right_at_def)

lemma right_kept: "right_at db j \<Longrightarrow> right_at (recompute k db) j"
proof (cases "j = k")
  case False
  then show "right_at db j \<Longrightarrow> right_at (recompute k db) j"
    by (simp add: right_at_def recompute_elsewhere truth_recompute)
qed (simp add: right_after)

text \<open>A write that moves the truth of a few keys is repaired by recomputing those keys.\<close>

lemma right_after_touch:
  assumes "\<And>j. right_at db j" "\<And>j. j \<noteq> k \<Longrightarrow> column db' j = column db j"
    and "\<And>j. j \<noteq> k \<Longrightarrow> truth db' j = truth db j"
  shows "right_at (recompute k db') j"
proof (cases "j = k")
  case False
  then have "right_at db' j" using assms by (simp add: right_at_def)
  then show ?thesis by (rule right_kept)
qed (simp add: right_after)

lemma right_after_touch_two:
  assumes "\<And>j. right_at db j" "\<And>j. j \<noteq> k \<Longrightarrow> j \<noteq> m \<Longrightarrow> column db' j = column db j"
    and "\<And>j. j \<noteq> k \<Longrightarrow> j \<noteq> m \<Longrightarrow> truth db' j = truth db j"
  shows "right_at (recompute m (recompute k db')) j"
proof -
  consider "j = m" | "j = k" | "j \<noteq> k" "j \<noteq> m" by blast
  then show ?thesis
  proof cases
    case 3
    then have "right_at db' j" using assms by (simp add: right_at_def)
    then show ?thesis by (intro right_kept)
  qed (auto intro: right_after right_kept)
qed

end

section \<open>Columns decided once\<close>

text \<open>
  A column that conditional updates fill and nothing empties: once it has a value, every later step keeps it. The
  outcome of a webhook event and the settlement of a payment are decided this way.
\<close>

locale write_once =
  fixes step :: "'db \<Rightarrow> 'db \<Rightarrow> bool" and decided :: "'db \<Rightarrow> nat \<Rightarrow> 'v option"
  assumes step_keeps: "step db db' \<Longrightarrow> decided db k = Some v \<Longrightarrow> decided db' k = Some v"
begin

lemma kept: "step\<^sup>*\<^sup>* db db' \<Longrightarrow> decided db k = Some v \<Longrightarrow> decided db' k = Some v"
  by (induction rule: rtranclp_induct) (auto dest: step_keeps)

lemma never_two: "step\<^sup>*\<^sup>* db db1 \<Longrightarrow> step\<^sup>*\<^sup>* db1 db2 \<Longrightarrow> decided db1 k = Some v \<Longrightarrow> decided db2 k = Some w \<Longrightarrow> v = w"
  using kept by fastforce

end

end
