(* ===== verification/Receivables.thy ===== *)
theory Receivables
  imports Store Validation
begin

text \<open>
  \<open>modules/ar/service.js\<close> and \<open>modules/ar/ageing.js\<close>: accounts receivable. An operation takes the
  \<open>hotel\<close> and returns its result with the changed \<open>hotel\<close>, or the error that rolled its transaction
  back. Row locks have no counterpart: a transaction is one step, which is what the locks buy.
  The outbox events are left out (no operation reads them).
\<close>

section \<open>The balance of an account\<close>

definition ar_charge_types :: "line_type list" where
  "ar_charge_types = [RoomCharge, PosCharge, TaxLine, Adjustment]"

definition billed_to_company :: "hotel \<Rightarrow> nat \<Rightarrow> folio_line \<Rightarrow> bool" where
  "billed_to_company db c l = (case t_get (folios db) (l_folio l) of None \<Rightarrow> False | Some f \<Rightarrow> f_company f = Some c)"

definition chargeTotal :: "hotel \<Rightarrow> nat \<Rightarrow> int" where
  "chargeTotal db c = t_total (\<lambda>i l. billed_to_company db c l \<and> \<not> l_voided l \<and> l_type l \<in> set ar_charge_types)
     l_amount (line_items db)"

definition paymentTotal :: "hotel \<Rightarrow> nat \<Rightarrow> int" where
  "paymentTotal db k = t_total (\<lambda>i p. ap_account p = k \<and> \<not> ap_voided p) ap_amount (ar_payments db)"

definition owed :: "hotel \<Rightarrow> ar_account \<Rightarrow> nat \<Rightarrow> int" where
  "owed db a k = chargeTotal db (a_company a) + - paymentTotal db k + a_opening a"

definition recomputeArAccountBalance :: "nat \<Rightarrow> hotel \<Rightarrow> ar_account option \<times> hotel" where
  "recomputeArAccountBalance k db = (case t_get (accounts db) k of
     None \<Rightarrow> (None, db)
   | Some a \<Rightarrow>
      let balance = owed db a k; isOverLimit = balance > a_limit a;
          set = (\<lambda>a. a\<lparr>a_balance := balance, a_over := isOverLimit\<rparr>)
      in (Some (set a), db\<lparr>accounts := t_update (by_id k) set (accounts db)\<rparr>))"

definition account_for_company :: "hotel \<Rightarrow> nat \<Rightarrow> (nat \<times> ar_account) option" where
  "account_for_company db c = t_first (\<lambda>i a. a_company a = c) (accounts db)"

definition getActiveAccountForCompanyAtProperty :: "hotel \<Rightarrow> nat \<Rightarrow> (nat \<times> ar_account) option" where
  "getActiveAccountForCompanyAtProperty db c = t_first (\<lambda>i a. a_company a = c \<and> a_status a = ''active'') (accounts db)"

record credit_check =
  cc_account :: nat
  cc_over :: bool
  cc_overridden :: bool

definition assertWithinCreditLimit ::
    "nat \<Rightarrow> int \<Rightarrow> bool \<Rightarrow> string option \<Rightarrow> hotel \<Rightarrow> (credit_check \<times> hotel) result" where
  "assertWithinCreditLimit c additionalAmount overrideCreditLimit overrideReason db =
     (case account_for_company db c of
        None \<Rightarrow> Inl ArAccountNotFoundError
      | Some (k, a) \<Rightarrow>
        if a_status a \<noteq> ''active'' then Inl ArAccountNotFoundError
        else (case recomputeArAccountBalance k db of
            (None, _) \<Rightarrow> Inl TypeError
          | (Some recomputed, db1) \<Rightarrow>
            let projected = a_balance recomputed + additionalAmount in
            if projected > a_limit a then
              if a_mode a = ''flag_only'' then Inr (\<lparr>cc_account = k, cc_over = True, cc_overridden = False\<rparr>, db1)
              else if overrideCreditLimit then
                if \<not> given overrideReason then Inl CreditLimitOverrideReasonRequiredError
                else Inr (\<lparr>cc_account = k, cc_over = True, cc_overridden = True\<rparr>, db1)
              else Inl (CreditLimitExceededError k projected (a_limit a))
            else Inr (\<lparr>cc_account = k, cc_over = False, cc_overridden = False\<rparr>, db1)))"

definition createArAccount ::
    "nat \<Rightarrow> int option \<Rightarrow> string \<Rightarrow> string option \<Rightarrow> hotel \<Rightarrow> (nat \<times> hotel) result" where
  "createArAccount c creditLimit currency enforcementMode db =
     (case t_get (companies db) c of
        None \<Rightarrow> Inl CompanyProfileNotFoundError
      | Some _ \<Rightarrow>
        if account_for_company db c \<noteq> None then Inl (DuplicateEntry ''ar_accounts'')
        else Inr (next_id (accounts db), db\<lparr>accounts := t_insert
          \<lparr>a_company = c, a_limit = (case creditLimit of None \<Rightarrow> 0 | Some l \<Rightarrow> l), a_currency = currency,
           a_mode = (case enforcementMode of None \<Rightarrow> ''block'' | Some m \<Rightarrow> m), a_status = ''active'',
           a_opening = 0, a_balance = 0, a_over = False\<rparr> (accounts db)\<rparr>))"

record account_changes =
  ch_limit :: "int option"
  ch_mode :: "string option"
  ch_status :: "string option"

definition updateArAccount :: "nat \<Rightarrow> account_changes \<Rightarrow> hotel \<Rightarrow> ar_account option \<times> hotel" where
  "updateArAccount k ch db =
     (let change = (\<lambda>a. a\<lparr>a_limit := (case ch_limit ch of None \<Rightarrow> a_limit a | Some l \<Rightarrow> l),
                          a_mode := (case ch_mode ch of None \<Rightarrow> a_mode a | Some m \<Rightarrow> m),
                          a_status := (case ch_status ch of None \<Rightarrow> a_status a | Some s \<Rightarrow> s)\<rparr>);
          db1 = db\<lparr>accounts := t_update (by_id k) change (accounts db)\<rparr>
      in if ch_limit ch \<noteq> None then recomputeArAccountBalance k db1
         else (t_get (accounts db1) k, db1))"

section \<open>Invoices\<close>

definition formatInvoiceNumber :: "nat \<Rightarrow> nat \<Rightarrow> string" where
  "formatInvoiceNumber pid n = ''INV-'' @ show_nat pid @ ''-'' @ pad_start 6 CHR ''0'' (show_nat n)"

definition nextInvoiceNumber :: "hotel \<Rightarrow> string \<times> hotel" where
  "nextInvoiceNumber db =
     (let n = (case invoice_seq db of None \<Rightarrow> 1 | Some n \<Rightarrow> n)
      in (formatInvoiceNumber (property_id db) n, db\<lparr>invoice_seq := Some (n + 1)\<rparr>))"

definition is_invoiced :: "hotel \<Rightarrow> nat \<Rightarrow> bool" where
  "is_invoiced db i \<longleftrightarrow> t_select (\<lambda>_ il. il_line il = i) (invoice_lines db) \<noteq> []"

definition eligible :: "hotel \<Rightarrow> nat \<Rightarrow> nat option \<Rightarrow> nat \<Rightarrow> folio_line \<Rightarrow> bool" where
  "eligible db c groupBlockId i l \<longleftrightarrow>
     billed_to_company db c l \<and> \<not> l_voided l \<and> l_type l \<in> set ar_charge_types \<and> \<not> is_invoiced db i \<and>
     (case groupBlockId of None \<Rightarrow> True
      | Some g \<Rightarrow> (case t_get (folios db) (l_folio l) of None \<Rightarrow> False
          | Some f \<Rightarrow> block_of db (f_reservation f) = Some g))"

text \<open>The unique key of \<open>ar_invoice_lines\<close> on the folio line refuses a second row for it.\<close>

definition insert_invoice_line :: "nat \<Rightarrow> hotel \<Rightarrow> (nat \<times> folio_line) \<Rightarrow> hotel result" where
  "insert_invoice_line iid db il =
     (let (i, l) = il in
      if is_invoiced db i then Inl (DuplicateEntry ''ar_invoice_lines'')
      else Inr (db\<lparr>invoice_lines :=
        t_insert \<lparr>il_invoice = iid, il_line = i, il_amount = l_amount l\<rparr> (invoice_lines db)\<rparr>))"

definition generateInvoice :: "nat \<Rightarrow> nat option \<Rightarrow> hotel \<Rightarrow> (nat \<times> hotel) result" where
  "generateInvoice k groupBlockId db =
     (case t_get (accounts db) k of
        None \<Rightarrow> Inl ArAccountNotFoundError
      | Some a \<Rightarrow>
        if a_status a \<noteq> ''active'' then Inl ArAccountNotFoundError
        else let eligibleLines = t_select (eligible db (a_company a) groupBlockId) (line_items db) in
          if eligibleLines = [] then Inl NoChargesToInvoiceError
          else let amt = sum_list (map (\<lambda>(i, l). l_amount l) eligibleLines);
                   (number, db1) = nextInvoiceNumber db in
            (case (business_date db1, t_get (companies db1) (a_company a)) of
               (Some today, Some c) \<Rightarrow>
                 let iid = next_id (invoices db1);
                     db2 = db1\<lparr>invoices := t_insert
                       \<lparr>i_account = k, i_number = number, i_currency = a_currency a, i_total = amt,
                        i_status = ''issued'', i_issued = today, i_due = add_days today (c_terms c)\<rparr> (invoices db1)\<rparr>
                 in rbind (foldM (insert_invoice_line iid) db2 eligibleLines) (\<lambda>db3. Inr (iid, db3))
             | _ \<Rightarrow> Inl TypeError))"

definition voidInvoice :: "nat \<Rightarrow> string option \<Rightarrow> hotel \<Rightarrow> hotel result" where
  "voidInvoice iid reason db =
     (if \<not> given reason then Inl (ValidationFieldError ''MISSING_FIELD'' ''reason'' ''missing'')
      else case t_get (invoices db) iid of
        None \<Rightarrow> Inl (ValidationError ''INVOICE_NOT_FOUND'')
      | Some r \<Rightarrow>
        if i_status r = ''void'' then Inl (InvoiceAlreadyVoidError iid)
        else Inr (db\<lparr>invoices := t_update (by_id iid) (\<lambda>r. r\<lparr>i_status := ''void''\<rparr>) (invoices db),
                     applications := t_update (\<lambda>_ x. aa_invoice x = iid \<and> \<not> aa_voided x)
                       (\<lambda>x. x\<lparr>aa_voided := True\<rparr>) (applications db)\<rparr>))"

section \<open>Payments and their applications\<close>

definition requirePositiveAmount :: "string \<Rightarrow> js_value \<Rightarrow> int result" where
  "requirePositiveAmount field v =
     (let text = text_or_number v in
      if \<not> is_amount_text text \<or> cents_of text \<le> 0
      then Inl (ValidationFieldError ''INVALID_AMOUNT'' field ''invalid'') else Inr (cents_of text))"

definition normalizeApplicationList :: "(nat option \<times> js_value) list \<Rightarrow> (nat \<times> int) list result" where
  "normalizeApplicationList reqs =
     (if reqs = [] then Inl (ValidationFieldError ''MISSING_FIELD'' ''applications'' ''missing'')
      else foldM (\<lambda>done (iid, v). case iid of
          None \<Rightarrow> Inl (ValidationFieldError ''MISSING_FIELD'' ''applications[].invoice_id'' ''missing'')
        | Some i \<Rightarrow> rbind (requirePositiveAmount ''applications[].amount'' v) (\<lambda>c. Inr (done @ [(i, c)]))) [] reqs)"

definition upper_char :: "char \<Rightarrow> char" where
  "upper_char c = (let n = of_char c :: nat in if 97 \<le> n \<and> n \<le> 122 then char_of (n - 32) else c)"

definition normalizeCurrency :: "string \<Rightarrow> string" where
  "normalizeCurrency s = map upper_char (js_trim s)"

definition load_invoice :: "hotel \<Rightarrow> nat \<Rightarrow> string \<Rightarrow> (nat \<times> ar_invoice) list \<Rightarrow> nat \<Rightarrow> (nat \<times> ar_invoice) list result" where
  "load_invoice db k currency byId i =
     (case t_get (invoices db) i of
        None \<Rightarrow> Inl (ValidationError ''INVOICE_NOT_FOUND'')
      | Some r \<Rightarrow>
        if i_status r = ''void'' then Inl (ValidationError ''INVOICE_NOT_FOUND'')
        else if i_account r \<noteq> k then Inl (InvoiceNotOnPaymentAccountError i)
        else if normalizeCurrency (i_currency r) \<noteq> normalizeCurrency currency then Inl CurrencyMismatchError
        else Inr ((i, r) # byId))"

definition loadApplicationInvoices :: "hotel \<Rightarrow> nat \<Rightarrow> string \<Rightarrow> (nat \<times> int) list \<Rightarrow> (nat \<times> ar_invoice) list result" where
  "loadApplicationInvoices db k currency apps =
     foldM (load_invoice db k currency) [] (sort (remdups (map fst apps)))"

definition applied_to :: "hotel \<Rightarrow> nat \<Rightarrow> int" where
  "applied_to db i = t_total (\<lambda>_ x. aa_invoice x = i \<and> \<not> aa_voided x) aa_amount (applications db)"

definition applied_from :: "hotel \<Rightarrow> nat \<Rightarrow> int" where
  "applied_from db p = t_total (\<lambda>_ x. aa_payment x = p \<and> \<not> aa_voided x) aa_amount (applications db)"

definition apply_one :: "nat \<Rightarrow> (nat \<times> ar_invoice) list \<Rightarrow> hotel \<Rightarrow> (nat \<times> int) \<Rightarrow> hotel result" where
  "apply_one p byId db app =
     (let (i, amount) = app in
      case map_of byId i of
        None \<Rightarrow> Inl TypeError
      | Some iid \<Rightarrow>
        let appliedSoFar = applied_to db i; left = i_total iid + - appliedSoFar in
        if amount > left then Inl (PaymentApplicationExceedsInvoiceError i amount left)
        else let newStatus = (if appliedSoFar + amount = i_total iid then ''paid'' else ''partially_paid'')
          in Inr (db\<lparr>applications := t_insert
                \<lparr>aa_payment = p, aa_invoice = i, aa_amount = amount, aa_voided = False\<rparr> (applications db),
              invoices := t_update (by_id i) (\<lambda>r. r\<lparr>i_status := newStatus\<rparr>) (invoices db)\<rparr>))"

definition applyPaymentApplications ::
    "nat \<Rightarrow> int \<Rightarrow> (nat \<times> int) list \<Rightarrow> (nat \<times> ar_invoice) list \<Rightarrow> hotel \<Rightarrow> hotel result" where
  "applyPaymentApplications p paymentAmount apps byId db =
     (let alreadyApplied = applied_from db p; requestedTotal = sum_list (map snd apps) in
      if alreadyApplied + requestedTotal > paymentAmount
      then Inl (PaymentApplicationExceedsPaymentError p requestedTotal (paymentAmount + - alreadyApplied))
      else foldM (apply_one p byId) db apps)"

text \<open>An omitted or empty list of applications records the payment alone.\<close>

definition write_payment ::
    "nat \<Rightarrow> ar_account \<Rightarrow> int \<Rightarrow> string \<Rightarrow> date option \<Rightarrow> (nat \<times> int) list \<Rightarrow> (nat \<times> ar_invoice) list \<Rightarrow> hotel
     \<Rightarrow> (nat \<times> hotel) result" where
  "write_payment k a paymentAmount paymentCurrency effectiveDate normalized byId db =
     (let p = next_id (ar_payments db);
          db1 = db\<lparr>ar_payments := t_insert
            \<lparr>ap_account = k, ap_amount = paymentAmount, ap_currency = paymentCurrency,
             ap_date = effectiveDate, ap_voided = False\<rparr> (ar_payments db)\<rparr>
      in rbind (if normalized = [] then Inr db1 else applyPaymentApplications p paymentAmount normalized byId db1) (\<lambda>db2.
           let db3 = snd (recomputeArAccountBalance k db2)
           in if t_get (companies db3) (a_company a) = None then Inl TypeError else Inr (p, db3)))"

definition recordPayment ::
    "nat \<Rightarrow> js_value \<Rightarrow> string option \<Rightarrow> date option \<Rightarrow> (nat option \<times> js_value) list \<Rightarrow> hotel \<Rightarrow> (nat \<times> hotel) result" where
  "recordPayment k amount currency businessDate apps db =
     rbind (requirePositiveAmount ''amount'' amount) (\<lambda>paymentAmount.
     rbind (if apps = [] then Inr [] else normalizeApplicationList apps) (\<lambda>normalized.
     case t_get (accounts db) k of
       None \<Rightarrow> Inl ArAccountNotFoundError
     | Some a \<Rightarrow>
       if a_status a \<noteq> ''active'' then Inl ArAccountNotFoundError
       else let paymentCurrency = normalizeCurrency (case currency of None \<Rightarrow> a_currency a | Some c \<Rightarrow> c) in
         if paymentCurrency \<noteq> normalizeCurrency (a_currency a) then Inl CurrencyMismatchError
         else rbind (loadApplicationInvoices db k paymentCurrency normalized) (\<lambda>byId.
           write_payment k a paymentAmount paymentCurrency
             (case businessDate of None \<Rightarrow> business_date db | Some d \<Rightarrow> Some d) normalized byId db)))"

definition applyPayment :: "nat \<Rightarrow> (nat option \<times> js_value) list \<Rightarrow> hotel \<Rightarrow> hotel result" where
  "applyPayment p apps db =
     (case t_get (ar_payments db) p of
        None \<Rightarrow> Inl (ValidationError ''PAYMENT_NOT_FOUND'')
      | Some pay \<Rightarrow>
        if ap_voided pay then Inl (PaymentAlreadyVoidError p)
        else rbind (normalizeApplicationList apps) (\<lambda>normalized.
          rbind (loadApplicationInvoices db (ap_account pay) (ap_currency pay) normalized) (\<lambda>byId.
            applyPaymentApplications p (ap_amount pay) normalized byId db)))"

text \<open>Undoing one application re-derives its invoice's status, unless the invoice is void.\<close>

definition unapply :: "hotel \<Rightarrow> (nat \<times> ar_application) \<Rightarrow> hotel" where
  "unapply db x =
     (let (xid, app) = x;
          db1 = db\<lparr>applications := t_update (by_id xid) (\<lambda>x. x\<lparr>aa_voided := True\<rparr>) (applications db)\<rparr>
      in case t_get (invoices db1) (aa_invoice app) of
           None \<Rightarrow> db1
         | Some r \<Rightarrow>
           if i_status r = ''void'' then db1
           else let appliedTotal = applied_to db1 (aa_invoice app);
                    newStatus = (if appliedTotal = 0 then ''issued'' else if appliedTotal = i_total r then ''paid''
                                 else ''partially_paid'')
             in db1\<lparr>invoices := t_update (by_id (aa_invoice app)) (\<lambda>r. r\<lparr>i_status := newStatus\<rparr>) (invoices db1)\<rparr>)"

definition voidPayment :: "nat \<Rightarrow> string option \<Rightarrow> hotel \<Rightarrow> hotel result" where
  "voidPayment p reason db =
     (if \<not> given reason then Inl (ValidationFieldError ''MISSING_FIELD'' ''reason'' ''missing'')
      else case t_get (ar_payments db) p of
        None \<Rightarrow> Inl (ValidationError ''PAYMENT_NOT_FOUND'')
      | Some pay \<Rightarrow>
        if ap_voided pay then Inl (PaymentAlreadyVoidError p)
        else let db1 = db\<lparr>ar_payments := t_update (by_id p) (\<lambda>r. r\<lparr>ap_voided := True\<rparr>) (ar_payments db)\<rparr>;
                 apps = t_select (\<lambda>_ x. aa_payment x = p \<and> \<not> aa_voided x) (applications db1);
                 db2 = foldl unapply db1 apps
          in Inr (snd (recomputeArAccountBalance (ap_account pay) db2)))"

section \<open>Ageing\<close>

record ageing =
  current_due :: int
  bucket_1_30 :: int
  bucket_31_60 :: int
  bucket_61_90 :: int
  bucket_90_plus :: int

definition no_ageing :: ageing where
  "no_ageing = \<lparr>current_due = 0, bucket_1_30 = 0, bucket_31_60 = 0, bucket_61_90 = 0, bucket_90_plus = 0\<rparr>"

record aged_invoice =
  av_total :: int
  av_applied :: int
  av_due :: date

definition age_one :: "date \<Rightarrow> ageing \<Rightarrow> aged_invoice \<Rightarrow> ageing" where
  "age_one asOfDate b v =
     (let outstanding = av_total v + - av_applied v; daysOverdue = daysBetween (av_due v) asOfDate in
      if outstanding \<le> 0 then b
      else if daysOverdue \<le> 0 then b\<lparr>current_due := current_due b + outstanding\<rparr>
      else if daysOverdue \<le> 30 then b\<lparr>bucket_1_30 := bucket_1_30 b + outstanding\<rparr>
      else if daysOverdue \<le> 60 then b\<lparr>bucket_31_60 := bucket_31_60 b + outstanding\<rparr>
      else if daysOverdue \<le> 90 then b\<lparr>bucket_61_90 := bucket_61_90 b + outstanding\<rparr>
      else b\<lparr>bucket_90_plus := bucket_90_plus b + outstanding\<rparr>)"

definition computeAgeingBuckets :: "aged_invoice list \<Rightarrow> date \<Rightarrow> ageing" where
  "computeAgeingBuckets vs asOfDate = foldl (age_one asOfDate) no_ageing vs"

definition add_ageing :: "ageing \<Rightarrow> ageing \<Rightarrow> ageing" where
  "add_ageing a b = \<lparr>current_due = current_due a + current_due b, bucket_1_30 = bucket_1_30 a + bucket_1_30 b,
     bucket_31_60 = bucket_31_60 a + bucket_31_60 b, bucket_61_90 = bucket_61_90 a + bucket_61_90 b,
     bucket_90_plus = bucket_90_plus a + bucket_90_plus b\<rparr>"

definition aged_invoices :: "hotel \<Rightarrow> nat \<Rightarrow> aged_invoice list" where
  "aged_invoices db k = map (\<lambda>(i, r). \<lparr>av_total = i_total r, av_applied = applied_to db i, av_due = i_due r\<rparr>)
     (t_select (\<lambda>_ r. i_account r = k \<and> i_status r \<noteq> ''void'') (invoices db))"

text \<open>The wall clock stands in only where the property has no business date yet.\<close>

definition computeAgeingReport :: "date \<Rightarrow> hotel \<Rightarrow> (nat \<times> ageing) list \<times> ageing" where
  "computeAgeingReport wallClock db =
     (let asOfDate = (case business_date db of None \<Rightarrow> wallClock | Some d \<Rightarrow> d);
          report = map (\<lambda>(k, a). (k, computeAgeingBuckets (aged_invoices db k) asOfDate))
            (t_select (\<lambda>_ a. a_status a = ''active'') (accounts db))
      in (report, foldl (\<lambda>acc (k, b). add_ageing acc b) no_ageing report))"

section \<open>The account balance is a derived column\<close>

definition account_balance :: "hotel \<Rightarrow> nat \<Rightarrow> int option" where
  "account_balance db k = map_option a_balance (t_get (accounts db) k)"

definition account_owed :: "hotel \<Rightarrow> nat \<Rightarrow> int" where
  "account_owed db k = (case t_get (accounts db) k of None \<Rightarrow> 0 | Some a \<Rightarrow> owed db a k)"

lemma recompute_ar_frame [simp]:
  "folios (snd (recomputeArAccountBalance k db)) = folios db"
  "line_items (snd (recomputeArAccountBalance k db)) = line_items db"
  "payments (snd (recomputeArAccountBalance k db)) = payments db"
  "companies (snd (recomputeArAccountBalance k db)) = companies db"
  "invoices (snd (recomputeArAccountBalance k db)) = invoices db"
  "invoice_lines (snd (recomputeArAccountBalance k db)) = invoice_lines db"
  "ar_payments (snd (recomputeArAccountBalance k db)) = ar_payments db"
  "applications (snd (recomputeArAccountBalance k db)) = applications db"
  "business_date (snd (recomputeArAccountBalance k db)) = business_date db"
  "taxes (snd (recomputeArAccountBalance k db)) = taxes db"
  "daily_rates (snd (recomputeArAccountBalance k db)) = daily_rates db"
  "property_id (snd (recomputeArAccountBalance k db)) = property_id db"
  by (simp_all add: recomputeArAccountBalance_def Let_def split: option.splits)

lemma chargeTotal_frame:
  "folios db' = folios db \<Longrightarrow> line_items db' = line_items db \<Longrightarrow> chargeTotal db' c = chargeTotal db c"
  by (simp add: chargeTotal_def billed_to_company_def)

lemma owed_frame:
  "folios db' = folios db \<Longrightarrow> line_items db' = line_items db \<Longrightarrow> ar_payments db' = ar_payments db \<Longrightarrow> owed db' a k = owed db a k"
  using chargeTotal_frame [of db' db "a_company a"] by (simp add: owed_def paymentTotal_def)

lemma owed_ignores_balance [simp]: "owed db (a\<lparr>a_balance := x, a_over := y\<rparr>) k = owed db a k"
  by (simp add: owed_def)

lemma recompute_ar_account:
  "t_get (accounts (snd (recomputeArAccountBalance k db))) j =
     (if j = k then map_option (\<lambda>a. a\<lparr>a_balance := owed db a k, a_over := owed db a k > a_limit a\<rparr>) (t_get (accounts db) k)
      else t_get (accounts db) j)"
  by (cases "t_get (accounts db) k") (auto simp: recomputeArAccountBalance_def Let_def t_get_update_id)

interpretation arb: derived_column account_balance account_owed "\<lambda>k db. snd (recomputeArAccountBalance k db)"
proof
  fix db :: hotel and k j :: nat
  have frame: "owed (snd (recomputeArAccountBalance k db)) a i = owed db a i" for a i
    by (rule owed_frame) simp_all
  show "account_balance db k \<noteq> None \<Longrightarrow>
      account_balance (snd (recomputeArAccountBalance k db)) k = Some (account_owed db k)"
    by (auto simp: account_balance_def account_owed_def recompute_ar_account)
  show "account_balance db k = None \<Longrightarrow> account_balance (snd (recomputeArAccountBalance k db)) k = None"
    by (auto simp: account_balance_def recompute_ar_account)
  show "j \<noteq> k \<Longrightarrow> account_balance (snd (recomputeArAccountBalance k db)) j = account_balance db j"
    by (simp add: account_balance_def recompute_ar_account)
  show "account_owed (snd (recomputeArAccountBalance k db)) j = account_owed db j"
    by (auto simp: account_owed_def recompute_ar_account frame split: option.splits)
qed

section \<open>The invariant of the receivables tables\<close>

definition derived_status :: "int \<Rightarrow> int \<Rightarrow> string" where
  "derived_status applied invoiced =
     (if applied = 0 then ''issued'' else if applied = invoiced then ''paid'' else ''partially_paid'')"

lemma derived_status_not_void [simp]: "derived_status a t \<noteq> ''void''"
  by (simp add: derived_status_def)

definition invoice_ok :: "hotel \<Rightarrow> nat \<Rightarrow> ar_invoice \<Rightarrow> bool" where
  "invoice_ok db i r \<longleftrightarrow> (if i_status r = ''void'' then applied_to db i = 0
     else i_status r = derived_status (applied_to db i) (i_total r) \<and>
          (applied_to db i = 0 \<or> applied_to db i \<le> i_total r))"

definition payment_ok :: "hotel \<Rightarrow> nat \<Rightarrow> ar_payment \<Rightarrow> bool" where
  "payment_ok db p q \<longleftrightarrow> 0 < ap_amount q \<and> applied_from db p \<le> ap_amount q \<and> (ap_voided q \<longrightarrow> applied_from db p = 0)"

definition applications_ok :: "hotel \<Rightarrow> bool" where
  "applications_ok db \<longleftrightarrow> t_wf (applications db) \<and> t_wf (invoices db) \<and> t_wf (ar_payments db) \<and>
     (\<forall>j x. t_get (applications db) j = Some x \<longrightarrow>
        0 < aa_amount x \<and> t_get (invoices db) (aa_invoice x) \<noteq> None \<and> t_get (ar_payments db) (aa_payment x) \<noteq> None)"

definition invoices_ok :: "hotel \<Rightarrow> bool" where
  "invoices_ok db \<longleftrightarrow> (\<forall>i r. t_get (invoices db) i = Some r \<longrightarrow> invoice_ok db i r)"

definition ar_payments_ok :: "hotel \<Rightarrow> bool" where
  "ar_payments_ok db \<longleftrightarrow> (\<forall>p q. t_get (ar_payments db) p = Some q \<longrightarrow> payment_ok db p q)"

definition invoiced_total :: "hotel \<Rightarrow> nat \<Rightarrow> int" where
  "invoiced_total db i = t_total (\<lambda>_ il. il_invoice il = i) il_amount (invoice_lines db)"

definition billing_ok :: "hotel \<Rightarrow> bool" where
  "billing_ok db \<longleftrightarrow> t_wf (invoice_lines db) \<and> t_wf (line_items db) \<and>
     distinct (map (\<lambda>(_, il). il_line il) (rows (invoice_lines db))) \<and>
     (\<forall>j il. t_get (invoice_lines db) j = Some il \<longrightarrow> t_get (invoices db) (il_invoice il) \<noteq> None) \<and>
     (\<forall>i r. t_get (invoices db) i = Some r \<longrightarrow> i_total r = invoiced_total db i)"

definition ar_ok :: "hotel \<Rightarrow> bool" where
  "ar_ok db \<longleftrightarrow> applications_ok db \<and> invoices_ok db \<and> ar_payments_ok db \<and> billing_ok db"

lemmas ar_ok_defs = ar_ok_def applications_ok_def invoices_ok_def ar_payments_ok_def

lemma ar_ok_frame:
  assumes "invoices db' = invoices db" "invoice_lines db' = invoice_lines db" "ar_payments db' = ar_payments db"
    "applications db' = applications db" "t_wf (line_items db')"
  shows "ar_ok db \<Longrightarrow> ar_ok db'"
proof -
  have "applied_to db' = applied_to db" "applied_from db' = applied_from db" "invoiced_total db' = invoiced_total db"
    using assms by (simp_all add: applied_to_def applied_from_def invoiced_total_def fun_eq_iff)
  moreover from this have "invoice_ok db' = invoice_ok db" "payment_ok db' = payment_ok db"
    by (simp_all add: fun_eq_iff invoice_ok_def payment_ok_def)
  ultimately show "ar_ok db \<Longrightarrow> ar_ok db'"
    using assms unfolding ar_ok_defs billing_ok_def by (simp only:) (elim conjE, intro conjI; (assumption | rule TrueI))
qed

lemma ar_ok_recompute: "ar_ok db \<Longrightarrow> ar_ok (snd (recomputeArAccountBalance k db))"
  by (rule ar_ok_frame [of _ db]) (simp_all add: ar_ok_def billing_ok_def)

lemma applied_to_nonneg: "applications_ok db \<Longrightarrow> 0 \<le> applied_to db i"
  unfolding applied_to_def
  by (rule t_total_nonneg) (auto simp: applications_ok_def rows_get dest: less_imp_le)

lemma applied_from_nonneg: "applications_ok db \<Longrightarrow> 0 \<le> applied_from db p"
  unfolding applied_from_def
  by (rule t_total_nonneg) (auto simp: applications_ok_def rows_get dest: less_imp_le)

lemma active_application_counts:
  assumes "applications_ok db" "t_get (applications db) j = Some x" "\<not> aa_voided x"
  shows "aa_amount x \<le> applied_to db (aa_invoice x)" "0 < aa_amount x"
proof -
  have wf: "t_wf (applications db)" using assms(1) by (simp add: applications_ok_def)
  have pos: "\<And>i r. t_get (applications db) i = Some r \<Longrightarrow> 0 \<le> aa_amount r"
    using assms(1) by (force simp: applications_ok_def)
  show "aa_amount x \<le> applied_to db (aa_invoice x)"
    unfolding applied_to_def using wf assms(2,3) pos by (intro t_total_ge) auto
  show "0 < aa_amount x" using assms by (force simp: applications_ok_def)
qed

section \<open>Applying a payment\<close>

definition loaded_ok :: "hotel \<Rightarrow> (nat \<times> ar_invoice) list \<Rightarrow> bool" where
  "loaded_ok db byId \<longleftrightarrow> (\<forall>i v. map_of byId i = Some v \<longrightarrow>
     (\<exists>r. t_get (invoices db) i = Some r \<and> i_total r = i_total v \<and> i_status r \<noteq> ''void''))"

lemma load_invoices_ok:
  assumes "loadApplicationInvoices db k cur apps = Inr byId"
  shows "loaded_ok db byId"
  using assms unfolding loadApplicationInvoices_def
proof (rule foldM_inv [where P = "loaded_ok db"])
  show "loaded_ok db []" by (simp add: loaded_ok_def)
next
  fix byId i byId'
  assume "loaded_ok db byId" "load_invoice db k cur byId i = Inr byId'"
  then show "loaded_ok db byId'"
    by (auto simp: load_invoice_def loaded_ok_def split: option.splits if_splits)
qed

lemma apply_one_step:
  assumes step: "apply_one p byId db (i, a) = Inr db'" and a: "0 < a" and pay: "t_get (ar_payments db) p \<noteq> None"
    and ok: "applications_ok db" "invoices_ok db" "loaded_ok db byId"
  shows "applications_ok db'" "invoices_ok db'" "loaded_ok db' byId"
    "applied_from db' q = applied_from db q + (if q = p then a else 0)"
    "ar_payments db' = ar_payments db" "invoice_lines db' = invoice_lines db"
    "line_items db' = line_items db" "folios db' = folios db" "accounts db' = accounts db" "companies db' = companies db"
    "map_option i_total (t_get (invoices db') j) = map_option i_total (t_get (invoices db) j)"
proof -
  obtain v where v: "map_of byId i = Some v" and le: "a \<le> i_total v - applied_to db i"
    and db': "db' = db\<lparr>applications := t_insert
                \<lparr>aa_payment = p, aa_invoice = i, aa_amount = a, aa_voided = False\<rparr> (applications db),
              invoices := t_update (by_id i) (\<lambda>r. r\<lparr>i_status := if applied_to db i + a = i_total v then ''paid'' else ''partially_paid''\<rparr>) (invoices db)\<rparr>"
    using step by (auto simp: apply_one_def Let_def split: option.splits if_splits)
  obtain r where r: "t_get (invoices db) i = Some r" "i_total r = i_total v" "i_status r \<noteq> ''void''"
    using ok(3) v by (auto simp: loaded_ok_def)
  have at: "applied_to db' j = applied_to db j + (if j = i then a else 0)" for j
    by (simp add: db' applied_to_def t_total_insert)
  show "applied_from db' q = applied_from db q + (if q = p then a else 0)"
    by (simp add: db' applied_from_def t_total_insert)
  show "ar_payments db' = ar_payments db" "invoice_lines db' = invoice_lines db"
    "line_items db' = line_items db" "folios db' = folios db" "accounts db' = accounts db" "companies db' = companies db"
    by (simp_all add: db')
  show "map_option i_total (t_get (invoices db') j) = map_option i_total (t_get (invoices db) j)"
    by (cases "t_get (invoices db) j") (auto simp: db' t_get_update_id)
  show "applications_ok db'"
    using ok(1) a pay r(1) by (auto simp: applications_ok_def db' t_get_insert t_get_update_id split: if_splits)
  have "0 \<le> applied_to db i" using ok(1) by (rule applied_to_nonneg)
  then have status: "derived_status (applied_to db i + a) (i_total v) =
      (if applied_to db i + a = i_total v then ''paid'' else ''partially_paid'')"
    using a by (simp only: derived_status_def) simp
  show "invoices_ok db'"
    unfolding invoices_ok_def
  proof (intro allI impI)
    fix k s' assume s': "t_get (invoices db') k = Some s'"
    show "invoice_ok db' k s'"
    proof (cases "k = i")
      case True
      then have "s' = r\<lparr>i_status := derived_status (applied_to db i + a) (i_total v)\<rparr>"
        using s' r(1) by (simp add: db' t_get_update_id status)
      then show ?thesis using True r le at [of i] by (simp add: invoice_ok_def)
    next
      case False
      then have "t_get (invoices db) k = Some s'" using s' by (simp add: db' t_get_update_id)
      then show ?thesis using ok(2) False at [of k] by (auto simp: invoices_ok_def invoice_ok_def)
    qed
  qed
  show "loaded_ok db' byId"
    unfolding loaded_ok_def
  proof (intro allI impI)
    fix k w assume "map_of byId k = Some w"
    then obtain s where s: "t_get (invoices db) k = Some s" "i_total s = i_total w" "i_status s \<noteq> ''void''"
      using ok(3) by (auto simp: loaded_ok_def)
    then show "\<exists>s. t_get (invoices db') k = Some s \<and> i_total s = i_total w \<and> i_status s \<noteq> ''void''"
      by (cases "k = i") (simp_all add: db' t_get_update_id)
  qed
qed

lemma apply_all:
  assumes "foldM (apply_one p byId) db apps = Inr db'" "\<forall>(i, a) \<in> set apps. 0 < a"
    "t_get (ar_payments db) p \<noteq> None" "applications_ok db" "invoices_ok db" "loaded_ok db byId"
  shows "applications_ok db' \<and> invoices_ok db' \<and> ar_payments db' = ar_payments db \<and> invoice_lines db' = invoice_lines db
    \<and> line_items db' = line_items db \<and> folios db' = folios db \<and> accounts db' = accounts db \<and> companies db' = companies db
    \<and> (\<forall>q. applied_from db' q = applied_from db q + (if q = p then sum_list (map snd apps) else 0))
    \<and> (\<forall>j. map_option i_total (t_get (invoices db') j) = map_option i_total (t_get (invoices db) j))"
  using assms
proof (induction apps arbitrary: db)
  case Nil
  then show ?case by simp
next
  case (Cons x apps)
  obtain i a where x: "x = (i, a)" by (cases x)
  with Cons.prems(1) obtain db1 where s1: "apply_one p byId db (i, a) = Inr db1"
    and s2: "foldM (apply_one p byId) db1 apps = Inr db'" by (auto simp: rbind_eq_Inr)
  have a: "0 < a" using Cons.prems(2) x by simp
  note st = apply_one_step [OF s1 a Cons.prems(3-6)]
  have "t_get (ar_payments db1) p \<noteq> None" using Cons.prems(3) st(5) by simp
  note IH = Cons.IH [OF s2 _ this st(1-3)]
  show ?case using IH Cons.prems(2) st(4-11) x by simp
qed

lemma requirePositiveAmount_pos: "requirePositiveAmount f v = Inr c \<Longrightarrow> 0 < c"
  by (auto simp: requirePositiveAmount_def Let_def split: if_splits)

lemma normalized_positive:
  assumes "normalizeApplicationList reqs = Inr apps"
  shows "\<forall>(i, a) \<in> set apps. 0 < a"
proof -
  let ?f = "\<lambda>done (iid, v). case iid of
      None \<Rightarrow> Inl (ValidationFieldError ''MISSING_FIELD'' ''applications[].invoice_id'' ''missing'')
    | Some i \<Rightarrow> rbind (requirePositiveAmount ''applications[].amount'' v) (\<lambda>c. Inr (done @ [(i, c)]))"
  have "foldM ?f [] reqs = Inr apps"
    using assms by (simp add: normalizeApplicationList_def split: if_splits)
  then show ?thesis
  proof (rule foldM_inv)
    fix acc x acc'
    assume acc: "\<forall>(i, a) \<in> set acc. 0 < a" and step: "?f acc x = Inr acc'"
    obtain i v c where "requirePositiveAmount ''applications[].amount'' v = Inr c" "acc' = acc @ [(i, c)]"
      using step by (auto simp: rbind_eq_Inr split: option.splits prod.splits)
    then show "\<forall>(i, a) \<in> set acc'. 0 < a" using acc requirePositiveAmount_pos by auto
  qed simp
qed

lemma applyPaymentApplications_ok:
  assumes run: "applyPaymentApplications p amt apps byId db = Inr db'"
    and pos: "\<forall>(i, a) \<in> set apps. 0 < a" and ok: "ar_ok db" "loaded_ok db byId"
    and pay: "t_get (ar_payments db) p = Some q" "ap_amount q = amt" "\<not> ap_voided q"
  shows "ar_ok db' \<and> ar_payments db' = ar_payments db \<and> line_items db' = line_items db \<and> folios db' = folios db
    \<and> accounts db' = accounts db \<and> companies db' = companies db"
proof -
  have le: "applied_from db p + sum_list (map snd apps) \<le> amt" and f: "foldM (apply_one p byId) db apps = Inr db'"
    using run by (auto simp: applyPaymentApplications_def Let_def split: if_splits)
  have pre: "t_get (ar_payments db) p \<noteq> None" "applications_ok db" "invoices_ok db"
    using pay(1) ok(1) by (simp_all add: ar_ok_def)
  note a = apply_all [OF f pos pre ok(2)]
  have "ar_payments_ok db'"
    using ok(1) a le pay by (auto simp: ar_ok_defs payment_ok_def)
  moreover have "billing_ok db'"
  proof -
    have "invoiced_total db' = invoiced_total db" using a by (simp add: invoiced_total_def fun_eq_iff)
    moreover have tot: "map_option i_total (t_get (invoices db') i) = map_option i_total (t_get (invoices db) i)" for i
      using a by simp
    have "t_get (invoices db') i \<noteq> None \<longleftrightarrow> t_get (invoices db) i \<noteq> None" for i
      using tot [of i] by (cases "t_get (invoices db) i") auto
    moreover have "i_total r = invoiced_total db i" if "t_get (invoices db') i = Some r" for i r
      using tot [of i] that ok(1) by (cases "t_get (invoices db) i") (auto simp: ar_ok_def billing_ok_def)
    ultimately show ?thesis using ok(1) a by (auto simp: ar_ok_def billing_ok_def)
  qed
  ultimately show ?thesis using a by (simp add: ar_ok_def)
qed

section \<open>Every operation keeps the invariant\<close>

lemma ar_ok_applyPayment:
  assumes "ar_ok db" "applyPayment p apps db = Inr db'"
  shows "ar_ok db'"
proof -
  obtain q norm byId where "t_get (ar_payments db) p = Some q" "\<not> ap_voided q"
    and norm: "normalizeApplicationList apps = Inr norm"
    and load: "loadApplicationInvoices db (ap_account q) (ap_currency q) norm = Inr byId"
    and run: "applyPaymentApplications p (ap_amount q) norm byId db = Inr db'"
    using assms(2) by (auto simp: applyPayment_def rbind_eq_Inr split: option.splits if_splits)
  then show ?thesis
    using applyPaymentApplications_ok [OF run normalized_positive [OF norm] assms(1) load_invoices_ok [OF load]] by simp
qed

lemma new_payment_ok:
  assumes "ar_ok db" "0 < amt"
  shows "ar_ok (db\<lparr>ar_payments := t_insert \<lparr>ap_account = k, ap_amount = amt, ap_currency = c, ap_date = d, ap_voided = False\<rparr> (ar_payments db)\<rparr>)"
    (is "ar_ok ?db")
proof -
  have wf: "t_wf (ar_payments db)" and wfa: "t_wf (applications db)" using assms(1) by (simp_all add: ar_ok_defs)
  have same: "applied_to ?db = applied_to db" "applied_from ?db = applied_from db" "invoiced_total ?db = invoiced_total db"
    by (simp_all add: applied_to_def applied_from_def invoiced_total_def fun_eq_iff)
  have fresh: "applied_from db (next_id (ar_payments db)) = 0"
    unfolding applied_from_def
  proof (rule t_total_none)
    fix i x assume "(i, x) \<in> set (rows (applications db))"
    then have "t_get (ar_payments db) (aa_payment x) \<noteq> None"
      using assms(1) wfa by (simp add: ar_ok_defs rows_get)
    then show "\<not> (aa_payment x = next_id (ar_payments db) \<and> \<not> aa_voided x)" using t_get_next [OF wf] by auto
  qed
  have "applications_ok ?db" using assms(1) wf by (auto simp: ar_ok_defs t_get_insert)
  moreover have "invoices_ok ?db" using assms(1) by (simp add: ar_ok_defs invoice_ok_def same)
  moreover have "ar_payments_ok ?db"
    using assms wf fresh by (auto simp: ar_ok_defs payment_ok_def same t_get_insert split: if_splits)
  moreover have "billing_ok ?db" using assms(1) by (simp add: ar_ok_defs billing_ok_def same)
  ultimately show ?thesis by (simp add: ar_ok_def)
qed

lemma load_invoices_frame:
  "invoices db' = invoices db \<Longrightarrow> loaded_ok db byId \<Longrightarrow> loaded_ok db' byId"
  by (simp add: loaded_ok_def)

lemma write_payment_ok:
  assumes ok: "ar_ok db" and run: "write_payment k a amt c d norm byId db = Inr (p, db')"
    and pos: "0 < amt" "\<forall>(i, a) \<in> set norm. 0 < a" and load: "loaded_ok db byId"
  shows "ar_ok db' \<and> line_items db' = line_items db \<and> folios db' = folios db"
proof -
  let ?db1 = "db\<lparr>ar_payments := t_insert \<lparr>ap_account = k, ap_amount = amt, ap_currency = c, ap_date = d, ap_voided = False\<rparr> (ar_payments db)\<rparr>"
  obtain db2 where db2: "(if norm = [] then Inr ?db1 else applyPaymentApplications (next_id (ar_payments db)) amt norm byId ?db1) = Inr db2"
    and db': "db' = snd (recomputeArAccountBalance k db2)"
    using run by (auto simp: write_payment_def Let_def rbind_eq_Inr split: if_split_asm)
  have ok1: "ar_ok ?db1" using ok pos(1) by (rule new_payment_ok)
  have "ar_ok db2 \<and> line_items db2 = line_items db \<and> folios db2 = folios db"
  proof (cases "norm = []")
    case True
    then show ?thesis using db2 ok1 by auto
  next
    case False
    have l: "loaded_ok ?db1 byId" by (rule load_invoices_frame [OF _ load]) simp
    have "t_wf (ar_payments db)" using ok by (simp add: ar_ok_defs)
    then have g: "t_get (ar_payments ?db1) (next_id (ar_payments db)) =
        Some \<lparr>ap_account = k, ap_amount = amt, ap_currency = c, ap_date = d, ap_voided = False\<rparr>"
      by (simp add: t_get_insert)
    show ?thesis
      using applyPaymentApplications_ok [OF _ pos(2) ok1 l g, of amt db2] db2 False by simp
  qed
  then show ?thesis unfolding db' by (simp add: ar_ok_recompute)
qed

lemma recordPayment_cases:
  assumes "recordPayment k amount cur bd apps db = Inr (p, db')"
  obtains a amt norm c d byId where "0 < amt" "\<forall>(i, a) \<in> set norm. 0 < a" "loaded_ok db byId"
    "t_get (accounts db) k = Some a" "a_status a = ''active''" "write_payment k a amt c d norm byId db = Inr (p, db')"
  using assms unfolding recordPayment_def
proof (elim rbind_InrE)
  fix amt norm
  assume amt: "requirePositiveAmount ''amount'' amount = Inr amt"
    and norm: "(if apps = [] then Inr [] else normalizeApplicationList apps) = Inr norm"
    and rest: "(case t_get (accounts db) k of
       None \<Rightarrow> Inl ArAccountNotFoundError
     | Some a \<Rightarrow>
       if a_status a \<noteq> ''active'' then Inl ArAccountNotFoundError
       else let paymentCurrency = normalizeCurrency (case cur of None \<Rightarrow> a_currency a | Some c \<Rightarrow> c) in
         if paymentCurrency \<noteq> normalizeCurrency (a_currency a) then Inl CurrencyMismatchError
         else rbind (loadApplicationInvoices db k paymentCurrency norm) (\<lambda>byId.
           write_payment k a amt paymentCurrency
             (case bd of None \<Rightarrow> business_date db | Some d \<Rightarrow> Some d) norm byId db)) = Inr (p, db')"
  from rest obtain a where a: "t_get (accounts db) k = Some a" "a_status a = ''active''"
    by (auto split: option.split_asm if_split_asm)
  let ?c = "normalizeCurrency (case cur of None \<Rightarrow> a_currency a | Some c \<Rightarrow> c)"
  let ?d = "case bd of None \<Rightarrow> business_date db | Some d \<Rightarrow> Some d"
  have "rbind (loadApplicationInvoices db k ?c norm) (\<lambda>byId. write_payment k a amt ?c ?d norm byId db) = Inr (p, db')"
    using rest a by (simp add: Let_def split: if_split_asm)
  then obtain byId where "loadApplicationInvoices db k ?c norm = Inr byId" "write_payment k a amt ?c ?d norm byId db = Inr (p, db')"
    by (rule rbind_InrE)
  moreover have "\<forall>(i, a) \<in> set norm. 0 < a" using norm by (auto split: if_splits dest: normalized_positive)
  ultimately show thesis using that requirePositiveAmount_pos [OF amt] a load_invoices_ok by metis
qed

lemma ar_ok_recordPayment: "ar_ok db \<Longrightarrow> recordPayment k amount cur bd apps db = Inr (p, db') \<Longrightarrow> ar_ok db'"
  by (elim recordPayment_cases) (simp add: write_payment_ok)

lemma ar_ok_voidInvoice:
  assumes "ar_ok db" "voidInvoice iid reason db = Inr db'"
  shows "ar_ok db'"
proof -
  from assms(2) obtain r where r: "t_get (invoices db) iid = Some r"
    and db': "db' = db\<lparr>invoices := t_update (by_id iid) (\<lambda>r. r\<lparr>i_status := ''void''\<rparr>) (invoices db),
                     applications := t_update (\<lambda>_ x. aa_invoice x = iid \<and> \<not> aa_voided x)
                       (\<lambda>x. x\<lparr>aa_voided := True\<rparr>) (applications db)\<rparr>"
    by (auto simp: voidInvoice_def split: option.splits if_splits)
  have ok: "applications_ok db" using assms(1) by (simp add: ar_ok_def)
  have appl: "applications db' = t_update (\<lambda>_ x. aa_invoice x = iid \<and> \<not> aa_voided x) (\<lambda>x. x\<lparr>aa_voided := True\<rparr>) (applications db)"
    and invs: "invoices db' = t_update (by_id iid) (\<lambda>r. r\<lparr>i_status := ''void''\<rparr>) (invoices db)"
    and rest: "ar_payments db' = ar_payments db" "invoice_lines db' = invoice_lines db" "line_items db' = line_items db"
    by (simp_all add: db')
  have at: "applied_to db' j = (if j = iid then 0 else applied_to db j)" for j
  proof (cases "j = iid")
    case True
    have "applied_to db' iid = applied_to db iid - applied_to db iid"
      unfolding applied_to_def appl by (simp add: t_total_update_drop conj_commute cong: conj_cong)
    then show ?thesis using True by simp
  next
    case False
    have "applied_to db' j = applied_to db j"
      unfolding applied_to_def appl by (rule t_total_update_same) (use False in auto)
    then show ?thesis using False by simp
  qed
  have af: "applied_from db' q \<le> applied_from db q" for q
  proof -
    have "applied_from db' q = applied_from db q
        - t_total (\<lambda>i x. (aa_payment x = q \<and> \<not> aa_voided x) \<and> aa_invoice x = iid \<and> \<not> aa_voided x) aa_amount (applications db)"
      unfolding applied_from_def appl by (simp add: t_total_update_drop)
    moreover have "0 \<le> t_total (\<lambda>i x. (aa_payment x = q \<and> \<not> aa_voided x) \<and> aa_invoice x = iid \<and> \<not> aa_voided x) aa_amount (applications db)"
      using ok by (intro t_total_nonneg) (force simp: applications_ok_def rows_get)
    ultimately show ?thesis by simp
  qed
  have ok': "applications_ok db'"
    using ok by (auto simp: applications_ok_def appl invs rest t_get_update t_get_update_id)
  moreover have "invoices_ok db'"
    using assms(1) by (auto simp: ar_ok_defs invoice_ok_def at invs t_get_update_id split: if_splits)
  moreover have "ar_payments_ok db'"
    unfolding ar_payments_ok_def
  proof (intro allI impI)
    fix p q assume "t_get (ar_payments db') p = Some q"
    then have "payment_ok db p q" using assms(1) by (simp add: ar_ok_defs rest)
    then show "payment_ok db' p q"
      using af [of p] applied_from_nonneg [OF ok', of p] by (auto simp: payment_ok_def)
  qed
  moreover have "billing_ok db'"
  proof -
    have "invoiced_total db' = invoiced_total db" by (simp add: rest invoiced_total_def fun_eq_iff)
    then show ?thesis using assms(1) by (auto simp: ar_ok_def billing_ok_def invs rest t_get_update_id)
  qed
  ultimately show ?thesis by (simp add: ar_ok_def)
qed

text \<open>\<open>voidPayment\<close>: every step of its loop voids one application and re-derives one status.\<close>

lemma unapply_frame [simp]:
  "ar_payments (unapply db x) = ar_payments db" "invoice_lines (unapply db x) = invoice_lines db"
  "line_items (unapply db x) = line_items db" "folios (unapply db x) = folios db"
  "accounts (unapply db x) = accounts db" "companies (unapply db x) = companies db" "payments (unapply db x) = payments db"
  "applications (unapply db x) = t_update (by_id (fst x)) (\<lambda>x. x\<lparr>aa_voided := True\<rparr>) (applications db)"
  by (cases x; simp add: unapply_def Let_def split: option.splits)+

lemma unapply_invoices:
  "t_get (invoices (unapply db (xid, app))) j = (case t_get (invoices db) j of None \<Rightarrow> None
   | Some r \<Rightarrow> Some (if j = aa_invoice app \<and> i_status r \<noteq> ''void''
       then r\<lparr>i_status := derived_status (applied_to (unapply db (xid, app)) j) (i_total r)\<rparr> else r))"
proof -
  have a: "applied_to (unapply db (xid, app)) =
      applied_to (db\<lparr>applications := t_update (by_id xid) (\<lambda>x. x\<lparr>aa_voided := True\<rparr>) (applications db)\<rparr>)"
    by (simp add: applied_to_def fun_eq_iff)
  show ?thesis
    unfolding a by (cases "t_get (invoices db) j")
      (auto simp: unapply_def Let_def t_get_update_id derived_status_def split: option.splits)
qed

lemma unapply_amounts:
  assumes "applications_ok db" "t_get (applications db) xid = Some app" "\<not> aa_voided app"
  shows "applied_to (unapply db (xid, app)) j = applied_to db j - (if j = aa_invoice app then aa_amount app else 0)"
    and "applied_from (unapply db (xid, app)) q = applied_from db q - (if q = aa_payment app then aa_amount app else 0)"
proof -
  have wf: "t_wf (applications db)" using assms(1) by (simp add: applications_ok_def)
  show "applied_to (unapply db (xid, app)) j = applied_to db j - (if j = aa_invoice app then aa_amount app else 0)"
    unfolding applied_to_def unapply_frame fst_conv using assms(3) by (subst t_total_drop_row [OF wf assms(2)]) auto
  show "applied_from (unapply db (xid, app)) q = applied_from db q - (if q = aa_payment app then aa_amount app else 0)"
    unfolding applied_from_def unapply_frame fst_conv using assms(3) by (subst t_total_drop_row [OF wf assms(2)]) auto
qed

lemma unapply_step:
  assumes ok: "applications_ok db" "invoices_ok db" and x: "t_get (applications db) xid = Some app" "\<not> aa_voided app"
  shows "applications_ok (unapply db (xid, app))" "invoices_ok (unapply db (xid, app))"
    "applied_from (unapply db (xid, app)) q \<le> applied_from db q"
    "map_option i_total (t_get (invoices (unapply db (xid, app))) j) = map_option i_total (t_get (invoices db) j)"
proof -
  let ?db = "unapply db (xid, app)"
  note am = unapply_amounts [OF ok(1) x]
  note act = active_application_counts [OF ok(1) x]
  show ok': "applications_ok ?db"
  proof -
    have "t_wf (invoices ?db)" using ok(1) by (simp add: applications_ok_def unapply_def Let_def split: option.splits)
    moreover have "(\<exists>y. t_get (invoices ?db) i = Some y) \<longleftrightarrow> (\<exists>y. t_get (invoices db) i = Some y)" for i
      by (simp add: unapply_invoices split: option.splits)
    ultimately show ?thesis
      using ok(1) by (auto simp: applications_ok_def t_get_update_id split: if_splits)
  qed
  show "applied_from ?db q \<le> applied_from db q" using am act by simp
  show "map_option i_total (t_get (invoices ?db) j) = map_option i_total (t_get (invoices db) j)"
    by (simp add: unapply_invoices split: option.splits)
  show "invoices_ok ?db"
    unfolding invoices_ok_def
  proof (intro allI impI)
    fix i r assume "t_get (invoices ?db) i = Some r"
    then obtain r0 where r0: "t_get (invoices db) i = Some r0"
      and r: "r = (if i = aa_invoice app \<and> i_status r0 \<noteq> ''void''
        then r0\<lparr>i_status := derived_status (applied_to ?db i) (i_total r0)\<rparr> else r0)"
      by (auto simp: unapply_invoices split: option.splits)
    have inv: "invoice_ok db i r0" using ok(2) r0 by (simp add: invoices_ok_def)
    show "invoice_ok ?db i r"
    proof (cases "i = aa_invoice app")
      case True
      then have "i_status r0 \<noteq> ''void''" using inv act by (auto simp: invoice_ok_def)
      then have r': "r = r0\<lparr>i_status := derived_status (applied_to ?db i) (i_total r0)\<rparr>" using r True by simp
      have "applied_to ?db i \<le> i_total r0" if "applied_to ?db i \<noteq> 0"
        using inv am(1) [of i] True act that \<open>i_status r0 \<noteq> ''void''\<close> by (auto simp: invoice_ok_def)
      then show ?thesis unfolding r' by (auto simp: invoice_ok_def)
    next
      case False
      then show ?thesis using inv r am(1) [of i] by (simp add: invoice_ok_def)
    qed
  qed
qed

lemma unapply_all:
  assumes "applications_ok db" "invoices_ok db" "distinct (map fst xs)"
    "\<forall>(xid, app) \<in> set xs. t_get (applications db) xid = Some app \<and> \<not> aa_voided app"
  shows "applications_ok (foldl unapply db xs) \<and> invoices_ok (foldl unapply db xs)
    \<and> (\<forall>q. applied_from (foldl unapply db xs) q \<le> applied_from db q)
    \<and> (\<forall>j. map_option i_total (t_get (invoices (foldl unapply db xs)) j) = map_option i_total (t_get (invoices db) j))
    \<and> ar_payments (foldl unapply db xs) = ar_payments db \<and> invoice_lines (foldl unapply db xs) = invoice_lines db
    \<and> line_items (foldl unapply db xs) = line_items db \<and> folios (foldl unapply db xs) = folios db
    \<and> accounts (foldl unapply db xs) = accounts db
    \<and> (\<forall>j. t_get (applications (foldl unapply db xs)) j =
          map_option (\<lambda>x. if j \<in> fst ` set xs then x\<lparr>aa_voided := True\<rparr> else x) (t_get (applications db) j))"
  using assms
proof (induction xs arbitrary: db)
  case Nil
  then show ?case by (simp add: option.map_ident)
next
  case (Cons x xs)
  obtain xid app where x: "x = (xid, app)" by (cases x)
  have g: "t_get (applications db) xid = Some app" "\<not> aa_voided app" using Cons.prems(4) x by auto
  note st = unapply_step [OF Cons.prems(1,2) g]
  have "\<forall>(i, a) \<in> set xs. t_get (applications (unapply db (xid, app))) i = Some a \<and> \<not> aa_voided a"
    using Cons.prems(3,4) x by (force simp: t_get_update_id)
  note IH = Cons.IH [OF st(1,2) _ this]
  have "\<And>q. applied_from (foldl unapply (unapply db (xid, app)) xs) q \<le> applied_from db q"
    using IH Cons.prems(3) st(3) order_trans by simp blast
  then show ?case using IH Cons.prems(3) st(4) x
    by (auto simp: t_get_update_id option.map_comp comp_def split: option.splits)
qed

lemma ar_ok_voidPayment:
  assumes "ar_ok db" "voidPayment p reason db = Inr db'"
  shows "ar_ok db'"
proof -
  define db1 where "db1 = db\<lparr>ar_payments := t_update (by_id p) (\<lambda>r. r\<lparr>ap_voided := True\<rparr>) (ar_payments db)\<rparr>"
  define xs where "xs = t_select (\<lambda>_ x. aa_payment x = p \<and> \<not> aa_voided x) (applications db1)"
  obtain pay where pay: "t_get (ar_payments db) p = Some pay"
    and db': "db' = snd (recomputeArAccountBalance (ap_account pay) (foldl unapply db1 xs))"
    using assms(2) by (auto simp: voidPayment_def Let_def db1_def xs_def split: option.splits if_splits)
  let ?db2 = "foldl unapply db1 xs"
  have f: "applications db1 = applications db" "invoices db1 = invoices db" "invoice_lines db1 = invoice_lines db"
    "line_items db1 = line_items db" by (simp_all add: db1_def)
  have amounts: "applied_to db1 = applied_to db" "applied_from db1 = applied_from db" "invoiced_total db1 = invoiced_total db"
    by (simp_all add: applied_to_def applied_from_def invoiced_total_def f fun_eq_iff)
  have ok1: "applications_ok db1" using assms(1) by (auto simp: ar_ok_defs f) (auto simp: db1_def t_get_update_id)
  have inv1: "invoices_ok db1" using assms(1) by (simp add: ar_ok_defs f invoice_ok_def amounts)
  have wf: "t_wf (applications db1)" using ok1 by (simp add: applications_ok_def)
  have d: "distinct (map fst xs)" unfolding xs_def using wf by (rule t_select_distinct)
  have sel: "\<forall>(xid, app) \<in> set xs. t_get (applications db1) xid = Some app \<and> \<not> aa_voided app"
    by (auto simp: xs_def t_select_set [OF wf])
  note u = unapply_all [OF ok1 inv1 d sel]
  have wf2: "t_wf (applications ?db2)" using u by (simp add: applications_ok_def)
  have cleared: "applied_from ?db2 p = 0"
    unfolding applied_from_def
  proof (rule t_total_none)
    fix i x assume "(i, x) \<in> set (rows (applications ?db2))"
    then have gx: "t_get (applications ?db2) i = Some x" using wf2 by (simp add: rows_get)
    then obtain y where y: "t_get (applications db1) i = Some y"
      and x: "x = (if i \<in> fst ` set xs then y\<lparr>aa_voided := True\<rparr> else y)"
      using u by auto
    have "aa_payment y = p \<Longrightarrow> \<not> aa_voided y \<Longrightarrow> i \<in> fst ` set xs"
      using y t_select_set [OF wf, of i y "\<lambda>_ x. aa_payment x = p \<and> \<not> aa_voided x"] by (force simp: xs_def)
    then show "\<not> (aa_payment x = p \<and> \<not> aa_voided x)" using x by auto
  qed
  have "ar_payments_ok ?db2"
    unfolding ar_payments_ok_def
  proof (intro allI impI)
    fix q s assume "t_get (ar_payments ?db2) q = Some s"
    then have g: "t_get (ar_payments db1) q = Some s" using u by simp
    obtain s0 where s0: "t_get (ar_payments db) q = Some s0" "ap_amount s = ap_amount s0" "q \<noteq> p \<longrightarrow> s = s0"
      using g by (auto simp: db1_def t_get_update_id split: if_splits)
    then have old: "payment_ok db q s0" using assms(1) by (simp add: ar_ok_defs)
    have "applied_from ?db2 q \<le> applied_from db q" using u amounts by simp
    moreover have "0 \<le> applied_from ?db2 q" using u applied_from_nonneg by blast
    ultimately show "payment_ok ?db2 q s" using old s0 cleared by (cases "q = p") (auto simp: payment_ok_def)
  qed
  moreover have "billing_ok ?db2"
  proof -
    have "invoiced_total ?db2 = invoiced_total db" using u f by (simp add: invoiced_total_def fun_eq_iff)
    moreover have tot: "map_option i_total (t_get (invoices ?db2) i) = map_option i_total (t_get (invoices db) i)" for i
      using u f by simp
    have "t_get (invoices ?db2) i \<noteq> None \<longleftrightarrow> t_get (invoices db) i \<noteq> None" for i
      using tot [of i] by (cases "t_get (invoices db) i") auto
    moreover have "i_total r = invoiced_total db i" if "t_get (invoices ?db2) i = Some r" for i r
      using tot [of i] that assms(1) by (cases "t_get (invoices db) i") (auto simp: ar_ok_def billing_ok_def)
    ultimately show ?thesis using assms(1) u f by (auto simp: ar_ok_def billing_ok_def)
  qed
  ultimately have "ar_ok ?db2" using u by (simp add: ar_ok_def)
  then show ?thesis unfolding db' by (rule ar_ok_recompute)
qed

text \<open>Generating an invoice: the unique key never refuses a line, and the lines add up to the total.\<close>

lemma is_invoiced_iff: "is_invoiced db i \<longleftrightarrow> i \<in> (\<lambda>(_, il). il_line il) ` set (rows (invoice_lines db))"
  by (force simp: is_invoiced_def t_select_def filter_empty_conv)

lemma insert_lines:
  assumes "distinct (map fst xs)" "\<forall>(i, l) \<in> set xs. \<not> is_invoiced db i" "t_wf (invoice_lines db)"
    "distinct (map (\<lambda>(_, il). il_line il) (rows (invoice_lines db)))"
  shows "\<exists>X. foldM (insert_invoice_line iid) db xs = Inr (db\<lparr>invoice_lines := X\<rparr>) \<and> t_wf X
    \<and> distinct (map (\<lambda>(_, il). il_line il) (rows X))
    \<and> (\<lambda>(_, il). il_line il) ` set (rows X) = (\<lambda>(_, il). il_line il) ` set (rows (invoice_lines db)) \<union> fst ` set xs
    \<and> (\<forall>j il. t_get X j = Some il \<longrightarrow> t_get (invoice_lines db) j = Some il \<or> il_invoice il = iid)
    \<and> (\<forall>j. t_total (\<lambda>_ il. il_invoice il = j) il_amount X =
         invoiced_total db j + (if j = iid then sum_list (map (\<lambda>(i, l). l_amount l) xs) else 0))"
  using assms
proof (induction xs arbitrary: db)
  case Nil
  then show ?case by (intro exI [of _ "invoice_lines db"]) (simp add: invoiced_total_def)
next
  case (Cons x xs)
  obtain i l where x: "x = (i, l)" by (cases x)
  let ?Y = "t_insert \<lparr>il_invoice = iid, il_line = i, il_amount = l_amount l\<rparr> (invoice_lines db)"
  let ?db = "db\<lparr>invoice_lines := ?Y\<rparr>"
  have ni: "\<not> is_invoiced db i" using Cons.prems(2) x by simp
  then have step: "insert_invoice_line iid db x = Inr ?db" by (simp add: x insert_invoice_line_def)
  have rY: "set (rows ?Y) = insert (next_id (invoice_lines db), \<lparr>il_invoice = iid, il_line = i, il_amount = l_amount l\<rparr>) (set (rows (invoice_lines db)))"
    by (rule rows_insert)
  have p1: "distinct (map fst xs)" using Cons.prems(1) by simp
  have p2: "\<forall>(j, m) \<in> set xs. \<not> is_invoiced ?db j"
    using Cons.prems(1,2) x by (force simp: is_invoiced_iff rY)
  have p3: "t_wf (invoice_lines ?db)" using Cons.prems(3) by (simp add: t_wf_insert)
  have p4: "distinct (map (\<lambda>(_, il). il_line il) (rows (invoice_lines ?db)))"
    using Cons.prems(4) ni by (simp add: t_insert_def is_invoiced_iff)
  obtain X where X: "foldM (insert_invoice_line iid) ?db xs = Inr (?db\<lparr>invoice_lines := X\<rparr>)" "t_wf X"
    "distinct (map (\<lambda>(_, il). il_line il) (rows X))"
    "(\<lambda>(_, il). il_line il) ` set (rows X) = (\<lambda>(_, il). il_line il) ` set (rows ?Y) \<union> fst ` set xs"
    "\<forall>j il. t_get X j = Some il \<longrightarrow> t_get ?Y j = Some il \<or> il_invoice il = iid"
    "\<forall>j. t_total (\<lambda>_ il. il_invoice il = j) il_amount X =
         invoiced_total ?db j + (if j = iid then sum_list (map (\<lambda>(i, l). l_amount l) xs) else 0)"
    using Cons.IH [OF p1 p2 p3 p4] by auto
  have tot: "invoiced_total ?db j = invoiced_total db j + (if j = iid then l_amount l else 0)" for j
    by (simp add: invoiced_total_def t_total_insert)
  show ?case
  proof (intro exI [of _ X] conjI)
    show "foldM (insert_invoice_line iid) db (x # xs) = Inr (db\<lparr>invoice_lines := X\<rparr>)" using step X(1) by simp
    show "(\<lambda>(_, il). il_line il) ` set (rows X) = (\<lambda>(_, il). il_line il) ` set (rows (invoice_lines db)) \<union> fst ` set (x # xs)"
      using X(4) rY x by auto
    show "\<forall>j il. t_get X j = Some il \<longrightarrow> t_get (invoice_lines db) j = Some il \<or> il_invoice il = iid"
    proof (intro allI impI)
      fix j il assume "t_get X j = Some il"
      then have "t_get ?Y j = Some il \<or> il_invoice il = iid" using X(5) by blast
      then show "t_get (invoice_lines db) j = Some il \<or> il_invoice il = iid"
        using Cons.prems(3) by (auto simp: t_get_insert split: if_splits)
    qed
    show "\<forall>j. t_total (\<lambda>_ il. il_invoice il = j) il_amount X =
         invoiced_total db j + (if j = iid then sum_list (map (\<lambda>(i, l). l_amount l) (x # xs)) else 0)"
      using X(6) tot x by simp
  qed (use X in auto)
qed

lemma generateInvoice_cases:
  assumes ok: "ar_ok db" and run: "generateInvoice k g db = Inr (iid, db')"
  obtains a X today number due where "t_get (accounts db) k = Some a" "a_status a = ''active''"
    "t_select (eligible db (a_company a) g) (line_items db) \<noteq> []" "business_date db = Some today"
    "db' = db\<lparr>invoice_seq := Some (Suc (case invoice_seq db of None \<Rightarrow> 1 | Some n \<Rightarrow> n)), invoices := t_insert
       \<lparr>i_account = k, i_number = number, i_currency = a_currency a,
        i_total = sum_list (map (\<lambda>(i, l). l_amount l) (t_select (eligible db (a_company a) g) (line_items db))),
        i_status = ''issued'', i_issued = today, i_due = due\<rparr> (invoices db), invoice_lines := X\<rparr>"
    "number = formatInvoiceNumber (property_id db) (case invoice_seq db of None \<Rightarrow> 1 | Some n \<Rightarrow> n)"
    "iid = next_id (invoices db)" "t_wf X" "distinct (map (\<lambda>(_, il). il_line il) (rows X))"
    "(\<lambda>(_, il). il_line il) ` set (rows X) = (\<lambda>(_, il). il_line il) ` set (rows (invoice_lines db))
       \<union> fst ` set (t_select (eligible db (a_company a) g) (line_items db))"
    "\<forall>j il. t_get X j = Some il \<longrightarrow> t_get (invoice_lines db) j = Some il \<or> il_invoice il = iid"
    "\<forall>j. t_total (\<lambda>_ il. il_invoice il = j) il_amount X = invoiced_total db j +
       (if j = iid then sum_list (map (\<lambda>(i, l). l_amount l) (t_select (eligible db (a_company a) g) (line_items db))) else 0)"
proof -
  have wf: "t_wf (line_items db)" "t_wf (invoice_lines db)"
    and dl: "distinct (map (\<lambda>(_, il). il_line il) (rows (invoice_lines db)))"
    using ok by (simp_all add: ar_ok_def billing_ok_def)
  obtain a where a: "t_get (accounts db) k = Some a" "a_status a = ''active''"
    using run by (auto simp: generateInvoice_def split: option.splits if_splits)
  define xs where "xs = t_select (eligible db (a_company a) g) (line_items db)"
  define n where "n = (case invoice_seq db of None \<Rightarrow> 1 | Some n \<Rightarrow> n)"
  have ne: "xs \<noteq> []" using run a by (auto simp: generateInvoice_def xs_def split: if_splits)
  obtain today c where tc: "business_date db = Some today" "t_get (companies db) (a_company a) = Some c"
    using run a ne by (auto simp: generateInvoice_def Let_def nextInvoiceNumber_def xs_def split: option.splits)
  let ?inv = "\<lparr>i_account = k, i_number = formatInvoiceNumber (property_id db) n, i_currency = a_currency a,
     i_total = sum_list (map (\<lambda>(i, l). l_amount l) xs), i_status = ''issued'', i_issued = today, i_due = add_days today (c_terms c)\<rparr>"
  let ?db2 = "db\<lparr>invoice_seq := Some (Suc n), invoices := t_insert ?inv (invoices db)\<rparr>"
  have run2: "rbind (foldM (insert_invoice_line (next_id (invoices db))) ?db2 xs) (\<lambda>db3. Inr (next_id (invoices db), db3)) = Inr (iid, db')"
    using run a ne tc by (simp add: generateInvoice_def Let_def nextInvoiceNumber_def xs_def n_def cong: if_cong)
  have same: "is_invoiced ?db2 = is_invoiced db" "invoiced_total ?db2 = invoiced_total db"
    by (simp_all add: is_invoiced_def invoiced_total_def fun_eq_iff)
  have p1: "distinct (map fst xs)" unfolding xs_def using wf(1) by (rule t_select_distinct)
  have p2: "\<forall>(i, l) \<in> set xs. \<not> is_invoiced ?db2 i"
    unfolding same by (auto simp: xs_def t_select_set [OF wf(1)] eligible_def)
  obtain X where X: "foldM (insert_invoice_line (next_id (invoices db))) ?db2 xs = Inr (?db2\<lparr>invoice_lines := X\<rparr>)" "t_wf X"
    "distinct (map (\<lambda>(_, il). il_line il) (rows X))"
    "(\<lambda>(_, il). il_line il) ` set (rows X) = (\<lambda>(_, il). il_line il) ` set (rows (invoice_lines db)) \<union> fst ` set xs"
    "\<forall>j il. t_get X j = Some il \<longrightarrow> t_get (invoice_lines db) j = Some il \<or> il_invoice il = next_id (invoices db)"
    "\<forall>j. t_total (\<lambda>_ il. il_invoice il = j) il_amount X = invoiced_total db j +
         (if j = next_id (invoices db) then sum_list (map (\<lambda>(i, l). l_amount l) xs) else 0)"
    using insert_lines [OF p1 p2, of "next_id (invoices db)"] wf(2) dl unfolding same by auto
  have iid: "iid = next_id (invoices db)" and db': "db' = ?db2\<lparr>invoice_lines := X\<rparr>" using run2 X(1) by simp_all
  show thesis
    by (rule that [OF a, where X = X and today = today])
      (use ne tc iid db' X in \<open>simp_all add: xs_def [symmetric] n_def [symmetric]\<close>)
qed

lemma ar_ok_generateInvoice:
  assumes ok: "ar_ok db" and run: "generateInvoice k g db = Inr (iid, db')"
  shows "ar_ok db'"
  using ok run
proof (rule generateInvoice_cases)
  fix a X today number due
  let ?xs = "t_select (eligible db (a_company a) g) (line_items db)"
  let ?amt = "sum_list (map (\<lambda>(i, l). l_amount l) ?xs)"
  let ?inv = "\<lparr>i_account = k, i_number = number, i_currency = a_currency a, i_total = ?amt,
    i_status = ''issued'', i_issued = today, i_due = due\<rparr>"
  assume db': "db' = db\<lparr>invoice_seq := Some (Suc (case invoice_seq db of None \<Rightarrow> 1 | Some n \<Rightarrow> n)),
      invoices := t_insert ?inv (invoices db), invoice_lines := X\<rparr>"
    and iid: "iid = next_id (invoices db)" and X: "t_wf X" "distinct (map (\<lambda>(_, il). il_line il) (rows X))"
    "\<forall>j il. t_get X j = Some il \<longrightarrow> t_get (invoice_lines db) j = Some il \<or> il_invoice il = iid"
    "\<forall>j. t_total (\<lambda>_ il. il_invoice il = j) il_amount X = invoiced_total db j + (if j = iid then ?amt else 0)"
  have wf: "t_wf (invoices db)" "t_wf (applications db)" "t_wf (invoice_lines db)"
    using ok by (simp_all add: ar_ok_defs billing_ok_def)
  have f: "applications db' = applications db" "ar_payments db' = ar_payments db" "line_items db' = line_items db"
    "invoices db' = t_insert ?inv (invoices db)" "invoice_lines db' = X" by (simp_all add: db')
  have same: "applied_to db' = applied_to db" "applied_from db' = applied_from db"
    by (simp_all add: applied_to_def applied_from_def f fun_eq_iff)
  have gi: "t_get (invoices db') j = (if j = iid then Some ?inv else t_get (invoices db) j)" for j
    using wf(1) by (simp add: f iid t_get_insert)
  have none: "t_get (invoices db) iid = None" using wf(1) iid by simp
  have unapplied: "applied_to db iid = 0"
    unfolding applied_to_def
  proof (rule t_total_none)
    fix i x assume "(i, x) \<in> set (rows (applications db))"
    then have "t_get (invoices db) (aa_invoice x) \<noteq> None"
      using ok wf(2) by (simp add: ar_ok_defs rows_get)
    then show "\<not> (aa_invoice x = iid \<and> \<not> aa_voided x)" using none by auto
  qed
  have no_lines: "invoiced_total db iid = 0"
    unfolding invoiced_total_def
  proof (rule t_total_none)
    fix i il assume "(i, il) \<in> set (rows (invoice_lines db))"
    then have "t_get (invoices db) (il_invoice il) \<noteq> None"
      using ok wf(3) by (simp add: ar_ok_def billing_ok_def rows_get)
    then show "il_invoice il \<noteq> iid" using none by auto
  qed
  have "applications_ok db'" using ok wf by (auto simp: ar_ok_defs f t_get_insert)
  moreover have "invoices_ok db'"
    using ok unapplied by (auto simp: ar_ok_defs gi invoice_ok_def same derived_status_def split: if_splits)
  moreover have "ar_payments_ok db'" using ok by (simp add: ar_ok_defs f payment_ok_def same)
  moreover have "billing_ok db'"
  proof -
    have "invoiced_total db' j = invoiced_total db j + (if j = iid then ?amt else 0)" for j
      using X(4) by (simp add: invoiced_total_def [of db'] f)
    moreover have "t_get (invoices db) (il_invoice il) \<noteq> None \<or> il_invoice il = iid" if "t_get X j = Some il" for j il
      using that X(3) ok by (force simp: ar_ok_def billing_ok_def)
    ultimately show ?thesis
      using ok X(1,2) no_lines none by (auto simp: ar_ok_def billing_ok_def gi f(3,5) split: if_splits)
  qed
  ultimately show "ar_ok db'" by (simp add: ar_ok_def)
qed

section \<open>Histories\<close>

datatype ar_op =
    OpenAccount nat "int option" string "string option"
  | ChangeAccount nat account_changes
  | GenerateInvoice nat "nat option"
  | VoidInvoice nat "string option"
  | RecordPayment nat js_value "string option" "date option" "(nat option \<times> js_value) list"
  | ApplyPayment nat "(nat option \<times> js_value) list"
  | VoidPayment nat "string option"

text \<open>A request that throws leaves the database as it was: its transaction rolls back.\<close>

definition committed :: "hotel \<Rightarrow> hotel result \<Rightarrow> hotel" where
  "committed db r = (case r of Inl _ \<Rightarrow> db | Inr db' \<Rightarrow> db')"

definition run_ar :: "hotel \<Rightarrow> ar_op \<Rightarrow> hotel" where
  "run_ar db op = (case op of
     OpenAccount c l cur m \<Rightarrow> committed db (map_sum id snd (createArAccount c l cur m db))
   | ChangeAccount k ch \<Rightarrow> snd (updateArAccount k ch db)
   | GenerateInvoice k g \<Rightarrow> committed db (map_sum id snd (generateInvoice k g db))
   | VoidInvoice i why \<Rightarrow> committed db (voidInvoice i why db)
   | RecordPayment k amt cur d apps \<Rightarrow> committed db (map_sum id snd (recordPayment k amt cur d apps db))
   | ApplyPayment p apps \<Rightarrow> committed db (applyPayment p apps db)
   | VoidPayment p why \<Rightarrow> committed db (voidPayment p why db))"

lemma committed_inv: "P db \<Longrightarrow> (\<And>db'. r = Inr db' \<Longrightarrow> P db') \<Longrightarrow> P (committed db r)"
  by (cases r) (simp_all add: committed_def)

lemma map_sum_Inr: "map_sum id snd r = Inr db' \<longleftrightarrow> (\<exists>x. r = Inr (x, db'))"
  by (cases r) auto

lemma ar_ok_createArAccount: "ar_ok db \<Longrightarrow> createArAccount c l cur m db = Inr (k, db') \<Longrightarrow> ar_ok db'"
proof -
  assume ok: "ar_ok db" and run: "createArAccount c l cur m db = Inr (k, db')"
  have "invoices db' = invoices db" "invoice_lines db' = invoice_lines db" "ar_payments db' = ar_payments db"
    "applications db' = applications db" "line_items db' = line_items db"
    using run by (auto simp: createArAccount_def split: option.splits if_splits)
  then show "ar_ok db'" using ok by (intro ar_ok_frame [of db' db]) (simp_all add: ar_ok_def billing_ok_def)
qed

lemma ar_ok_updateArAccount: "ar_ok db \<Longrightarrow> ar_ok (snd (updateArAccount k ch db))"
  by (rule ar_ok_frame [of _ db]) (auto simp: updateArAccount_def Let_def ar_ok_def billing_ok_def)

lemmas ar_ok_operations = ar_ok_createArAccount ar_ok_generateInvoice ar_ok_voidInvoice
  ar_ok_recordPayment ar_ok_applyPayment ar_ok_voidPayment

lemma committed_pair_inv:
  "P db \<Longrightarrow> (\<And>x db'. r = Inr (x, db') \<Longrightarrow> P db') \<Longrightarrow> P (committed db (map_sum id snd r))"
  by (rule committed_inv) (auto simp: map_sum_Inr)

lemma ar_ok_run:
  assumes ok: "ar_ok db"
  shows "ar_ok (run_ar db op)"
proof (cases op)
  case (OpenAccount c l cur m)
  show ?thesis unfolding OpenAccount run_ar_def ar_op.case
    by (rule committed_pair_inv [where P = ar_ok, OF ok]) (rule ar_ok_createArAccount [OF ok])
next
  case (GenerateInvoice k g)
  show ?thesis unfolding GenerateInvoice run_ar_def ar_op.case
    by (rule committed_pair_inv [where P = ar_ok, OF ok]) (rule ar_ok_generateInvoice [OF ok])
next
  case (RecordPayment k amt cur d apps)
  show ?thesis unfolding RecordPayment run_ar_def ar_op.case
    by (rule committed_pair_inv [where P = ar_ok, OF ok]) (rule ar_ok_recordPayment [OF ok])
next
  case (VoidInvoice i why)
  show ?thesis unfolding VoidInvoice run_ar_def ar_op.case
    by (rule committed_inv [where P = ar_ok, OF ok]) (rule ar_ok_voidInvoice [OF ok])
next
  case (ApplyPayment p apps)
  show ?thesis unfolding ApplyPayment run_ar_def ar_op.case
    by (rule committed_inv [where P = ar_ok, OF ok]) (rule ar_ok_applyPayment [OF ok])
next
  case (VoidPayment p why)
  show ?thesis unfolding VoidPayment run_ar_def ar_op.case
    by (rule committed_inv [where P = ar_ok, OF ok]) (rule ar_ok_voidPayment [OF ok])
next
  case (ChangeAccount k ch)
  show ?thesis unfolding ChangeAccount run_ar_def ar_op.case by (rule ar_ok_updateArAccount [OF ok])
qed

lemma ar_ok_history: "ar_ok db \<Longrightarrow> ar_ok (foldl run_ar db ops)"
  by (induction ops arbitrary: db) (simp_all add: ar_ok_run)

section \<open>Ageing adds up\<close>

definition ageing_total :: "ageing \<Rightarrow> int" where
  "ageing_total b = current_due b + bucket_1_30 b + bucket_31_60 b + bucket_61_90 b + bucket_90_plus b"

lemma ageing_total_step:
  "ageing_total (age_one d b v) = ageing_total b + max 0 (av_total v - av_applied v)"
  by (auto simp: age_one_def Let_def ageing_total_def)

lemma ageing_total_buckets:
  "ageing_total (computeAgeingBuckets vs d) = sum_list (map (\<lambda>v. max 0 (av_total v - av_applied v)) vs)"
proof -
  have "ageing_total (foldl (age_one d) b vs) = ageing_total b + sum_list (map (\<lambda>v. max 0 (av_total v - av_applied v)) vs)" for b
    by (induction vs arbitrary: b) (simp_all add: ageing_total_step)
  then show ?thesis by (simp add: computeAgeingBuckets_def no_ageing_def ageing_total_def)
qed

section \<open>Properties\<close>

text \<open>A company with an account, one folio billed to it and two charges, for the witnesses.\<close>

definition billed_hotel :: hotel where
  "billed_hotel = new_hotel\<lparr>
     companies := t_insert \<lparr>c_name = ''Acme'', c_terms = 30\<rparr> t_empty,
     accounts := t_insert \<lparr>a_company = 1, a_limit = 50000, a_currency = ''GBP'', a_mode = ''block'', a_status = ''active'',
       a_opening = 0, a_balance = 12000, a_over = False\<rparr> t_empty,
     folios := t_insert \<lparr>f_reservation = 1, f_status = ''open'', f_balance = 12000, f_currency = ''GBP'',
       f_billed_to = ''Acme'', f_company = Some 1\<rparr> t_empty,
     line_items := t_insert \<lparr>l_folio = 1, l_type = TaxLine, l_description = ''VAT'', l_amount = 2000, l_currency = ''GBP'',
         l_tax_amount = 0, l_method = None, l_payment = None, l_business_date = Date 2026 5 1, l_related = Some 1,
         l_voided = False, l_void_reason = None\<rparr>
       (t_insert \<lparr>l_folio = 1, l_type = RoomCharge, l_description = ''Room'', l_amount = 10000, l_currency = ''GBP'',
         l_tax_amount = 2000, l_method = None, l_payment = None, l_business_date = Date 2026 5 1, l_related = None,
         l_voided = False, l_void_reason = None\<rparr> t_empty)\<rparr>"

lemma ar_ok_billed_hotel: "ar_ok billed_hotel"
  by (simp add: ar_ok_defs billing_ok_def billed_hotel_def new_hotel_def t_empty_def t_get_def)
    (simp add: t_wf_def t_insert_def)

text \<open>
  C4: Whatever sequence of receivables requests is served, the applications of payments stay
  consistent: no invoice is ever over-applied, no payment is spent beyond its amount, a voided
  payment or invoice has nothing applied, each invoice's status is the one its applications
  imply, every invoice total is the sum of its own lines and no charge is on two invoices.
\<close>

theorem receivables_history_safe:
  assumes "ar_ok db0" and "db = foldl run_ar db0 ops"
  shows "(\<forall>i r. t_get (invoices db) i = Some r \<longrightarrow>
       0 \<le> applied_to db i \<and> (applied_to db i = 0 \<or> applied_to db i \<le> i_total r)
       \<and> (i_status r = ''void'' \<and> applied_to db i = 0 \<or> i_status r = derived_status (applied_to db i) (i_total r))
       \<and> i_total r = invoiced_total db i)
    \<and> (\<forall>p q. t_get (ar_payments db) p = Some q \<longrightarrow>
       0 \<le> applied_from db p \<and> applied_from db p \<le> ap_amount q \<and> (ap_voided q \<longrightarrow> applied_from db p = 0))
    \<and> distinct (map (\<lambda>(_, il). il_line il) (rows (invoice_lines db)))"
proof -
  have ok: "ar_ok db" using assms by (simp add: ar_ok_history)
  have "0 \<le> applied_to db i" "0 \<le> applied_from db p" for i p
    using ok applied_to_nonneg applied_from_nonneg by (simp_all add: ar_ok_def)
  then show ?thesis
    using ok by (auto simp: ar_ok_defs billing_ok_def invoice_ok_def payment_ok_def split: if_splits)
qed

theorem receivables_history_safe_witness:
  "distinct (map (\<lambda>(_, il). il_line il) (rows (invoice_lines
     (foldl run_ar billed_hotel [GenerateInvoice 1 None, RecordPayment 1 (JNum ''60'') None None [], GenerateInvoice 1 None]))))"
  using receivables_history_safe [OF ar_ok_billed_hotel refl] by blast

text \<open>
  C26: An invoice run bills every open charge of the account exactly once: the new invoice's
  total is the sum of the charges that were eligible, each of them is on an invoice afterwards,
  the balance owed does not change, and running it again finds nothing to invoice.
\<close>

theorem generate_invoice_once:
  assumes "ar_ok db" "generateInvoice k g db = Inr (iid, db')"
  shows "generateInvoice k g db' = Inl NoChargesToInvoiceError
    \<and> (\<exists>a r. t_get (accounts db) k = Some a \<and> t_get (invoices db') iid = Some r
        \<and> i_total r = t_total (eligible db (a_company a) g) l_amount (line_items db)
        \<and> (\<forall>i l. t_get (line_items db) i = Some l \<longrightarrow> eligible db (a_company a) g i l \<longrightarrow> is_invoiced db' i)
        \<and> owed db' a k = owed db a k)"
  using assms
proof (rule generateInvoice_cases)
  fix a :: ar_account and X today number due
  let ?xs = "t_select (eligible db (a_company a) g) (line_items db)"
  assume a: "t_get (accounts db) k = Some a" "a_status a = ''active''"
    and db': "db' = db\<lparr>invoice_seq := Some (Suc (case invoice_seq db of None \<Rightarrow> 1 | Some n \<Rightarrow> n)), invoices := t_insert
       \<lparr>i_account = k, i_number = number, i_currency = a_currency a, i_total = sum_list (map (\<lambda>(i, l). l_amount l) ?xs),
        i_status = ''issued'', i_issued = today, i_due = due\<rparr> (invoices db), invoice_lines := X\<rparr>"
    and iid: "iid = next_id (invoices db)"
    and X: "(\<lambda>(_, il). il_line il) ` set (rows X) = (\<lambda>(_, il). il_line il) ` set (rows (invoice_lines db)) \<union> fst ` set ?xs"
  have wf: "t_wf (line_items db)" "t_wf (invoices db)" using assms(1) by (simp_all add: ar_ok_defs billing_ok_def)
  have f: "folios db' = folios db" "line_items db' = line_items db" "accounts db' = accounts db" "block_of db' = block_of db"
    "ar_payments db' = ar_payments db" by (simp_all add: db')
  have inv: "is_invoiced db' i \<longleftrightarrow> is_invoiced db i \<or> i \<in> fst ` set ?xs" for i
    using X by (simp add: is_invoiced_iff db')
  have now: "is_invoiced db' i" if "t_get (line_items db) i = Some l" "eligible db (a_company a) g i l" for i l
  proof -
    have "(i, l) \<in> set ?xs" using that by (simp add: t_select_set [OF wf(1)])
    then show ?thesis unfolding inv by force
  qed
  have "t_select (eligible db' (a_company a) g) (line_items db') = []"
  proof -
    have "\<not> eligible db' (a_company a) g i l" if "t_get (line_items db) i = Some l" for i l
    proof
      assume e: "eligible db' (a_company a) g i l"
      then have "\<not> is_invoiced db i" using inv by (simp add: eligible_def)
      then have "eligible db (a_company a) g i l" using e by (cases g; cases "t_get (folios db) (l_folio l)") (simp_all add: eligible_def billed_to_company_def f)
      then show False using now that e by (simp add: eligible_def)
    qed
    then show ?thesis by (auto simp: t_select_def filter_empty_conv f rows_get [OF wf(1)])
  qed
  then have "generateInvoice k g db' = Inl NoChargesToInvoiceError"
    using a by (simp add: generateInvoice_def f)
  moreover have "owed db' a k = owed db a k" by (rule owed_frame) (simp_all add: f)
  moreover have "t_get (invoices db') iid = Some \<lparr>i_account = k, i_number = number, i_currency = a_currency a,
      i_total = sum_list (map (\<lambda>(i, l). l_amount l) ?xs), i_status = ''issued'', i_issued = today, i_due = due\<rparr>"
    using wf(2) by (simp add: db' iid t_get_insert)
  ultimately show ?thesis using a now by (simp add: t_total_def)
qed

theorem generate_invoice_once_witness:
  "\<exists>db'. generateInvoice 1 None billed_hotel = Inr (1, db') \<and> generateInvoice 1 None db' = Inl NoChargesToInvoiceError"
proof -
  have "\<exists>db'. generateInvoice 1 None billed_hotel = Inr (1, db')"
    by (simp add: generateInvoice_def billed_hotel_def new_hotel_def t_insert_def t_empty_def t_get_def t_select_def
        eligible_def billed_to_company_def is_invoiced_def ar_charge_types_def Let_def nextInvoiceNumber_def
        insert_invoice_line_def)
  then show ?thesis using generate_invoice_once [OF ar_ok_billed_hotel] by blast
qed

text \<open>
  C27: The credit limit is decided by what the account really owes: on an active account that
  blocks, without an override, a charge is allowed exactly when the re-derived balance plus
  the charge stays within the limit; an override needs a reason; and the stored balance and
  flag are right afterwards whenever the check passes.
\<close>

theorem credit_limit_decision:
  assumes "t_wf (accounts db)" "account_for_company db c = Some (k, a)" "a_status a = ''active''" "a_mode a = ''block''"
  shows "((\<exists>r. assertWithinCreditLimit c amt False why db = Inr r) \<longleftrightarrow> owed db a k + amt \<le> a_limit a)
    \<and> ((\<exists>r. assertWithinCreditLimit c amt True why db = Inr r) \<longleftrightarrow> owed db a k + amt \<le> a_limit a \<or> given why)
    \<and> (\<forall>o_flag r db'. assertWithinCreditLimit c amt o_flag why db = Inr (r, db') \<longrightarrow>
        cc_account r = k \<and> account_balance db' k = Some (owed db a k) \<and> cc_over r = (owed db a k + amt > a_limit a))"
proof -
  have a: "t_get (accounts db) k = Some a"
    using t_first_SomeD [OF assms(1)] assms(2) by (simp add: account_for_company_def)
  let ?a = "a\<lparr>a_balance := owed db a k, a_over := owed db a k > a_limit a\<rparr>"
  obtain db1 where rec: "recomputeArAccountBalance k db = (Some ?a, db1)"
    using a by (simp add: recomputeArAccountBalance_def Let_def)
  have bal: "account_balance db1 k = Some (owed db a k)"
    using recompute_ar_account [of k db k] a by (simp add: account_balance_def rec)
  have "assertWithinCreditLimit c amt override why db =
      (if owed db a k + amt > a_limit a then
         if override then
           if given why then Inr (\<lparr>cc_account = k, cc_over = True, cc_overridden = True\<rparr>, db1)
           else Inl CreditLimitOverrideReasonRequiredError
         else Inl (CreditLimitExceededError k (owed db a k + amt) (a_limit a))
       else Inr (\<lparr>cc_account = k, cc_over = False, cc_overridden = False\<rparr>, db1))" for override
    using assms(2-4) by (simp add: assertWithinCreditLimit_def rec Let_def)
  then show ?thesis using bal by auto
qed

theorem credit_limit_decision_witness:
  "\<not> (\<exists>r. assertWithinCreditLimit 1 38001 False None billed_hotel = Inr r)
    \<and> (\<exists>r. assertWithinCreditLimit 1 38000 False None billed_hotel = Inr r)"
proof -
  define a :: ar_account where "a = \<lparr>a_company = 1, a_limit = 50000, a_currency = ''GBP'', a_mode = ''block'',
    a_status = ''active'', a_opening = 0, a_balance = 12000, a_over = False\<rparr>"
  have acc: "t_wf (accounts billed_hotel)" "account_for_company billed_hotel 1 = Some (1, a)"
    by (simp_all add: billed_hotel_def new_hotel_def a_def account_for_company_def t_first_def t_select_def
        t_insert_def t_empty_def t_wf_def)
  have "owed billed_hotel a 1 = 12000"
    by (simp add: owed_def chargeTotal_def paymentTotal_def billed_hotel_def new_hotel_def a_def t_total_insert
        billed_to_company_def t_get_def t_empty_def t_insert_def ar_charge_types_def t_total_def t_select_def)
  then show ?thesis
    using credit_limit_decision [OF acc, where why = None and amt = 38001]
      credit_limit_decision [OF acc, where why = None and amt = 38000]
    by (simp add: a_def)
qed

definition outstanding_where :: "(int \<Rightarrow> bool) \<Rightarrow> date \<Rightarrow> aged_invoice list \<Rightarrow> int" where
  "outstanding_where P d vs =
     sum_list (map (\<lambda>v. max 0 (av_total v - av_applied v)) (filter (\<lambda>v. P (daysBetween (av_due v) d)) vs))"

lemma age_step_where:
  "current_due (age_one d b v) = current_due b + outstanding_where (\<lambda>n. n \<le> 0) d [v]"
  "bucket_1_30 (age_one d b v) = bucket_1_30 b + outstanding_where (\<lambda>n. 1 \<le> n \<and> n \<le> 30) d [v]"
  "bucket_31_60 (age_one d b v) = bucket_31_60 b + outstanding_where (\<lambda>n. 31 \<le> n \<and> n \<le> 60) d [v]"
  "bucket_61_90 (age_one d b v) = bucket_61_90 b + outstanding_where (\<lambda>n. 61 \<le> n \<and> n \<le> 90) d [v]"
  "bucket_90_plus (age_one d b v) = bucket_90_plus b + outstanding_where (\<lambda>n. 90 < n) d [v]"
  by (auto simp: age_one_def Let_def outstanding_where_def)

lemma foldl_column:
  fixes col :: "'b \<Rightarrow> int"
  assumes "\<And>b v. col (f b v) = col b + w v"
  shows "col (foldl f b vs) = col b + sum_list (map w vs)"
  by (induction vs arbitrary: b) (simp_all add: assms)

lemma outstanding_where_sum: "outstanding_where P d vs = sum_list (map (\<lambda>v. outstanding_where P d [v]) vs)"
  by (induction vs) (simp_all add: outstanding_where_def)

text \<open>
  The ageing report loses nothing and counts nothing twice: each bucket is exactly what is
  outstanding on the invoices whose days overdue fall in its range (due today or later is
  current, then 1 to 30, 31 to 60, 61 to 90 and over 90), a settled invoice counts nowhere, and the
  five buckets add up to everything outstanding.
\<close>

theorem ageing_buckets_exact:
  "computeAgeingBuckets vs d = \<lparr>current_due = outstanding_where (\<lambda>n. n \<le> 0) d vs,
     bucket_1_30 = outstanding_where (\<lambda>n. 1 \<le> n \<and> n \<le> 30) d vs,
     bucket_31_60 = outstanding_where (\<lambda>n. 31 \<le> n \<and> n \<le> 60) d vs,
     bucket_61_90 = outstanding_where (\<lambda>n. 61 \<le> n \<and> n \<le> 90) d vs,
     bucket_90_plus = outstanding_where (\<lambda>n. 90 < n) d vs\<rparr>
   \<and> ageing_total (computeAgeingBuckets vs d) = outstanding_where (\<lambda>_. True) d vs"
proof -
  have "computeAgeingBuckets vs d = \<lparr>current_due = outstanding_where (\<lambda>n. n \<le> 0) d vs,
     bucket_1_30 = outstanding_where (\<lambda>n. 1 \<le> n \<and> n \<le> 30) d vs,
     bucket_31_60 = outstanding_where (\<lambda>n. 31 \<le> n \<and> n \<le> 60) d vs,
     bucket_61_90 = outstanding_where (\<lambda>n. 61 \<le> n \<and> n \<le> 90) d vs,
     bucket_90_plus = outstanding_where (\<lambda>n. 90 < n) d vs\<rparr>"
    unfolding computeAgeingBuckets_def
    by (rule ageing.equality)
      (simp_all add: foldl_column [where f = "age_one d", OF age_step_where(1)]
        foldl_column [where f = "age_one d", OF age_step_where(2)] foldl_column [where f = "age_one d", OF age_step_where(3)]
        foldl_column [where f = "age_one d", OF age_step_where(4)] foldl_column [where f = "age_one d", OF age_step_where(5)]
        no_ageing_def flip: outstanding_where_sum)
  moreover have "outstanding_where (\<lambda>_. True) d vs = sum_list (map (\<lambda>v. max 0 (av_total v - av_applied v)) vs)"
    by (simp add: outstanding_where_def)
  ultimately show ?thesis using ageing_total_buckets [of vs d] by simp
qed

end
