(* ===== verification/Ledger.thy ===== *)
theory Ledger
  imports Receivables
begin

text \<open>
  The folio ledger of \<open>modules/cashiering/service.js\<close>: locking, folios, charges with their tax,
  adjustments, voids, moves between folios, billing to a company, and the payments that settle
  at once (cash, card terminal). A folio's balance is the derived column of its unvoided lines;
  \<open>books_ok\<close> is that invariant, and every operation keeps it.
\<close>

section \<open>Locking folios\<close>

text \<open>
  The lock loop runs against a database other transactions change: attempt \<open>k\<close> peeks at
  \<open>peeks k\<close> without locks and then locks \<open>locks k\<close>. The result names the companies whose
  accounts are held with the locked rows.
\<close>

definition companies_of :: "(nat \<times> folio) list \<Rightarrow> nat list" where
  "companies_of fs = List.map_filter (\<lambda>(_, f). f_company f) fs"

definition rows_of :: "folio table \<Rightarrow> nat list \<Rightarrow> (nat \<times> folio) list" where
  "rows_of t ids = t_select (\<lambda>i _. i \<in> set ids) t"

fun lock_attempts ::
    "nat \<Rightarrow> nat \<Rightarrow> (nat \<Rightarrow> folio table) \<Rightarrow> (nat \<Rightarrow> folio table) \<Rightarrow> nat list \<Rightarrow> nat list \<Rightarrow> (nat list \<times> (nat \<times> folio) list) result" where
  "lock_attempts 0 k peeks locks ids held = Inl (ValidationError ''FOLIO_BUSY'')"
| "lock_attempts (Suc n) k peeks locks ids held =
     (let wanted = filter (\<lambda>c. c \<notin> set held) (remdups (companies_of (rows_of (peeks k) ids)));
          held' = held @ wanted;
          locked = rows_of (locks k) ids
      in if list_all (\<lambda>(_, f). case f_company f of None \<Rightarrow> True | Some c \<Rightarrow> c \<in> set held') locked
         then Inr (held', locked)
         else lock_attempts n (Suc k) peeks locks ids held')"

definition lockFoliosForMutation ::
    "(nat \<Rightarrow> folio table) \<Rightarrow> (nat \<Rightarrow> folio table) \<Rightarrow> nat list \<Rightarrow> (nat list \<times> (nat \<times> folio) list) result" where
  "lockFoliosForMutation peeks locks ids = lock_attempts 5 0 peeks locks ids []"

text \<open>Inside a step nothing moves between the peek and the lock.\<close>

definition lock_now :: "nat list \<Rightarrow> hotel \<Rightarrow> (nat \<times> folio) list result" where
  "lock_now ids db = map_sum id snd (lockFoliosForMutation (\<lambda>_. folios db) (\<lambda>_. folios db) ids)"

definition lockFolio :: "nat \<Rightarrow> hotel \<Rightarrow> folio option result" where
  "lockFolio fid db = map_sum id (\<lambda>locked. map_of locked fid) (lock_now [fid] db)"

section \<open>The balance\<close>

definition folio_sum :: "hotel \<Rightarrow> nat \<Rightarrow> int" where
  "folio_sum db fid = t_total (\<lambda>_ l. l_folio l = fid \<and> \<not> l_voided l) l_amount (line_items db)"

definition recomputeFolioBalance :: "nat \<Rightarrow> hotel \<Rightarrow> hotel" where
  "recomputeFolioBalance fid db =
     (let balance = folio_sum db fid
      in db\<lparr>folios := t_update (by_id fid) (\<lambda>f. f\<lparr>f_balance := balance\<rparr>) (folios db)\<rparr>)"

definition folio_balance :: "hotel \<Rightarrow> nat \<Rightarrow> int option" where
  "folio_balance db fid = map_option f_balance (t_get (folios db) fid)"

section \<open>Business dates\<close>

text \<open>\<open>/^\d{4}-\d{2}-\d{2}$/\<close> and the check that the text names a real day.\<close>

definition parse_iso :: "string \<Rightarrow> date option" where
  "parse_iso s =
     (let d = Date (int (of_digits 10 (take 4 s))) (int (of_digits 10 (take 2 (drop 5 s)))) (int (of_digits 10 (drop 8 s)))
      in if length s = 10 \<and> list_all is_digit (take 4 s) \<and> s ! 4 = CHR ''-'' \<and> list_all is_digit (take 2 (drop 5 s))
            \<and> s ! 7 = CHR ''-'' \<and> list_all is_digit (drop 8 s) \<and> valid_date d
         then Some d else None)"

definition resolveClientBusinessDate :: "nat \<Rightarrow> js_value \<Rightarrow> bool \<Rightarrow> hotel \<Rightarrow> (date option \<times> bool) result" where
  "resolveClientBusinessDate fid clientDate canBackdate db =
     (if clientDate = JUndefined \<or> clientDate = JNull then Inr (None, False)
      else case (case clientDate of JStr s \<Rightarrow> parse_iso s | _ \<Rightarrow> None) of
        None \<Rightarrow> Inl (ValidationFieldError ''INVALID_BUSINESS_DATE'' ''business_date'' ''invalid'')
      | Some d \<Rightarrow>
        (case t_get (folios db) fid of
           None \<Rightarrow> Inr (Some d, False)
         | Some _ \<Rightarrow>
           (case business_date db of
              None \<Rightarrow> Inl (ValidationFieldError ''BUSINESS_DATE_NOT_SET'' ''business_date'' ''not_set'')
            | Some current \<Rightarrow>
              if d = current then Inr (Some d, False)
              else if d > current then Inl (ValidationFieldError ''BUSINESS_DATE_IN_FUTURE'' ''business_date'' ''in_future'')
              else if \<not> canBackdate then Inl BackdatingNotPermittedError
              else if d \<in> set (closed_days db) \<or> d \<in> set (reported_days db) then Inl BusinessDayClosedError
              else Inr (Some d, True))))"

definition effective_date :: "date option \<Rightarrow> hotel \<Rightarrow> date option" where
  "effective_date businessDate db = (case businessDate of None \<Rightarrow> business_date db | Some d \<Rightarrow> Some d)"

section \<open>Opening folios\<close>

definition new_folio :: "nat \<Rightarrow> string \<Rightarrow> string \<Rightarrow> folio" where
  "new_folio res currency billedTo = \<lparr>f_reservation = res, f_status = ''open'', f_balance = 0, f_currency = currency,
     f_billed_to = billedTo, f_company = None\<rparr>"

definition folio_of_reservation :: "hotel \<Rightarrow> nat \<Rightarrow> (nat \<times> folio) option" where
  "folio_of_reservation db res = t_first (\<lambda>_ f. f_reservation f = res) (folios db)"

definition ensurePrimaryFolio :: "nat \<Rightarrow> hotel \<Rightarrow> (nat \<times> hotel) result" where
  "ensurePrimaryFolio res db =
     (case folio_of_reservation db res of
        Some (fid, _) \<Rightarrow> Inr (fid, db)
      | None \<Rightarrow>
        (case t_first (\<lambda>_ r. dr_reservation r = res) (daily_rates db) of
           None \<Rightarrow> Inl TypeError
         | Some (_, r) \<Rightarrow> Inr (next_id (folios db),
             db\<lparr>folios := t_insert (new_folio res (dr_currency r) ''Guest'') (folios db)\<rparr>)))"

definition openAdditionalFolio :: "nat \<Rightarrow> string option \<Rightarrow> hotel \<Rightarrow> (nat \<times> hotel) result" where
  "openAdditionalFolio res billedTo db =
     (case folio_of_reservation db res of
        None \<Rightarrow> Inl (ValidationError ''RESERVATION_NOT_CHECKED_IN'')
      | Some (_, existing) \<Rightarrow> Inr (next_id (folios db),
          db\<lparr>folios := t_insert (new_folio res (f_currency existing)
            (case billedTo of None \<Rightarrow> ''Guest'' | Some b \<Rightarrow> b)) (folios db)\<rparr>))"

section \<open>Moving a line, billing a company\<close>

text \<open>The retries of the move re-read a line that moved under it; within a step it has not.\<close>

definition moveLineItem :: "nat \<Rightarrow> nat \<Rightarrow> hotel \<Rightarrow> hotel result" where
  "moveLineItem lid dest db =
     (case t_get (line_items db) lid of
        None \<Rightarrow> Inl LineItemNotFoundError
      | Some line \<Rightarrow>
        rbind (lock_now [l_folio line, dest] db) (\<lambda>locked.
        if l_voided line then Inl (LineItemAlreadyVoidedError lid)
        else case map_of locked dest of
          None \<Rightarrow> Inl (ValidationError ''FOLIO_NOT_FOUND'')
        | Some destFolio \<Rightarrow>
          (case map_of locked (l_folio line) of
             None \<Rightarrow> Inl TypeError
           | Some sourceFolio \<Rightarrow>
             if f_reservation sourceFolio \<noteq> f_reservation destFolio then Inl CrossReservationFolioMoveError
             else if f_status destFolio \<noteq> ''open'' then Inl (FolioClosedError dest)
             else let moved = t_update (by_id lid) (\<lambda>l. l\<lparr>l_folio := dest\<rparr>) (line_items db);
                      with_tax = t_update (\<lambda>_ l. l_related l = Some lid \<and> l_type l = TaxLine \<and> \<not> l_voided l)
                        (\<lambda>l. l\<lparr>l_folio := dest\<rparr>) moved
               in Inr (recomputeFolioBalance dest (recomputeFolioBalance (l_folio line) (db\<lparr>line_items := with_tax\<rparr>))))))"

definition billFolioToCompany :: "nat \<Rightarrow> nat option \<Rightarrow> hotel \<Rightarrow> hotel result" where
  "billFolioToCompany fid companyProfileId db =
     rbind (lockFolio fid db) (\<lambda>found. case found of
       None \<Rightarrow> Inl (ValidationError ''FOLIO_NOT_FOUND'')
     | Some f \<Rightarrow>
       if f_status f \<noteq> ''open'' then Inl (FolioClosedError fid)
       else case companyProfileId of
         Some c \<Rightarrow>
           (case getActiveAccountForCompanyAtProperty db c of
              None \<Rightarrow> Inl ArAccountNotFoundError
            | Some _ \<Rightarrow>
              (case t_get (companies db) c of
                 None \<Rightarrow> Inl TypeError
               | Some co \<Rightarrow> Inr (db\<lparr>folios := t_update (by_id fid)
                   (\<lambda>f. f\<lparr>f_company := Some c, f_billed_to := c_name co\<rparr>) (folios db)\<rparr>)))
       | None \<Rightarrow>
           if t_select (\<lambda>i l. l_folio l = fid \<and> is_invoiced db i) (line_items db) \<noteq> []
           then Inl (ValidationError ''CANNOT_UNBILL_INVOICED_FOLIO'')
           else Inr (db\<lparr>folios := t_update (by_id fid)
             (\<lambda>f. f\<lparr>f_company := None, f_billed_to := ''Guest''\<rparr>) (folios db)\<rparr>))"

section \<open>Posting\<close>

text \<open>\<open>folio_line_items.business_date\<close> is NOT NULL: an insert without a date fails.\<close>

definition insert_line :: "date option \<Rightarrow> (date \<Rightarrow> folio_line) \<Rightarrow> hotel \<Rightarrow> (nat \<times> hotel) result" where
  "insert_line d mk db = (case d of None \<Rightarrow> Inl TypeError
     | Some d \<Rightarrow> Inr (next_id (line_items db), db\<lparr>line_items := t_insert (mk d) (line_items db)\<rparr>))"

definition charge_type_of :: "string \<Rightarrow> line_type option" where
  "charge_type_of t = (if t = ''room_charge'' then Some RoomCharge else if t = ''pos_charge'' then Some PosCharge else None)"

definition tax_versions_on :: "hotel \<Rightarrow> date option \<Rightarrow> string \<Rightarrow> tax list" where
  "tax_versions_on db d chargeType = (case d of None \<Rightarrow> [] | Some d \<Rightarrow> resolveApplicableTaxVersions (taxes db) d chargeType)"

definition tax_total :: "tax_line list \<Rightarrow> int" where
  "tax_total ls = sum_list (map (\<lambda>l. rate_as_cents (tl_amount l)) ls)"

definition post_tax_line :: "nat \<Rightarrow> string \<Rightarrow> date option \<Rightarrow> nat \<Rightarrow> hotel \<Rightarrow> tax_line \<Rightarrow> hotel result" where
  "post_tax_line fid currency d charge db t =
     rbind (insert_line d (\<lambda>d. \<lparr>l_folio = fid, l_type = TaxLine,
         l_description = tl_name t @ '' ('' @ tl_code t @ '')'', l_amount = column_cents (tl_amount t),
         l_currency = currency, l_tax_amount = 0, l_method = None, l_payment = None, l_business_date = d,
         l_related = Some charge, l_voided = False, l_void_reason = None\<rparr>) db)
       (\<lambda>(_, db). Inr db)"

text \<open>The credit check runs only on a folio billed to a company.\<close>

definition ar_check :: "folio \<Rightarrow> int \<Rightarrow> bool \<Rightarrow> string option \<Rightarrow> hotel \<Rightarrow> (nat option \<times> hotel) result" where
  "ar_check f amount override why db = (case f_company f of
     None \<Rightarrow> Inr (None, db)
   | Some c \<Rightarrow> rbind (assertWithinCreditLimit c amount override why db) (\<lambda>(r, db'). Inr (Some (cc_account r), db')))"

definition after_posting :: "nat \<Rightarrow> nat option \<Rightarrow> hotel \<Rightarrow> hotel" where
  "after_posting fid checked db = (let db1 = recomputeFolioBalance fid db
     in case checked of None \<Rightarrow> db1 | Some k \<Rightarrow> snd (recomputeArAccountBalance k db1))"

definition post_lines ::
    "nat \<Rightarrow> folio \<Rightarrow> line_type \<Rightarrow> string \<Rightarrow> taxed \<Rightarrow> date option \<Rightarrow> nat option \<Rightarrow> hotel \<Rightarrow> (nat \<times> hotel) result" where
  "post_lines fid f ty description tx d checked db =
     rbind (insert_line d (\<lambda>d. \<lparr>l_folio = fid, l_type = ty, l_description = description, l_amount = netAmount tx,
         l_currency = f_currency f, l_tax_amount = tax_total (taxLines tx), l_method = None, l_payment = None,
         l_business_date = d, l_related = None, l_voided = False, l_void_reason = None\<rparr>) db) (\<lambda>(charge, db1).
     rbind (foldM (post_tax_line fid (f_currency f) d charge) db1 (taxLines tx)) (\<lambda>db2.
     Inr (charge, after_posting fid checked db2)))"

definition postCharge ::
    "nat \<Rightarrow> string \<Rightarrow> string \<Rightarrow> int \<Rightarrow> date option \<Rightarrow> bool \<Rightarrow> string option \<Rightarrow> hotel \<Rightarrow> (nat \<times> hotel) result" where
  "postCharge fid type description amount businessDate overrideCreditLimit overrideReason db =
     (case charge_type_of type of
        None \<Rightarrow> Inl (ValidationError ''INVALID_CHARGE_TYPE'')
      | Some ty \<Rightarrow> rbind (lockFolio fid db) (\<lambda>found. case found of
          None \<Rightarrow> Inl (ValidationError ''FOLIO_NOT_FOUND'')
        | Some f \<Rightarrow>
          if f_status f \<noteq> ''open'' then Inl (FolioClosedError fid)
          else let d = effective_date businessDate db;
                   tx = computeChargeWithTax amount (tax_versions_on db d type)
            in rbind (ar_check f (netAmount tx + tax_total (taxLines tx)) overrideCreditLimit overrideReason db)
                 (\<lambda>(checked, db1). post_lines fid f ty description tx d checked db1)))"

text \<open>Date text as the code prints it; the dash of the descriptions is U+2014, here by its UTF-8 bytes.\<close>

definition date_text :: "date \<Rightarrow> string" where
  "date_text d = pad_start 4 CHR ''0'' (show_nat (nat (year d))) @ ''-'' @
     pad_start 2 CHR ''0'' (show_nat (nat (month d))) @ ''-'' @ pad_start 2 CHR ''0'' (show_nat (nat (day d)))"

definition em_dash :: string where
  "em_dash = [CHR 0xE2, CHR 0x80, CHR 0x94]"

definition has_line :: "(folio_line \<Rightarrow> bool) \<Rightarrow> hotel \<Rightarrow> bool" where
  "has_line P db \<longleftrightarrow> t_first (\<lambda>_ l. P l \<and> \<not> l_voided l) (line_items db) \<noteq> None"

definition room_charge_on :: "nat \<Rightarrow> date \<Rightarrow> folio_line \<Rightarrow> bool" where
  "room_charge_on fid d l \<longleftrightarrow> l_folio l = fid \<and> l_type l = RoomCharge \<and> l_business_date l = d"

definition post_night :: "nat \<Rightarrow> hotel \<Rightarrow> (nat \<times> daily_rate) \<Rightarrow> hotel result" where
  "post_night fid db night =
     (let r = snd night in
      if has_line (room_charge_on fid (dr_date r)) db then Inr db
      else map_sum id snd (postCharge fid ''room_charge'' (''Room charge '' @ em_dash @ '' '' @ date_text (dr_date r))
             (dr_rate r) (Some (dr_date r)) False None db))"

definition postRoomChargesForStay :: "nat \<Rightarrow> nat \<Rightarrow> hotel \<Rightarrow> hotel result" where
  "postRoomChargesForStay res fid db =
     foldM (post_night fid) db (t_select (\<lambda>_ r. dr_reservation r = res) (daily_rates db))"

definition late_description :: "date \<Rightarrow> string" where
  "late_description d = ''Late room charge '' @ em_dash @ '' '' @ date_text d"

definition late_charge_for :: "nat \<Rightarrow> date \<Rightarrow> folio_line \<Rightarrow> bool" where
  "late_charge_for fid d l \<longleftrightarrow> l_folio l = fid \<and> l_type l = RoomCharge \<and> l_description l = late_description d"

definition post_late_night ::
    "nat \<Rightarrow> date option \<Rightarrow> bool \<Rightarrow> string option \<Rightarrow> ((date \<times> int) list \<times> hotel) \<Rightarrow> (date \<times> int)
     \<Rightarrow> ((date \<times> int) list \<times> hotel) result" where
  "post_late_night fid businessDate override why st night =
     (let (charged, db) = st; (d, rate) = night in
      if has_line (late_charge_for fid d) db then Inr (charged, db)
      else rbind (postCharge fid ''room_charge'' (late_description d) rate businessDate override why db)
             (\<lambda>(_, db'). Inr (charged @ [night], db')))"

definition postLateRoomCharges ::
    "nat \<Rightarrow> (date \<times> int) list \<Rightarrow> date option \<Rightarrow> bool \<Rightarrow> string option \<Rightarrow> hotel \<Rightarrow> ((date \<times> int) list \<times> hotel) result" where
  "postLateRoomCharges fid nights businessDate override why db =
     foldM (post_late_night fid businessDate override why) ([], db) nights"

definition postAdjustment ::
    "nat \<Rightarrow> string \<Rightarrow> int \<Rightarrow> nat option \<Rightarrow> date option \<Rightarrow> string option \<Rightarrow> bool \<Rightarrow> string option \<Rightarrow> hotel \<Rightarrow> (nat \<times> hotel) result" where
  "postAdjustment fid description amount related businessDate reason overrideCreditLimit overrideReason db =
     (if \<not> given reason then Inl (ValidationFieldError ''MISSING_FIELD'' ''reason'' ''missing'')
      else rbind (lockFolio fid db) (\<lambda>found. case found of
          None \<Rightarrow> Inl (ValidationError ''FOLIO_NOT_FOUND'')
        | Some f \<Rightarrow>
          if f_status f \<noteq> ''open'' then Inl (FolioClosedError fid)
          else rbind (ar_check f amount overrideCreditLimit overrideReason db) (\<lambda>(checked, db1).
            rbind (insert_line (effective_date businessDate db) (\<lambda>d. \<lparr>l_folio = fid, l_type = Adjustment,
                l_description = description, l_amount = amount, l_currency = f_currency f, l_tax_amount = 0,
                l_method = None, l_payment = None, l_business_date = d, l_related = related,
                l_voided = False, l_void_reason = None\<rparr>) db1) (\<lambda>(lid, db2).
            Inr (lid, after_posting fid checked db2)))))"

section \<open>Voiding\<close>

definition depends_on_charge :: "nat \<Rightarrow> folio_line \<Rightarrow> bool" where
  "depends_on_charge lid l \<longleftrightarrow> l_related l = Some lid \<and> l_type l = TaxLine \<and> \<not> l_voided l"

definition mark_voided :: "string \<Rightarrow> folio_line \<Rightarrow> folio_line" where
  "mark_voided why l = l\<lparr>l_voided := True, l_void_reason := Some why\<rparr>"

definition voidLineItem :: "nat \<Rightarrow> string option \<Rightarrow> hotel \<Rightarrow> hotel result" where
  "voidLineItem lid reason db =
     (if \<not> given reason then Inl (ValidationFieldError ''MISSING_FIELD'' ''reason'' ''missing'')
      else case t_get (line_items db) lid of
        None \<Rightarrow> Inl LineItemNotFoundError
      | Some line \<Rightarrow> rbind (lockFolio (l_folio line) db) (\<lambda>_.
          if l_voided line then Inl (LineItemAlreadyVoidedError lid)
          else if l_type line = PaymentLine \<or> l_type line = RefundLine
            then Inl (ValidationError ''CANNOT_VOID_PAYMENT_LINE'')
          else if is_invoiced db lid then Inl (CannotVoidInvoicedLineError lid)
          else let why = (case reason of None \<Rightarrow> [] | Some r \<Rightarrow> r);
                   voided = t_update (by_id lid) (mark_voided why) (line_items db);
                   with_tax = t_update (\<lambda>_. depends_on_charge lid)
                     (mark_voided (''Charge '' @ show_nat lid @ '' voided: '' @ why)) voided;
                   db1 = recomputeFolioBalance (l_folio line) (db\<lparr>line_items := with_tax\<rparr>)
            in (case t_get (folios db1) (l_folio line) of
                  None \<Rightarrow> Inl TypeError
                | Some f \<Rightarrow>
                  (case f_company f of
                     None \<Rightarrow> Inr db1
                   | Some c \<Rightarrow>
                     (case getActiveAccountForCompanyAtProperty db1 c of
                        None \<Rightarrow> Inr db1
                      | Some (k, _) \<Rightarrow> Inr (snd (recomputeArAccountBalance k db1)))))))"

section \<open>Payments that settle at once\<close>

definition assertFolioOpenForPayment ::
    "string option \<Rightarrow> nat \<Rightarrow> js_value \<Rightarrow> string \<Rightarrow> hotel \<Rightarrow> (folio \<times> int) result" where
  "assertFolioOpenForPayment env fid amount currency db =
     rbind (assertPaymentAmount env amount) (\<lambda>text.
     rbind (lockFolio fid db) (\<lambda>found. case found of
       None \<Rightarrow> Inl (ValidationError ''FOLIO_NOT_FOUND'')
     | Some f \<Rightarrow>
       if f_status f \<noteq> ''open'' then Inl (FolioClosedError fid)
       else if f_company f \<noteq> None then Inl (CannotPayArBilledFolioDirectlyError fid)
       else if currency \<noteq> f_currency f then Inl (ValidationFieldError ''CURRENCY_MISMATCH'' ''currency'' ''mismatch'')
       else Inr (f, cents_of text)))"

text \<open>\<open>payments\<close> has a unique idempotency key per tenant.\<close>

definition insert_payment :: "payment \<Rightarrow> hotel \<Rightarrow> (nat \<times> hotel) result" where
  "insert_payment p db =
     (if t_select (\<lambda>_ q. p_key q = p_key p) (payments db) \<noteq> [] then Inl (DuplicateEntry ''payments'')
      else Inr (next_id (payments db), db\<lparr>payments := t_insert p (payments db)\<rparr>))"

definition payment_row :: "nat \<Rightarrow> string \<Rightarrow> string \<Rightarrow> string \<Rightarrow> int \<Rightarrow> string \<Rightarrow> payment_status \<Rightarrow> int \<Rightarrow> payment" where
  "payment_row fid provider key ref amount currency status created = \<lparr>p_folio = Some fid, p_order = None, p_target = ''folio'',
     p_key = key, p_provider = provider, p_reference = ref, p_amt = amount, p_currency = currency, p_status = status,
     p_parent = None, p_provider_payment = None, p_access_code = None, p_subaccount = None, p_failure = None, p_created = created\<rparr>"

definition payment_line :: "nat \<Rightarrow> string \<Rightarrow> string \<Rightarrow> int \<Rightarrow> string \<Rightarrow> nat \<Rightarrow> date \<Rightarrow> folio_line" where
  "payment_line fid description method amount currency pid d = \<lparr>l_folio = fid, l_type = PaymentLine,
     l_description = description, l_amount = - amount, l_currency = currency, l_tax_amount = 0, l_method = Some method,
     l_payment = Some pid, l_business_date = d, l_related = None, l_voided = False, l_void_reason = None\<rparr>"

definition captureCashPayment ::
    "string option \<Rightarrow> int \<Rightarrow> string \<Rightarrow> nat \<Rightarrow> js_value \<Rightarrow> string \<Rightarrow> string \<Rightarrow> date option \<Rightarrow> hotel \<Rightarrow> (nat \<times> hotel) result" where
  "captureCashPayment env now ref fid amount currency key businessDate db =
     rbind (assertFolioOpenForPayment env fid amount currency db) (\<lambda>(f, cents).
     rbind (insert_payment (payment_row fid ''cash'' key ref cents currency CAPTURED now) db) (\<lambda>(pid, db1).
     rbind (insert_line (effective_date businessDate db)
       (payment_line fid ''Cash payment'' ''cash'' cents currency pid) db1) (\<lambda>(_, db2).
     Inr (pid, recomputeFolioBalance fid db2))))"

definition lastFour :: "string \<Rightarrow> string" where
  "lastFour number = (let s = filter (\<lambda>c. \<not> is_ws c) number in drop (length s - 4) s)"

text \<open>The separator of a display name is U+00B7 between spaces.\<close>

definition accountDisplayName :: "terminal_account \<Rightarrow> string option" where
  "accountDisplayName a =
     (let parts = filter (\<lambda>s. s \<noteq> []) (List.map_filter id [ta_bank a, ta_label a]);
          text = (case parts of [] \<Rightarrow> [] | [x] \<Rightarrow> x | x # y # _ \<Rightarrow> x @ [CHR '' '', CHR 0xB7, CHR '' ''] @ y)
      in if text = [] then None else Some text)"

definition snapshotAccount :: "nat \<Rightarrow> hotel \<Rightarrow> terminal_account result" where
  "snapshotAccount aid db = (case t_get (terminal_accounts db) aid of
     None \<Rightarrow> Inl (ValidationFieldError ''INVALID_TERMINAL_ACCOUNT'' ''account_id'' ''invalid'')
   | Some a \<Rightarrow> Inr a)"

definition captureTerminalPayment ::
    "string option \<Rightarrow> int \<Rightarrow> string \<Rightarrow> nat \<Rightarrow> js_value \<Rightarrow> string \<Rightarrow> string \<Rightarrow> date option \<Rightarrow> js_value \<Rightarrow> nat option \<Rightarrow> hotel \<Rightarrow> (nat \<times> hotel) result" where
  "captureTerminalPayment env now ref fid amount currency key businessDate terminalReference accountId db =
     (let reference = text_only terminalReference in
      if length reference > 60 then Inl (ValidationFieldError ''INVALID_TERMINAL_REFERENCE'' ''reference'' ''too_long'')
      else rbind (assertFolioOpenForPayment env fid amount currency db) (\<lambda>(f, cents).
        rbind (case accountId of None \<Rightarrow> Inr None | Some aid \<Rightarrow> map_sum id Some (snapshotAccount aid db)) (\<lambda>snapshot.
        rbind (insert_payment (payment_row fid ''terminal'' key ref cents currency CAPTURED now) db) (\<lambda>(pid, db1).
        let db2 = db1\<lparr>terminal_details := t_insert \<lparr>td_payment = pid,
                td_provider = Option.bind snapshot ta_provider,
                td_reference = (if reference = [] then None else Some reference),
                td_label = map_option (take 80) (Option.bind snapshot accountDisplayName),
                td_last4 = map_option (\<lambda>a. lastFour (ta_number a)) snapshot\<rparr> (terminal_details db1)\<rparr>
        in rbind (insert_line (effective_date businessDate db)
             (payment_line fid ''Card payment (terminal)'' ''terminal'' cents currency pid) db2) (\<lambda>(_, db3).
           Inr (pid, recomputeFolioBalance fid db3))))))"

section \<open>What the lock returns\<close>

lemma rows_of_get: "t_wf t \<Longrightarrow> map_of (rows_of t ids) fid = (if fid \<in> set ids then t_get t fid else None)"
proof -
  assume "t_wf t"
  then have d: "distinct (map fst (rows t))" by (simp add: t_wf_def)
  have "map_of (filter (\<lambda>(i, r). i \<in> set ids) xs) fid = (if fid \<in> set ids then map_of xs fid else None)" for xs :: "(nat \<times> folio) list"
    by (induction xs) auto
  then show ?thesis by (simp add: rows_of_def t_select_def t_get_def)
qed

lemma companies_of_mem: "(i, f) \<in> set fs \<Longrightarrow> f_company f = Some c \<Longrightarrow> c \<in> set (companies_of fs)"
  by (force simp: companies_of_def set_map_filter)

lemma lock_attempts_sound:
  "lock_attempts n k peeks locks ids held = Inr (held', locked) \<Longrightarrow>
     set held \<subseteq> set held' \<and> (\<exists>j. k \<le> j \<and> j < k + n \<and> locked = rows_of (locks j) ids)
     \<and> (\<forall>(i, f) \<in> set locked. \<forall>c. f_company f = Some c \<longrightarrow> c \<in> set held')"
proof (induction n arbitrary: k held)
  case 0
  then show ?case by simp
next
  case (Suc n)
  let ?w = "held @ filter (\<lambda>c. c \<notin> set held) (remdups (companies_of (rows_of (peeks k) ids)))"
  show ?case
  proof (cases "list_all (\<lambda>(_, f). case f_company f of None \<Rightarrow> True | Some c \<Rightarrow> c \<in> set ?w) (rows_of (locks k) ids)")
    case True
    then have "held' = ?w" "locked = rows_of (locks k) ids" using Suc.prems by (simp_all add: Let_def)
    with True show ?thesis by (fastforce simp: list_all_iff)
  next
    case False
    then have "lock_attempts n (Suc k) peeks locks ids ?w = Inr (held', locked)" using Suc.prems by (simp add: Let_def)
    from Suc.IH [OF this] show ?thesis by (auto intro: Suc_leD)
  qed
qed

lemma lock_attempts_stable:
  assumes "\<forall>(i, f) \<in> set (rows_of (locks k) ids). \<forall>c. f_company f = Some c \<longrightarrow> c \<in> set (companies_of (rows_of (peeks k) ids))"
    "0 < n"
  shows "\<exists>held'. lock_attempts n k peeks locks ids held = Inr (held', rows_of (locks k) ids)"
proof -
  obtain m where n: "n = Suc m" using assms(2) by (cases n) auto
  have "list_all (\<lambda>(_, f). case f_company f of None \<Rightarrow> True
      | Some c \<Rightarrow> c \<in> set (held @ filter (\<lambda>c. c \<notin> set held) (remdups (companies_of (rows_of (peeks k) ids)))))
    (rows_of (locks k) ids)"
    using assms(1) by (fastforce simp: list_all_iff split: option.splits)
  then show ?thesis by (simp add: n Let_def)
qed

lemma lock_attempts_reaches:
  assumes "\<forall>(i, f) \<in> set (rows_of (locks j) ids). \<forall>c. f_company f = Some c \<longrightarrow> c \<in> set (companies_of (rows_of (peeks j) ids))"
    "k \<le> j" "j < k + n"
  shows "\<exists>r. lock_attempts n k peeks locks ids held = Inr r"
  using assms(2,3)
proof (induction n arbitrary: k held)
  case (Suc n)
  show ?case
  proof (cases "k = j")
    case True
    then show ?thesis using lock_attempts_stable [of locks k ids peeks "Suc n" held] assms(1) by blast
  next
    case False
    then have "\<exists>r. lock_attempts n (Suc k) peeks locks ids h = Inr r" for h using Suc.IH Suc.prems by simp
    then show ?thesis by (simp add: Let_def)
  qed
qed simp

lemma lock_now_eq [simp]: "lock_now ids db = Inr (rows_of (folios db) ids)"
proof -
  have "\<exists>held'. lockFoliosForMutation (\<lambda>_. folios db) (\<lambda>_. folios db) ids = Inr (held', rows_of (folios db) ids)"
    unfolding lockFoliosForMutation_def
    by (rule lock_attempts_stable) (auto intro: companies_of_mem)
  then show ?thesis by (auto simp: lock_now_def)
qed

lemma lockFolio_eq [simp]: "t_wf (folios db) \<Longrightarrow> lockFolio fid db = Inr (t_get (folios db) fid)"
  by (simp add: lockFolio_def rows_of_get)

section \<open>The balance is a derived column\<close>

lemma folio_sum_frame: "line_items db' = line_items db \<Longrightarrow> folio_sum db' = folio_sum db"
  by (simp add: folio_sum_def fun_eq_iff)

lemma recompute_folio_frame [simp]:
  "line_items (recomputeFolioBalance k db) = line_items db"
  "accounts (recomputeFolioBalance k db) = accounts db"
  "invoices (recomputeFolioBalance k db) = invoices db"
  "invoice_lines (recomputeFolioBalance k db) = invoice_lines db"
  "ar_payments (recomputeFolioBalance k db) = ar_payments db"
  "applications (recomputeFolioBalance k db) = applications db"
  "payments (recomputeFolioBalance k db) = payments db"
  "business_date (recomputeFolioBalance k db) = business_date db"
  "taxes (recomputeFolioBalance k db) = taxes db"
  "companies (recomputeFolioBalance k db) = companies db"
  "daily_rates (recomputeFolioBalance k db) = daily_rates db"
  by (simp_all add: recomputeFolioBalance_def Let_def)

lemma recompute_folio_get:
  "t_get (folios (recomputeFolioBalance k db)) j =
     (if j = k then map_option (\<lambda>f. f\<lparr>f_balance := folio_sum db k\<rparr>) (t_get (folios db) k) else t_get (folios db) j)"
  by (simp add: recomputeFolioBalance_def Let_def t_get_update_id)

lemma recompute_folio_wf [simp]: "t_wf (folios (recomputeFolioBalance k db)) = t_wf (folios db)"
  by (simp add: recomputeFolioBalance_def Let_def t_wf_def t_update_def comp_def case_prod_unfold)

interpretation flb: derived_column folio_balance folio_sum recomputeFolioBalance
proof
  fix db :: hotel and k j :: nat
  show "folio_balance db k \<noteq> None \<Longrightarrow> folio_balance (recomputeFolioBalance k db) k = Some (folio_sum db k)"
    by (auto simp: folio_balance_def recompute_folio_get)
  show "folio_balance db k = None \<Longrightarrow> folio_balance (recomputeFolioBalance k db) k = None"
    by (auto simp: folio_balance_def recompute_folio_get)
  show "j \<noteq> k \<Longrightarrow> folio_balance (recomputeFolioBalance k db) j = folio_balance db j"
    by (simp add: folio_balance_def recompute_folio_get)
  show "folio_sum (recomputeFolioBalance k db) j = folio_sum db j"
    by (simp add: folio_sum_def)
qed

section \<open>The books\<close>

text \<open>
  Lines belong to folios that exist; a tax line names a charge that is not itself a tax line
  and, while neither is void, sits on the charge's folio.
\<close>

definition tax_links :: "folio_line table \<Rightarrow> bool" where
  "tax_links t \<longleftrightarrow> (\<forall>i l c. t_get t i = Some l \<longrightarrow> l_type l = TaxLine \<longrightarrow> l_related l = Some c \<longrightarrow>
     (\<exists>m. t_get t c = Some m \<and> l_type m \<noteq> TaxLine \<and> (\<not> l_voided l \<longrightarrow> l_folio l = l_folio m)))"

definition lines_ok :: "hotel \<Rightarrow> bool" where
  "lines_ok db \<longleftrightarrow> t_wf (folios db) \<and> t_wf (line_items db) \<and>
     (\<forall>i l. t_get (line_items db) i = Some l \<longrightarrow> t_get (folios db) (l_folio l) \<noteq> None) \<and> tax_links (line_items db)"

lemma lines_ok_folios:
  assumes "lines_ok db" "t_wf F" "\<And>j. t_get (folios db) j \<noteq> None \<Longrightarrow> t_get F j \<noteq> None"
  shows "lines_ok (db\<lparr>folios := F\<rparr>)"
  using assms by (simp add: lines_ok_def)

definition books_but :: "nat set \<Rightarrow> hotel \<Rightarrow> bool" where
  "books_but K db \<longleftrightarrow> lines_ok db \<and> (\<forall>f. f \<notin> K \<longrightarrow> flb.right_at db f)"

abbreviation books_ok :: "hotel \<Rightarrow> bool" where
  "books_ok \<equiv> books_but {}"

lemma right_at_frame: "folio_balance db' = folio_balance db \<Longrightarrow> line_items db' = line_items db \<Longrightarrow> flb.right_at db' = flb.right_at db"
  by (simp add: flb.right_at_def folio_sum_frame [of db' db] fun_eq_iff)

lemma books_frame:
  "folios db' = folios db \<Longrightarrow> line_items db' = line_items db \<Longrightarrow> books_but K db \<Longrightarrow> books_but K db'"
  using right_at_frame [of db' db] by (simp add: books_but_def lines_ok_def folio_balance_def fun_eq_iff)

lemma books_mono: "books_but K db \<Longrightarrow> K \<subseteq> L \<Longrightarrow> books_but L db"
  by (auto simp: books_but_def)

lemma books_recompute: "books_but (insert k K) db \<Longrightarrow> books_but K (recomputeFolioBalance k db)"
proof -
  assume b: "books_but (insert k K) db"
  have "flb.right_at (recomputeFolioBalance k db) f" if "f \<notin> K" for f
    using b that flb.right_after flb.right_kept by (cases "f = k") (auto simp: books_but_def)
  moreover have "lines_ok (recomputeFolioBalance k db)"
    unfolding recomputeFolioBalance_def Let_def
    using b by (intro lines_ok_folios) (auto simp: books_but_def lines_ok_def t_get_update_id)
  ultimately show ?thesis by (simp add: books_but_def)
qed

lemma books_wf [simp]: "books_but K db \<Longrightarrow> t_wf (folios db)" "books_but K db \<Longrightarrow> t_wf (line_items db)"
  by (simp_all add: books_but_def lines_ok_def)

lemma books_line_folio: "books_but K db \<Longrightarrow> t_get (line_items db) i = Some l \<Longrightarrow> t_get (folios db) (l_folio l) \<noteq> None"
  unfolding books_but_def lines_ok_def by blast

lemma books_tax_line:
  "books_but K db \<Longrightarrow> t_get (line_items db) i = Some l \<Longrightarrow> l_type l = TaxLine \<Longrightarrow> l_related l = Some c \<Longrightarrow>
   \<exists>m. t_get (line_items db) c = Some m \<and> l_type m \<noteq> TaxLine \<and> (\<not> l_voided l \<longrightarrow> l_folio l = l_folio m)"
  unfolding books_but_def lines_ok_def tax_links_def by blast

lemma books_insert_line:
  assumes "books_but {fid} db" "t_get (folios db) fid \<noteq> None" "l_folio l = fid"
    "l_type l = TaxLine \<Longrightarrow> \<exists>c m. l_related l = Some c \<and> t_get (line_items db) c = Some m \<and> l_type m \<noteq> TaxLine \<and> l_folio m = fid"
  shows "books_but {fid} (db\<lparr>line_items := t_insert l (line_items db)\<rparr>)" (is "books_but _ ?db")
proof -
  have wf: "t_wf (line_items db)" using assms(1) by simp
  have "flb.right_at ?db f" if "f \<noteq> fid" for f
    using assms(1,3) that by (simp add: books_but_def flb.right_at_def folio_sum_def folio_balance_def t_total_insert)
  moreover have "lines_ok ?db"
    unfolding lines_ok_def tax_links_def
  proof (intro conjI allI impI)
    fix i m assume "t_get (line_items ?db) i = Some m"
    then have "m = l \<or> t_get (line_items db) i = Some m" using wf by (simp add: t_get_insert split: if_splits)
    then show "t_get (folios ?db) (l_folio m) \<noteq> None"
      using assms(2,3) books_line_folio [OF assms(1)] by auto
  next
    fix i m c assume m: "t_get (line_items ?db) i = Some m" "l_type m = TaxLine" "l_related m = Some c"
    have old: "t_get (line_items db) j = Some x \<Longrightarrow> t_get (line_items ?db) j = Some x" for j x
      using wf t_get_lt [OF wf] by (auto simp: t_get_insert)
    show "\<exists>x. t_get (line_items ?db) c = Some x \<and> l_type x \<noteq> TaxLine \<and> (\<not> l_voided m \<longrightarrow> l_folio m = l_folio x)"
    proof (cases "i = next_id (line_items db)")
      case True
      then have "m = l" using m(1) wf by (simp add: t_get_insert)
      then show ?thesis using assms(3,4) m(2,3) old by auto
    next
      case False
      then have "t_get (line_items db) i = Some m" using m(1) wf by (simp add: t_get_insert)
      then show ?thesis using books_tax_line [OF assms(1) _ m(2,3)] old by blast
    qed
  qed (use assms(1) in \<open>simp_all add: t_wf_insert\<close>)
  ultimately show ?thesis by (simp add: books_but_def)
qed

section \<open>Every operation keeps the books\<close>

lemma assertWithin_frame:
  assumes "assertWithinCreditLimit c a ov why db = Inr (r, db')"
  shows "db' = snd (recomputeArAccountBalance (cc_account r) db)"
proof -
  obtain k acc where k: "account_for_company db c = Some (k, acc)" "a_status acc = ''active''"
    using assms by (auto simp: assertWithinCreditLimit_def split: option.splits if_splits)
  obtain rec db1 where rec: "recomputeArAccountBalance k db = (Some rec, db1)"
    using assms k by (auto simp: assertWithinCreditLimit_def split: prod.splits option.splits)
  then show ?thesis
    using assms k by (auto simp: assertWithinCreditLimit_def Let_def split: if_splits)
qed

lemma ar_check_frame:
  assumes "ar_check f a ov why db = Inr (k, db')"
  shows "folios db' = folios db \<and> line_items db' = line_items db \<and> business_date db' = business_date db \<and> payments db' = payments db"
  using assms by (auto simp: ar_check_def rbind_eq_Inr dest!: assertWithin_frame split: option.splits)

lemma books_after_posting: "books_but {fid} db \<Longrightarrow> books_ok (after_posting fid k db)"
proof -
  assume "books_but {fid} db"
  then have b: "books_ok (recomputeFolioBalance fid db)" by (rule books_recompute)
  show ?thesis
    by (cases k) (auto simp: after_posting_def Let_def b intro: books_frame [OF _ _ b])
qed

lemma insert_line_InrD:
  "insert_line d mk db = Inr (i, db') \<Longrightarrow> \<exists>dd. d = Some dd \<and> i = next_id (line_items db)
     \<and> db' = db\<lparr>line_items := t_insert (mk dd) (line_items db)\<rparr>"
  by (auto simp: insert_line_def split: option.splits)

lemma post_tax_lines_books:
  assumes "foldM (post_tax_line fid cur d charge) db ts = Inr db'"
    "books_but {fid} db" "t_get (folios db) fid \<noteq> None"
    "t_get (line_items db) charge = Some m" "l_type m \<noteq> TaxLine" "l_folio m = fid"
  shows "books_but {fid} db' \<and> folios db' = folios db"
  using assms
proof (induction ts arbitrary: db)
  case (Cons t ts)
  obtain db1 where s1: "post_tax_line fid cur d charge db t = Inr db1"
    and s2: "foldM (post_tax_line fid cur d charge) db1 ts = Inr db'"
    using Cons.prems(1) by (auto simp: rbind_eq_Inr)
  obtain l where l: "db1 = db\<lparr>line_items := t_insert l (line_items db)\<rparr>" "l_folio l = fid" "l_related l = Some charge" "l_type l = TaxLine"
    using s1 by (auto simp: post_tax_line_def rbind_eq_Inr dest!: insert_line_InrD)
  have b1: "books_but {fid} db1"
    unfolding l(1) using Cons.prems l by (intro books_insert_line) auto
  have "t_get (line_items db1) charge = Some m"
    using Cons.prems(2,4) t_get_lt [of "line_items db" charge m] by (simp add: l(1) t_get_insert)
  with Cons.IH [OF s2 b1] Cons.prems(3,5,6) show ?case by (simp add: l(1))
qed simp

lemma post_lines_books:
  assumes run: "post_lines fid f ty desc tx d k db = Inr (charge, db')"
    and b: "books_ok db" and f: "t_get (folios db) fid \<noteq> None" and ty: "ty \<noteq> TaxLine"
  shows "books_ok db'"
proof -
  obtain db1 db2 where s1: "insert_line d (\<lambda>d. \<lparr>l_folio = fid, l_type = ty, l_description = desc, l_amount = netAmount tx,
         l_currency = f_currency f, l_tax_amount = tax_total (taxLines tx), l_method = None, l_payment = None,
         l_business_date = d, l_related = None, l_voided = False, l_void_reason = None\<rparr>) db = Inr (charge, db1)"
    and s2: "foldM (post_tax_line fid (f_currency f) d charge) db1 (taxLines tx) = Inr db2"
    and db': "db' = after_posting fid k db2"
    using run by (auto simp: post_lines_def rbind_eq_Inr)
  obtain l where l: "db1 = db\<lparr>line_items := t_insert l (line_items db)\<rparr>" "charge = next_id (line_items db)" "l_folio l = fid" "l_type l = ty"
    using insert_line_InrD [OF s1] by auto
  have b0: "books_but {fid} db" using b by (rule books_mono) simp
  have b1: "books_but {fid} db1" unfolding l(1) using b0 f l ty by (intro books_insert_line) auto
  have g: "t_get (line_items db1) charge = Some l" using b by (simp add: l(1,2) t_get_insert)
  have "books_but {fid} db2"
    using post_tax_lines_books [OF s2 b1 _ g] f ty l by simp
  then show ?thesis unfolding db' by (rule books_after_posting)
qed

lemma postCharge_cases:
  assumes "postCharge fid type desc amt bd ov why db = Inr (charge, db')" "t_wf (folios db)"
  obtains ty f k db1 where "charge_type_of type = Some ty" "t_get (folios db) fid = Some f" "f_status f = ''open''"
    "ar_check f (netAmount (computeChargeWithTax amt (tax_versions_on db (effective_date bd db) type))
        + tax_total (taxLines (computeChargeWithTax amt (tax_versions_on db (effective_date bd db) type)))) ov why db = Inr (k, db1)"
    "post_lines fid f ty desc (computeChargeWithTax amt (tax_versions_on db (effective_date bd db) type)) (effective_date bd db) k db1
       = Inr (charge, db')"
  using assms by (auto simp: postCharge_def Let_def rbind_eq_Inr split: option.split_asm if_split_asm)

lemma charge_type_not_tax: "charge_type_of t = Some ty \<Longrightarrow> ty = RoomCharge \<or> ty = PosCharge"
  by (auto simp: charge_type_of_def split: if_splits)

lemma books_postCharge:
  assumes "books_ok db" "postCharge fid type desc amt bd ov why db = Inr (charge, db')"
  shows "books_ok db'"
proof -
  have "t_wf (folios db)" using assms(1) by simp
  then show ?thesis
    using assms(2)
  proof (elim postCharge_cases [rotated])
    fix ty f k db1
    assume ty: "charge_type_of type = Some ty" and f: "t_get (folios db) fid = Some f"
      and c: "ar_check f (netAmount (computeChargeWithTax amt (tax_versions_on db (effective_date bd db) type))
        + tax_total (taxLines (computeChargeWithTax amt (tax_versions_on db (effective_date bd db) type)))) ov why db = Inr (k, db1)"
      and p: "post_lines fid f ty desc (computeChargeWithTax amt (tax_versions_on db (effective_date bd db) type)) (effective_date bd db) k db1
       = Inr (charge, db')"
    have fr: "folios db1 = folios db" "line_items db1 = line_items db" using ar_check_frame [OF c] by simp_all
    then show "books_ok db'"
      using post_lines_books [OF p books_frame [OF fr assms(1)]] f charge_type_not_tax [OF ty] by auto
  qed
qed

lemma books_postAdjustment:
  assumes b: "books_ok db" and run: "postAdjustment fid desc amt rel bd reason ov why db = Inr (lid, db')"
  shows "books_ok db'"
proof -
  obtain f k db1 db2 mk where f: "t_get (folios db) fid = Some f" and c: "ar_check f amt ov why db = Inr (k, db1)"
    and i: "insert_line (effective_date bd db) mk db1 = Inr (lid, db2)" and mk: "\<And>d. l_folio (mk d) = fid" "\<And>d. l_type (mk d) = Adjustment"
    and db': "db' = after_posting fid k db2"
    using run b by (fastforce simp: postAdjustment_def rbind_eq_Inr split: option.split_asm if_split_asm)
  have fr: "folios db1 = folios db" "line_items db1 = line_items db" using ar_check_frame [OF c] by simp_all
  have "books_but {fid} db1" using books_mono [OF books_frame [OF fr b]] by simp
  moreover obtain d where "db2 = db1\<lparr>line_items := t_insert (mk d) (line_items db1)\<rparr>" using insert_line_InrD [OF i] by auto
  moreover have "t_get (folios db1) fid \<noteq> None" using f fr by simp
  ultimately have "books_but {fid} db2" using books_insert_line [of fid db1 "mk d"] mk by simp
  then show ?thesis unfolding db' by (rule books_after_posting)
qed

lemma books_payments_frame:
  "books_but K db \<Longrightarrow> books_but K (db\<lparr>payments := x\<rparr>)" "books_but K db \<Longrightarrow> books_but K (db\<lparr>terminal_details := y\<rparr>)"
  by (erule books_frame [rotated 2]; simp)+

lemma books_capture:
  assumes b: "books_ok db1" and f: "t_get (folios db1) fid \<noteq> None"
    and i: "insert_line d (payment_line fid desc m c cur pid) db1 = Inr (lid, db2)"
  shows "books_ok (recomputeFolioBalance fid db2)"
proof -
  obtain dd where db2: "db2 = db1\<lparr>line_items := t_insert (payment_line fid desc m c cur pid dd) (line_items db1)\<rparr>"
    using insert_line_InrD [OF i] by auto
  have "books_but {fid} db1" using b by (rule books_mono) simp
  then have "books_but {fid} db2" unfolding db2 using f by (intro books_insert_line) (auto simp: payment_line_def)
  then show ?thesis by (rule books_recompute)
qed

lemma assertFolioOpen_InrD:
  assumes "assertFolioOpenForPayment env fid amount cur db = Inr (f, c)" "t_wf (folios db)"
  shows "t_get (folios db) fid = Some f" "f_status f = ''open''" "f_company f = None" "cur = f_currency f"
    "\<exists>tx. assertPaymentAmount env amount = Inr tx \<and> c = cents_of tx"
proof -
  obtain tx where t: "assertPaymentAmount env amount = Inr tx"
    and rest: "(case t_get (folios db) fid of None \<Rightarrow> Inl (ValidationError ''FOLIO_NOT_FOUND'')
     | Some f \<Rightarrow>
       if f_status f \<noteq> ''open'' then Inl (FolioClosedError fid)
       else if f_company f \<noteq> None then Inl (CannotPayArBilledFolioDirectlyError fid)
       else if cur \<noteq> f_currency f then Inl (ValidationFieldError ''CURRENCY_MISMATCH'' ''currency'' ''mismatch'')
       else Inr (f, cents_of tx)) = Inr (f, c)"
    using assms by (auto simp: assertFolioOpenForPayment_def rbind_eq_Inr)
  from rest show "t_get (folios db) fid = Some f" "f_status f = ''open''" "f_company f = None" "cur = f_currency f"
    by (cases "t_get (folios db) fid"; simp split: if_split_asm)+
  from rest t show "\<exists>tx. assertPaymentAmount env amount = Inr tx \<and> c = cents_of tx"
    by (cases "t_get (folios db) fid") (auto split: if_split_asm)
qed

lemma insert_payment_InrD:
  "insert_payment p db = Inr (pid, db') \<Longrightarrow> pid = next_id (payments db) \<and> db' = db\<lparr>payments := t_insert p (payments db)\<rparr>"
  by (auto simp: insert_payment_def split: if_splits)

lemma books_captureCash:
  assumes b: "books_ok db" and run: "captureCashPayment env now ref fid amount cur key bd db = Inr (pid, db')"
  shows "books_ok db'"
proof -
  obtain f c db1 lid db2 where a: "assertFolioOpenForPayment env fid amount cur db = Inr (f, c)"
    and p: "insert_payment (payment_row fid ''cash'' key ref c cur CAPTURED now) db = Inr (pid, db1)"
    and i: "insert_line (effective_date bd db) (payment_line fid ''Cash payment'' ''cash'' c cur pid) db1 = Inr (lid, db2)"
    and db': "db' = recomputeFolioBalance fid db2"
    using run by (auto simp: captureCashPayment_def rbind_eq_Inr)
  note p = insert_payment_InrD [OF p]
  have "books_ok db1" using b p by (simp add: books_payments_frame)
  moreover have "t_get (folios db1) fid \<noteq> None" using assertFolioOpen_InrD(1) [OF a] b p by simp
  ultimately show ?thesis unfolding db' using i by (rule books_capture)
qed

lemma books_captureTerminal:
  assumes b: "books_ok db" and run: "captureTerminalPayment env now ref fid amount cur key bd tref aid db = Inr (pid, db')"
  shows "books_ok db'"
proof -
  obtain f c db1 x lid db2 where a: "assertFolioOpenForPayment env fid amount cur db = Inr (f, c)"
    and p: "insert_payment (payment_row fid ''terminal'' key ref c cur CAPTURED now) db = Inr (pid, db1)"
    and i: "insert_line (effective_date bd db) (payment_line fid ''Card payment (terminal)'' ''terminal'' c cur pid)
      (db1\<lparr>terminal_details := x\<rparr>) = Inr (lid, db2)"
    and db': "db' = recomputeFolioBalance fid db2"
    using run by (auto simp: captureTerminalPayment_def Let_def rbind_eq_Inr split: if_split_asm)
  note p = insert_payment_InrD [OF p]
  have "books_ok (db1\<lparr>terminal_details := x\<rparr>)" using b p by (simp add: books_payments_frame)
  moreover have "t_get (folios (db1\<lparr>terminal_details := x\<rparr>)) fid \<noteq> None" using assertFolioOpen_InrD(1) [OF a] b p by simp
  ultimately show ?thesis unfolding db' using i by (rule books_capture)
qed

lemma books_post_night:
  assumes "books_ok db" "post_night fid db night = Inr db'"
  shows "books_ok db'"
  using assms by (auto simp: post_night_def Let_def map_sum_Inr split: if_splits dest: books_postCharge)

lemma books_postRoomCharges: "books_ok db \<Longrightarrow> postRoomChargesForStay res fid db = Inr db' \<Longrightarrow> books_ok db'"
  unfolding postRoomChargesForStay_def by (erule foldM_inv [where P = books_ok]) (auto intro: books_post_night)

lemma books_postLate:
  assumes "books_ok db" "postLateRoomCharges fid nights bd ov why db = Inr (charged, db')"
  shows "books_ok db'"
proof -
  have "books_ok (snd (charged, db'))"
    using assms(2) unfolding postLateRoomCharges_def
  proof (rule foldM_inv [where P = "\<lambda>st. books_ok (snd st)"])
    fix st night st'
    assume "books_ok (snd st)" "post_late_night fid bd ov why st night = Inr st'"
    then show "books_ok (snd st')"
      by (auto simp: post_late_night_def Let_def rbind_eq_Inr split: prod.splits if_splits dest: books_postCharge)
  qed (use assms(1) in simp)
  then show ?thesis by simp
qed

lemma books_new_folio:
  assumes "books_ok db" "f_balance f = 0"
  shows "books_ok (db\<lparr>folios := t_insert f (folios db)\<rparr>)" (is "books_ok ?db")
proof -
  have wf: "t_wf (folios db)" "t_wf (line_items db)" using assms(1) by simp_all
  let ?n = "next_id (folios db)"
  have "folio_sum db ?n = 0"
    unfolding folio_sum_def
  proof (rule t_total_none)
    fix i l assume "(i, l) \<in> set (rows (line_items db))"
    then have "t_get (folios db) (l_folio l) \<noteq> None" using books_line_folio [OF assms(1)] wf(2) by (simp add: rows_get)
    then show "\<not> (l_folio l = ?n \<and> \<not> l_voided l)" using wf(1) by auto
  qed
  moreover have fs: "folio_sum ?db = folio_sum db" by (rule folio_sum_frame) simp
  moreover have gf: "t_get (folios ?db) j = (if j = ?n then Some f else t_get (folios db) j)" for j
    using wf(1) by (simp add: t_get_insert)
  ultimately have "flb.right_at ?db j" for j
    using assms by (simp add: books_but_def flb.right_at_def folio_balance_def)
  moreover have "lines_ok ?db"
    using assms(1) wf by (intro lines_ok_folios) (auto simp: books_but_def t_get_insert)
  ultimately show ?thesis by (simp add: books_but_def)
qed

lemma books_ensurePrimary: "books_ok db \<Longrightarrow> ensurePrimaryFolio res db = Inr (fid, db') \<Longrightarrow> books_ok db'"
  by (auto simp: ensurePrimaryFolio_def new_folio_def books_new_folio split: option.splits)

lemma books_openAdditional: "books_ok db \<Longrightarrow> openAdditionalFolio res b db = Inr (fid, db') \<Longrightarrow> books_ok db'"
  by (auto simp: openAdditionalFolio_def new_folio_def books_new_folio split: option.splits)

lemma books_relabel:
  assumes "books_ok db" "\<And>f. f_balance (g f) = f_balance f"
  shows "books_ok (db\<lparr>folios := t_update (by_id fid) g (folios db)\<rparr>)" (is "books_ok ?db")
proof -
  have "folio_balance ?db = folio_balance db"
  proof
    fix j show "folio_balance ?db j = folio_balance db j"
      by (cases "t_get (folios db) j"; cases "j = fid") (simp_all add: folio_balance_def t_get_update_id assms(2))
  qed
  then have "flb.right_at ?db = flb.right_at db" by (rule right_at_frame) simp
  moreover have "lines_ok ?db"
  proof (rule lines_ok_folios)
    show "lines_ok db" "t_wf (t_update (by_id fid) g (folios db))"
      using assms(1) books_wf [OF assms(1)] by (simp_all add: books_but_def del: books_wf)
    show "t_get (folios db) j \<noteq> None \<Longrightarrow> t_get (t_update (by_id fid) g (folios db)) j \<noteq> None" for j
      by (auto simp: t_get_update_id)
  qed
  ultimately show ?thesis using assms(1) by (simp add: books_but_def)
qed

lemma books_billFolio: "books_ok db \<Longrightarrow> billFolioToCompany fid c db = Inr db' \<Longrightarrow> books_ok db'"
  by (auto simp: billFolioToCompany_def rbind_eq_Inr books_relabel split: option.split_asm if_split_asm)

text \<open>Voiding a line and its tax touches one folio only, because the tax sits on the charge's folio.\<close>

lemma t_get_update_two:
  "t_get (t_update Q g (t_update (by_id k) f t)) i =
     (case t_get t i of None \<Rightarrow> None | Some r \<Rightarrow> Some (let r1 = (if i = k then f r else r) in if Q i r1 then g r1 else r1))"
  by (cases "t_get t i") (auto simp: t_get_update t_get_update_id Let_def)

lemma books_rewrite_lines:
  assumes b: "books_ok db" and wf: "t_wf L"
    and L: "\<And>i. t_get L i = map_option (g i) (t_get (line_items db) i)"
    and sum: "\<And>f. f \<notin> K \<Longrightarrow> t_total (\<lambda>_ l. l_folio l = f \<and> \<not> l_voided l) l_amount L = folio_sum db f"
    and fk: "\<And>i l. t_get (line_items db) i = Some l \<Longrightarrow> t_get (folios db) (l_folio (g i l)) \<noteq> None"
    and ty: "\<And>i l. l_type (g i l) = l_type l \<and> l_related (g i l) = l_related l"
    and tax: "\<And>i l c m. t_get (line_items db) i = Some l \<Longrightarrow> l_type l = TaxLine \<Longrightarrow> l_related l = Some c \<Longrightarrow>
      t_get (line_items db) c = Some m \<Longrightarrow> l_type m \<noteq> TaxLine \<Longrightarrow> (\<not> l_voided l \<longrightarrow> l_folio l = l_folio m) \<Longrightarrow>
      \<not> l_voided (g i l) \<longrightarrow> l_folio (g i l) = l_folio (g c m)"
  shows "books_but K (db\<lparr>line_items := L\<rparr>)" (is "books_but K ?db")
proof -
  have "flb.right_at ?db f" if "f \<notin> K" for f
    using b sum [OF that] by (simp add: books_but_def flb.right_at_def folio_balance_def folio_sum_def)
  moreover have "lines_ok ?db"
    unfolding lines_ok_def tax_links_def
  proof (intro conjI allI impI)
    fix i l assume "t_get (line_items ?db) i = Some l"
    then show "t_get (folios ?db) (l_folio l) \<noteq> None" using L fk by auto
  next
    fix i l c assume "t_get (line_items ?db) i = Some l" "l_type l = TaxLine" "l_related l = Some c"
    then obtain l0 where l0: "t_get (line_items db) i = Some l0" "l = g i l0" "l_type l0 = TaxLine" "l_related l0 = Some c"
      using L ty by auto
    obtain m where m: "t_get (line_items db) c = Some m" "l_type m \<noteq> TaxLine" "\<not> l_voided l0 \<longrightarrow> l_folio l0 = l_folio m"
      using books_tax_line [OF b l0(1,3,4)] by blast
    show "\<exists>m. t_get (line_items ?db) c = Some m \<and> l_type m \<noteq> TaxLine \<and> (\<not> l_voided l \<longrightarrow> l_folio l = l_folio m)"
      using tax [OF l0(1,3,4) m] m L ty l0(2) by (intro exI [of _ "g c m"]) simp
  qed (use b wf in simp_all)
  ultimately show ?thesis by (simp add: books_but_def)
qed

lemma dependents_together:
  assumes "books_ok db" "t_get (line_items db) i = Some l" "depends_on_charge lid l" "t_get (line_items db) lid = Some line"
  shows "l_folio l = l_folio line" "i \<noteq> lid"
  using books_tax_line [OF assms(1,2), of lid] assms(2-4) by (auto simp: depends_on_charge_def)

lemma books_voidLineItem:
  assumes b: "books_ok db" and run: "voidLineItem lid reason db = Inr db'"
  shows "books_ok db'"
proof -
  obtain line where line: "t_get (line_items db) lid = Some line" "\<not> l_voided line"
    using run b by (auto simp: voidLineItem_def split: option.split_asm if_split_asm)
  define why where "why = (case reason of None \<Rightarrow> [] | Some r \<Rightarrow> r)"
  define L1 where "L1 = t_update (by_id lid) (mark_voided why) (line_items db)"
  define L where "L = t_update (\<lambda>_. depends_on_charge lid) (mark_voided (''Charge '' @ show_nat lid @ '' voided: '' @ why)) L1"
  let ?src = "l_folio line"
  let ?db1 = "recomputeFolioBalance ?src (db\<lparr>line_items := L\<rparr>)"
  have db': "\<exists>k. db' = ?db1 \<or> db' = snd (recomputeArAccountBalance k ?db1)"
    using run b line unfolding voidLineItem_def L_def L1_def why_def
    by (auto simp: Let_def simp del: recompute_ar_frame recompute_folio_frame split: option.split_asm if_split_asm)
  define g where "g i l = (if i = lid then mark_voided why l
      else if depends_on_charge lid l then mark_voided (''Charge '' @ show_nat lid @ '' voided: '' @ why) l else l)" for i l
  have wf: "t_wf (line_items db)" using b by simp
  have dep_mark: "\<not> depends_on_charge lid (mark_voided w l)" for w l by (simp add: depends_on_charge_def mark_voided_def)
  have LG: "t_get L i = map_option (g i) (t_get (line_items db) i)" for i
    unfolding L_def L1_def by (cases "t_get (line_items db) i") (auto simp: t_get_update_two g_def Let_def dep_mark)
  have "books_but {?src} (db\<lparr>line_items := L\<rparr>)"
  proof (rule books_rewrite_lines [OF b _ LG])
    show "t_wf L" using wf by (simp add: L_def L1_def)
    fix f assume f: "f \<notin> {?src}"
    let ?P = "\<lambda>_ l. l_folio l = f \<and> \<not> l_voided l"
    have "t_total ?P l_amount L1 = t_total ?P l_amount (line_items db)"
      unfolding L1_def
      by (rule t_total_update_same) (use f line wf in \<open>auto simp: rows_get mark_voided_def\<close>)
    moreover have "t_total ?P l_amount L = t_total ?P l_amount L1"
      unfolding L_def
    proof (rule t_total_update_same)
      fix i r assume r: "(i, r) \<in> set (rows L1)" "depends_on_charge lid r"
      have "t_get L1 i = Some r" using r(1) wf by (simp add: rows_get L1_def)
      then have "t_get (line_items db) i = Some r"
        using r(2) dep_mark by (auto simp: L1_def t_get_update_id split: if_splits)
      then have "l_folio r = ?src" using dependents_together(1) [OF b _ r(2) line(1)] by simp
      then show "(l_folio (mark_voided (''Charge '' @ show_nat lid @ '' voided: '' @ why) r) = f
          \<and> \<not> l_voided (mark_voided (''Charge '' @ show_nat lid @ '' voided: '' @ why) r)) = (l_folio r = f \<and> \<not> l_voided r)
        \<and> l_amount (mark_voided (''Charge '' @ show_nat lid @ '' voided: '' @ why) r) = l_amount r"
        using f by (simp add: mark_voided_def)
    qed
    ultimately show "t_total ?P l_amount L = folio_sum db f" by (simp add: folio_sum_def)
  qed (use books_line_folio [OF b] in \<open>auto simp: g_def mark_voided_def\<close>)
  then have b1: "books_ok ?db1" by (rule books_recompute)
  moreover have "books_ok (snd (recomputeArAccountBalance k ?db1))" for k by (rule books_frame [OF _ _ b1]) simp_all
  ultimately show ?thesis using db' by auto
qed

text \<open>Moving a charge takes its tax along; a tax line on its own must stay with its charge.\<close>

lemma books_moveLineItem:
  assumes b: "books_ok db" and run: "moveLineItem lid dest db = Inr db'"
    and not_tax: "\<And>l. t_get (line_items db) lid = Some l \<Longrightarrow> l_type l \<noteq> TaxLine"
  shows "books_ok db'"
proof -
  obtain line where line: "t_get (line_items db) lid = Some line" "\<not> l_voided line" and dest: "t_get (folios db) dest \<noteq> None"
    using run b by (auto simp: moveLineItem_def rows_of_get split: option.split_asm if_split_asm)
  define L1 where "L1 = t_update (by_id lid) (\<lambda>l. l\<lparr>l_folio := dest\<rparr>) (line_items db)"
  define L where "L = t_update (\<lambda>_ l. l_related l = Some lid \<and> l_type l = TaxLine \<and> \<not> l_voided l) (\<lambda>l. l\<lparr>l_folio := dest\<rparr>) L1"
  let ?src = "l_folio line"
  have db': "db' = recomputeFolioBalance dest (recomputeFolioBalance ?src (db\<lparr>line_items := L\<rparr>))"
    using run b line unfolding moveLineItem_def L_def L1_def
    by (auto simp: Let_def split: option.split_asm if_split_asm)
  define g where "g i l = (if i = lid \<or> depends_on_charge lid l then l\<lparr>l_folio := dest\<rparr> else l)" for i and l :: folio_line
  have wf: "t_wf (line_items db)" using b by simp
  have ty: "l_type line \<noteq> TaxLine" using not_tax line(1) by blast
  have LG: "t_get L i = map_option (g i) (t_get (line_items db) i)" for i
    unfolding L_def L1_def by (cases "t_get (line_items db) i") (auto simp: t_get_update_two g_def Let_def depends_on_charge_def)
  have "books_but {?src, dest} (db\<lparr>line_items := L\<rparr>)"
  proof (rule books_rewrite_lines [OF b _ LG])
    show "t_wf L" using wf by (simp add: L_def L1_def)
    fix f assume f: "f \<notin> {?src, dest}"
    let ?P = "\<lambda>_ l. l_folio l = f \<and> \<not> l_voided l"
    have "t_total ?P l_amount L1 = t_total ?P l_amount (line_items db)"
      unfolding L1_def by (rule t_total_update_same) (use f line wf in \<open>auto simp: rows_get\<close>)
    moreover have "t_total ?P l_amount L = t_total ?P l_amount L1"
      unfolding L_def
    proof (rule t_total_update_same)
      fix i r assume r: "(i, r) \<in> set (rows L1)" "l_related r = Some lid \<and> l_type r = TaxLine \<and> \<not> l_voided r"
      have "t_get L1 i = Some r" using r(1) wf by (simp add: rows_get L1_def)
      then have "i \<noteq> lid \<and> t_get (line_items db) i = Some r \<or> i = lid"
        by (auto simp: L1_def t_get_update_id split: if_splits)
      moreover have "i \<noteq> lid"
        using \<open>t_get L1 i = Some r\<close> r(2) line(1) ty by (auto simp: L1_def t_get_update_id)
      ultimately have "l_folio r = ?src"
        using dependents_together(1) [OF b _ _ line(1), of i r] r(2) by (simp add: depends_on_charge_def)
      then show "(l_folio (r\<lparr>l_folio := dest\<rparr>) = f \<and> \<not> l_voided (r\<lparr>l_folio := dest\<rparr>)) = (l_folio r = f \<and> \<not> l_voided r)
        \<and> l_amount (r\<lparr>l_folio := dest\<rparr>) = l_amount r"
        using f by simp
    qed
    ultimately show "t_total ?P l_amount L = folio_sum db f" by (simp add: folio_sum_def)
  next
    fix i l c m
    assume l: "t_get (line_items db) i = Some l" "l_type l = TaxLine" "l_related l = Some c"
      and m: "t_get (line_items db) c = Some m" "l_type m \<noteq> TaxLine" "\<not> l_voided l \<longrightarrow> l_folio l = l_folio m"
    have "i \<noteq> lid" using l line(1) ty by auto
    moreover have "\<not> depends_on_charge lid m" using m(2) by (simp add: depends_on_charge_def)
    ultimately show "\<not> l_voided (g i l) \<longrightarrow> l_folio (g i l) = l_folio (g c m)"
      using l m by (auto simp: g_def depends_on_charge_def)
  qed (use books_line_folio [OF b] dest in \<open>auto simp: g_def\<close>)
  then have "books_but {dest} (recomputeFolioBalance ?src (db\<lparr>line_items := L\<rparr>))"
    by (intro books_recompute) simp
  then show ?thesis unfolding db' by (rule books_recompute)
qed

section \<open>Receivables leave the folios alone\<close>

abbreviation same_ledger :: "hotel \<Rightarrow> hotel \<Rightarrow> bool" where
  "same_ledger db db' \<equiv> folios db' = folios db \<and> line_items db' = line_items db \<and> payments db' = payments db"

lemma same_ledger_apply_one: "apply_one p byId db x = Inr db' \<Longrightarrow> same_ledger db db'"
  by (cases x) (auto simp: apply_one_def Let_def split: option.splits if_splits)

lemma same_ledger_applications:
  assumes "applyPaymentApplications p a xs byId db = Inr db'"
  shows "same_ledger db db'"
proof -
  have "foldM (apply_one p byId) db xs = Inr db'"
    using assms by (simp add: applyPaymentApplications_def Let_def split: if_splits)
  then show ?thesis
  proof (rule foldM_inv [where P = "same_ledger db"])
    fix s x s' assume "same_ledger db s" "apply_one p byId s x = Inr s'"
    then show "same_ledger db s'" using same_ledger_apply_one [of p byId s x s'] by simp
  qed simp
qed

lemma same_ledger_write_payment:
  assumes "write_payment k a amt c d norm byId db = Inr (p, db')"
  shows "same_ledger db db'"
proof -
  let ?db1 = "db\<lparr>ar_payments := t_insert \<lparr>ap_account = k, ap_amount = amt, ap_currency = c, ap_date = d, ap_voided = False\<rparr> (ar_payments db)\<rparr>"
  obtain db2 where db2: "(if norm = [] then Inr ?db1 else applyPaymentApplications (next_id (ar_payments db)) amt norm byId ?db1) = Inr db2"
    and db': "db' = snd (recomputeArAccountBalance k db2)"
    using assms by (auto simp: write_payment_def Let_def rbind_eq_Inr split: if_split_asm)
  have "same_ledger db db2"
    using db2 same_ledger_applications [of _ _ _ _ ?db1 db2] by (auto split: if_splits)
  then show ?thesis by (simp add: db')
qed

lemma same_ledger_recordPayment: "recordPayment k amt cur bd apps db = Inr (p, db') \<Longrightarrow> same_ledger db db'"
  by (elim recordPayment_cases) (rule same_ledger_write_payment)

lemma same_ledger_applyPayment: "applyPayment p apps db = Inr db' \<Longrightarrow> same_ledger db db'"
  unfolding applyPayment_def
  by (auto simp: rbind_eq_Inr split: option.splits if_splits dest: same_ledger_applications)

lemma same_ledger_unapply_all: "same_ledger db (foldl unapply db xs)"
proof (induction xs arbitrary: db)
  case (Cons x xs)
  show ?case using Cons [of "unapply db x"] by simp
qed simp

lemma same_ledger_voidPayment:
  assumes "voidPayment p reason db = Inr db'"
  shows "same_ledger db db'"
proof -
  define db1 where "db1 = db\<lparr>ar_payments := t_update (by_id p) (\<lambda>r. r\<lparr>ap_voided := True\<rparr>) (ar_payments db)\<rparr>"
  obtain k xs where "db' = snd (recomputeArAccountBalance k (foldl unapply db1 xs))"
    using assms by (auto simp: voidPayment_def Let_def db1_def split: option.splits if_splits)
  then show ?thesis using same_ledger_unapply_all [of db1 xs] by (simp add: db1_def)
qed

lemma same_ledger_insert_invoice_lines: "foldM (insert_invoice_line iid) db xs = Inr db' \<Longrightarrow> same_ledger db db'"
proof (rule foldM_inv [where P = "same_ledger db"])
  fix s x s' assume "same_ledger db s" "insert_invoice_line iid s x = Inr s'"
  then show "same_ledger db s'" by (cases x) (auto simp: insert_invoice_line_def split: if_splits)
qed simp_all

lemma same_ledger_generateInvoice:
  assumes "generateInvoice k g db = Inr (iid, db')"
  shows "same_ledger db db'"
proof -
  obtain a db2 xs n where "foldM (insert_invoice_line n) db2 xs = Inr db'" "same_ledger db db2"
    using assms by (auto simp: generateInvoice_def nextInvoiceNumber_def Let_def rbind_eq_Inr split: option.splits if_splits)
  then show ?thesis using same_ledger_insert_invoice_lines [of n db2 xs db'] by simp
qed

lemma same_ledger_run_ar: "same_ledger db (run_ar db op)"
proof (cases op)
  case (OpenAccount c l cur m)
  then show ?thesis
    by (cases "createArAccount c l cur m db") (auto simp: run_ar_def committed_def createArAccount_def split: option.splits if_splits)
next
  case (ChangeAccount k ch)
  then show ?thesis by (simp add: run_ar_def updateArAccount_def Let_def)
next
  case (GenerateInvoice k g)
  then show ?thesis
    using same_ledger_generateInvoice by (cases "generateInvoice k g db") (auto simp: run_ar_def committed_def)
next
  case (VoidInvoice i why)
  then show ?thesis
    by (cases "voidInvoice i why db") (auto simp: run_ar_def committed_def voidInvoice_def split: option.splits if_splits)
next
  case (RecordPayment k amt cur d apps)
  then show ?thesis
    using same_ledger_recordPayment by (cases "recordPayment k amt cur d apps db") (auto simp: run_ar_def committed_def)
next
  case (ApplyPayment p apps)
  then show ?thesis
    using same_ledger_applyPayment by (cases "applyPayment p apps db") (auto simp: run_ar_def committed_def)
next
  case (VoidPayment p why)
  then show ?thesis
    using same_ledger_voidPayment by (cases "voidPayment p why db") (auto simp: run_ar_def committed_def)
qed

section \<open>Steps of the ledger\<close>

text \<open>A step is one committed request; a refused one changes nothing and needs no step.\<close>

inductive ledger_step :: "hotel \<Rightarrow> hotel \<Rightarrow> bool" where
  step_charge: "postCharge fid ty desc amt bd ov why db = Inr (i, db') \<Longrightarrow> ledger_step db db'"
| step_stay: "postRoomChargesForStay res fid db = Inr db' \<Longrightarrow> ledger_step db db'"
| step_late: "postLateRoomCharges fid nights bd ov why db = Inr (charged, db') \<Longrightarrow> ledger_step db db'"
| step_adjust: "postAdjustment fid desc amt rel bd reason ov why db = Inr (i, db') \<Longrightarrow> ledger_step db db'"
| step_void: "voidLineItem lid reason db = Inr db' \<Longrightarrow> ledger_step db db'"
| step_move: "moveLineItem lid dest db = Inr db' \<Longrightarrow>
    (\<And>l. t_get (line_items db) lid = Some l \<Longrightarrow> l_type l \<noteq> TaxLine) \<Longrightarrow> ledger_step db db'"
| step_bill: "billFolioToCompany fid c db = Inr db' \<Longrightarrow> ledger_step db db'"
| step_primary: "ensurePrimaryFolio res db = Inr (fid, db') \<Longrightarrow> ledger_step db db'"
| step_open: "openAdditionalFolio res label db = Inr (fid, db') \<Longrightarrow> ledger_step db db'"
| step_cash: "captureCashPayment env now ref fid amount cur key bd db = Inr (pid, db') \<Longrightarrow> ledger_step db db'"
| step_terminal: "captureTerminalPayment env now ref fid amount cur key bd tref aid db = Inr (pid, db') \<Longrightarrow> ledger_step db db'"
| step_receivables: "ledger_step db (run_ar db op)"

lemmas books_steps = books_postCharge books_postRoomCharges books_postLate books_postAdjustment books_voidLineItem
  books_moveLineItem books_billFolio books_ensurePrimary books_openAdditional books_captureCash books_captureTerminal

lemma books_ledger_step: "ledger_step db db' \<Longrightarrow> books_ok db \<Longrightarrow> books_ok db'"
proof (induction rule: ledger_step.induct)
  case (step_receivables db op)
  then show ?case using same_ledger_run_ar [of db op] by (intro books_frame [of "run_ar db op" db]) simp_all
qed (blast intro: books_steps)+

lemma books_reachable: "ledger_step\<^sup>*\<^sup>* db db' \<Longrightarrow> books_ok db \<Longrightarrow> books_ok db'"
  by (induction rule: rtranclp_induct) (auto intro: books_ledger_step)

end
