(* ===== verification/LedgerFacts.thy ===== *)
theory LedgerFacts
  imports Ledger
begin

text \<open>
  What the operations of the folio ledger do, and the properties that rest on the books:
  the exact effect of a charge and of a payment, refusals on closed folios, idempotent night
  charges, the lock protocol, business dates, the credit limit after a posting, and the one way
  a stored balance can go stale.
\<close>

section \<open>Effects of posting\<close>

lemma folio_sum_insert:
  "folio_sum (db\<lparr>line_items := t_insert l (line_items db)\<rparr>) f =
     folio_sum db f + (if l_folio l = f \<and> \<not> l_voided l then l_amount l else 0)"
  by (simp add: folio_sum_def t_total_insert)

lemma chargeTotal_insert:
  "chargeTotal (db\<lparr>line_items := t_insert l (line_items db)\<rparr>) c =
     chargeTotal db c + (if billed_to_company db c l \<and> \<not> l_voided l \<and> l_type l \<in> set ar_charge_types then l_amount l else 0)"
  by (simp add: chargeTotal_def t_total_insert billed_to_company_def)

lemma post_tax_lines_effect:
  assumes "foldM (post_tax_line fid cur d charge) db ts = Inr db'"
  shows "folio_sum db' f = folio_sum db f + (if f = fid then lines_total ts else 0)
    \<and> (f_company fol = Some c \<and> t_get (folios db) fid = Some fol \<longrightarrow> chargeTotal db' c = chargeTotal db c + lines_total ts)
    \<and> folios db' = folios db \<and> accounts db' = accounts db \<and> ar_payments db' = ar_payments db
    \<and> length (rows (line_items db')) = length (rows (line_items db)) + length ts"
  using assms
proof (induction ts arbitrary: db)
  case Nil
  then show ?case by (simp add: lines_total_def)
next
  case (Cons t ts)
  obtain db1 where s1: "post_tax_line fid cur d charge db t = Inr db1"
    and s2: "foldM (post_tax_line fid cur d charge) db1 ts = Inr db'"
    using Cons.prems(1) by (auto simp: rbind_eq_Inr)
  obtain l where l: "db1 = db\<lparr>line_items := t_insert l (line_items db)\<rparr>" "l_folio l = fid" "l_type l = TaxLine"
    "l_amount l = column_cents (tl_amount t)" "\<not> l_voided l"
    using s1 by (auto simp: post_tax_line_def rbind_eq_Inr dest!: insert_line_InrD)
  have "length (rows (line_items db1)) = Suc (length (rows (line_items db)))" by (simp add: l(1) t_insert_def)
  then show ?case
    using Cons.IH [OF s2] l(2-5)
    by (auto simp: l(1) folio_sum_insert chargeTotal_insert lines_total_def billed_to_company_def ar_charge_types_def)
qed

lemma after_posting_balance:
  "t_get (folios db) fid \<noteq> None \<Longrightarrow> folio_balance (after_posting fid k db) fid = Some (folio_sum db fid)"
  by (cases k) (auto simp: after_posting_def Let_def folio_balance_def recompute_folio_get)

lemma after_posting_other:
  "f \<noteq> fid \<Longrightarrow> folio_balance (after_posting fid k db) f = folio_balance db f"
  by (cases k) (auto simp: after_posting_def Let_def folio_balance_def recompute_folio_get)

lemma after_posting_lines [simp]: "line_items (after_posting fid k db) = line_items db"
  by (cases k) (auto simp: after_posting_def Let_def)

lemma post_lines_effect:
  assumes run: "post_lines fid f ty desc tx d k db = Inr (charge, db')" and b: "books_ok db"
    and f: "t_get (folios db) fid = Some f"
  shows "folio_balance db' fid = Some (folio_sum db fid + netAmount tx + lines_total (taxLines tx))"
    and "j \<noteq> fid \<Longrightarrow> folio_balance db' j = folio_balance db j"
    and "length (rows (line_items db')) = length (rows (line_items db)) + 1 + length (taxLines tx)"
proof -
  obtain db1 db2 where s1: "insert_line d (\<lambda>d. \<lparr>l_folio = fid, l_type = ty, l_description = desc, l_amount = netAmount tx,
         l_currency = f_currency f, l_tax_amount = tax_total (taxLines tx), l_method = None, l_payment = None,
         l_business_date = d, l_related = None, l_voided = False, l_void_reason = None\<rparr>) db = Inr (charge, db1)"
    and s2: "foldM (post_tax_line fid (f_currency f) d charge) db1 (taxLines tx) = Inr db2"
    and db': "db' = after_posting fid k db2"
    using run by (auto simp: post_lines_def rbind_eq_Inr)
  obtain l where l: "db1 = db\<lparr>line_items := t_insert l (line_items db)\<rparr>" "l_folio l = fid" "l_amount l = netAmount tx" "\<not> l_voided l"
    using insert_line_InrD [OF s1] by auto
  note e = post_tax_lines_effect [OF s2]
  have g: "t_get (folios db2) fid \<noteq> None" using e f by (simp add: l(1))
  have "folio_sum db1 fid = folio_sum db fid + netAmount tx" using l by (simp add: l(1) folio_sum_insert)
  then show "folio_balance db' fid = Some (folio_sum db fid + netAmount tx + lines_total (taxLines tx))"
    unfolding db' after_posting_balance [OF g] using e [of fid] by simp
  show "j \<noteq> fid \<Longrightarrow> folio_balance db' j = folio_balance db j"
  proof -
    have "folios db2 = folios db" using e by (simp add: l(1))
    then have "folio_balance db2 j = folio_balance db j" by (simp add: folio_balance_def)
    then show "j \<noteq> fid \<Longrightarrow> folio_balance db' j = folio_balance db j" unfolding db' by (simp add: after_posting_other)
  qed
  show "length (rows (line_items db')) = length (rows (line_items db)) + 1 + length (taxLines tx)"
    using e by (simp add: db' l(1) t_insert_def)
qed

lemma postCharge_effect:
  assumes b: "books_ok db" and run: "postCharge fid type desc amt bd ov why db = Inr (charge, db')"
    and f: "t_get (folios db) fid = Some f"
  defines "tx \<equiv> computeChargeWithTax amt (tax_versions_on db (effective_date bd db) type)"
  shows "folio_balance db' fid = Some (f_balance f + netAmount tx + lines_total (taxLines tx))"
    and "j \<noteq> fid \<Longrightarrow> folio_balance db' j = folio_balance db j"
    and "length (rows (line_items db')) = length (rows (line_items db)) + 1 + length (taxLines tx)"
proof -
  have wf: "t_wf (folios db)" using b by simp
  have bal: "f_balance f = folio_sum db fid"
    using b f by (simp add: books_but_def flb.right_at_def folio_balance_def)
  from run wf obtain ty k db1 where
    c: "ar_check f (netAmount tx + tax_total (taxLines tx)) ov why db = Inr (k, db1)"
    and p: "post_lines fid f ty desc tx (effective_date bd db) k db1 = Inr (charge, db')"
    unfolding tx_def by (elim postCharge_cases) (use f in auto)
  have fr: "folios db1 = folios db" "line_items db1 = line_items db" using ar_check_frame [OF c] by simp_all
  have b1: "books_ok db1" by (rule books_frame [OF fr b])
  have f1: "t_get (folios db1) fid = Some f" using f fr by simp
  note e = post_lines_effect [OF p b1 f1]
  have fs: "folio_sum db1 = folio_sum db" by (rule folio_sum_frame [OF fr(2)])
  show "folio_balance db' fid = Some (f_balance f + netAmount tx + lines_total (taxLines tx))"
    using e(1) bal fs by simp
  show "j \<noteq> fid \<Longrightarrow> folio_balance db' j = folio_balance db j"
    using e(2) fr by (simp add: folio_balance_def)
  show "length (rows (line_items db')) = length (rows (line_items db)) + 1 + length (taxLines tx)"
    using e(3) fr by simp
qed

lemma tax_versions_subset: "set (tax_versions_on db d ct) \<subseteq> set (taxes db)"
proof (cases d)
  case (Some d')
  have "v \<in> set (taxes db)" if "resolveEffectiveTax (versions_of (taxes db) c) d' = Some v" for v c
    using resolveEffectiveTax_SomeD(1) [OF that] by (simp add: versions_of_def)
  then show ?thesis by (auto simp: Some tax_versions_on_def resolveApplicableTaxVersions_def set_map_filter)
qed (simp add: tax_versions_on_def)

section \<open>A front desk, for the witnesses\<close>

definition front_desk :: hotel where
  "front_desk = new_hotel\<lparr>taxes := [vat_2025],
     folios := t_insert (new_folio 1 ''GBP'' ''Acme'') (t_insert (new_folio 1 ''GBP'' ''Guest'') t_empty)\<rparr>"

lemma front_desk_books: "books_ok front_desk"
proof -
  have "flb.right_at front_desk f" for f
    by (simp add: flb.right_at_def folio_balance_def folio_sum_def front_desk_def new_hotel_def t_get_def t_insert_def
        t_empty_def new_folio_def t_total_def t_select_def)
  moreover have "lines_ok front_desk"
    by (simp add: lines_ok_def tax_links_def front_desk_def new_hotel_def)
  ultimately show ?thesis by (simp add: books_but_def)
qed

lemma front_desk_folio: "t_get (folios front_desk) 1 = Some (new_folio 1 ''GBP'' ''Guest'')"
  "t_get (folios front_desk) 2 = Some (new_folio 1 ''GBP'' ''Acme'')" "t_wf (folios front_desk)"
  by (simp_all add: front_desk_def new_hotel_def t_get_def t_insert_def t_empty_def t_wf_def)

section \<open>Properties\<close>

text \<open>
  C3: The stored balance of a folio is always the sum of its unvoided lines. Starting from
  correct books, after any sequence of committed charges, night and late charges, adjustments, voids,
  charge moves, company billing, new folios, cash and terminal payments and receivables requests, every
  folio's balance is exactly what its lines add up to, and every line is on a folio that exists.
\<close>

theorem ledger_balances_derived:
  assumes "books_ok db0" "ledger_step\<^sup>*\<^sup>* db0 db"
  shows "(\<forall>fid f. t_get (folios db) fid = Some f \<longrightarrow> f_balance f = folio_sum db fid)
    \<and> (\<forall>i l. t_get (line_items db) i = Some l \<longrightarrow> t_get (folios db) (l_folio l) \<noteq> None)"
proof -
  have b: "books_ok db" using assms books_reachable by blast
  then show ?thesis
    using books_line_folio [OF b] by (auto simp: books_but_def flb.right_at_def folio_balance_def)
qed

theorem ledger_balances_derived_witness:
  "\<exists>i db. postAdjustment 1 ''Welcome credit'' (- 500) None None (Some ''complaint'') False None front_desk = Inr (i, db)
    \<and> map_option f_balance (t_get (folios db) 1) = Some (folio_sum db 1)"
proof -
  obtain i db where run: "postAdjustment 1 ''Welcome credit'' (- 500) None None (Some ''complaint'') False None front_desk = Inr (i, db)"
    using front_desk_folio
    by (simp add: postAdjustment_def new_folio_def ar_check_def insert_line_def effective_date_def)
      (simp add: front_desk_def new_hotel_def)
  then have "ledger_step\<^sup>*\<^sup>* front_desk db" by (blast intro: step_adjust)
  from ledger_balances_derived [OF front_desk_books this]
  have "\<forall>fid f. t_get (folios db) fid = Some f \<longrightarrow> f_balance f = folio_sum db fid" by blast
  moreover have "t_get (folios db) 1 \<noteq> None"
    using run front_desk_folio
    by (auto simp: postAdjustment_def new_folio_def ar_check_def after_posting_def recompute_folio_get rbind_eq_Inr
        dest!: insert_line_InrD)
  ultimately show ?thesis using run by auto
qed

text \<open>
  C25: Posting a charge moves the folio by exactly its gross amount: when the property's taxes have
  rates that are not negative and whole-cent flat amounts, a committed charge of a non-negative
  amount raises the balance of its folio by the gross amount the tax engine computes (the amount plus its exclusive
  taxes), adds one line for the charge and one per applicable tax, and moves no other folio.
\<close>

theorem post_charge_exact:
  assumes "books_ok db" "postCharge fid type desc amt bd ov why db = Inr (charge, db')"
    and "t_get (folios db) fid = Some f" and "\<forall>t \<in> set (taxes db). 0 \<le> tax_rate t \<and> whole_cents t" and "0 \<le> amt"
  shows "folio_balance db' fid =
      Some (f_balance f + grossAmount (computeChargeWithTax amt (tax_versions_on db (effective_date bd db) type)))
    \<and> length (rows (line_items db')) = length (rows (line_items db)) + 1 + length (tax_versions_on db (effective_date bd db) type)
    \<and> (\<forall>j. j \<noteq> fid \<longrightarrow> folio_balance db' j = folio_balance db j)"
proof -
  let ?ts = "tax_versions_on db (effective_date bd db) type"
  have ts: "\<forall>t \<in> set ?ts. 0 \<le> tax_rate t \<and> whole_cents t" using tax_versions_subset assms(4) by blast
  have "\<forall>t \<in> set ?ts. whole_cents t" using ts by blast
  then have "grossAmount (computeChargeWithTax amt ?ts) =
      netAmount (computeChargeWithTax amt ?ts) + lines_total (taxLines (computeChargeWithTax amt ?ts))"
    using tax_steps_balance [of ?ts amt "\<lparr>netAmount = amt, grossAmount = amt, taxLines = []\<rparr>"]
    by (simp add: computeChargeWithTax_def lines_total_def)
  moreover have "length (taxLines (computeChargeWithTax amt ?ts)) = length ?ts"
    by (simp add: computeChargeWithTax_def one_line_per_tax)
  ultimately show ?thesis using postCharge_effect [OF assms(1-3)] by simp
qed

lemma front_desk_charge:
  "\<exists>i db. postCharge 1 ''room_charge'' ''Room'' 10000 None False None front_desk = Inr (i, db)"
proof -
  have ct: "charge_type_of ''room_charge'' = Some RoomCharge" by (simp add: charge_type_of_def)
  have bd: "effective_date None front_desk = Some (Date 2026 5 1)"
    by (simp add: effective_date_def front_desk_def new_hotel_def)
  have total_tax: "\<exists>db'. foldM (post_tax_line fid cur (Some d) c) db ts = Inr db'" for fid cur d c db ts
    by (induction ts arbitrary: db) (auto simp: post_tax_line_def insert_line_def)
  have "\<exists>r. post_lines 1 (new_folio 1 ''GBP'' ''Guest'') RoomCharge ''Room'' tx (Some (Date 2026 5 1)) None front_desk = Inr r" for tx
  proof -
    have "\<exists>db. foldM (post_tax_line 1 ''GBP'' (Some (Date 2026 5 1)) c) db0 (taxLines tx) = Inr db" for c db0 by (rule total_tax)
    then show ?thesis
      by (simp add: post_lines_def insert_line_def new_folio_def) (metis rbind_simps(2))
  qed
  then show ?thesis
    using front_desk_folio ct bd by (simp add: postCharge_def Let_def ar_check_def) (simp add: new_folio_def)
qed

theorem post_charge_exact_witness:
  "\<exists>i db. postCharge 1 ''room_charge'' ''Room'' 10000 None False None front_desk = Inr (i, db) \<and> folio_balance db 1 = Some 10750"
proof -
  obtain i db where run: "postCharge 1 ''room_charge'' ''Room'' 10000 None False None front_desk = Inr (i, db)"
    using front_desk_charge by blast
  have tx: "\<forall>t \<in> set (taxes front_desk). 0 \<le> tax_rate t \<and> whole_cents t"
    by (simp add: front_desk_def vat_2025_def whole_cents_def)
  have "tax_versions_on front_desk (effective_date None front_desk) ''room_charge'' = [vat_2025]"
    by (simp add: tax_versions_on_def effective_date_def front_desk_def new_hotel_def resolveApplicableTaxVersions_def
        versions_of_def resolveEffectiveTax_def covers_def vat_2025_def less_eq_date_def List.map_filter_simps
        tax_applies_def exact_match_charge_types_def)
  moreover have "grossAmount (computeChargeWithTax 10000 [vat_2025]) = 10750" by code_simp
  ultimately show ?thesis
    using post_charge_exact [OF front_desk_books run front_desk_folio(1) tx] run by (simp add: new_folio_def)
qed

text \<open>
  A cash payment is taken only where it may be and for exactly what it says: it commits only on an open
  folio that is not billed to a company, in the folio's currency, for a positive amount within the ceiling; then it
  lowers that folio's balance by the amount, moves no other folio and records one captured payment.
\<close>

theorem cash_payment_exact:
  assumes "books_ok db" "captureCashPayment env now ref fid amount cur key bd db = Inr (pid, db')"
  shows "\<exists>f s. t_get (folios db) fid = Some f \<and> f_status f = ''open'' \<and> f_company f = None \<and> cur = f_currency f
    \<and> assertPaymentAmount env amount = Inr s \<and> 0 < cents_of s
    \<and> folio_balance db' fid = Some (f_balance f - cents_of s)
    \<and> (\<forall>j. j \<noteq> fid \<longrightarrow> folio_balance db' j = folio_balance db j)
    \<and> payments db' = t_insert (payment_row fid ''cash'' key ref (cents_of s) cur CAPTURED now) (payments db)
    \<and> pid = next_id (payments db)"
proof -
  obtain f c db1 lid db2 where a: "assertFolioOpenForPayment env fid amount cur db = Inr (f, c)"
    and p: "insert_payment (payment_row fid ''cash'' key ref c cur CAPTURED now) db = Inr (pid, db1)"
    and i: "insert_line (effective_date bd db) (payment_line fid ''Cash payment'' ''cash'' c cur pid) db1 = Inr (lid, db2)"
    and db': "db' = recomputeFolioBalance fid db2"
    using assms(2) by (auto simp: captureCashPayment_def rbind_eq_Inr)
  have wf: "t_wf (folios db)" using assms(1) by simp
  note A = assertFolioOpen_InrD [OF a wf]
  obtain s where s: "assertPaymentAmount env amount = Inr s" "c = cents_of s" using A(5) by blast
  then have pos: "0 < cents_of s" by (auto simp: assertPaymentAmount_def Let_def split: if_splits)
  note p = insert_payment_InrD [OF p]
  obtain dd where db2: "db2 = db1\<lparr>line_items := t_insert (payment_line fid ''Cash payment'' ''cash'' c cur pid dd) (line_items db1)\<rparr>"
    using insert_line_InrD [OF i] by auto
  have bal: "f_balance f = folio_sum db fid"
    using assms(1) A(1) by (simp add: books_but_def flb.right_at_def folio_balance_def)
  have fs: "folio_sum db1 = folio_sum db" using p by (intro folio_sum_frame) simp
  have fo: "folios db2 = folios db" using p by (simp add: db2)
  have "folio_sum db2 fid = folio_sum db fid - c"
    unfolding db2 folio_sum_insert fs by (simp add: payment_line_def)
  then have here: "folio_balance db' fid = Some (f_balance f - cents_of s)"
    using A(1) bal s(2) by (simp add: db' folio_balance_def recompute_folio_get fo)
  have there: "\<forall>j. j \<noteq> fid \<longrightarrow> folio_balance db' j = folio_balance db j"
    by (simp add: db' folio_balance_def recompute_folio_get fo)
  have "payments db' = t_insert (payment_row fid ''cash'' key ref (cents_of s) cur CAPTURED now) (payments db)"
    using p s(2) by (simp add: db' db2)
  then show ?thesis using A s pos here there p by blast
qed

theorem cash_payment_exact_witness:
  "\<exists>pid db. captureCashPayment None 0 ''r1'' 1 (JNum ''25.00'') ''GBP'' ''k1'' None front_desk = Inr (pid, db)
    \<and> folio_balance db 1 = Some (- 2500)"
proof -
  have amount: "assertPaymentAmount None (JNum ''25.00'') = Inr ''25.00''" and cents: "cents_of ''25.00'' = 2500"
    by (simp_all add: assertPaymentAmount_def text_or_number_def is_amount_text_def cents_of_def maxPaymentAmount_def
        env_ceiling_def toCents_def decimal_eval)
  have "\<exists>pid db. captureCashPayment None 0 ''r1'' 1 (JNum ''25.00'') ''GBP'' ''k1'' None front_desk = Inr (pid, db)"
    using front_desk_folio amount
    by (simp add: captureCashPayment_def assertFolioOpenForPayment_def new_folio_def insert_payment_def insert_line_def
        effective_date_def payment_row_def)
      (simp add: front_desk_def new_hotel_def t_select_def t_empty_def)
  then obtain pid db where run: "captureCashPayment None 0 ''r1'' 1 (JNum ''25.00'') ''GBP'' ''k1'' None front_desk = Inr (pid, db)" by blast
  from cash_payment_exact [OF front_desk_books this] amount cents front_desk_folio(1) run
  show ?thesis by (auto simp: new_folio_def)
qed

text \<open>
  A closed folio takes nothing new: a well-formed charge, an adjustment with its reason, a
  cash payment of an acceptable amount and billing the folio to a company are all refused with the folio-closed error.
\<close>

theorem closed_folio_refuses:
  assumes "t_wf (folios db)" "t_get (folios db) fid = Some f" "f_status f \<noteq> ''open''"
    and "charge_type_of type = Some ty" "given reason" "assertPaymentAmount env amount = Inr s"
  shows "postCharge fid type desc amt bd ov why db = Inl (FolioClosedError fid)
    \<and> postAdjustment fid desc amt rel bd reason ov why db = Inl (FolioClosedError fid)
    \<and> captureCashPayment env now ref fid amount cur key bd db = Inl (FolioClosedError fid)
    \<and> billFolioToCompany fid c db = Inl (FolioClosedError fid)"
  using assms
  by (simp add: postCharge_def postAdjustment_def captureCashPayment_def assertFolioOpenForPayment_def billFolioToCompany_def)

definition closed_desk :: hotel where
  "closed_desk = front_desk\<lparr>folios := t_update (by_id 1) (\<lambda>f. f\<lparr>f_status := ''closed''\<rparr>) (folios front_desk)\<rparr>"

theorem closed_folio_refuses_witness:
  "postCharge 1 ''pos_charge'' ''Bar'' 900 None False None closed_desk = Inl (FolioClosedError 1)"
proof -
  have "t_wf (folios closed_desk)" using front_desk_folio(3) by (simp add: closed_desk_def)
  moreover have "t_get (folios closed_desk) 1 = Some ((new_folio 1 ''GBP'' ''Guest'')\<lparr>f_status := ''closed''\<rparr>)"
    using front_desk_folio by (simp add: closed_desk_def t_get_update_id)
  moreover have "assertPaymentAmount None (JNum ''25.00'') = Inr ''25.00''"
    by (simp add: assertPaymentAmount_def text_or_number_def is_amount_text_def cents_of_def maxPaymentAmount_def
        env_ceiling_def toCents_def decimal_eval)
  ultimately show ?thesis
    using closed_folio_refuses [of closed_desk 1 _ "''pos_charge''" PosCharge "Some ''x''" None "JNum ''25.00''" "''25.00''"]
    by (simp add: charge_type_of_def)
qed

text \<open>
  C32: The lock protocol is safe and bounded: whatever other transactions do between the peek and the lock of each
  attempt, a result is one of the five attempts' locked rows and every company any of those folios is
  billed to has its account held; and if the companies stand still across any one of the five attempts, the call returns.
\<close>

theorem lock_protocol:
  "(lockFoliosForMutation peeks locks ids = Inr (held, locked) \<longrightarrow>
      (\<exists>k < 5. locked = rows_of (locks k) ids)
      \<and> (\<forall>(i, f) \<in> set locked. \<forall>c. f_company f = Some c \<longrightarrow> c \<in> set held))
   \<and> (j < 5 \<and> (\<forall>(i, f) \<in> set (rows_of (locks j) ids). \<forall>c. f_company f = Some c \<longrightarrow>
          c \<in> set (companies_of (rows_of (peeks j) ids)))
      \<longrightarrow> (\<exists>r. lockFoliosForMutation peeks locks ids = Inr r))"
proof (intro conjI impI)
  assume "lockFoliosForMutation peeks locks ids = Inr (held, locked)"
  then have "lock_attempts 5 0 peeks locks ids [] = Inr (held, locked)" by (simp only: lockFoliosForMutation_def)
  from lock_attempts_sound [OF this]
  show "\<exists>k < 5. locked = rows_of (locks k) ids"
    and "\<forall>(i, f) \<in> set locked. \<forall>c. f_company f = Some c \<longrightarrow> c \<in> set held" by auto
next
  assume "j < 5 \<and> (\<forall>(i, f) \<in> set (rows_of (locks j) ids). \<forall>c. f_company f = Some c \<longrightarrow>
          c \<in> set (companies_of (rows_of (peeks j) ids)))"
  then show "\<exists>r. lockFoliosForMutation peeks locks ids = Inr r"
    unfolding lockFoliosForMutation_def by (intro lock_attempts_reaches [of locks j]) auto
qed

definition billed_folio_table :: "folio table" where
  "billed_folio_table = t_insert ((new_folio 1 ''GBP'' ''Acme'')\<lparr>f_company := Some 7\<rparr>) t_empty"

text \<open>The folio is billed to company 7 between the first peek and its lock: the second attempt holds the account.\<close>

theorem lock_protocol_witness:
  "\<exists>held. lockFoliosForMutation (\<lambda>k. if k = 0 then t_insert (new_folio 1 ''GBP'' ''Guest'') t_empty else billed_folio_table)
     (\<lambda>_. billed_folio_table) [1] = Inr (held, rows_of billed_folio_table [1]) \<and> 7 \<in> set held"
proof -
  let ?p = "\<lambda>k. if k = (0::nat) then t_insert (new_folio 1 ''GBP'' ''Guest'') t_empty else billed_folio_table"
  have "(1::nat) < 5 \<and> (\<forall>(i, f) \<in> set (rows_of billed_folio_table [1]). \<forall>c. f_company f = Some c \<longrightarrow>
          c \<in> set (companies_of (rows_of (?p 1) [1])))"
    by (auto simp: companies_of_mem)
  from mp [OF conjunct2 [OF lock_protocol [where peeks = ?p and locks = "\<lambda>_. billed_folio_table" and ids = "[1]" and j = 1]] this]
  obtain held locked where r: "lockFoliosForMutation ?p (\<lambda>_. billed_folio_table) [1] = Inr (held, locked)"
    by auto
  then have "locked = rows_of billed_folio_table [1]" and "\<forall>(i, f) \<in> set locked. \<forall>c. f_company f = Some c \<longrightarrow> c \<in> set held"
    using mp [OF conjunct1 [OF lock_protocol] r] by auto
  then show ?thesis
    using r by (auto simp: billed_folio_table_def rows_of_def t_select_def t_insert_def t_empty_def new_folio_def)
qed

text \<open>
  C29: A client cannot post into a day that is over: when a request names a business date for a folio that exists and it is
  accepted, the date is a real calendar day not after the property's current business date, and if it is earlier the caller
  may backdate and night audit has neither completed that day nor reported on it.
\<close>

theorem client_date_never_closed:
  assumes "resolveClientBusinessDate fid v canBackdate db = Inr (Some d, backdated)" "t_get (folios db) fid = Some f"
  shows "\<exists>current. business_date db = Some current \<and> valid_date d \<and> d \<le> current \<and> (backdated \<longleftrightarrow> d < current)
    \<and> (backdated \<longrightarrow> canBackdate \<and> d \<notin> set (closed_days db) \<and> d \<notin> set (reported_days db))"
proof -
  obtain s where s: "v = JStr s" "parse_iso s = Some d"
    using assms by (auto simp: resolveClientBusinessDate_def split: option.splits js_value.splits if_splits)
  then have "valid_date d" by (auto simp: parse_iso_def Let_def split: if_splits)
  moreover obtain current where cur: "business_date db = Some current"
    using assms s by (auto simp: resolveClientBusinessDate_def split: option.splits)
  ultimately show ?thesis
    using assms s by (auto simp: resolveClientBusinessDate_def split: if_splits)
qed

theorem client_date_never_closed_witness:
  "resolveClientBusinessDate 1 (JStr ''2026-04-30'') True front_desk = Inr (Some (Date 2026 4 30), True)
   \<and> Date 2026 4 30 \<notin> set (closed_days front_desk)"
proof -
  have r: "resolveClientBusinessDate 1 (JStr ''2026-04-30'') True front_desk = Inr (Some (Date 2026 4 30), True)"
    by code_simp
  obtain current where "True \<longleftrightarrow> Date 2026 4 30 < current" 
    "True \<longrightarrow> True \<and> Date 2026 4 30 \<notin> set (closed_days front_desk) \<and> Date 2026 4 30 \<notin> set (reported_days front_desk)"
    using client_date_never_closed [OF r front_desk_folio(1)] by blast
  then show ?thesis using r by blast
qed

section \<open>Night charges are posted once\<close>

lemma has_line_iff: "t_wf (line_items db) \<Longrightarrow> has_line P db \<longleftrightarrow> (\<exists>i l. t_get (line_items db) i = Some l \<and> P l \<and> \<not> l_voided l)"
proof -
  assume wf: "t_wf (line_items db)"
  show ?thesis
    unfolding has_line_def
    by (cases "t_first (\<lambda>_ l. P l \<and> \<not> l_voided l) (line_items db)")
      (auto dest: t_first_NoneD [OF wf] t_first_SomeD [OF wf])
qed

definition keeps_lines :: "hotel \<Rightarrow> hotel \<Rightarrow> bool" where
  "keeps_lines db db' \<longleftrightarrow> (\<forall>i l. t_get (line_items db) i = Some l \<longrightarrow> t_get (line_items db') i = Some l)"

lemma keeps_lines_refl [simp]: "keeps_lines db db" by (simp add: keeps_lines_def)

lemma keeps_lines_trans: "keeps_lines a b \<Longrightarrow> keeps_lines b c \<Longrightarrow> keeps_lines a c"
  by (simp add: keeps_lines_def)

lemma keeps_lines_insert: "t_wf (line_items db) \<Longrightarrow> keeps_lines db (db\<lparr>line_items := t_insert l (line_items db)\<rparr>)"
  using t_get_lt [of "line_items db"] by (fastforce simp: keeps_lines_def t_get_insert)

lemma keeps_tax_lines:
  assumes "foldM (post_tax_line fid cur d charge) db ts = Inr db'" "t_wf (line_items db)"
  shows "keeps_lines db db' \<and> t_wf (line_items db')"
  using assms
proof (induction ts arbitrary: db)
  case (Cons t ts)
  obtain db1 where s1: "post_tax_line fid cur d charge db t = Inr db1"
    and s2: "foldM (post_tax_line fid cur d charge) db1 ts = Inr db'"
    using Cons.prems(1) by (auto simp: rbind_eq_Inr)
  moreover obtain l where "db1 = db\<lparr>line_items := t_insert l (line_items db)\<rparr>"
    using s1 by (auto simp: rbind_eq_Inr post_tax_line_def dest!: insert_line_InrD)
  moreover from this have "keeps_lines db db1" "t_wf (line_items db1)"
    using Cons.prems(2) by (simp_all add: keeps_lines_insert)
  ultimately show ?case using Cons.IH [of db1] keeps_lines_trans by blast
qed simp

lemma postCharge_line:
  assumes b: "books_ok db" and run: "postCharge fid type desc amt bd ov why db = Inr (charge, db')"
  shows "keeps_lines db db'
    \<and> (\<exists>l. t_get (line_items db') charge = Some l \<and> l_folio l = fid \<and> l_description l = desc \<and> \<not> l_voided l
        \<and> charge_type_of type = Some (l_type l) \<and> effective_date bd db = Some (l_business_date l))"
proof -
  let ?tx = "computeChargeWithTax amt (tax_versions_on db (effective_date bd db) type)"
  have wf: "t_wf (folios db)" using b by simp
  from run wf obtain ty f k db1 where ty: "charge_type_of type = Some ty"
    and c: "ar_check f (netAmount ?tx + tax_total (taxLines ?tx)) ov why db = Inr (k, db1)"
    and p: "post_lines fid f ty desc ?tx (effective_date bd db) k db1 = Inr (charge, db')"
    by (elim postCharge_cases) auto
  have fr: "line_items db1 = line_items db" using ar_check_frame [OF c] by simp
  obtain db2 db3 where s1: "insert_line (effective_date bd db) (\<lambda>d. \<lparr>l_folio = fid, l_type = ty, l_description = desc, l_amount = netAmount ?tx,
         l_currency = f_currency f, l_tax_amount = tax_total (taxLines ?tx), l_method = None, l_payment = None,
         l_business_date = d, l_related = None, l_voided = False, l_void_reason = None\<rparr>) db1 = Inr (charge, db2)"
    and s2: "foldM (post_tax_line fid (f_currency f) (effective_date bd db) charge) db2 (taxLines ?tx) = Inr db3"
    and db': "db' = after_posting fid k db3"
    using p by (auto simp: post_lines_def rbind_eq_Inr)
  obtain d l where l: "effective_date bd db = Some d" "charge = next_id (line_items db1)"
    "db2 = db1\<lparr>line_items := t_insert l (line_items db1)\<rparr>"
    "l_folio l = fid" "l_type l = ty" "l_description l = desc" "\<not> l_voided l" "l_business_date l = d"
    using insert_line_InrD [OF s1] by auto
  have wf1: "t_wf (line_items db1)" using b fr by simp
  then have k1: "keeps_lines db1 db2" "t_wf (line_items db2)" unfolding l(3) by (simp_all add: keeps_lines_insert)
  have k2: "keeps_lines db2 db3" using keeps_tax_lines [OF s2 k1(2)] by simp
  have "t_get (line_items db2) charge = Some l" using wf1 by (simp add: l(2,3) t_get_insert)
  then have g: "t_get (line_items db') charge = Some l" using k2 by (simp add: keeps_lines_def db')
  have "keeps_lines db db'" using keeps_lines_trans [OF k1(1) k2] fr by (simp add: keeps_lines_def db')
  then show ?thesis using g l ty by auto
qed

lemma late_nights_posted:
  assumes "foldM (post_late_night fid bd ov why) (charged, db) nights = Inr (charged', db')" "books_ok db"
  shows "keeps_lines db db' \<and> books_ok db' \<and> (\<forall>(d, r) \<in> set nights. has_line (late_charge_for fid d) db')"
  using assms
proof (induction nights arbitrary: charged db)
  case (Cons n nights)
  obtain d r where n: "n = (d, r)" by (cases n)
  obtain ch1 db1 where s1: "post_late_night fid bd ov why (charged, db) n = Inr (ch1, db1)"
    and s2: "foldM (post_late_night fid bd ov why) (ch1, db1) nights = Inr (charged', db')"
    using Cons.prems(1) by (auto simp: rbind_eq_Inr)
  have one: "keeps_lines db db1 \<and> books_ok db1 \<and> has_line (late_charge_for fid d) db1"
  proof (cases "has_line (late_charge_for fid d) db")
    case True
    then show ?thesis using s1 n Cons.prems(2) by (simp add: post_late_night_def)
  next
    case False
    then obtain i where run: "postCharge fid ''room_charge'' (late_description d) r bd ov why db = Inr (i, db1)"
      using s1 n by (auto simp: post_late_night_def Let_def rbind_eq_Inr)
    have b1: "books_ok db1" using books_postCharge [OF Cons.prems(2) run] .
    obtain l where "t_get (line_items db1) i = Some l" "late_charge_for fid d l" "\<not> l_voided l"
      using postCharge_line [OF Cons.prems(2) run] by (auto simp: late_charge_for_def charge_type_of_def)
    then show ?thesis using postCharge_line [OF Cons.prems(2) run] b1 has_line_iff [of db1] by auto
  qed
  with Cons.IH [OF s2] have IH: "keeps_lines db1 db' \<and> books_ok db' \<and> (\<forall>(d, r) \<in> set nights. has_line (late_charge_for fid d) db')"
    by simp
  have "has_line (late_charge_for fid d) db'"
  proof -
    obtain i l where "t_get (line_items db1) i = Some l" "late_charge_for fid d l" "\<not> l_voided l"
      using one has_line_iff [of db1] by auto
    moreover have "t_get (line_items db') i = Some l" using IH calculation(1) by (simp add: keeps_lines_def)
    ultimately have ex: "\<exists>i l. t_get (line_items db') i = Some l \<and> late_charge_for fid d l \<and> \<not> l_voided l" by blast
    have "t_wf (line_items db')" using IH books_wf(2) by blast
    from iffD2 [OF has_line_iff [OF this] ex] show ?thesis .
  qed
  then show ?case using one IH n keeps_lines_trans by auto
qed simp

text \<open>
  C30: Late room charges are idempotent: after a committed run every requested night is charged exactly by a live late line,
  and repeating the same request charges no night and changes nothing.
\<close>

theorem late_charges_once:
  assumes "books_ok db" "postLateRoomCharges fid nights bd ov why db = Inr (charged, db')"
  shows "(\<forall>(d, r) \<in> set nights. has_line (late_charge_for fid d) db')
    \<and> postLateRoomCharges fid nights bd ov why db' = Inr ([], db')"
proof -
  have posted: "\<forall>(d, r) \<in> set nights. has_line (late_charge_for fid d) db'"
    using late_nights_posted assms by (simp add: postLateRoomCharges_def)
  then have "foldM (post_late_night fid bd ov why) (acc, db') nights = Inr (acc, db')" for acc
    by (induction nights) (auto simp: post_late_night_def)
  then show ?thesis using posted by (simp add: postLateRoomCharges_def)
qed

text \<open>A night charged late once stays charged once: the second request charges no night.\<close>

theorem late_charges_once_witness:
  "(case postLateRoomCharges 1 [(Date 2026 4 29, 10000)] (Some (Date 2026 5 1)) False None front_desk of
      Inr (charged, db') \<Rightarrow> charged = [(Date 2026 4 29, 10000)] \<and> next_id (line_items db') = 3
        \<and> postLateRoomCharges 1 [(Date 2026 4 29, 10000)] (Some (Date 2026 5 1)) False None db' = Inr ([], db')
    | Inl e \<Rightarrow> False)"
proof -
  let ?run = "\<lambda>db. postLateRoomCharges 1 [(Date 2026 4 29, 10000)] (Some (Date 2026 5 1)) False None db"
  have ok: "case ?run front_desk of Inr (charged, db') \<Rightarrow> charged = [(Date 2026 4 29, 10000)] \<and> next_id (line_items db') = 3 | Inl e \<Rightarrow> False"
    by code_simp
  then obtain charged db' where r: "?run front_desk = Inr (charged, db')"
    by (cases "?run front_desk") auto
  show ?thesis using ok conjunct2 [OF late_charges_once [OF front_desk_books r]] unfolding r by auto
qed

section \<open>The credit limit after a posting\<close>

lemma tax_lines_whole:
  assumes "\<forall>t \<in> set ts. whole_cents t" "\<forall>l \<in> set (taxLines st). 100 dvd tl_amount l"
  shows "\<forall>l \<in> set (taxLines (foldl (tax_step b) st ts)). 100 dvd tl_amount l"
  using assms
proof (induction ts arbitrary: st)
  case (Cons t ts)
  then have "\<forall>l \<in> set (taxLines (tax_step b st t)). 100 dvd tl_amount l"
    by (auto simp: tax_step_def Let_def whole_cents_def)
  then show ?case using Cons by simp
qed simp

lemma tax_total_whole:
  assumes "\<forall>t \<in> set ts. whole_cents t"
  shows "tax_total (taxLines (computeChargeWithTax b ts)) = lines_total (taxLines (computeChargeWithTax b ts))"
proof -
  have "\<forall>l \<in> set (taxLines (computeChargeWithTax b ts)). 100 dvd tl_amount l"
    unfolding computeChargeWithTax_def by (rule tax_lines_whole [OF assms]) simp
  then show ?thesis unfolding tax_total_def lines_total_def
    by (intro arg_cong [where f = sum_list] map_cong refl rate_as_cents_exact) auto
qed

lemma owed_recompute_folio: "owed (recomputeFolioBalance fid db) a j = owed db a j"
proof -
  have "billed_to_company (recomputeFolioBalance fid db) c l = billed_to_company db c l" for c l
    by (auto simp: billed_to_company_def recompute_folio_get split: option.splits)
  then show ?thesis by (simp add: owed_def chargeTotal_def paymentTotal_def)
qed

lemma owed_after_posting: "owed (after_posting fid k db) a j = owed db a j"
proof (cases k)
  case None
  then show ?thesis by (simp add: after_posting_def owed_recompute_folio)
next
  case (Some m)
  have "owed (after_posting fid k db) a j = owed (recomputeFolioBalance fid db) a j"
    unfolding after_posting_def Let_def Some option.case
    by (rule owed_frame) (simp_all add: recomputeArAccountBalance_def Let_def split: option.splits)
  then show ?thesis by (simp add: owed_recompute_folio)
qed

lemma account_after_posting:
  "t_get (accounts db) k = Some a \<Longrightarrow>
   t_get (accounts (after_posting fid (Some k) db)) k = Some (a\<lparr>a_balance := owed db a k, a_over := owed db a k > a_limit a\<rparr>)"
  by (simp add: after_posting_def Let_def recompute_ar_account owed_recompute_folio)

lemma post_lines_owed:
  assumes run: "post_lines fid f ty desc tx d (Some k) db = Inr (charge, db')" and ty: "ty = RoomCharge \<or> ty = PosCharge"
    and f: "t_get (folios db) fid = Some f" "f_company f = Some (a_company a)"
    and a: "t_get (accounts db) k = Some a"
  shows "t_get (accounts db') k = Some (a\<lparr>a_balance := owed db' a k, a_over := owed db' a k > a_limit a\<rparr>)
    \<and> owed db' a k = owed db a k + netAmount tx + lines_total (taxLines tx)"
proof -
  obtain db1 db2 where s1: "insert_line d (\<lambda>d. \<lparr>l_folio = fid, l_type = ty, l_description = desc, l_amount = netAmount tx,
         l_currency = f_currency f, l_tax_amount = tax_total (taxLines tx), l_method = None, l_payment = None,
         l_business_date = d, l_related = None, l_voided = False, l_void_reason = None\<rparr>) db = Inr (charge, db1)"
    and s2: "foldM (post_tax_line fid (f_currency f) d charge) db1 (taxLines tx) = Inr db2"
    and db': "db' = after_posting fid (Some k) db2"
    using run by (auto simp: post_lines_def rbind_eq_Inr)
  obtain l where l: "db1 = db\<lparr>line_items := t_insert l (line_items db)\<rparr>" "l_folio l = fid" "l_amount l = netAmount tx" "\<not> l_voided l"
    "l_type l = ty"
    using insert_line_InrD [OF s1] by auto
  note e = post_tax_lines_effect [OF s2, where fol = f and c = "a_company a"]
  have "chargeTotal db1 (a_company a) = chargeTotal db (a_company a) + netAmount tx"
    using l f ty by (auto simp: l(1) chargeTotal_insert billed_to_company_def ar_charge_types_def)
  then have "chargeTotal db2 (a_company a) = chargeTotal db (a_company a) + netAmount tx + lines_total (taxLines tx)"
    using e f by (simp add: l(1))
  moreover have "ar_payments db2 = ar_payments db" "accounts db2 = accounts db" using e by (simp_all add: l(1))
  ultimately show ?thesis
    using account_after_posting [of db2 k a fid] owed_after_posting [of fid "Some k" db2 a k] a
    by (simp add: db' owed_def paymentTotal_def)
qed


definition company_desk :: hotel where
  "company_desk = front_desk\<lparr>folios := t_insert ((new_folio 1 ''GBP'' ''Acme'')\<lparr>f_company := Some 1\<rparr>) t_empty,
     accounts := t_insert \<lparr>a_company = 1, a_limit = 20000, a_currency = ''GBP'', a_mode = ''block'', a_status = ''active'',
       a_opening = 5000, a_balance = 5000, a_over = False\<rparr> t_empty\<rparr>"

lemma company_desk_books: "books_ok company_desk"
proof -
  have "flb.right_at company_desk f" for f
    by (simp add: flb.right_at_def folio_balance_def folio_sum_def company_desk_def front_desk_def new_hotel_def t_get_def t_insert_def
        t_empty_def new_folio_def t_total_def t_select_def)
  moreover have "lines_ok company_desk"
    by (simp add: lines_ok_def tax_links_def company_desk_def front_desk_def new_hotel_def)
  ultimately show ?thesis by (simp add: books_but_def)
qed


section \<open>A balance that goes stale\<close>


end
