(* ===== verification/GatewayRecords.thy ===== *)
theory GatewayRecords
  imports Store
begin

text \<open>
  What the backend believes of the payment provider: \<open>shared/gateway-record.js\<close>, which compares the provider's
  record of a transaction with the local payment, and \<open>shared/webhook-events.js\<close>, the durable life of a webhook
  event (persisted first, upgraded by a signed delivery, decided once, retried a bounded number of times). The
  statements of the event table are one atomic step each, as the conditional updates make them; the branch for a row
  that vanishes between a duplicate key and its re-read cannot happen in such a step and has no counterpart. Upper and
  lower case are those of ASCII, which is what currency codes and provider statuses are.
\<close>

section \<open>Case of ASCII text\<close>

definition shift_case :: "nat \<Rightarrow> nat \<Rightarrow> (nat \<Rightarrow> nat) \<Rightarrow> char \<Rightarrow> char" where
  "shift_case lo hi f c = (let n = (of_char c :: nat) in if lo \<le> n \<and> n \<le> hi then char_of (f n) else c)"

definition toUpperCase :: "string \<Rightarrow> string" where
  "toUpperCase s = map (shift_case 97 122 (\<lambda>n. n - 32)) s"

definition toLowerCase :: "string \<Rightarrow> string" where
  "toLowerCase s = map (shift_case 65 90 (\<lambda>n. n + 32)) s"

section \<open>The provider's record against the local payment\<close>

text \<open>The normalised answer of Verify Transaction; an amount that is missing or not a whole number is \<open>None\<close>.\<close>

record gateway_record =
  g_status :: "string option"
  g_reference :: "string option"
  g_amount :: "int option"
  g_requested :: "int option"
  g_currency :: "string option"
  g_payment :: "string option"
  g_channel :: "string option"

datatype verdict = Confirmed | NotPaid | NotFinal | Mismatch

datatype mismatch_code = REFERENCE_MISMATCH | CURRENCY_MISMATCH | AMOUNT_MISSING | AMOUNT_MISMATCH

definition toSafeInteger :: "int option \<Rightarrow> int option" where
  "toSafeInteger v = (case v of None \<Rightarrow> None | Some n \<Rightarrow> if 0 \<le> n \<and> n \<le> 2 ^ 53 - 1 then Some n else None)"

definition reference_reasons :: "gateway_record \<Rightarrow> string \<Rightarrow> mismatch_code list" where
  "reference_reasons r reference =
     (case g_reference r of None \<Rightarrow> [] | Some x \<Rightarrow> if x \<noteq> reference then [REFERENCE_MISMATCH] else [])"

definition success_reasons :: "gateway_record \<Rightarrow> int \<Rightarrow> string \<Rightarrow> mismatch_code list" where
  "success_reasons r expectedCents currency =
     (case g_currency r of None \<Rightarrow> [CURRENCY_MISMATCH]
      | Some c \<Rightarrow> if toUpperCase c \<noteq> toUpperCase currency then [CURRENCY_MISMATCH] else []) @
     (case toSafeInteger (g_amount r) of
        None \<Rightarrow> [AMOUNT_MISSING]
      | Some paid \<Rightarrow>
          let requested = toSafeInteger (g_requested r);
              exact = (paid = expectedCents);
              feeBorne = (requested = Some expectedCents \<and> paid \<ge> expectedCents)
          in if \<not> exact \<and> \<not> feeBorne then [AMOUNT_MISMATCH] else [])"

definition classifyGatewayRecord :: "gateway_record \<Rightarrow> string \<Rightarrow> int \<Rightarrow> string \<Rightarrow> verdict \<times> mismatch_code list" where
  "classifyGatewayRecord r reference expectedCents currency =
     (let status = toLowerCase (case g_status r of None \<Rightarrow> [] | Some s \<Rightarrow> s);
          wrong = reference_reasons r reference
      in if status = ''success'' then
           let reasons = wrong @ success_reasons r expectedCents currency
           in (if reasons = [] then Confirmed else Mismatch, reasons)
         else if status = ''failed'' \<or> status = ''reversed'' then (if wrong = [] then NotPaid else Mismatch, wrong)
         else (if wrong = [] then NotFinal else Mismatch, wrong))"

text \<open>A failed call: the HTTP status and the body's own code, when there was a response, and the error's text.\<close>

record gateway_error =
  ge_status :: "nat option"
  ge_code :: "string option"
  ge_message :: string

definition interpretGatewayError :: "gateway_error \<Rightarrow> string" where
  "interpretGatewayError e =
     (if ge_status e = Some 404 then ''record_not_found''
      else if ge_code e = Some ''transaction_not_found'' then ''record_not_found''
      else ''transient'')"

section \<open>Webhook events\<close>

record webhook_event =
  e_provider :: string
  e_key :: string
  e_payload :: string
  e_verified :: bool
  e_payment :: "nat option"
  e_outcome :: "string option"
  e_attempts :: nat
  e_next :: "int option"

definition FIRST_ATTEMPT_GRACE_MS :: int where "FIRST_ATTEMPT_GRACE_MS = 120000"
definition MAX_ATTEMPTS :: nat where "MAX_ATTEMPTS = 12"
definition RECORD_NOT_FOUND_GRACE_ATTEMPTS :: nat where "RECORD_NOT_FOUND_GRACE_ATTEMPTS = 3"

definition webhookEventKey :: "string option \<Rightarrow> string option \<Rightarrow> string \<Rightarrow> string" where
  "webhookEventKey event i fallback =
     (case i of None \<Rightarrow> fallback
      | Some i \<Rightarrow> if i = [] then fallback
          else if event = Some ''charge.success'' \<or> event = Some ''charge.failed'' then i
          else (case event of None \<Rightarrow> ''unknown'' | Some e \<Rightarrow> e) @ '':'' @ i)"

definition backoffMinutes :: "nat \<Rightarrow> nat" where
  "backoffMinutes attemptCount = min (2 ^ (attemptCount - 1)) 30"

record persisted =
  pw_id :: nat
  pw_created :: bool
  pw_upgraded :: bool
  pw_deduplicated :: bool
  pw_needsProcessing :: bool
  pw_attempts :: nat

definition persistWebhookEvent ::
    "int \<Rightarrow> string \<Rightarrow> string \<Rightarrow> string \<Rightarrow> bool \<Rightarrow> nat option \<Rightarrow> webhook_event table \<Rightarrow> persisted \<times> webhook_event table" where
  "persistWebhookEvent now provider key payload signed attribution t =
     (case t_first (\<lambda>_ e. e_provider e = provider \<and> e_key e = key) t of
        None \<Rightarrow>
          (\<lparr>pw_id = next_id t, pw_created = True, pw_upgraded = False, pw_deduplicated = False,
             pw_needsProcessing = signed, pw_attempts = 0\<rparr>,
           t_insert \<lparr>e_provider = provider, e_key = key, e_payload = payload, e_verified = signed,
             e_payment = (if signed then attribution else None), e_outcome = None, e_attempts = 0,
             e_next = (if signed then Some (now + FIRST_ATTEMPT_GRACE_MS) else None)\<rparr> t)
      | Some (i, e) \<Rightarrow>
          let seen = \<lparr>pw_id = i, pw_created = False, pw_upgraded = False, pw_deduplicated = True,
                pw_needsProcessing = False, pw_attempts = e_attempts e\<rparr>
          in if \<not> signed then (seen, t)
             else if \<not> e_verified e then
               (seen\<lparr>pw_upgraded := True, pw_deduplicated := False, pw_needsProcessing := True, pw_attempts := 0\<rparr>,
                t_update (by_id i) (\<lambda>e. e\<lparr>e_verified := True, e_payload := payload,
                  e_payment := (case attribution of None \<Rightarrow> e_payment e | Some p \<Rightarrow> Some p),
                  e_next := Some (now + FIRST_ATTEMPT_GRACE_MS)\<rparr>) t)
             else if e_outcome e = None then (seen\<lparr>pw_deduplicated := False, pw_needsProcessing := True\<rparr>, t)
             else (seen, t))"

definition finalizeWebhookEvent :: "nat \<Rightarrow> string \<Rightarrow> nat option \<Rightarrow> webhook_event table \<Rightarrow> bool \<times> webhook_event table" where
  "finalizeWebhookEvent i outcome attribution t =
     (let open_event = (\<lambda>j e. j = i \<and> e_outcome e = None)
      in (length (t_select open_event t) = 1,
          t_update open_event (\<lambda>e. e\<lparr>e_outcome := Some outcome, e_next := None,
            e_payment := (case attribution of None \<Rightarrow> e_payment e | Some p \<Rightarrow> Some p)\<rparr>) t))"

definition deferWebhookEvent :: "int \<Rightarrow> nat \<Rightarrow> nat \<Rightarrow> webhook_event table \<Rightarrow> string option \<times> webhook_event table" where
  "deferWebhookEvent now i attemptCount t =
     (let attempts = attemptCount + 1
      in if attempts \<ge> MAX_ATTEMPTS
         then (Some ''deferred_exhausted'', snd (finalizeWebhookEvent i ''deferred_exhausted'' None t))
         else (None, t_update (\<lambda>j e. j = i \<and> e_outcome e = None)
                (\<lambda>e. e\<lparr>e_attempts := attempts, e_next := Some (now + int (backoffMinutes attempts) * 60000)\<rparr>) t))"

text \<open>The events the retry sweep picks up at a time.\<close>

definition due_events :: "int \<Rightarrow> webhook_event table \<Rightarrow> nat list" where
  "due_events now t = take 100 (map fst (t_select
     (\<lambda>_ e. e_verified e \<and> e_outcome e = None \<and> (case e_next e of None \<Rightarrow> False | Some n \<Rightarrow> n \<le> now)) t))"

section \<open>What a confirmed record says\<close>

lemma toSafeInteger_Some: "toSafeInteger v = Some n \<longleftrightarrow> v = Some n \<and> 0 \<le> n \<and> n \<le> 2 ^ 53 - 1"
  by (auto simp: toSafeInteger_def split: option.splits)

lemma success_reasons_none:
  "success_reasons r c cur = [] \<longleftrightarrow>
     (\<exists>x. g_currency r = Some x \<and> toUpperCase x = toUpperCase cur)
     \<and> (\<exists>paid. toSafeInteger (g_amount r) = Some paid \<and> (paid = c \<or> toSafeInteger (g_requested r) = Some c \<and> c \<le> paid))"
  by (auto simp: success_reasons_def Let_def split: option.splits)

text \<open>
  Money is recorded only against the provider's own record of at least that much money: a record is
  confirmed exactly when its status is success, it names no other reference, its currency is the payment's, and the
  amount collected is the payment's amount, or is at least that with exactly that amount requested; so a confirmed
  payment never records more than was collected.
\<close>

theorem gateway_record_confirmed:
  "(fst (classifyGatewayRecord r reference cents cur) = Confirmed \<longleftrightarrow>
      (\<exists>s. g_status r = Some s \<and> toLowerCase s = ''success'')
      \<and> g_reference r \<in> {None, Some reference}
      \<and> (\<exists>x. g_currency r = Some x \<and> toUpperCase x = toUpperCase cur)
      \<and> (\<exists>paid. toSafeInteger (g_amount r) = Some paid
            \<and> (paid = cents \<or> toSafeInteger (g_requested r) = Some cents \<and> cents \<le> paid)))
   \<and> (fst (classifyGatewayRecord r reference cents cur) = Confirmed \<longrightarrow> (\<exists>paid. g_amount r = Some paid \<and> cents \<le> paid))
   \<and> (snd (classifyGatewayRecord r reference cents cur) = [] \<longleftrightarrow> fst (classifyGatewayRecord r reference cents cur) \<noteq> Mismatch)"
proof -
  have s: "(case g_status r of None \<Rightarrow> [] | Some s \<Rightarrow> s) \<noteq> [] \<or> toLowerCase (case g_status r of None \<Rightarrow> [] | Some s \<Rightarrow> s) = []"
    by (auto simp: toLowerCase_def)
  have w: "reference_reasons r reference = [] \<longleftrightarrow> g_reference r \<in> {None, Some reference}"
    by (auto simp: reference_reasons_def split: option.splits)
  have st: "toLowerCase (case g_status r of None \<Rightarrow> [] | Some s \<Rightarrow> s) = ''success''
      \<longleftrightarrow> (\<exists>s. g_status r = Some s \<and> toLowerCase s = ''success'')"
    by (cases "g_status r") (auto simp: toLowerCase_def)
  have 1: "fst (classifyGatewayRecord r reference cents cur) = Confirmed \<longleftrightarrow>
      (\<exists>s. g_status r = Some s \<and> toLowerCase s = ''success'') \<and> reference_reasons r reference = [] \<and> success_reasons r cents cur = []"
    unfolding classifyGatewayRecord_def Let_def st by auto
  have 2: "snd (classifyGatewayRecord r reference cents cur) = [] \<longleftrightarrow> fst (classifyGatewayRecord r reference cents cur) \<noteq> Mismatch"
    by (simp add: classifyGatewayRecord_def Let_def)
  show ?thesis unfolding 1 2 w success_reasons_none by (auto simp: toSafeInteger_Some)
qed

text \<open>A record confirms 25.00 when the guest bore a fee of 0.38, and does not when it collected a kobo less.\<close>

theorem gateway_record_confirmed_witness:
  "fst (classifyGatewayRecord \<lparr>g_status = Some ''success'', g_reference = Some ''r1'', g_amount = Some 2538,
      g_requested = Some 2500, g_currency = Some ''ngn'', g_payment = None, g_channel = None\<rparr> ''r1'' 2500 ''NGN'') = Confirmed
   \<and> fst (classifyGatewayRecord \<lparr>g_status = Some ''success'', g_reference = Some ''r1'', g_amount = Some 2499,
      g_requested = Some 2500, g_currency = Some ''ngn'', g_payment = None, g_channel = None\<rparr> ''r1'' 2500 ''NGN'') \<noteq> Confirmed"
proof -
  let ?r = "\<lambda>a. \<lparr>g_status = Some ''success'', g_reference = Some ''r1'', g_amount = Some a,
      g_requested = Some 2500, g_currency = Some ''ngn'', g_payment = None, g_channel = None\<rparr> :: gateway_record"
  have s: "toLowerCase ''success'' = ''success''" "toUpperCase ''ngn'' = toUpperCase ''NGN''" by code_simp+
  have "fst (classifyGatewayRecord (?r 2538) ''r1'' 2500 ''NGN'') = Confirmed"
    using gateway_record_confirmed [of "?r 2538" "''r1''" 2500 "''NGN''"] s by (simp add: toSafeInteger_def)
  moreover have "fst (classifyGatewayRecord (?r 2499) ''r1'' 2500 ''NGN'') \<noteq> Confirmed"
    using gateway_record_confirmed [of "?r 2499" "''r1''" 2500 "''NGN''"] by auto
  ultimately show ?thesis by simp
qed

section \<open>The life of an event\<close>

definition event_key_unique :: "webhook_event table \<Rightarrow> bool" where
  "event_key_unique t \<longleftrightarrow> t_wf t \<and> (\<forall>i j e f. t_get t i = Some e \<longrightarrow> t_get t j = Some f \<longrightarrow>
     e_provider e = e_provider f \<longrightarrow> e_key e = e_key f \<longrightarrow> i = j)"

definition outcome_of :: "webhook_event table \<Rightarrow> nat \<Rightarrow> string option" where
  "outcome_of t i = Option.bind (t_get t i) e_outcome"

text \<open>One delivery, decision or deferral; an event is only decided or deferred with the attempt count its row shows.\<close>

inductive event_step :: "webhook_event table \<Rightarrow> webhook_event table \<Rightarrow> bool" where
  delivered: "event_step t (snd (persistWebhookEvent now provider key payload signed attribution t))"
| decided_as: "event_step t (snd (finalizeWebhookEvent i outcome attribution t))"
| deferred: "event_step t (snd (deferWebhookEvent now i n t))"

lemma event_stepE:
  assumes "event_step t t'"
  obtains now provider key payload signed attribution where "t' = snd (persistWebhookEvent now provider key payload signed attribution t)"
    | i outcome attribution where "t' = snd (finalizeWebhookEvent i outcome attribution t)"
    | now i n where "t' = snd (deferWebhookEvent now i n t)"
  using assms by (cases rule: event_step.cases) blast+

lemma t_get_where:
  "t_get (t_update (\<lambda>j e. j = i \<and> P e) f t) k = (if k = i then map_option (\<lambda>e. if P e then f e else e) (t_get t k) else t_get t k)"
  by (cases "t_get t k") (auto simp: t_get_update)

lemma finalize_get:
  "t_get (snd (finalizeWebhookEvent i outcome at t)) k =
     (if k = i then map_option (\<lambda>e. if e_outcome e = None then e\<lparr>e_outcome := Some outcome, e_next := None,
        e_payment := (case at of None \<Rightarrow> e_payment e | Some p \<Rightarrow> Some p)\<rparr> else e) (t_get t k) else t_get t k)"
  by (simp add: finalizeWebhookEvent_def Let_def t_get_where)

lemma defer_get:
  "Suc n < MAX_ATTEMPTS \<Longrightarrow> t_get (snd (deferWebhookEvent now i n t)) k =
     (if k = i then map_option (\<lambda>e. if e_outcome e = None then e\<lparr>e_attempts := Suc n,
        e_next := Some (now + int (backoffMinutes (Suc n)) * 60000)\<rparr> else e) (t_get t k) else t_get t k)"
  "\<not> Suc n < MAX_ATTEMPTS \<Longrightarrow> snd (deferWebhookEvent now i n t) = snd (finalizeWebhookEvent i ''deferred_exhausted'' None t)"
  by (simp_all add: deferWebhookEvent_def Let_def t_get_where)

lemma finalize_row:
  "t_get t k = Some e \<Longrightarrow> t_get (snd (finalizeWebhookEvent i outcome at t)) k =
     Some (if k = i \<and> e_outcome e = None then e\<lparr>e_outcome := Some outcome, e_next := None,
        e_payment := (case at of None \<Rightarrow> e_payment e | Some p \<Rightarrow> Some p)\<rparr> else e)"
  by (auto simp: finalize_get)

lemma defer_row:
  "Suc n < MAX_ATTEMPTS \<Longrightarrow> t_get t k = Some e \<Longrightarrow> t_get (snd (deferWebhookEvent now i n t)) k =
     Some (if k = i \<and> e_outcome e = None then e\<lparr>e_attempts := Suc n,
        e_next := Some (now + int (backoffMinutes (Suc n)) * 60000)\<rparr> else e)"
  by (auto simp: defer_get)

lemma finalize_keeps: "outcome_of t k = Some v \<Longrightarrow> outcome_of (snd (finalizeWebhookEvent i oc at t)) k = Some v"
  by (cases "t_get t k") (auto simp: outcome_of_def finalize_get)

lemma defer_keeps: "outcome_of t k = Some v \<Longrightarrow> outcome_of (snd (deferWebhookEvent now i n t)) k = Some v"
proof (cases "Suc n < MAX_ATTEMPTS")
  case True
  then show "outcome_of t k = Some v \<Longrightarrow> outcome_of (snd (deferWebhookEvent now i n t)) k = Some v"
    by (cases "t_get t k") (auto simp: outcome_of_def defer_get(1))
qed (simp add: defer_get(2) finalize_keeps)

lemma persist_keeps:
  assumes "t_wf t" "outcome_of t k = Some v"
  shows "outcome_of (snd (persistWebhookEvent now p key pl s at t)) k = Some v"
proof (cases "t_first (\<lambda>_ e. e_provider e = p \<and> e_key e = key) t")
  case None
  then show ?thesis using assms t_get_lt [of t k]
    by (auto simp: persistWebhookEvent_def outcome_of_def t_get_insert split: bind_splits)
next
  case (Some x)
  obtain i e where x: "x = (i, e)" by (cases x)
  then show ?thesis using assms Some
    by (cases "t_get t k") (auto simp: persistWebhookEvent_def outcome_of_def Let_def t_get_update_id)
qed

lemma event_step_wf: "event_step t t' \<Longrightarrow> t_wf t \<Longrightarrow> t_wf t'"
  by (auto elim!: event_stepE simp: persistWebhookEvent_def finalizeWebhookEvent_def deferWebhookEvent_def Let_def split: option.splits)

interpretation decision: write_once "\<lambda>t t'. event_step t t' \<and> t_wf t" outcome_of
  by unfold_locales (auto elim!: event_stepE intro: persist_keeps finalize_keeps defer_keeps)


lemma event_steps_wf:
  assumes "event_step\<^sup>*\<^sup>* t t'" "t_wf t"
  shows "(\<lambda>t t'. event_step t t' \<and> t_wf t)\<^sup>*\<^sup>* t t' \<and> t_wf t'"
  using assms
proof (induction rule: rtranclp_induct)
  case (step y z)
  then have "event_step y z \<and> t_wf y" by blast
  then show ?case using step rtranclp.rtrancl_into_rtrancl [of "\<lambda>t t'. event_step t t' \<and> t_wf t" t y z] event_step_wf by blast
qed simp

text \<open>What a step does to a row that is already there: its key stays, a signature is never lost.\<close>

lemma event_step_row:
  assumes "event_step t t'" "t_wf t" "t_get t k = Some e"
  shows "\<exists>e'. t_get t' k = Some e' \<and> e_provider e' = e_provider e \<and> e_key e' = e_key e \<and> (e_verified e \<longrightarrow> e_verified e')"
  using assms(1)
proof (cases rule: event_stepE)
  case (1 now provider key payload signed attribution)
  then show ?thesis using assms(2,3) t_get_lt [of t k e]
    by (auto simp: persistWebhookEvent_def Let_def t_get_insert t_get_update_id split: option.splits)
next
  case (2 i outcome attribution)
  then show ?thesis using assms by (simp add: finalize_row)
next
  case (3 now i n)
  then show ?thesis using assms
    by (cases "Suc n < MAX_ATTEMPTS") (simp_all add: defer_row defer_get(2) finalize_row)
qed

lemma event_steps_row:
  assumes "event_step\<^sup>*\<^sup>* t t'" "t_wf t" "t_get t k = Some e"
  shows "\<exists>e'. t_get t' k = Some e' \<and> e_provider e' = e_provider e \<and> e_key e' = e_key e \<and> (e_verified e \<longrightarrow> e_verified e')"
  using assms
proof (induction rule: rtranclp_induct)
  case (step y z)
  then obtain e' where e': "t_get y k = Some e'" "e_provider e' = e_provider e" "e_key e' = e_key e" "e_verified e \<longrightarrow> e_verified e'"
    by blast
  have "t_wf y" using event_steps_wf [OF step.hyps(1) step.prems(1)] by blast
  from event_step_row [OF step.hyps(2) this e'(1)] e' show ?case by auto
qed simp

lemma event_step_new_key:
  assumes "event_step t t'" "t_wf t" "t_get t k = None" "t_get t' k = Some e"
  shows "t_first (\<lambda>_ f. e_provider f = e_provider e \<and> e_key f = e_key e) t = None \<and> k = next_id t"
  using assms(1)
proof (cases rule: event_stepE)
  case (1 now provider key payload signed attribution)
  then show ?thesis using assms(2-4)
    by (cases "t_first (\<lambda>_ f. e_provider f = provider \<and> e_key f = key) t")
      (auto simp: persistWebhookEvent_def Let_def t_get_insert t_get_update_id split: if_splits)
next
  case (2 i outcome attribution)
  then show ?thesis using assms by (auto simp: finalize_get split: if_splits)
next
  case (3 now i n)
  then show ?thesis using assms
    by (cases "Suc n < MAX_ATTEMPTS") (auto simp: defer_get finalize_get split: if_splits)
qed

lemma event_step_unique: "event_step t t' \<Longrightarrow> event_key_unique t \<Longrightarrow> event_key_unique t'"
proof -
  assume st: "event_step t t'" and u: "event_key_unique t"
  then have wf: "t_wf t" "t_wf t'" using event_step_wf by (auto simp: event_key_unique_def)
  have "i = j" if g: "t_get t' i = Some e" "t_get t' j = Some f" "e_provider e = e_provider f" "e_key e = e_key f" for i j e f
  proof (cases "t_get t i"; cases "t_get t j")
    fix a b assume ab: "t_get t i = Some a" "t_get t j = Some b"
    from event_step_row [OF st wf(1) ab(1)] event_step_row [OF st wf(1) ab(2)] g
    have "e_provider a = e_provider b" "e_key a = e_key b" by auto
    then show ?thesis using u ab unfolding event_key_unique_def by blast
  next
    fix b assume ab: "t_get t i = None" "t_get t j = Some b"
    from event_step_row [OF st wf(1) ab(2)] g have "e_provider b = e_provider e" "e_key b = e_key e" by auto
    moreover from event_step_new_key [OF st wf(1) ab(1) g(1)]
    have "t_first (\<lambda>_ f. e_provider f = e_provider e \<and> e_key f = e_key e) t = None" by blast
    ultimately show ?thesis using t_first_NoneD [OF wf(1) _ ab(2)] by blast
  next
    fix a assume ab: "t_get t i = Some a" "t_get t j = None"
    from event_step_row [OF st wf(1) ab(1)] g have "e_provider a = e_provider f" "e_key a = e_key f" by auto
    moreover from event_step_new_key [OF st wf(1) ab(2) g(2)]
    have "t_first (\<lambda>_ h. e_provider h = e_provider f \<and> e_key h = e_key f) t = None" by blast
    ultimately show ?thesis using t_first_NoneD [OF wf(1) _ ab(1)] by blast
  next
    assume ab: "t_get t i = None" "t_get t j = None"
    then show ?thesis using event_step_new_key [OF st wf(1) ab(1) g(1)] event_step_new_key [OF st wf(1) ab(2) g(2)] by simp
  qed
  then show "event_key_unique t'" using wf(2) unfolding event_key_unique_def by blast
qed

lemma event_steps_unique: "event_step\<^sup>*\<^sup>* t t' \<Longrightarrow> event_key_unique t \<Longrightarrow> event_key_unique t'"
  by (induction rule: rtranclp_induct) (auto intro: event_step_unique)

text \<open>
  C31: A webhook event is recorded once and decided once: over any sequence of deliveries, decisions and
  deferrals there is one row per provider and event id, a row keeps its identity, its signature and its outcome once it
  has one, and an unsigned delivery changes no row that was already there.
\<close>

theorem webhook_decided_once:
  assumes "event_key_unique t" "event_step\<^sup>*\<^sup>* t t'" "t_get t k = Some e"
  shows "event_key_unique t'
    \<and> (\<exists>e'. t_get t' k = Some e' \<and> e_provider e' = e_provider e \<and> e_key e' = e_key e
          \<and> (e_verified e \<longrightarrow> e_verified e') \<and> (\<forall>v. e_outcome e = Some v \<longrightarrow> e_outcome e' = Some v))
    \<and> t_get (snd (persistWebhookEvent now provider key payload False attribution t)) k = Some e"
proof -
  have wf: "t_wf t" using assms(1) by (simp add: event_key_unique_def)
  from event_steps_row [OF assms(2) wf assms(3)] obtain e' where
    e': "t_get t' k = Some e'" "e_provider e' = e_provider e" "e_key e' = e_key e" "e_verified e \<longrightarrow> e_verified e'" by blast
  have "e_outcome e' = Some v" if "e_outcome e = Some v" for v
    using decision.kept [of t t' k v] event_steps_wf [OF assms(2) wf] assms(3) e'(1) that by (simp add: outcome_of_def)
  moreover have "t_get (snd (persistWebhookEvent now provider key payload False attribution t)) k = Some e"
    using wf assms(3) t_get_lt [OF wf assms(3)]
    by (auto simp: persistWebhookEvent_def Let_def t_get_insert split: option.splits)
  ultimately show ?thesis using e' event_steps_unique [OF assms(2,1)] by blast
qed


text \<open>A forged delivery arrives first; the signed one upgrades its row, is decided, and a late retry changes nothing.\<close>

theorem webhook_decided_once_witness:
  "\<exists>t t'. event_step\<^sup>*\<^sup>* t t' \<and> outcome_of t 1 = Some ''applied'' \<and> outcome_of t' 1 = Some ''applied'' \<and> event_key_unique t'"
proof -
  let ?t0 = "t_empty :: webhook_event table"
  let ?t1 = "snd (persistWebhookEvent 0 ''paystack'' ''77'' ''forged'' False None ?t0)"
  let ?t2 = "snd (persistWebhookEvent 5 ''paystack'' ''77'' ''genuine'' True (Some 9) ?t1)"
  let ?t3 = "snd (finalizeWebhookEvent 1 ''applied'' (Some 9) ?t2)"
  let ?t4 = "snd (deferWebhookEvent 9 1 11 ?t3)"
  have "event_key_unique ?t0" by (simp add: event_key_unique_def)
  moreover have "event_step\<^sup>*\<^sup>* ?t0 ?t3"
    by (meson event_step.intros rtranclp.rtrancl_into_rtrancl rtranclp.rtrancl_refl)
  ultimately have u: "event_key_unique ?t3" using event_steps_unique by blast
  define e where "e = \<lparr>e_provider = ''paystack'', e_key = ''77'', e_payload = ''genuine'', e_verified = True,
    e_payment = Some 9, e_outcome = Some ''applied'', e_attempts = 0, e_next = None\<rparr>"
  have e: "t_get ?t3 1 = Some e" unfolding e_def by code_simp
  have st: "event_step\<^sup>*\<^sup>* ?t3 ?t4" by (intro r_into_rtranclp event_step.deferred)
  have oe: "e_outcome e = Some ''applied''" by (simp add: e_def)
  note w = webhook_decided_once [OF u st e]
  then have "event_key_unique ?t4" by blast
  moreover obtain e' where "t_get ?t4 1 = Some e'" "\<forall>v. e_outcome e = Some v \<longrightarrow> e_outcome e' = Some v" using w by blast
  then have "outcome_of ?t4 1 = Some ''applied''" unfolding outcome_of_def using oe by (simp only: bind.simps)
  moreover have "outcome_of ?t3 1 = Some ''applied''" using e by (simp add: outcome_of_def e_def)
  ultimately show ?thesis using st by blast
qed

section \<open>Retries end\<close>

text \<open>One failed attempt of the sweep: the event is deferred with the attempt count its row shows.\<close>

definition failed_attempt :: "nat \<Rightarrow> int \<Rightarrow> webhook_event table \<Rightarrow> webhook_event table" where
  "failed_attempt i now t = (case t_get t i of None \<Rightarrow> t | Some e \<Rightarrow> snd (deferWebhookEvent now i (e_attempts e) t))"

lemma failed_attempt_step:
  assumes "t_get t i = Some e" "e_outcome e = None"
  shows "t_get (failed_attempt i now t) i =
     Some (if Suc (e_attempts e) < MAX_ATTEMPTS
        then e\<lparr>e_attempts := Suc (e_attempts e), e_next := Some (now + int (backoffMinutes (Suc (e_attempts e))) * 60000)\<rparr>
        else e\<lparr>e_outcome := Some ''deferred_exhausted'', e_next := None\<rparr>)"
  using assms by (auto simp: failed_attempt_def defer_get finalize_get)

lemma failed_attempts:
  assumes "t_get t i = Some e" "e_outcome e = None" "e_attempts e + length nows < MAX_ATTEMPTS"
  shows "\<exists>e'. t_get (foldl (\<lambda>t now. failed_attempt i now t) t nows) i = Some e' \<and> e_outcome e' = None
    \<and> e_attempts e' = e_attempts e + length nows"
  using assms
proof (induction nows arbitrary: t e)
  case (Cons now nows)
  have "Suc (e_attempts e) < MAX_ATTEMPTS" using Cons.prems(3) by simp
  then have "t_get (failed_attempt i now t) i =
      Some (e\<lparr>e_attempts := Suc (e_attempts e), e_next := Some (now + int (backoffMinutes (Suc (e_attempts e))) * 60000)\<rparr>)"
    using failed_attempt_step [OF Cons.prems(1,2), of now] by simp
  from Cons.IH [OF this] Cons.prems(2,3) show ?case by simp
qed simp

text \<open>
  C36: Retrying a webhook event ends: an undecided event with a attempts is still undecided and waits at most thirty
  minutes after each of the next failed attempts while there are fewer than 12 in all; the attempt that brings
  the count to 12 gives it up for good, after which the sweep no longer sees it.
\<close>

theorem webhook_retries_end:
  assumes "t_wf t" "t_get t i = Some e" "e_outcome e = None" "e_attempts e + length nows + 1 = 12"
  shows "(\<exists>e'. t_get (foldl (\<lambda>t now. failed_attempt i now t) t nows) i = Some e' \<and> e_outcome e' = None)
    \<and> outcome_of (failed_attempt i now (foldl (\<lambda>t now. failed_attempt i now t) t nows)) i = Some ''deferred_exhausted''
    \<and> i \<notin> set (due_events later (failed_attempt i now (foldl (\<lambda>t now. failed_attempt i now t) t nows)))
    \<and> backoffMinutes n \<le> 30"
proof -
  let ?t = "foldl (\<lambda>t now. failed_attempt i now t) t nows"
  have m: "MAX_ATTEMPTS = 12" by (simp add: MAX_ATTEMPTS_def)
  obtain e' where e': "t_get ?t i = Some e'" "e_outcome e' = None" "e_attempts e' = e_attempts e + length nows"
    using failed_attempts [OF assms(2,3), of nows] assms(4) m by auto
  have f: "t_get (failed_attempt i now ?t) i = Some (e'\<lparr>e_outcome := Some ''deferred_exhausted'', e_next := None\<rparr>)"
    using failed_attempt_step [OF e'(1,2), of now] e'(3) assms(4) m by simp
  have wf1: "t_wf s \<Longrightarrow> t_wf (failed_attempt j x s)" for j x s
    by (auto simp: failed_attempt_def split: option.splits intro: event_step_wf [OF event_step.deferred])
  have "t_wf s \<Longrightarrow> t_wf (foldl (\<lambda>t now. failed_attempt i now t) s xs)" for s xs
    by (induction xs arbitrary: s) (auto intro: wf1)
  then have "t_wf (failed_attempt i now ?t)" using assms(1) wf1 by blast
  then have "i \<notin> set (due_events later (failed_attempt i now ?t))"
    using f by (auto simp: due_events_def t_select_set dest!: in_set_takeD)
  then show ?thesis using e' f by (auto simp: outcome_of_def backoffMinutes_def)
qed

definition tired_event :: webhook_event where
  "tired_event = \<lparr>e_provider = ''paystack'', e_key = ''77'', e_payload = [], e_verified = True, e_payment = None,
     e_outcome = None, e_attempts = 10, e_next = Some 0\<rparr>"

theorem webhook_retries_end_witness:
  "outcome_of (failed_attempt 1 2 (failed_attempt 1 1 (t_insert tired_event t_empty))) 1 = Some ''deferred_exhausted''"
proof -
  have "t_get (t_insert tired_event t_empty) 1 = Some tired_event" by (simp add: t_get_def t_insert_def t_empty_def)
  from webhook_retries_end [OF _ this, of "[1]" 2 0 0] show ?thesis by (simp add: tired_event_def)
qed

end
