(* ===== verification/Payments.thy ===== *)
theory Payments
  imports LedgerFacts GatewayRecords
begin

text \<open>
  The payment life cycle of \<open>modules/cashiering/service.js\<close> from line 762: card payment intents, the checkout, the
  application of a gateway result, refunds in their three transactions, the reconciliation of refunds whose outcome was
  never learned, and clearing one that is stuck. The provider (\<open>paystack-adapter.js\<close> speaks HTTP to it) is the
  parameter \<open>gateway\<close>: its answers are arbitrary functions, and a failed call is a \<open>gateway_error\<close>. What POS and
  supermarket code does inside a payment's transaction is the parameter \<open>pos_hooks\<close>. Outbox events, notifications and
  audit rows have no counterpart; a ULID is an argument. Times are milliseconds.
\<close>

section \<open>Statuses\<close>

definition status_name :: "payment_status \<Rightarrow> string" where
  "status_name s = (case s of INITIATED \<Rightarrow> ''INITIATED'' | PENDING \<Rightarrow> ''PENDING'' | CAPTURED \<Rightarrow> ''CAPTURED''
     | FAILED \<Rightarrow> ''FAILED'' | EXPIRED \<Rightarrow> ''EXPIRED'' | VOIDED \<Rightarrow> ''VOIDED'' | REFUNDED \<Rightarrow> ''REFUNDED''
     | PARTIALLY_REFUNDED \<Rightarrow> ''PARTIALLY_REFUNDED'' | CANCELLED \<Rightarrow> ''CANCELLED'')"

definition terminal_status :: "payment_status \<Rightarrow> bool" where
  "terminal_status s \<longleftrightarrow> s \<in> set [CAPTURED, FAILED, EXPIRED, VOIDED, REFUNDED, PARTIALLY_REFUNDED, CANCELLED]"

definition in_flight :: "payment_status \<Rightarrow> bool" where
  "in_flight s \<longleftrightarrow> s = INITIATED \<or> s = PENDING"

definition reserving :: "payment_status \<Rightarrow> bool" where
  "reserving s \<longleftrightarrow> s = INITIATED \<or> s = PENDING \<or> s = CAPTURED"

definition resumable_target :: "string \<Rightarrow> bool" where
  "resumable_target t \<longleftrightarrow> t = ''pos_register'' \<or> t = ''supermarket_sale''"

definition is_pos_target :: "string \<Rightarrow> bool" where
  "is_pos_target t \<longleftrightarrow> t = ''pos_order'' \<or> t = ''pos_register''"

section \<open>Payment intents\<close>

definition REUSABLE_INTENT_MAX_AGE_MS :: int where "REUSABLE_INTENT_MAX_AGE_MS = 30 * 60 * 1000"

definition reusable_intent :: "int \<Rightarrow> nat \<Rightarrow> string \<Rightarrow> payment \<Rightarrow> bool" where
  "reusable_intent now fid currency p \<longleftrightarrow> p_folio p = Some fid \<and> p_provider p = ''paystack'' \<and> p_target p = ''folio''
     \<and> p_currency p = currency \<and> p_parent p = None \<and> in_flight (p_status p)
     \<and> p_created p > now - REUSABLE_INTENT_MAX_AGE_MS"

definition initiatePaystackPaymentIntent ::
    "string option \<Rightarrow> int \<Rightarrow> string \<Rightarrow> nat \<Rightarrow> js_value \<Rightarrow> string \<Rightarrow> string \<Rightarrow> bool \<Rightarrow> hotel \<Rightarrow> ((nat \<times> bool) \<times> hotel) result" where
  "initiatePaystackPaymentIntent env now ref fid amount currency key reuseOpen db =
     rbind (assertFolioOpenForPayment env fid amount currency db) (\<lambda>(f, cents).
     let open_intents = (if reuseOpen then rev (t_select (\<lambda>_. reusable_intent now fid currency) (payments db)) else [])
     in (case find (\<lambda>(i, p). p_amt p = cents) open_intents of
           Some (i, _) \<Rightarrow> Inr ((i, True), db)
         | None \<Rightarrow> rbind (insert_payment (payment_row fid ''paystack'' key ref cents currency INITIATED now) db)
                    (\<lambda>(i, db'). Inr ((i, False), db'))))"

definition order_payment :: "nat \<Rightarrow> string \<Rightarrow> string \<Rightarrow> string \<Rightarrow> int \<Rightarrow> string \<Rightarrow> int \<Rightarrow> payment" where
  "order_payment oid target key ref amount currency now = \<lparr>p_folio = None, p_order = Some oid, p_target = target,
     p_key = key, p_provider = ''paystack'', p_reference = ref, p_amt = amount, p_currency = currency,
     p_status = INITIATED, p_parent = None, p_provider_payment = None, p_access_code = None, p_subaccount = None,
     p_failure = None, p_created = now\<rparr>"

definition initiatePosOrderPaystackPaymentIntent ::
    "int \<Rightarrow> string \<Rightarrow> nat \<Rightarrow> int \<Rightarrow> string \<Rightarrow> string \<Rightarrow> hotel \<Rightarrow> (nat \<times> hotel) result" where
  "initiatePosOrderPaystackPaymentIntent now ref oid amount currency key db =
     (case t_get (orders db) oid of
        None \<Rightarrow> Inl (ValidationError ''ORDER_NOT_FOUND'')
      | Some ord \<Rightarrow> if po_status ord \<noteq> ''open'' then Inl (OrderNotOpenError oid (po_status ord))
          else insert_payment (order_payment oid ''pos_order'' key ref amount currency now) db)"

definition initiatePosRegisterPaymentIntent ::
    "int \<Rightarrow> string \<Rightarrow> nat \<Rightarrow> int \<Rightarrow> string \<Rightarrow> string \<Rightarrow> hotel \<Rightarrow> (nat \<times> hotel) result" where
  "initiatePosRegisterPaymentIntent now ref oid amount currency key db =
     insert_payment (order_payment oid ''pos_register'' key ref amount currency now) db"

text \<open>Which Paystack subaccount a payment is paid out to: the outlet's own, else the property's, else none.\<close>

definition outlet_payout :: "hotel \<Rightarrow> nat \<Rightarrow> (string \<times> string) option" where
  "outlet_payout db outlet = map_option (\<lambda>(_, a). (pa_code a, ''outlet''))
     (t_first (\<lambda>_ a. pa_owner a = outlet \<and> pa_active a) (outlet_payouts db))"

definition property_payout :: "hotel \<Rightarrow> (string \<times> string) option" where
  "property_payout db = map_option (\<lambda>(_, a). (pa_code a, ''property''))
     (t_first (\<lambda>_ a. pa_owner a = property_id db \<and> pa_active a) (property_payouts db))"

definition or_else :: "'a option \<Rightarrow> 'a option \<Rightarrow> 'a option" where
  "or_else x y = (case x of None \<Rightarrow> y | Some a \<Rightarrow> Some a)"

definition resolvePayoutSubaccount :: "hotel \<Rightarrow> nat \<Rightarrow> payment \<Rightarrow> (string \<times> string) option" where
  "resolvePayoutSubaccount db pid p =
     or_else (if p_target p = ''supermarket_sale''
              then Option.bind (t_first (\<lambda>_ s. si_payment s = pid) (sale_intents db)) (\<lambda>(_, s). outlet_payout db (si_outlet s))
              else None)
     (or_else (Option.bind (p_order p) (\<lambda>oid. Option.bind (t_get (orders db) oid) (\<lambda>ord. outlet_payout db (po_outlet ord))))
      (property_payout db))"

section \<open>The provider and the POS\<close>

record listed_refund =
  lr_id :: string
  lr_status :: string
  lr_amount :: int
  lr_created :: "int option"

record gateway =
  gw_configured :: "string \<Rightarrow> bool"
  gw_initialize :: "payment \<Rightarrow> string \<Rightarrow> gateway_error + (string \<times> string option)"
  gw_verify :: "string \<Rightarrow> gateway_error + gateway_record"
  gw_refund :: "string \<Rightarrow> int option \<Rightarrow> gateway_error + (string \<times> string option)"
  gw_fetch_refund :: "string \<Rightarrow> gateway_error + (string \<times> string)"
  gw_list_refunds :: "string \<Rightarrow> gateway_error + listed_refund list"

record pos_hooks =
  finalize_order :: "nat \<Rightarrow> payment \<Rightarrow> hotel \<Rightarrow> hotel result"
  complete_sale :: "(nat \<Rightarrow> payment \<Rightarrow> bool \<Rightarrow> hotel \<Rightarrow> hotel result) option"
  reverse_stock :: "nat \<Rightarrow> hotel \<Rightarrow> hotel result"
  restore_voucher :: "nat \<Rightarrow> hotel \<Rightarrow> hotel result"

section \<open>Checkout\<close>

text \<open>
  The second phase of a card payment. The adapter for a currency exists only where an integration is configured; the
  check of the callback address is the argument \<open>allowed\<close>.
\<close>

definition startPaystackCheckout ::
    "gateway \<Rightarrow> bool \<Rightarrow> bool \<Rightarrow> nat \<Rightarrow> hotel \<Rightarrow> ((string option \<times> string option) \<times> hotel) result" where
  "startPaystackCheckout gw allowed resume pid db =
     (case t_get (payments db) pid of
        None \<Rightarrow> Inl (ValidationError ''PAYMENT_NOT_FOUND'')
      | Some p \<Rightarrow>
        if p_status p \<noteq> INITIATED then
          (let resumable = (if (resumable_target (p_target p) \<or> resume) \<and> p_status p = PENDING then p_access_code p else None);
               url = (if resume \<and> given resumable then map_option (\<lambda>c. ''https://checkout.paystack.com/'' @ c) resumable else None)
           in Inr ((url, resumable), db))
        else if \<not> allowed then Inl (ValidationError ''INVALID_CALLBACK_URL'')
        else if \<not> gw_configured gw (p_currency p) then Inl PaymentGatewayNotConfiguredError
        else (case resolvePayoutSubaccount db pid p of
            None \<Rightarrow> Inl PropertyPayoutNotConfiguredError
          | Some (code, source) \<Rightarrow>
            (case gw_initialize gw p code of
               Inl e \<Rightarrow> Inl GatewayRequestError
             | Inr (url, accessCode) \<Rightarrow>
                 Inr ((Some url, accessCode), db\<lparr>payments := t_update (by_id pid)
                   (\<lambda>p. p\<lparr>p_status := PENDING, p_access_code := accessCode, p_subaccount := Some code\<rparr>) (payments db)\<rparr>))))"

section \<open>Applying a gateway result\<close>

text \<open>\<open>snap\<close> is the payment as the caller read it, which another caller may have changed since.\<close>

definition late_capture :: "payment \<Rightarrow> string \<Rightarrow> bool" where
  "late_capture snap gatewayStatus \<longleftrightarrow>
     resumable_target (p_target snap) \<and> p_status snap = CANCELLED \<and> gatewayStatus = ''success''"

definition claimable :: "nat \<Rightarrow> bool \<Rightarrow> nat \<Rightarrow> payment \<Rightarrow> bool" where
  "claimable pid late i p \<longleftrightarrow> i = pid \<and> \<not> (terminal_status (p_status p) \<and> \<not> (late \<and> p_status p = CANCELLED))"

definition late_reason :: "string \<Rightarrow> string" where
  "late_reason target = (if target = ''pos_register''
     then ''Captured after its Register checkout was cancelled; no settlement uses it, so it needs a refund.''
     else ''Captured after its supermarket checkout was cancelled; no sale uses it, so it needs a refund.'')"

definition post_gateway_line :: "nat \<Rightarrow> payment \<Rightarrow> hotel \<Rightarrow> hotel result" where
  "post_gateway_line pid snap db =
     (case p_folio snap of
        None \<Rightarrow> Inl TypeError
      | Some fid \<Rightarrow> rbind (lockFolio fid db) (\<lambda>found. case found of
          None \<Rightarrow> Inl TypeError
        | Some f \<Rightarrow> rbind (insert_line (business_date db)
            (payment_line fid ''Paystack payment'' ''paystack'' (p_amt snap) (p_currency snap) pid) db) (\<lambda>(_, db').
          Inr (recomputeFolioBalance fid db'))))"

definition applyGatewayResult ::
    "pos_hooks \<Rightarrow> nat \<Rightarrow> payment \<Rightarrow> string \<Rightarrow> string option \<Rightarrow> hotel \<Rightarrow> hotel result" where
  "applyGatewayResult h pid snap gatewayStatus providerId db =
     (let late = late_capture snap gatewayStatus;
          provider = or_else providerId (p_provider_payment snap)
      in if terminal_status (p_status snap) \<and> \<not> late then Inr db
         else if gatewayStatus = ''success'' then
           if t_select (claimable pid late) (payments db) = [] then Inr db
           else let db1 = db\<lparr>payments := t_update (claimable pid late)
                      (\<lambda>p. p\<lparr>p_status := CAPTURED, p_provider_payment := provider,
                        p_failure := (if late then Some (late_reason (p_target snap)) else p_failure p)\<rparr>) (payments db)\<rparr>;
                    now_snap = snap\<lparr>p_provider_payment := provider\<rparr>
                in if p_target snap = ''pos_order'' then finalize_order h pid now_snap db1
                   else if p_target snap = ''pos_register'' then Inr db1
                   else if p_target snap = ''supermarket_sale'' then
                     (case complete_sale h of None \<Rightarrow> Inl PlainError
                      | Some f \<Rightarrow> f pid (now_snap\<lparr>p_status := CAPTURED\<rparr>) late db1)
                   else post_gateway_line pid snap db1
         else Inr (db\<lparr>payments := t_update (\<lambda>i p. i = pid \<and> \<not> terminal_status (p_status p))
                (\<lambda>p. p\<lparr>p_status := FAILED, p_failure := Some (''Gateway reported status '' @ [CHR 0x22] @ gatewayStatus @ [CHR 0x22, CHR 0x2E]),
                  p_provider_payment := provider\<rparr>) (payments db)\<rparr>))"

definition closePaymentUnknownToGateway :: "nat \<Rightarrow> hotel \<Rightarrow> hotel" where
  "closePaymentUnknownToGateway pid db = db\<lparr>payments := t_update (\<lambda>i p. i = pid \<and> in_flight (p_status p))
     (\<lambda>p. p\<lparr>p_status := CANCELLED, p_failure := Some ''Paystack has no record of this payment.''\<rparr>) (payments db)\<rparr>"

text \<open>\<open>days\<close> is the whole number in \<open>PAYMENT_RECORD_NOT_FOUND_MIN_AGE_DAYS\<close>, \<open>None\<close> when it holds no number.\<close>

definition recordNotFoundMinAgeMs :: "int option \<Rightarrow> int" where
  "recordNotFoundMinAgeMs days = (case days of None \<Rightarrow> 7 | Some d \<Rightarrow> if d > 0 then d else 7) * 24 * 60 * 60 * 1000"

definition isOlderThanRecordNotFoundAge :: "int option \<Rightarrow> int \<Rightarrow> int \<Rightarrow> bool" where
  "isOlderThanRecordNotFoundAge days now created \<longleftrightarrow> now - created \<ge> recordNotFoundMinAgeMs days"

definition verifyPayment ::
    "pos_hooks \<Rightarrow> gateway \<Rightarrow> int option \<Rightarrow> int \<Rightarrow> nat \<Rightarrow> hotel \<Rightarrow> hotel result" where
  "verifyPayment h gw days now pid db =
     (case t_get (payments db) pid of
        None \<Rightarrow> Inl (ValidationError ''PAYMENT_NOT_FOUND'')
      | Some p \<Rightarrow>
        if p_provider p \<noteq> ''paystack'' then Inl (ValidationError ''NOT_A_GATEWAY_PAYMENT'')
        else if terminal_status (p_status p) then Inr db
        else if \<not> gw_configured gw (p_currency p) then Inl PaymentGatewayNotConfiguredError
        else (case gw_verify gw (p_reference p) of
            Inl e \<Rightarrow>
              if interpretGatewayError e = ''record_not_found'' \<and> isOlderThanRecordNotFoundAge days now (p_created p)
              then Inr (closePaymentUnknownToGateway pid db) else Inl GatewayRequestError
          | Inr r \<Rightarrow>
              if fst (classifyGatewayRecord r (p_reference p) (p_amt p) (p_currency p)) = Mismatch
              then Inl (PaymentGatewayRecordMismatchError pid)
              else if resumable_target (p_target p) \<and> g_status r \<noteq> Some ''success'' \<and> g_status r \<noteq> Some ''failed'' then Inr db
              else applyGatewayResult h pid p (if g_status r = Some ''success'' then ''success'' else ''failed'') (g_payment r) db))"


section \<open>Refunds\<close>

definition refundedSoFar :: "hotel \<Rightarrow> nat \<Rightarrow> (payment_status \<Rightarrow> bool) \<Rightarrow> int" where
  "refundedSoFar db pid statuses = t_total (\<lambda>_ q. p_parent q = Some pid \<and> statuses (p_status q)) p_amt (payments db)"

definition lockRefundablePayment :: "nat \<Rightarrow> int option \<Rightarrow> hotel \<Rightarrow> (payment \<times> int) result" where
  "lockRefundablePayment pid supplied db =
     (case t_get (payments db) pid of
        None \<Rightarrow> Inl (ValidationError ''PAYMENT_NOT_FOUND'')
      | Some original \<Rightarrow>
        if p_status original \<noteq> CAPTURED \<and> p_status original \<noteq> PARTIALLY_REFUNDED
        then Inl (InvalidPaymentTransitionError (status_name (p_status original)) ''REFUNDED'')
        else let available = p_amt original + - refundedSoFar db pid reserving;
                 amount = (case supplied of None \<Rightarrow> available | Some a \<Rightarrow> a)
          in if available \<le> 0 \<or> amount > available then Inl (RefundExceedsCapturedAmountError pid amount available)
             else Inr (original, amount))"

definition gatewayRefusedDefinitively :: "gateway_error \<Rightarrow> bool" where
  "gatewayRefusedDefinitively e = (case ge_status e of None \<Rightarrow> False | Some s \<Rightarrow> 400 \<le> s \<and> s < 500 \<and> s \<noteq> 408)"

definition set_payment :: "nat \<Rightarrow> (payment \<Rightarrow> payment) \<Rightarrow> hotel \<Rightarrow> hotel" where
  "set_payment pid g db = db\<lparr>payments := t_update (by_id pid) g (payments db)\<rparr>"

definition flagRefundOutcomeUnknown :: "nat \<Rightarrow> string \<Rightarrow> hotel \<Rightarrow> hotel" where
  "flagRefundOutcomeUnknown iid message db = db\<lparr>payments := t_update (\<lambda>i p. i = iid \<and> in_flight (p_status p))
     (\<lambda>p. p\<lparr>p_status := PENDING,
        p_failure := Some (take 500 (''Outcome unknown, awaiting reconciliation with Paystack: '' @ message))\<rparr>) (payments db)\<rparr>"

definition ensureRefundReconciliation :: "nat \<Rightarrow> string option \<Rightarrow> hotel \<Rightarrow> nat \<times> hotel" where
  "ensureRefundReconciliation iid reason db =
     (case t_first (\<lambda>_ c. rc_payment c = iid) (refund_checks db) of
        Some (k, _) \<Rightarrow> (k, db)
      | None \<Rightarrow> (next_id (refund_checks db), db\<lparr>refund_checks := t_insert
          \<lparr>rc_payment = iid, rc_reason = (if given reason then map_option (take 500) reason else None), rc_attempts = 0,
           rc_result = None, rc_last = None, rc_date = None\<rparr> (refund_checks db)\<rparr>))"

definition stampRefundBusinessDate :: "nat \<Rightarrow> hotel \<Rightarrow> hotel" where
  "stampRefundBusinessDate iid db = (case business_date db of
     None \<Rightarrow> db
   | Some d \<Rightarrow> let (k, db1) = ensureRefundReconciliation iid None db
       in db1\<lparr>refund_checks := t_update (by_id k) (\<lambda>c. c\<lparr>rc_date := Some d\<rparr>) (refund_checks db1)\<rparr>)"

definition refund_line :: "nat \<Rightarrow> string \<Rightarrow> string \<Rightarrow> int \<Rightarrow> string \<Rightarrow> nat \<Rightarrow> date \<Rightarrow> folio_line" where
  "refund_line fid description method amount currency pid d = \<lparr>l_folio = fid, l_type = RefundLine,
     l_description = description, l_amount = amount, l_currency = currency, l_tax_amount = 0, l_method = Some method,
     l_payment = Some pid, l_business_date = d, l_related = None, l_voided = False, l_void_reason = None\<rparr>"

text \<open>Posting a refund on the folio of the payment it repays; both refund paths do this.\<close>

definition post_refund_line :: "nat option \<Rightarrow> string \<Rightarrow> string \<Rightarrow> int \<Rightarrow> string \<Rightarrow> nat \<Rightarrow> hotel \<Rightarrow> hotel result" where
  "post_refund_line fid description method amount currency pid db =
     (case fid of
        None \<Rightarrow> Inl TypeError
      | Some fid \<Rightarrow> rbind (lockFolio fid db) (\<lambda>found. case found of
          None \<Rightarrow> Inl TypeError
        | Some _ \<Rightarrow> rbind (insert_line (business_date db) (refund_line fid description method amount currency pid) db) (\<lambda>(_, db').
            Inr (recomputeFolioBalance fid db'))))"

definition void_settlement_of :: "pos_hooks \<Rightarrow> nat \<Rightarrow> settlement \<Rightarrow> string option \<Rightarrow> hotel \<Rightarrow> hotel result" where
  "void_settlement_of h sid s reason db =
     (if s_voided s then Inl (SettlementAlreadyVoidedError sid)
      else rbind (case s_tip_line s of None \<Rightarrow> Inr db | Some l \<Rightarrow> voidLineItem l reason db) (\<lambda>db1.
        rbind (reverse_stock h sid (db1\<lparr>settlements := t_update (by_id sid)
          (\<lambda>s. s\<lparr>s_voided := True, s_void_reason := reason\<rparr>) (settlements db1)\<rparr>)) (\<lambda>db2.
        restore_voucher h sid db2)))"

definition applyProcessedRefundEffects ::
    "pos_hooks \<Rightarrow> nat \<Rightarrow> payment \<Rightarrow> nat \<Rightarrow> payment \<Rightarrow> string option \<Rightarrow> hotel \<Rightarrow> hotel result" where
  "applyProcessedRefundEffects h iid intent oid original reason db =
     (let capturedTotal = refundedSoFar db oid (\<lambda>s. s = CAPTURED);
          fullyRefunded = (capturedTotal = p_amt original)
      in rbind
           (if is_pos_target (p_target intent) then
              (case t_first (\<lambda>_ s. s_payment s = Some oid) (settlements db) of
                 None \<Rightarrow> Inr db
               | Some (sid, s) \<Rightarrow> if fullyRefunded then void_settlement_of h sid s reason db else Inr db)
            else post_refund_line (p_folio original) (''Paystack refund of payment '' @ show_nat oid) ''paystack''
                   (p_amt intent) (p_currency original) iid db)
           (\<lambda>db1. Inr (set_payment oid (\<lambda>p. p\<lparr>p_status := (if fullyRefunded then REFUNDED else PARTIALLY_REFUNDED)\<rparr>) db1)))"

definition freed_key :: "string \<Rightarrow> nat \<Rightarrow> string" where
  "freed_key key iid = take 150 key @ ''~failed-'' @ show_nat iid"

datatype refund_outcome = Processed | RefundFailed | StillPending

text \<open>The one place a refund intent leaves its in-flight statuses.\<close>

definition settleRefundIntent ::
    "pos_hooks \<Rightarrow> nat \<Rightarrow> refund_outcome \<Rightarrow> string option \<Rightarrow> string option \<Rightarrow> string option \<Rightarrow> hotel \<Rightarrow> (bool \<times> hotel) result" where
  "settleRefundIntent h iid outcome refundId reason failureReason db =
     (case t_get (payments db) iid of
        None \<Rightarrow> Inr (False, db)
      | Some intent \<Rightarrow>
        (case Option.bind (p_parent intent) (\<lambda>oid. map_option (Pair oid) (t_get (payments db) oid)) of
           None \<Rightarrow> Inr (False, db)
         | Some (oid, original) \<Rightarrow>
           if \<not> in_flight (p_status intent) then Inr (False, db)
           else let provider = or_else refundId (p_provider_payment intent) in
             (case outcome of
                RefundFailed \<Rightarrow> Inr (True, set_payment iid (\<lambda>p. p\<lparr>p_status := FAILED,
                    p_failure := Some (take 500 (case failureReason of None \<Rightarrow> ''Paystack reported the refund failed.'' | Some r \<Rightarrow> r)),
                    p_provider_payment := provider, p_key := freed_key (p_key intent) iid\<rparr>) db)
              | Processed \<Rightarrow>
                  rbind (applyProcessedRefundEffects h iid intent oid original
                      (or_else reason (Some ''Refund confirmed by Paystack''))
                      (set_payment iid (\<lambda>p. p\<lparr>p_status := CAPTURED, p_provider_payment := provider, p_failure := None\<rparr>) db))
                    (\<lambda>db1. Inr (True, stampRefundBusinessDate iid db1))
              | StillPending \<Rightarrow> Inr (True, set_payment iid (\<lambda>p. p\<lparr>p_status := PENDING, p_provider_payment := provider\<rparr>) db))))"

text \<open>A refund handed back at the desk (cash or the card terminal): one transaction.\<close>

definition copy_terminal_detail :: "nat \<Rightarrow> nat \<Rightarrow> hotel \<Rightarrow> hotel" where
  "copy_terminal_detail oid rid db = (case t_first (\<lambda>_ d. td_payment d = oid) (terminal_details db) of
     None \<Rightarrow> db
   | Some (_, d) \<Rightarrow> db\<lparr>terminal_details := t_insert (d\<lparr>td_payment := rid\<rparr>) (terminal_details db)\<rparr>)"

definition desk_refund :: "payment \<Rightarrow> nat \<Rightarrow> int \<Rightarrow> string \<Rightarrow> string \<Rightarrow> int \<Rightarrow> payment" where
  "desk_refund original pid amount key ref now = \<lparr>p_folio = p_folio original, p_order = None, p_target = ''folio'', p_key = key,
     p_provider = p_provider original, p_reference = ref, p_amt = amount, p_currency = p_currency original,
     p_status = CAPTURED, p_parent = Some pid, p_provider_payment = None, p_access_code = None, p_subaccount = None,
     p_failure = None, p_created = now\<rparr>"

definition desk_refund_text :: "payment \<Rightarrow> nat \<Rightarrow> string" where
  "desk_refund_text original pid =
     (if p_provider original = ''terminal'' then ''Card (terminal) refund'' else ''Cash refund'') @ '' of payment '' @ show_nat pid"

definition refund_at_desk ::
    "(payment \<Rightarrow> unit result) \<Rightarrow> int \<Rightarrow> string \<Rightarrow> nat \<Rightarrow> int option \<Rightarrow> string \<Rightarrow> hotel \<Rightarrow> (nat \<times> hotel) result" where
  "refund_at_desk approve now ref pid supplied key db =
     rbind (lockRefundablePayment pid supplied db) (\<lambda>(original, amount).
     let alreadyRefunded = refundedSoFar db pid (\<lambda>s. s = CAPTURED)
     in rbind (approve original) (\<lambda>_.
        rbind (insert_payment (desk_refund original pid amount key ref now) db) (\<lambda>(rid, db1).
        rbind (post_refund_line (p_folio original) (desk_refund_text original pid) (p_provider original) amount
            (p_currency original) rid db1) (\<lambda>db2.
        let db3 = (if p_provider original = ''terminal'' then copy_terminal_detail pid rid db2 else db2);
            fullyRefunded = (alreadyRefunded + amount = p_amt original)
        in Inr (rid, set_payment pid (\<lambda>p. p\<lparr>p_status := (if fullyRefunded then REFUNDED else PARTIALLY_REFUNDED)\<rparr>) db3)))))"

text \<open>The first transaction of a gateway refund: the intent reserves its amount.\<close>

definition reserve_refund ::
    "(payment \<Rightarrow> unit result) \<Rightarrow> int \<Rightarrow> string \<Rightarrow> bool \<Rightarrow> nat \<Rightarrow> int option \<Rightarrow> string option \<Rightarrow> string \<Rightarrow> hotel
     \<Rightarrow> ((nat \<times> payment \<times> int) \<times> hotel) result" where
  "reserve_refund approve now ref posTarget pid supplied reason key db =
     rbind (lockRefundablePayment pid supplied db) (\<lambda>(original, amount).
     rbind (approve original) (\<lambda>_.
     rbind (insert_payment \<lparr>p_folio = (if posTarget then None else p_folio original),
         p_order = (if posTarget then p_order original else None),
         p_target = (if posTarget then p_target original else ''folio''), p_key = key, p_provider = ''paystack'',
         p_reference = ref, p_amt = amount, p_currency = p_currency original, p_status = INITIATED, p_parent = Some pid,
         p_provider_payment = None, p_access_code = None, p_subaccount = None, p_failure = None, p_created = now\<rparr> db)
       (\<lambda>(iid, db1). Inr ((iid, original, amount), snd (ensureRefundReconciliation iid reason db1)))))"

definition refund_refused :: "nat \<Rightarrow> string \<Rightarrow> string \<Rightarrow> hotel \<Rightarrow> hotel" where
  "refund_refused iid message key db = db\<lparr>payments := t_update (\<lambda>i p. i = iid \<and> in_flight (p_status p))
     (\<lambda>p. p\<lparr>p_status := FAILED, p_failure := Some (take 500 (''Paystack refused the refund: '' @ message)), p_key := freed_key key iid\<rparr>) (payments db)\<rparr>"

definition supplied_amount :: "string option \<Rightarrow> js_value \<Rightarrow> int option result" where
  "supplied_amount env amount =
     (if amount = JUndefined \<or> amount = JNull \<or> amount = JStr [] then Inr None
      else map_sum id (\<lambda>t. Some (cents_of t)) (assertPaymentAmount env amount))"

text \<open>
  The whole request. It returns the state as well as an error, because the reservation of a gateway refund is
  committed before the provider is asked. The text of an error of the backend's own, which the flag would quote, is not
  modelled.
\<close>

definition refundPayment ::
    "pos_hooks \<Rightarrow> gateway \<Rightarrow> string option \<Rightarrow> (payment \<Rightarrow> unit result) \<Rightarrow> int \<Rightarrow> string \<Rightarrow> nat \<Rightarrow> js_value \<Rightarrow> string option \<Rightarrow> string
     \<Rightarrow> hotel \<Rightarrow> nat result \<times> hotel" where
  "refundPayment h gw env approve now ref pid amount reason key db =
     (if \<not> given reason then (Inl (ValidationFieldError ''MISSING_FIELD'' ''reason'' ''missing''), db)
      else case t_get (payments db) pid of
        None \<Rightarrow> (Inl (ValidationError ''PAYMENT_NOT_FOUND''), db)
      | Some peeked \<Rightarrow>
        if p_target peeked = ''supermarket_sale'' then (Inl (ValidationFieldError ''USE_SUPERMARKET_VOID'' ''payment_id'' ''supermarket_sale''), db)
        else if p_status peeked \<noteq> CAPTURED \<and> p_status peeked \<noteq> PARTIALLY_REFUNDED
        then (Inl (InvalidPaymentTransitionError (status_name (p_status peeked)) ''REFUNDED''), db)
        else (case supplied_amount env amount of
            Inl e \<Rightarrow> (Inl e, db)
          | Inr supplied \<Rightarrow>
            if p_provider peeked = ''cash'' \<or> p_provider peeked = ''terminal'' then
              (case refund_at_desk approve now ref pid supplied key db of
                 Inl e \<Rightarrow> (Inl e, db) | Inr (rid, db') \<Rightarrow> (Inr rid, db'))
            else if \<not> gw_configured gw (p_currency peeked) then (Inl PaymentGatewayNotConfiguredError, db)
            else (case reserve_refund approve now ref (is_pos_target (p_target peeked)) pid supplied reason key db of
                Inl e \<Rightarrow> (Inl e, db)
              | Inr ((iid, original, amt), db1) \<Rightarrow>
                (case gw_refund gw (p_reference original) (map_option (\<lambda>_. amt) supplied) of
                   Inl e \<Rightarrow> (Inl GatewayRequestError,
                       if gatewayRefusedDefinitively e then refund_refused iid (ge_message e) key db1
                       else flagRefundOutcomeUnknown iid (ge_message e) db1)
                 | Inr (st, refundId) \<Rightarrow>
                   (case settleRefundIntent h iid (if st = ''processed'' \<or> st = ''success'' then Processed else StillPending)
                        refundId reason None db1 of
                      Inl e \<Rightarrow> (Inl e, flagRefundOutcomeUnknown iid ''not recorded'' db1)
                    | Inr (_, db2) \<Rightarrow> (Inr iid, db2))))))"

end
