(* ===== verification/Reconcile.thy ===== *)
theory Reconcile
  imports Payments
begin

text \<open>
  Refunds whose outcome was never learned and webhook events, the rest of \<open>modules/cashiering/service.js\<close> and the
  refund sweep of \<open>jobs/payment-webhooks.js\<close>. \<open>reconcileRefundIntent\<close> asks the provider and settles the intent only on a
  clear answer; \<open>clearStuckRefund\<close> is a manager giving up on one; \<open>decidePaymentWebhookEvent\<close> turns a signed event into
  what the provider's own record says. \<open>JSON.parse\<close> of a stored body is the argument \<open>parse\<close> and the signature check
  the argument \<open>signed\<close>.
\<close>

section \<open>What the provider says of a refund\<close>

record refund_config =
  minAgeMinutes :: int
  clearMinChecks :: nat
  clearMinMinutes :: int

definition positiveIntEnv :: "int option \<Rightarrow> int \<Rightarrow> int" where
  "positiveIntEnv v fallback = (case v of None \<Rightarrow> fallback | Some n \<Rightarrow> if n > 0 then n else fallback)"

definition refundReconcileConfig :: "int option \<Rightarrow> int option \<Rightarrow> int option \<Rightarrow> refund_config" where
  "refundReconcileConfig age checks minutes = \<lparr>minAgeMinutes = positiveIntEnv age 5,
     clearMinChecks = nat (positiveIntEnv checks 3), clearMinMinutes = positiveIntEnv minutes 30\<rparr>"

definition classifyRefundStatus :: "string \<Rightarrow> refund_outcome option" where
  "classifyRefundStatus status =
     (let value = toLowerCase status
      in if value = ''processed'' \<or> value = ''success'' then Some Processed
         else if value = ''failed'' \<or> value = ''reversed'' then Some RefundFailed
         else if value = ''pending'' \<or> value = ''processing'' \<or> value = ''needs-attention'' then Some StillPending
         else None)"

definition isReconcilableRefund :: "payment \<Rightarrow> bool" where
  "isReconcilableRefund p \<longleftrightarrow> p_parent p \<noteq> None \<and> p_provider p = ''paystack'' \<and> in_flight (p_status p)
     \<and> p_target p \<noteq> ''supermarket_sale''"

datatype lookup = Answer refund_outcome "string option" | Unreachable | Ambiguous | NotFound

definition lookup_name :: "lookup \<Rightarrow> string" where
  "lookup_name l = (case l of Answer Processed _ \<Rightarrow> ''processed'' | Answer RefundFailed _ \<Rightarrow> ''failed''
     | Answer StillPending _ \<Rightarrow> ''pending'' | Unreachable \<Rightarrow> ''unreachable'' | Ambiguous \<Rightarrow> ''ambiguous'' | NotFound \<Rightarrow> ''not_found'')"

definition answer_of :: "string \<Rightarrow> string \<Rightarrow> lookup" where
  "answer_of status refundId = (case classifyRefundStatus status of None \<Rightarrow> Ambiguous | Some k \<Rightarrow> Answer k (Some refundId))"

definition claimed_refunds :: "hotel \<Rightarrow> nat \<Rightarrow> nat \<Rightarrow> string list" where
  "claimed_refunds db oid iid = List.map_filter (\<lambda>(i, p). p_provider_payment p)
     (t_select (\<lambda>i p. p_parent p = Some oid \<and> i \<noteq> iid) (payments db))"

definition refund_candidates :: "hotel \<Rightarrow> nat \<Rightarrow> nat \<Rightarrow> payment \<Rightarrow> listed_refund list \<Rightarrow> listed_refund list" where
  "refund_candidates db oid iid intent refunds = filter (\<lambda>r. lr_amount r = p_amt intent
     \<and> lr_id r \<notin> set (claimed_refunds db oid iid)
     \<and> (case lr_created r of None \<Rightarrow> True | Some c \<Rightarrow> c \<ge> p_created intent - 120000)) refunds"

definition rival_intents :: "hotel \<Rightarrow> nat \<Rightarrow> nat \<Rightarrow> payment \<Rightarrow> nat list" where
  "rival_intents db oid iid intent = filter (\<lambda>i. i \<noteq> iid) (map fst (t_select (\<lambda>_ p. p_parent p = Some oid
     \<and> p_provider p = ''paystack'' \<and> p_amt p = p_amt intent \<and> in_flight (p_status p) \<and> p_provider_payment p = None) (payments db)))"

definition lookUpRefundAtPaystack :: "gateway \<Rightarrow> nat \<Rightarrow> payment \<Rightarrow> nat \<Rightarrow> payment \<Rightarrow> hotel \<Rightarrow> lookup" where
  "lookUpRefundAtPaystack gw iid intent oid original db =
     (if \<not> gw_configured gw (p_currency intent) then Unreachable
      else if given (p_provider_payment intent) then
        (case gw_fetch_refund gw (case p_provider_payment intent of None \<Rightarrow> [] | Some r \<Rightarrow> r) of
           Inl _ \<Rightarrow> Unreachable | Inr (status, refundId) \<Rightarrow> answer_of status refundId)
      else if \<not> given (p_provider_payment original) then NotFound
      else (case gw_list_refunds gw (case p_provider_payment original of None \<Rightarrow> [] | Some r \<Rightarrow> r) of
          Inl _ \<Rightarrow> Unreachable
        | Inr refunds \<Rightarrow>
            let candidates = refund_candidates db oid iid intent refunds
            in if candidates = [] then NotFound
               else if length candidates \<noteq> 1 \<or> rival_intents db oid iid intent \<noteq> [] then Ambiguous
               else answer_of (lr_status (hd candidates)) (lr_id (hd candidates))))"

section \<open>Settling what was found\<close>

definition check_of :: "hotel \<Rightarrow> nat \<Rightarrow> refund_check option" where
  "check_of db iid = map_option snd (t_first (\<lambda>_ c. rc_payment c = iid) (refund_checks db))"

text \<open>\<open>None\<close> when a manager may clear the refund, else why not.\<close>

definition refundClearEligibility :: "refund_config \<Rightarrow> int \<Rightarrow> payment \<Rightarrow> refund_check option \<Rightarrow> string option" where
  "refundClearEligibility cfg now intent c =
     (if \<not> isReconcilableRefund intent then Some ''not_in_flight''
      else if (case c of None \<Rightarrow> 0 | Some c \<Rightarrow> rc_attempts c) < clearMinChecks cfg then Some ''not_enough_checks''
      else if now - p_created intent < clearMinMinutes cfg * 60000 then Some ''too_recent''
      else if Option.bind c rc_result \<notin> set (map Some [''unreachable'', ''ambiguous'', ''not_found'']) then Some ''paystack_reports_pending''
      else None)"

definition write_check :: "nat \<Rightarrow> (refund_check \<Rightarrow> refund_check) \<Rightarrow> hotel \<Rightarrow> hotel" where
  "write_check k g db = db\<lparr>refund_checks := t_update (by_id k) g (refund_checks db)\<rparr>"

definition settle_found :: "pos_hooks \<Rightarrow> nat \<Rightarrow> lookup \<Rightarrow> refund_check option \<Rightarrow> hotel \<Rightarrow> (bool \<times> hotel) result" where
  "settle_found h iid found c db =
     (case found of
        Answer kind refundId \<Rightarrow> settleRefundIntent h iid kind refundId
          (or_else (Option.bind c rc_reason) (Some ''Refund confirmed by Paystack (reconciliation)''))
          (Some ''Paystack reported the refund failed; the guest has not been repaid.'') db
      | _ \<Rightarrow> Inr (True, db))"

text \<open>\<open>None\<close> is the skip of the source: the refund is not waiting, or another path settled it first.\<close>

definition reconcileRefundIntent :: "pos_hooks \<Rightarrow> gateway \<Rightarrow> int \<Rightarrow> nat \<Rightarrow> hotel \<Rightarrow> (lookup option \<times> hotel) result" where
  "reconcileRefundIntent h gw now iid db =
     (case t_get (payments db) iid of
        None \<Rightarrow> Inr (None, db)
      | Some intent \<Rightarrow>
        if \<not> isReconcilableRefund intent then Inr (None, db)
        else (case Option.bind (p_parent intent) (\<lambda>oid. map_option (Pair oid) (t_get (payments db) oid)) of
            None \<Rightarrow> Inl TypeError
          | Some (oid, original) \<Rightarrow>
            let found = lookUpRefundAtPaystack gw iid intent oid original db;
                (k, db1) = ensureRefundReconciliation iid None db;
                attempts = (case t_get (refund_checks db1) k of None \<Rightarrow> 0 | Some c \<Rightarrow> rc_attempts c) + 1
            in rbind (settle_found h iid found (t_get (refund_checks db1) k) db1) (\<lambda>(applied, db2).
               if \<not> applied then Inr (None, db2)
               else Inr (Some found, write_check k
                 (\<lambda>c. c\<lparr>rc_attempts := attempts, rc_result := Some (lookup_name found), rc_last := Some now\<rparr>) db2))))"

definition runRefundReconciliationSweep ::
    "pos_hooks \<Rightarrow> gateway \<Rightarrow> refund_config \<Rightarrow> string option \<Rightarrow> int \<Rightarrow> hotel \<Rightarrow> hotel" where
  "runRefundReconciliationSweep h gw cfg owner now db =
     (let cutoff = now - minAgeMinutes cfg * 60000;
          due = take 100 (map fst (t_select (\<lambda>i p. isReconcilableRefund p \<and> p_created p \<le> cutoff
            \<and> (case Option.bind (check_of db i) rc_last of None \<Rightarrow> True | Some l \<Rightarrow> l \<le> cutoff)) (payments db)))
      in foldl (\<lambda>db i.
           if owner = None \<or> owner \<in> set (map Some [''purging'', ''purged'', ''offboarding'']) then db
           else case reconcileRefundIntent h gw now i db of Inl _ \<Rightarrow> db | Inr (_, db') \<Rightarrow> db') db due)"

section \<open>Giving up on a stuck refund\<close>

definition cleared_payment :: "nat \<Rightarrow> string \<Rightarrow> payment \<Rightarrow> payment" where
  "cleared_payment iid cleanReason p = p\<lparr>p_status := FAILED,
     p_failure := Some (take 500 (''Cleared by a manager after reconciliation could not confirm it: '' @ cleanReason)),
     p_key := freed_key (p_key p) iid\<rparr>"

definition clear_refund ::
    "refund_config \<Rightarrow> (payment \<Rightarrow> unit result) \<Rightarrow> int \<Rightarrow> nat \<Rightarrow> string \<Rightarrow> hotel \<Rightarrow> (bool \<times> hotel) result" where
  "clear_refund cfg approve now iid cleanReason db =
     (case t_get (payments db) iid of
        None \<Rightarrow> Inl TypeError
      | Some intent \<Rightarrow>
        if \<not> isReconcilableRefund intent then Inr (False, db)
        else let (k, db1) = ensureRefundReconciliation iid None db
          in if refundClearEligibility cfg now intent (t_get (refund_checks db1) k) \<noteq> None then Inl RefundNotStuckError
             else (case Option.bind (p_parent intent) (t_get (payments db)) of
                 None \<Rightarrow> Inl TypeError
               | Some original \<Rightarrow> rbind (approve original) (\<lambda>_.
                   Inr (True, write_check k (\<lambda>c. c\<lparr>rc_result := Some ''cleared''\<rparr>)
                     (set_payment iid (cleared_payment iid cleanReason) db1)))))"

text \<open>The result says whether the refund was cleared; the last look at the provider commits by itself.\<close>

definition clearStuckRefund ::
    "pos_hooks \<Rightarrow> gateway \<Rightarrow> refund_config \<Rightarrow> (payment \<Rightarrow> unit result) \<Rightarrow> int \<Rightarrow> nat \<Rightarrow> string option \<Rightarrow> hotel \<Rightarrow> bool result \<times> hotel" where
  "clearStuckRefund h gw cfg approve now iid reason db =
     (let cleanReason = js_trim (case reason of None \<Rightarrow> [] | Some r \<Rightarrow> r)
      in if cleanReason = [] then (Inl (ValidationFieldError ''MISSING_FIELD'' ''reason'' ''missing''), db)
      else case t_get (payments db) iid of
        None \<Rightarrow> (Inl (ValidationError ''PAYMENT_NOT_FOUND''), db)
      | Some peek \<Rightarrow>
        if p_parent peek = None \<or> p_provider peek \<noteq> ''paystack'' then (Inl (ValidationError ''PAYMENT_NOT_FOUND''), db)
        else if \<not> isReconcilableRefund peek then (Inl RefundNotStuckError, db)
        else if refundClearEligibility cfg now peek (check_of db iid) \<noteq> None then (Inl RefundNotStuckError, db)
        else (case reconcileRefundIntent h gw now iid db of
            Inl e \<Rightarrow> (Inl e, db)
          | Inr (Some (Answer StillPending _), db1) \<Rightarrow> (Inl RefundNotStuckError, db1)
          | Inr (Some (Answer _ _), db1) \<Rightarrow> (Inr False, db1)
          | Inr (_, db1) \<Rightarrow> (case clear_refund cfg approve now iid cleanReason db1 of
              Inl e \<Rightarrow> (Inl e, db1) | Inr (cleared, db2) \<Rightarrow> (Inr cleared, db2))))"

section \<open>Webhook events\<close>

text \<open>The parts of a body that are read: \<open>event\<close>, \<open>data.id\<close>, \<open>id\<close>, \<open>data.reference\<close>, \<open>data.transaction_reference\<close> and \<open>data.transaction.reference\<close>.\<close>

record payload =
  pl_event :: "string option"
  pl_id :: "string option"
  pl_outer_id :: "string option"
  pl_reference :: "string option"
  pl_transaction_reference :: "string option"
  pl_transaction :: "string option"

record books =
  b_events :: "webhook_event table"
  b_hotel :: hotel
  b_owner :: "string option"

definition with_reference :: "hotel \<Rightarrow> string option \<Rightarrow> (nat \<times> payment) option" where
  "with_reference db reference = (if \<not> given reference then None
     else t_first (\<lambda>_ p. p_provider p = ''paystack'' \<and> Some (p_reference p) = reference) (payments db))"

definition closing_tenant :: "string option \<Rightarrow> bool" where
  "closing_tenant owner \<longleftrightarrow> (case owner of None \<Rightarrow> True | Some s \<Rightarrow> s = ''purging'' \<or> s = ''purged'')"

definition conclude :: "nat \<Rightarrow> string \<Rightarrow> nat option \<Rightarrow> books \<Rightarrow> string option \<times> books" where
  "conclude eid outcome attribution b = (Some outcome, b\<lparr>b_events := snd (finalizeWebhookEvent eid outcome attribution (b_events b))\<rparr>)"

definition postpone :: "int \<Rightarrow> nat \<Rightarrow> nat \<Rightarrow> books \<Rightarrow> string option \<times> books" where
  "postpone now eid attempts b = (let (r, t) = deferWebhookEvent now eid attempts (b_events b) in (r, b\<lparr>b_events := t\<rparr>))"

definition settled_status :: "payment_status \<Rightarrow> bool" where
  "settled_status s \<longleftrightarrow> s = CAPTURED \<or> s = REFUNDED \<or> s = PARTIALLY_REFUNDED"

text \<open>What the provider's record makes of the event once there is one.\<close>

definition apply_record ::
    "pos_hooks \<Rightarrow> int \<Rightarrow> nat \<Rightarrow> webhook_event \<Rightarrow> nat \<Rightarrow> payment \<Rightarrow> bool \<Rightarrow> gateway_record \<Rightarrow> books \<Rightarrow> string option \<times> books" where
  "apply_record h now eid e pid p terminalUnpaid r b =
     (let verdict = fst (classifyGatewayRecord r (p_reference p) (p_amt p) (p_currency p))
      in if verdict = Mismatch then conclude eid ''rejected'' (Some pid) b
         else if verdict = NotFinal then
           (if terminalUnpaid then conclude eid ''ignored'' (Some pid) b else postpone now eid (e_attempts e) b)
         else if terminalUnpaid then conclude eid (if verdict = NotPaid then ''ignored'' else ''needs_review'') (Some pid) b
         else (case applyGatewayResult h pid p
                 (if verdict = Confirmed then ''success'' else toLowerCase (case g_status r of None \<Rightarrow> [] | Some s \<Rightarrow> s))
                 (g_payment r) (b_hotel b) of
             Inl _ \<Rightarrow> postpone now eid (e_attempts e) b
           | Inr db \<Rightarrow> conclude eid ''applied'' (Some pid) (b\<lparr>b_hotel := db\<rparr>)))"

definition decide_charge_event ::
    "pos_hooks \<Rightarrow> gateway \<Rightarrow> int \<Rightarrow> nat \<Rightarrow> webhook_event \<Rightarrow> payload \<Rightarrow> books \<Rightarrow> string option \<times> books" where
  "decide_charge_event h gw now eid e pl b =
     (case with_reference (b_hotel b) (pl_reference pl) of
        None \<Rightarrow> conclude eid ''ignored'' None b
      | Some (pid, p) \<Rightarrow>
        if closing_tenant (b_owner b) then conclude eid ''ignored'' (Some pid) b
        else if settled_status (p_status p) then conclude eid ''ignored'' (Some pid) b
        else let late = (resumable_target (p_target p) \<and> p_status p = CANCELLED);
                 terminalUnpaid = (terminal_status (p_status p) \<and> \<not> late)
          in if terminalUnpaid \<and> pl_event pl = Some ''charge.failed'' then conclude eid ''ignored'' (Some pid) b
             else if \<not> gw_configured gw (p_currency p) then postpone now eid (e_attempts e) b
             else (case gw_verify gw (p_reference p) of
                 Inl err \<Rightarrow>
                   if interpretGatewayError err = ''record_not_found'' \<and> \<not> e_attempts e < RECORD_NOT_FOUND_GRACE_ATTEMPTS
                   then conclude eid ''rejected'' (Some pid) b else postpone now eid (e_attempts e) b
               | Inr r \<Rightarrow> apply_record h now eid e pid p terminalUnpaid r b))"

definition refund_candidates_of :: "hotel \<Rightarrow> payload \<Rightarrow> nat list" where
  "refund_candidates_of db pl =
     (let by_refund = (case pl_id pl of None \<Rightarrow> [] | Some r \<Rightarrow> t_select (\<lambda>_ p. p_provider p = ''paystack''
            \<and> p_provider_payment p = Some r \<and> p_parent p \<noteq> None \<and> in_flight (p_status p)) (payments db));
          by_transaction = (case with_reference db (or_else (pl_transaction_reference pl) (pl_transaction pl)) of None \<Rightarrow> []
            | Some (oid, _) \<Rightarrow> t_select (\<lambda>_ p. p_parent p = Some oid \<and> p_provider p = ''paystack'' \<and> in_flight (p_status p)) (payments db))
      in map fst (filter (\<lambda>(i, p). isReconcilableRefund p) (if by_refund = [] then by_transaction else by_refund)))"

text \<open>The candidates are reconciled one after the other, each in its own transaction: an error leaves what is committed.\<close>

primrec reconcile_each ::
    "pos_hooks \<Rightarrow> gateway \<Rightarrow> int \<Rightarrow> nat list \<Rightarrow> nat \<Rightarrow> hotel \<Rightarrow> nat result \<times> hotel" where
  "reconcile_each h gw now [] resolved db = (Inr resolved, db)"
| "reconcile_each h gw now (i # is) resolved db =
     (case reconcileRefundIntent h gw now i db of
        Inl e \<Rightarrow> (Inl e, db)
      | Inr (r, db') \<Rightarrow> reconcile_each h gw now is
          (case r of Some (Answer Processed _) \<Rightarrow> resolved + 1 | Some (Answer RefundFailed _) \<Rightarrow> resolved + 1 | _ \<Rightarrow> resolved) db')"

definition decideRefundWebhookEvent ::
    "pos_hooks \<Rightarrow> gateway \<Rightarrow> int \<Rightarrow> nat \<Rightarrow> payload \<Rightarrow> books \<Rightarrow> string option result \<times> books" where
  "decideRefundWebhookEvent h gw now eid pl b =
     (case refund_candidates_of (b_hotel b) pl of
        [] \<Rightarrow> map_prod Inr id (conclude eid ''ignored'' None b)
      | (i # is) \<Rightarrow>
        if closing_tenant (b_owner b) then map_prod Inr id (conclude eid ''ignored'' (Some i) b)
        else (case reconcile_each h gw now (i # is) 0 (b_hotel b) of
            (Inl e, db) \<Rightarrow> (Inl e, b\<lparr>b_hotel := db\<rparr>)
          | (Inr n, db) \<Rightarrow> map_prod Inr id (conclude eid (if n > 0 then ''applied'' else ''ignored'') (Some i) (b\<lparr>b_hotel := db\<rparr>))))"

definition refund_event :: "string option \<Rightarrow> bool" where
  "refund_event e \<longleftrightarrow> e \<in> set (map Some [''refund.pending'', ''refund.processing'', ''refund.processed'', ''refund.failed''])"

definition decidePaymentWebhookEvent ::
    "(string \<Rightarrow> payload) \<Rightarrow> pos_hooks \<Rightarrow> gateway \<Rightarrow> int \<Rightarrow> nat \<Rightarrow> books \<Rightarrow> string option result \<times> books" where
  "decidePaymentWebhookEvent parse h gw now eid b =
     (case t_get (b_events b) eid of
        None \<Rightarrow> (Inr None, b)
      | Some e \<Rightarrow>
        if e_outcome e \<noteq> None \<or> \<not> e_verified e then (Inr (e_outcome e), b)
        else let pl = parse (e_payload e)
          in if refund_event (pl_event pl) then decideRefundWebhookEvent h gw now eid pl b
             else map_prod Inr id
               (if pl_event pl \<noteq> Some ''charge.success'' \<and> pl_event pl \<noteq> Some ''charge.failed''
                then conclude eid ''ignored'' None b else decide_charge_event h gw now eid e pl b))"

text \<open>An unexpected error is not passed on: the event is deferred under the same cap.\<close>

definition processPaymentWebhookEvent ::
    "(string \<Rightarrow> payload) \<Rightarrow> pos_hooks \<Rightarrow> gateway \<Rightarrow> int \<Rightarrow> nat \<Rightarrow> books \<Rightarrow> string option \<times> books" where
  "processPaymentWebhookEvent parse h gw now eid b =
     (case decidePaymentWebhookEvent parse h gw now eid b of
        (Inr r, b') \<Rightarrow> (r, b')
      | (Inl _, b') \<Rightarrow> (case t_get (b_events b') eid of
          None \<Rightarrow> (None, b')
        | Some e \<Rightarrow> (None, if e_outcome e = None then snd (postpone now eid (e_attempts e) b') else b')))"

definition handlePaystackWebhook ::
    "(string \<Rightarrow> payload) \<Rightarrow> (string \<Rightarrow> bool) \<Rightarrow> pos_hooks \<Rightarrow> gateway \<Rightarrow> int \<Rightarrow> string \<Rightarrow> string \<Rightarrow> books \<Rightarrow> books" where
  "handlePaystackWebhook parse signed h gw now fallback body b =
     (let pl = parse body;
          raw = with_reference (b_hotel b) (or_else (pl_reference pl) (pl_transaction_reference pl));
          verified = (case raw of None \<Rightarrow> False | Some (_, p) \<Rightarrow> gw_configured gw (p_currency p) \<and> signed (p_currency p));
          (r, t) = persistWebhookEvent now ''paystack'' (webhookEventKey (pl_event pl) (or_else (pl_id pl) (pl_outer_id pl)) fallback) body verified
             (map_option fst raw) (b_events b);
          b1 = b\<lparr>b_events := t\<rparr>
      in if \<not> verified then b1
         else if \<not> pw_needsProcessing r then b1
         else snd (processPaymentWebhookEvent parse h gw now (pw_id r) b1))"

text \<open>The retry sweep of \<open>jobs/payment-webhooks.js\<close> over the guest payment events.\<close>

definition runPaymentWebhookRetrySweep ::
    "(string \<Rightarrow> payload) \<Rightarrow> pos_hooks \<Rightarrow> gateway \<Rightarrow> int \<Rightarrow> books \<Rightarrow> books" where
  "runPaymentWebhookRetrySweep parse h gw now b =
     foldl (\<lambda>b eid. snd (processPaymentWebhookEvent parse h gw now eid b)) b (due_events now (b_events b))"

end
