(* ===== verification/PaymentFacts.thy ===== *)
theory PaymentFacts
  imports Reconcile
begin

text \<open>
  What the payment life cycle keeps: money enters and leaves a folio exactly once per payment, and the refunds of a
  payment, settled or in flight, never exceed it. The invariant \<open>pays_ok\<close> holds over any interleaving of ledger requests,
  gateway results and the transactions of refunds; two requests that fall outside it are shown to break it.
\<close>

section \<open>The money a payment has moved\<close>

definition posted :: "hotel \<Rightarrow> nat \<Rightarrow> int" where
  "posted db pid = t_total (\<lambda>_ l. l_payment l = Some pid \<and> \<not> l_voided l) l_amount (line_items db)"

definition folio_funded :: "payment \<Rightarrow> bool" where
  "folio_funded p \<longleftrightarrow> \<not> is_pos_target (p_target p) \<and> p_target p \<noteq> ''supermarket_sale''"

definition expected_posting :: "payment \<Rightarrow> int" where
  "expected_posting p = (if settled_status (p_status p) \<and> folio_funded p
     then (if p_parent p = None then - p_amt p else p_amt p) else 0)"

text \<open>A line that carries a payment is a payment or refund line of a payment that exists, and is never voided.\<close>

definition money_lines_ok :: "hotel \<Rightarrow> bool" where
  "money_lines_ok db \<longleftrightarrow> t_wf (line_items db) \<and> (\<forall>i l pid. t_get (line_items db) i = Some l \<longrightarrow> l_payment l = Some pid \<longrightarrow>
     (l_type l = PaymentLine \<or> l_type l = RefundLine) \<and> \<not> l_voided l \<and> pid < next_id (payments db))"

definition captured_refunds :: "hotel \<Rightarrow> nat \<Rightarrow> int" where
  "captured_refunds db i = refundedSoFar db i (\<lambda>s. s = CAPTURED)"

definition refunds_in_flight :: "hotel \<Rightarrow> nat \<Rightarrow> int" where
  "refunds_in_flight db i = refundedSoFar db i in_flight"

definition refunds_fit :: "payment \<Rightarrow> int \<Rightarrow> int \<Rightarrow> bool" where
  "refunds_fit p c f \<longleftrightarrow>
     (if p_status p = CAPTURED then c = 0 \<and> (f = 0 \<or> f \<le> p_amt p)
      else if p_status p = PARTIALLY_REFUNDED then 0 < c \<and> c < p_amt p \<and> c + f \<le> p_amt p
      else if p_status p = REFUNDED then c = p_amt p \<and> f = 0 \<and> 0 < c
      else c = 0 \<and> f = 0)"

definition is_refund_ok :: "hotel \<Rightarrow> payment \<Rightarrow> bool" where
  "is_refund_ok db p \<longleftrightarrow> (\<forall>oid. p_parent p = Some oid \<longrightarrow> 0 < p_amt p
     \<and> (in_flight (p_status p) \<or> p_status p = CAPTURED \<or> p_status p = FAILED)
     \<and> (\<exists>q. t_get (payments db) oid = Some q \<and> p_parent q = None))"

definition pays_ok :: "hotel \<Rightarrow> bool" where
  "pays_ok db \<longleftrightarrow> t_wf (payments db) \<and> money_lines_ok db \<and> (\<forall>i p. t_get (payments db) i = Some p \<longrightarrow>
     posted db i = expected_posting p \<and> is_refund_ok db p
     \<and> (p_parent p = None \<longrightarrow> refunds_fit p (captured_refunds db i) (refunds_in_flight db i)))"

lemma pays_okD:
  assumes "pays_ok db" "t_get (payments db) i = Some p"
  shows "posted db i = expected_posting p" "is_refund_ok db p"
    "p_parent p = None \<Longrightarrow> refunds_fit p (captured_refunds db i) (refunds_in_flight db i)"
  using assms by (auto simp: pays_ok_def)

lemma pays_wf: "pays_ok db \<Longrightarrow> t_wf (payments db)" "pays_ok db \<Longrightarrow> money_lines_ok db" "pays_ok db \<Longrightarrow> t_wf (line_items db)"
  by (auto simp: pays_ok_def money_lines_ok_def)

lemma posted_frame: "line_items db' = line_items db \<Longrightarrow> posted db' = posted db"
  by (simp add: posted_def fun_eq_iff)

lemma refunds_frame: "payments db' = payments db \<Longrightarrow> refundedSoFar db' = refundedSoFar db"
  by (simp add: refundedSoFar_def fun_eq_iff)

lemma pays_frame:
  assumes "line_items db' = line_items db" "payments db' = payments db"
  shows "pays_ok db' = pays_ok db"
  using posted_frame [OF assms(1)] refunds_frame [OF assms(2)] assms
  by (simp add: pays_ok_def money_lines_ok_def is_refund_ok_def captured_refunds_def refunds_in_flight_def)

text \<open>No payment has posted anything before it exists, and nothing repays one that does not exist.\<close>

lemma posted_new: "pays_ok db \<Longrightarrow> posted db (next_id (payments db)) = 0"
  unfolding posted_def
proof (rule t_total_none)
  fix i r assume p: "pays_ok db" and r: "(i, r) \<in> set (rows (line_items db))"
  have "t_get (line_items db) i = Some r" using r pays_wf(3) [OF p] by (simp add: rows_get)
  then show "\<not> (l_payment r = Some (next_id (payments db)) \<and> \<not> l_voided r)"
    using pays_wf(2) [OF p] unfolding money_lines_ok_def by blast
qed

lemma refunds_new: "pays_ok db \<Longrightarrow> refundedSoFar db (next_id (payments db)) S = 0"
  unfolding refundedSoFar_def
proof (rule t_total_none)
  fix i q assume p: "pays_ok db" and q: "(i, q) \<in> set (rows (payments db))"
  have "t_get (payments db) i = Some q" using q pays_wf(1) [OF p] by (simp add: rows_get)
  then have "is_refund_ok db q" by (rule pays_okD(2) [OF p])
  then show "\<not> (p_parent q = Some (next_id (payments db)) \<and> S (p_status q))"
    using t_get_next [OF pays_wf(1) [OF p]] by (auto simp: is_refund_ok_def)
qed

section \<open>Requests that move no money\<close>

text \<open>\<open>quiet\<close>: the payments stay, and so do all lines that carry one.\<close>

definition quiet :: "hotel \<Rightarrow> hotel \<Rightarrow> bool" where
  "quiet db db' \<longleftrightarrow> payments db' = payments db \<and> (\<forall>pid. posted db' pid = posted db pid) \<and> (money_lines_ok db \<longrightarrow> money_lines_ok db')"

lemma quiet_refl [simp]: "quiet db db" by (simp add: quiet_def)

lemma quiet_trans: "quiet a b \<Longrightarrow> quiet b c \<Longrightarrow> quiet a c" by (simp add: quiet_def)

lemma quiet_frame: "line_items db' = line_items db \<Longrightarrow> payments db' = payments db \<Longrightarrow> quiet db db'"
  using posted_frame [of db' db] by (simp add: quiet_def money_lines_ok_def)

lemma quiet_pays: "quiet db db' \<Longrightarrow> pays_ok db \<Longrightarrow> pays_ok db'"
  using refunds_frame [of db' db]
  by (simp add: quiet_def pays_ok_def is_refund_ok_def captured_refunds_def refunds_in_flight_def)

lemma quiet_insert: "l_payment l = None \<Longrightarrow> quiet db (db\<lparr>line_items := t_insert l (line_items db)\<rparr>)"
  by (auto simp: quiet_def posted_def t_total_insert money_lines_ok_def t_get_insert split: if_splits)

lemma quiet_insert_line: "insert_line d mk db = Inr (i, db') \<Longrightarrow> (\<And>d. l_payment (mk d) = None) \<Longrightarrow> quiet db db'"
  using insert_line_InrD [of d mk db i db'] quiet_insert by auto

lemma quiet_ar_check: "ar_check f a ov why db = Inr (k, db') \<Longrightarrow> quiet db db'"
  using ar_check_frame [of f a ov why db k db'] by (intro quiet_frame) simp_all

lemma quiet_after_posting: "quiet db (after_posting fid k db)"
  by (rule quiet_frame) (cases k; auto simp: after_posting_def Let_def)+

lemma quiet_post_lines:
  assumes "post_lines fid f ty desc tx d k db = Inr (c, db')"
  shows "quiet db db'"
proof -
  obtain mk db1 db2 where 1: "insert_line d mk db = Inr (c, db1)" "\<And>d. l_payment (mk d) = None"
    and 2: "foldM (post_tax_line fid (f_currency f) d c) db1 (taxLines tx) = Inr db2"
    and 3: "db' = after_posting fid k db2"
    using assms unfolding post_lines_def by (fastforce simp: rbind_eq_Inr)
  have "quiet db db1" using quiet_insert_line [OF 1] .
  moreover have "quiet db1 db2"
    using 2
  proof (rule foldM_inv [where P = "quiet db1"])
    fix s t s' assume q: "quiet db1 s" and "post_tax_line fid (f_currency f) d c s t = Inr s'"
    then obtain mk i where "insert_line d mk s = Inr (i, s')" "\<And>d. l_payment (mk d) = None"
      unfolding post_tax_line_def by (fastforce simp: rbind_eq_Inr)
    then have "quiet s s'" by (rule quiet_insert_line)
    then show "quiet db1 s'" using q quiet_trans by blast
  qed simp
  ultimately show ?thesis using 3 quiet_after_posting quiet_trans by blast
qed

lemma quiet_postCharge:
  assumes "postCharge fid type desc amt bd ov why db = Inr (c, db')" "t_wf (folios db)"
  shows "quiet db db'"
  by (rule postCharge_cases [OF assms]) (rule quiet_trans, erule quiet_ar_check, erule quiet_post_lines)

lemma quiet_postAdjustment:
  assumes "postAdjustment fid desc amt rel bd reason ov why db = Inr (lid, db')" "t_wf (folios db)"
  shows "quiet db db'"
proof -
  obtain f k db1 db2 mk where c: "ar_check f amt ov why db = Inr (k, db1)"
    and i: "insert_line (effective_date bd db) mk db1 = Inr (lid, db2)" and mk: "\<And>d. l_payment (mk d) = None"
    and db': "db' = after_posting fid k db2"
    using assms by (fastforce simp: postAdjustment_def rbind_eq_Inr split: option.split_asm if_split_asm)
  then show ?thesis using quiet_ar_check [OF c] quiet_insert_line [OF i mk] quiet_after_posting quiet_trans by blast
qed

lemma quiet_post_night: "post_night fid db night = Inr db' \<Longrightarrow> books_ok db \<Longrightarrow> quiet db db' \<and> books_ok db'"
  by (auto simp: post_night_def Let_def map_sum_Inr split: if_splits dest: quiet_postCharge books_postCharge)

lemma quiet_stay:
  assumes "postRoomChargesForStay res fid db = Inr db'" "books_ok db"
  shows "quiet db db'"
proof -
  have "quiet db db' \<and> books_ok db'"
    using assms(1) unfolding postRoomChargesForStay_def
  proof (rule foldM_inv [where P = "\<lambda>s. quiet db s \<and> books_ok s"])
    fix s n s' assume "quiet db s \<and> books_ok s" "post_night fid s n = Inr s'"
    then show "quiet db s' \<and> books_ok s'" using quiet_post_night quiet_trans by blast
  qed (use assms(2) in simp)
  then show ?thesis by blast
qed

lemma quiet_late:
  assumes "postLateRoomCharges fid nights bd ov why db = Inr (charged, db')" "books_ok db"
  shows "quiet db db'"
proof -
  have "quiet db (snd (charged, db')) \<and> books_ok (snd (charged, db'))"
    using assms(1) unfolding postLateRoomCharges_def
  proof (rule foldM_inv [where P = "\<lambda>st. quiet db (snd st) \<and> books_ok (snd st)"])
    fix st n st' assume q: "quiet db (snd st) \<and> books_ok (snd st)" and s: "post_late_night fid bd ov why st n = Inr st'"
    have "quiet (snd st) (snd st') \<and> books_ok (snd st')"
      using s q
      by (auto simp: post_late_night_def Let_def rbind_eq_Inr split: prod.splits if_splits
          dest: quiet_postCharge books_postCharge)
    then show "quiet db (snd st') \<and> books_ok (snd st')" using q quiet_trans by blast
  qed (use assms(2) in simp)
  then show ?thesis by simp
qed

text \<open>Rewriting lines is quiet when it leaves every line that carries a payment as it counts.\<close>

lemma quiet_rewrite:
  assumes wf: "t_wf (line_items db)"
    and f: "\<And>i l. t_get (line_items db) i = Some l \<Longrightarrow> P i l \<Longrightarrow> l_payment (f l) = l_payment l
      \<and> (l_payment l \<noteq> None \<longrightarrow> l_amount (f l) = l_amount l \<and> l_type (f l) = l_type l \<and> l_voided (f l) = l_voided l)"
  shows "quiet db (db\<lparr>line_items := t_update P f (line_items db)\<rparr>)"
proof -
  have "posted (db\<lparr>line_items := t_update P f (line_items db)\<rparr>) pid = posted db pid" for pid
  proof -
    have "t_total (\<lambda>_ l. l_payment l = Some pid \<and> \<not> l_voided l) l_amount (t_update P f (line_items db)) =
        t_total (\<lambda>_ l. l_payment l = Some pid \<and> \<not> l_voided l) l_amount
          (t_update (\<lambda>i l. P i l \<and> l_payment l \<noteq> None) f (line_items db))"
      (is "t_total ?A _ _ = _")
      unfolding t_total_update
    proof (rule arg_cong2 [where f = "(+)"]; rule t_total_cong)
      fix i r assume "(i, r) \<in> set (rows (line_items db))"
      then have "t_get (line_items db) i = Some r" using wf by (simp add: rows_get)
      then show "?A i (if P i r then f r else r) = ?A i (if P i r \<and> l_payment r \<noteq> None then f r else r)"
        and "(P i r \<and> ?A i (f r)) = ((P i r \<and> l_payment r \<noteq> None) \<and> ?A i (f r))"
        using f [of i r] by (auto simp: eq_commute [of "Some pid"])
    qed simp_all
    also have "\<dots> = t_total ?A l_amount (line_items db)"
      by (rule t_total_update_same) (use f wf in \<open>auto simp: rows_get\<close>)
    finally show ?thesis by (simp add: posted_def)
  qed
  moreover have "money_lines_ok (db\<lparr>line_items := t_update P f (line_items db)\<rparr>)" if m: "money_lines_ok db"
    unfolding money_lines_ok_def
  proof (intro conjI allI impI)
    fix i l' pid assume l': "t_get (line_items (db\<lparr>line_items := t_update P f (line_items db)\<rparr>)) i = Some l'" "l_payment l' = Some pid"
    then obtain l where l: "t_get (line_items db) i = Some l" "l' = (if P i l then f l else l)"
      by (auto simp: t_get_update)
    have "l_payment l = Some pid" "l_type l' = l_type l" "l_voided l' = l_voided l"
      using l l'(2) f [OF l(1)] by (auto split: if_splits)
    then show "l_type l' = PaymentLine \<or> l_type l' = RefundLine" "\<not> l_voided l'"
      "pid < next_id (payments (db\<lparr>line_items := t_update P f (line_items db)\<rparr>))"
      using m l(1) unfolding money_lines_ok_def by auto
  qed (use wf in simp)
  ultimately show ?thesis by (simp add: quiet_def)
qed

lemma charge_line_pays_nothing:
  "money_lines_ok db \<Longrightarrow> t_get (line_items db) i = Some l \<Longrightarrow> l_type l \<noteq> PaymentLine \<Longrightarrow> l_type l \<noteq> RefundLine \<Longrightarrow> l_payment l = None"
  unfolding money_lines_ok_def by (metis not_None_eq)

lemma quiet_void:
  assumes m: "money_lines_ok db" and b: "books_ok db" and run: "voidLineItem lid reason db = Inr db'"
  shows "quiet db db'"
proof -
  obtain line where line: "t_get (line_items db) lid = Some line" "l_type line \<noteq> PaymentLine" "l_type line \<noteq> RefundLine"
    using run b by (auto simp: voidLineItem_def split: option.split_asm if_split_asm)
  define why where "why = (case reason of None \<Rightarrow> [] | Some r \<Rightarrow> r)"
  define db1 where "db1 = db\<lparr>line_items := t_update (by_id lid) (mark_voided why) (line_items db)\<rparr>"
  define db2 where "db2 = db1\<lparr>line_items := t_update (\<lambda>_. depends_on_charge lid)
    (mark_voided (''Charge '' @ show_nat lid @ '' voided: '' @ why)) (line_items db1)\<rparr>"
  have "\<exists>k. db' = recomputeFolioBalance (l_folio line) db2 \<or> db' = snd (recomputeArAccountBalance k (recomputeFolioBalance (l_folio line) db2))"
    using run b line unfolding voidLineItem_def db2_def db1_def why_def
    by (auto simp: Let_def simp del: recompute_ar_frame recompute_folio_frame split: option.split_asm if_split_asm)
  then have "line_items db' = line_items db2" "payments db' = payments db2" by auto
  then have q3: "quiet db2 db'" by (rule quiet_frame)
  have wf: "t_wf (line_items db)" using m by (simp add: money_lines_ok_def)
  have q1: "quiet db db1"
    unfolding db1_def
    by (rule quiet_rewrite [OF wf]) (use charge_line_pays_nothing [OF m] line in \<open>auto simp: mark_voided_def\<close>)
  then have m1: "money_lines_ok db1" using m by (simp add: quiet_def)
  have q2: "quiet db1 db2"
    unfolding db2_def
    by (rule quiet_rewrite) (use charge_line_pays_nothing [OF m1] m1 in \<open>auto simp: mark_voided_def depends_on_charge_def money_lines_ok_def\<close>)
  from q1 q2 q3 show ?thesis using quiet_trans by blast
qed

lemma quiet_move:
  assumes b: "books_ok db" and run: "moveLineItem lid dest db = Inr db'"
  shows "quiet db db'"
proof -
  define db1 where "db1 = db\<lparr>line_items := t_update (by_id lid) (\<lambda>l. l\<lparr>l_folio := dest\<rparr>) (line_items db)\<rparr>"
  define db2 where "db2 = db1\<lparr>line_items := t_update (\<lambda>_ l. l_related l = Some lid \<and> l_type l = TaxLine \<and> \<not> l_voided l)
    (\<lambda>l. l\<lparr>l_folio := dest\<rparr>) (line_items db1)\<rparr>"
  have "\<exists>src. db' = recomputeFolioBalance dest (recomputeFolioBalance src db2)"
    using run b unfolding moveLineItem_def db2_def db1_def
    by (auto simp: Let_def split: option.split_asm if_split_asm)
  then have q3: "quiet db2 db'" by (intro quiet_frame) auto
  have wf: "t_wf (line_items db)" using b by simp
  have q1: "quiet db db1" unfolding db1_def by (rule quiet_rewrite [OF wf]) simp
  have "t_wf (line_items db1)" using wf by (simp add: db1_def)
  then have q2: "quiet db1 db2" unfolding db2_def by (rule quiet_rewrite) simp
  from q1 q2 q3 show ?thesis using quiet_trans by blast
qed


section \<open>Changing one payment\<close>

lemma refunds_set:
  assumes "t_wf (payments db)" "t_get (payments db) k = Some p" "p_parent (g p) = p_parent p" "p_amt (g p) = p_amt p"
  shows "refundedSoFar (set_payment k g db) j S = refundedSoFar db j S
    - (if p_parent p = Some j \<and> S (p_status p) then p_amt p else 0) + (if p_parent p = Some j \<and> S (p_status (g p)) then p_amt p else 0)"
  using assms by (simp add: refundedSoFar_def set_payment_def t_total_change_row)

lemma refunds_insert:
  "refundedSoFar (db\<lparr>payments := t_insert q (payments db)\<rparr>) j S =
     refundedSoFar db j S + (if p_parent q = Some j \<and> S (p_status q) then p_amt q else 0)"
  by (simp add: refundedSoFar_def t_total_insert)

lemma set_payment_get: "t_get (payments (set_payment k g db)) i = (if i = k then map_option g (t_get (payments db) i) else t_get (payments db) i)"
  by (simp add: set_payment_def t_get_update_id)

lemma set_payment_frame [simp]:
  "line_items (set_payment k g db) = line_items db" "folios (set_payment k g db) = folios db"
  "business_date (set_payment k g db) = business_date db" "next_id (payments (set_payment k g db)) = next_id (payments db)"
  by (simp_all add: set_payment_def)

lemma set_payment_wf [simp]: "t_wf (payments db) \<Longrightarrow> t_wf (payments (set_payment k g db))"
  by (simp add: set_payment_def)

lemma money_lines_set [simp]: "money_lines_ok (set_payment k g db) = money_lines_ok db"
  by (simp add: money_lines_ok_def)

text \<open>In-flight refunds count for what they are worth, and only a payment that has captured refunds or waits for one has any.\<close>

lemma in_flight_part:
  assumes "pays_ok db" "t_get (payments db) k = Some q" "p_parent q = Some i" "in_flight (p_status q)"
  shows "0 < p_amt q" "p_amt q \<le> refunds_in_flight db i"
proof -
  have pos: "0 < p_amt r" if "t_get (payments db) j = Some r" "p_parent r = Some i" for j r
    using pays_okD(2) [OF assms(1) that(1)] that(2) by (auto simp: is_refund_ok_def)
  then show "0 < p_amt q" using assms by blast
  show "p_amt q \<le> refunds_in_flight db i"
    unfolding refunds_in_flight_def refundedSoFar_def
    by (rule t_total_ge [OF pays_wf(1) [OF assms(1)] assms(2)]) (use assms pos in \<open>auto dest!: pos intro: less_imp_le\<close>)
qed

lemma refund_status_simps [simp]:
  "in_flight INITIATED" "in_flight PENDING" "\<not> in_flight CAPTURED" "\<not> in_flight FAILED" "\<not> in_flight CANCELLED"
  "\<not> in_flight REFUNDED" "\<not> in_flight PARTIALLY_REFUNDED" "\<not> in_flight EXPIRED" "\<not> in_flight VOIDED"
  "settled_status CAPTURED" "settled_status REFUNDED" "settled_status PARTIALLY_REFUNDED" "\<not> settled_status FAILED"
  "\<not> settled_status INITIATED" "\<not> settled_status PENDING" "\<not> settled_status CANCELLED"
  "\<not> settled_status EXPIRED" "\<not> settled_status VOIDED"
  by (simp_all add: in_flight_def settled_status_def)

lemma in_flight_not_settled: "in_flight s \<Longrightarrow> \<not> settled_status s" "in_flight s \<Longrightarrow> s \<noteq> CAPTURED \<and> s \<noteq> FAILED \<and> s \<noteq> REFUNDED \<and> s \<noteq> PARTIALLY_REFUNDED"
  by (auto simp: in_flight_def settled_status_def)

text \<open>An original that has moved no money changes among the statuses that move none.\<close>

lemma pays_relabel_original:
  assumes ok: "pays_ok db" and p: "t_get (payments db) k = Some p" "p_parent p = None" "\<not> settled_status (p_status p)"
    and g: "p_parent (g p) = None" "p_amt (g p) = p_amt p" "p_target (g p) = p_target p" "\<not> settled_status (p_status (g p))"
  shows "pays_ok (set_payment k g db)" (is "pays_ok ?db")
proof -
  have wf: "t_wf (payments db)" using pays_wf(1) [OF ok] .
  have r: "refundedSoFar ?db j S = refundedSoFar db j S" for j S
    using refunds_set [OF wf p(1), of g j S] p g by simp
  have "posted ?db i = expected_posting q \<and> is_refund_ok ?db q \<and>
      (p_parent q = None \<longrightarrow> refunds_fit q (captured_refunds ?db i) (refunds_in_flight ?db i))"
    if q: "t_get (payments ?db) i = Some q" for i q
  proof (cases "i = k")
    case True
    then have "q = g p" using q p(1) by (simp add: set_payment_get)
    moreover have "refunds_fit p (captured_refunds db k) (refunds_in_flight db k)" using pays_okD(3) [OF ok p(1,2)] .
    ultimately show ?thesis
      using True pays_okD(1) [OF ok p(1)] p g posted_frame [of ?db db]
      by (auto simp: expected_posting_def is_refund_ok_def refunds_fit_def captured_refunds_def refunds_in_flight_def r settled_status_def)
  next
    case False
    then have q': "t_get (payments db) i = Some q" using q by (simp add: set_payment_get)
    have "is_refund_ok ?db q"
      using pays_okD(2) [OF ok q'] p g by (auto simp: is_refund_ok_def set_payment_get)
    then show ?thesis
      using pays_okD(1,3) [OF ok q'] posted_frame [of ?db db] by (simp add: captured_refunds_def refunds_in_flight_def r)
  qed
  then show ?thesis using wf pays_wf(2) [OF ok] by (simp add: pays_ok_def)
qed


text \<open>A refund in flight that stays so or fails.\<close>

lemma pays_relabel_refund:
  assumes ok: "pays_ok db" and p: "t_get (payments db) k = Some p" "p_parent p = Some oid" "in_flight (p_status p)"
    and g: "p_parent (g p) = Some oid" "p_amt (g p) = p_amt p" "in_flight (p_status (g p)) \<or> p_status (g p) = FAILED"
  shows "pays_ok (set_payment k g db)" (is "pays_ok ?db")
proof -
  have wf: "t_wf (payments db)" using pays_wf(1) [OF ok] .
  obtain org where o: "t_get (payments db) oid = Some org" "p_parent org = None" and pos: "0 < p_amt p"
    using pays_okD(2) [OF ok p(1)] p(2) by (auto simp: is_refund_ok_def)
  have ge: "p_amt p \<le> refunds_in_flight db oid" by (rule in_flight_part(2) [OF ok p])
  have ne: "\<not> settled_status (p_status (g p))" "p_status (g p) \<noteq> CAPTURED" using g(3) by (auto simp: in_flight_def)
  have c: "captured_refunds ?db j = captured_refunds db j" for j
    unfolding captured_refunds_def using refunds_set [OF wf p(1), of g j "\<lambda>s. s = CAPTURED"] p g ne in_flight_not_settled(2) [OF p(3)] by simp
  have f: "refunds_in_flight ?db j = refunds_in_flight db j - (if j = oid \<and> \<not> in_flight (p_status (g p)) then p_amt p else 0)" for j
    unfolding refunds_in_flight_def using refunds_set [OF wf p(1), of g j in_flight] p g by auto
  have "posted ?db i = expected_posting q \<and> is_refund_ok ?db q \<and>
      (p_parent q = None \<longrightarrow> refunds_fit q (captured_refunds ?db i) (refunds_in_flight ?db i))"
    if q: "t_get (payments ?db) i = Some q" for i q
  proof (cases "i = k")
    case True
    then have q': "q = g p" using q p(1) by (simp add: set_payment_get)
    have "posted ?db i = 0"
      using True pays_okD(1) [OF ok p(1)] posted_frame [of ?db db] in_flight_not_settled(1) [OF p(3)] by (simp add: expected_posting_def)
    moreover have "is_refund_ok ?db q"
      using q' g pos o p by (auto simp: is_refund_ok_def set_payment_get)
    ultimately show ?thesis using q' g ne by (simp add: expected_posting_def)
  next
    case False
    then have q': "t_get (payments db) i = Some q" using q by (simp add: set_payment_get)
    have "is_refund_ok ?db q"
      using pays_okD(2) [OF ok q'] p g by (fastforce simp: is_refund_ok_def set_payment_get)
    moreover have "refunds_fit q (captured_refunds ?db i) (refunds_in_flight ?db i)" if "p_parent q = None"
      using pays_okD(3) [OF ok q' that] ge pos unfolding c f by (auto simp: refunds_fit_def split: if_splits)
    ultimately show ?thesis using pays_okD(1) [OF ok q'] posted_frame [of ?db db] by simp
  qed
  then show ?thesis using wf pays_wf(2) [OF ok] by (simp add: pays_ok_def)
qed

text \<open>Money arriving: the line is posted and the status says so.\<close>

lemma posted_insert:
  "posted (db\<lparr>line_items := t_insert l (line_items db)\<rparr>) i =
     posted db i + (if l_payment l = Some i \<and> \<not> l_voided l then l_amount l else 0)"
  by (simp add: posted_def t_total_insert)

lemma money_lines_insert:
  "money_lines_ok db \<Longrightarrow> l_type l = PaymentLine \<or> l_type l = RefundLine \<Longrightarrow> \<not> l_voided l \<Longrightarrow> l_payment l = Some pid \<Longrightarrow>
     pid < next_id (payments db) \<Longrightarrow> money_lines_ok (db\<lparr>line_items := t_insert l (line_items db)\<rparr>)"
  by (auto simp: money_lines_ok_def t_get_insert)

definition line_for :: "payment \<Rightarrow> nat \<Rightarrow> int \<Rightarrow> hotel \<Rightarrow> hotel \<Rightarrow> bool" where
  "line_for p pid amount db db' \<longleftrightarrow> payments db' = payments db \<and> (\<forall>i. posted db' i = posted db i + (if i = pid \<and> folio_funded p then amount else 0))
     \<and> (pid < next_id (payments db) \<longrightarrow> money_lines_ok db \<longrightarrow> money_lines_ok db')"

lemma line_for_insert:
  assumes "l_type l = PaymentLine \<or> l_type l = RefundLine" "\<not> l_voided l" "l_payment l = Some pid" "l_amount l = amount" "folio_funded p"
    and "line_items db' = t_insert l (line_items db)" "payments db' = payments db"
  shows "line_for p pid amount db db'"
proof -
  have "posted db' i = posted db i + (if i = pid then amount else 0)" for i
    using posted_insert [of l db i] assms by (simp add: posted_def)
  moreover have "money_lines_ok db'" if "pid < next_id (payments db)" "money_lines_ok db"
    using money_lines_insert [OF that(2) assms(1-3) that(1)] assms(6,7) by (simp add: money_lines_ok_def)
  ultimately show ?thesis using assms(5,7) by (simp add: line_for_def)
qed

lemma line_for_frame:
  assumes "line_for p pid a db db1" "line_items db' = line_items db1" "payments db' = payments db1"
  shows "line_for p pid a db db'"
proof -
  have "posted db' = posted db1" by (rule posted_frame [OF assms(2)])
  moreover have "money_lines_ok db' = money_lines_ok db1" using assms(2,3) by (simp add: money_lines_ok_def)
  ultimately show ?thesis using assms(1,3) unfolding line_for_def by simp
qed

lemma line_for_quiet: "\<not> folio_funded p \<Longrightarrow> line_for p pid a db db"
  by (simp add: line_for_def)

lemma pays_capture_original:
  assumes ok: "pays_ok db" and p: "t_get (payments db) k = Some p" "p_parent p = None" "\<not> settled_status (p_status p)"
    and g: "p_parent (g p) = None" "p_amt (g p) = p_amt p" "p_target (g p) = p_target p" "p_status (g p) = CAPTURED"
    and l: "line_for p k (- p_amt p) (set_payment k g db) db'"
  shows "pays_ok db'"
proof -
  have wf: "t_wf (payments db)" using pays_wf(1) [OF ok] .
  have pd: "payments db' = payments (set_payment k g db)" using l by (simp add: line_for_def)
  have r: "refundedSoFar db' j S = refundedSoFar db j S" for j S
    using refunds_set [OF wf p(1), of g j S] p g refunds_frame [OF pd] by simp
  have po: "posted db' i = posted db i + (if i = k \<and> folio_funded p then - p_amt p else 0)" for i
    using l posted_frame [of "set_payment k g db" db] by (simp add: line_for_def)
  have m: "money_lines_ok db'" using l pays_wf(2) [OF ok] t_get_lt [OF wf p(1)] by (simp add: line_for_def)
  have "posted db' i = expected_posting q \<and> is_refund_ok db' q \<and>
      (p_parent q = None \<longrightarrow> refunds_fit q (captured_refunds db' i) (refunds_in_flight db' i))"
    if q: "t_get (payments db') i = Some q" for i q
  proof (cases "i = k")
    case True
    then have "q = g p" using q p(1) by (simp add: pd set_payment_get)
    moreover have "refunds_fit p (captured_refunds db k) (refunds_in_flight db k)" using pays_okD(3) [OF ok p(1,2)] .
    ultimately show ?thesis
      using True pays_okD(1) [OF ok p(1)] p g po [of k]
      by (auto simp: expected_posting_def is_refund_ok_def refunds_fit_def captured_refunds_def refunds_in_flight_def r settled_status_def folio_funded_def)
  next
    case False
    then have q': "t_get (payments db) i = Some q" using q by (simp add: pd set_payment_get)
    have "is_refund_ok db' q"
      using pays_okD(2) [OF ok q'] p g by (auto simp: is_refund_ok_def pd set_payment_get)
    then show ?thesis
      using pays_okD(1,3) [OF ok q'] po [of i] False by (simp add: captured_refunds_def refunds_in_flight_def r)
  qed
  then show ?thesis using wf m pd by (simp add: pays_ok_def)
qed

text \<open>New payments: an intent, a payment taken at the desk with its line, a reserved refund.\<close>

lemma pays_insert:
  assumes ok: "pays_ok db" and q: "p_parent q = None" "\<not> settled_status (p_status q) \<or> p_status q = CAPTURED"
    and l: "if settled_status (p_status q) then line_for q (next_id (payments db)) (- p_amt q) (db\<lparr>payments := t_insert q (payments db)\<rparr>) db'
       else db' = db\<lparr>payments := t_insert q (payments db)\<rparr>"
  shows "pays_ok db'"
proof -
  let ?n = "next_id (payments db)" and ?db = "db\<lparr>payments := t_insert q (payments db)\<rparr>"
  have wf: "t_wf (payments db)" using pays_wf(1) [OF ok] .
  have pd: "payments db' = t_insert q (payments db)" using l by (auto simp: line_for_def split: if_splits)
  have r: "refundedSoFar db' j S = refundedSoFar db j S" for j S
    using refunds_insert [of q db j S] refunds_frame [of db' ?db] pd q(1) by simp
  have po: "posted db' i = posted db i + (if i = ?n \<and> settled_status (p_status q) \<and> folio_funded q then - p_amt q else 0)" for i
    using l posted_frame [of ?db db] by (auto simp: line_for_def split: if_splits)
  have m0: "money_lines_ok ?db" using pays_wf(2) [OF ok] by (auto simp: money_lines_ok_def intro: less_SucI)
  have m: "money_lines_ok db'" using l m0 by (auto simp: line_for_def split: if_splits)
  have gt: "t_get (payments db') i = (if i = ?n then Some q else t_get (payments db) i)" for i
    using wf by (simp add: pd t_get_insert)
  have "posted db' i = expected_posting x \<and> is_refund_ok db' x \<and>
      (p_parent x = None \<longrightarrow> refunds_fit x (captured_refunds db' i) (refunds_in_flight db' i))"
    if x: "t_get (payments db') i = Some x" for i x
  proof (cases "i = ?n")
    case True
    then show ?thesis
      using x q posted_new [OF ok] refunds_new [OF ok] po [of ?n]
      by (auto simp: gt expected_posting_def is_refund_ok_def refunds_fit_def captured_refunds_def refunds_in_flight_def r settled_status_def)
  next
    case False
    then have x': "t_get (payments db) i = Some x" using x by (simp add: gt)
    have "is_refund_ok db' x" using pays_okD(2) [OF ok x'] t_get_next [OF wf] by (auto simp: is_refund_ok_def gt)
    then show ?thesis
      using pays_okD(1,3) [OF ok x'] po [of i] False by (simp add: captured_refunds_def refunds_in_flight_def r)
  qed
  then show ?thesis using wf m pd by (simp add: pays_ok_def)
qed


text \<open>A refund that is reserved.\<close>

lemma pays_reserve:
  assumes ok: "pays_ok db" and o: "t_get (payments db) oid = Some org" "p_parent org = None"
    "p_status org = CAPTURED \<or> p_status org = PARTIALLY_REFUNDED"
    and q: "p_parent q = Some oid" "p_status q = INITIATED" "0 < p_amt q"
    and room: "captured_refunds db oid + refunds_in_flight db oid + p_amt q \<le> p_amt org"
  shows "pays_ok (db\<lparr>payments := t_insert q (payments db)\<rparr>)" (is "pays_ok ?db")
proof -
  let ?n = "next_id (payments db)"
  have wf: "t_wf (payments db)" using pays_wf(1) [OF ok] .
  have c: "captured_refunds ?db j = captured_refunds db j" for j
    unfolding captured_refunds_def refunds_insert using q by simp
  have f: "refunds_in_flight ?db j = refunds_in_flight db j + (if j = oid then p_amt q else 0)" for j
    unfolding refunds_in_flight_def refunds_insert using q by auto
  have gt: "t_get (payments ?db) i = (if i = ?n then Some q else t_get (payments db) i)" for i
    using wf by (simp add: t_get_insert)
  have no: "oid \<noteq> ?n" using t_get_lt [OF wf o(1)] by simp
  have "posted ?db i = expected_posting x \<and> is_refund_ok ?db x \<and>
      (p_parent x = None \<longrightarrow> refunds_fit x (captured_refunds ?db i) (refunds_in_flight ?db i))"
    if x: "t_get (payments ?db) i = Some x" for i x
  proof (cases "i = ?n")
    case True
    then have x': "x = q" using x gt [of i] by simp
    have "is_refund_ok ?db q" unfolding is_refund_ok_def gt using q o no by auto
    then show ?thesis
      using True q posted_new [OF ok] posted_frame [of ?db db] by (simp add: x' expected_posting_def)
  next
    case False
    then have x': "t_get (payments db) i = Some x" using x gt [of i] by simp
    have "is_refund_ok ?db x" using pays_okD(2) [OF ok x'] t_get_next [OF wf] unfolding is_refund_ok_def gt by auto
    moreover have "refunds_fit x (captured_refunds ?db i) (refunds_in_flight ?db i)" if "p_parent x = None"
      using pays_okD(3) [OF ok x' that] x' o q(3) room unfolding c f by (auto simp: refunds_fit_def split: if_splits)
    ultimately show ?thesis using pays_okD(1) [OF ok x'] posted_frame [of ?db db] by simp
  qed
  moreover have "money_lines_ok ?db" using pays_wf(2) [OF ok] by (auto simp: money_lines_ok_def intro: less_SucI)
  ultimately show ?thesis using wf by (simp add: pays_ok_def)
qed

text \<open>A refund that is booked: its line, its status and the status of the payment it repays change together.\<close>

lemma pays_book_refund:
  assumes ok: "pays_ok db" and o: "t_get (payments db) oid = Some org" "p_parent org = None"
    "p_status org = CAPTURED \<or> p_status org = PARTIALLY_REFUNDED"
    and child: "p_parent child = Some oid" "p_status child = CAPTURED" "0 < p_amt child" "cid \<noteq> oid"
    and gt: "\<And>i. t_get (payments db') i = (if i = oid then Some (org\<lparr>p_status := new\<rparr>)
        else if i = cid then Some child else t_get (payments db) i)"
    and new: "new = (if captured_refunds db oid + p_amt child = p_amt org then REFUNDED else PARTIALLY_REFUNDED)"
    and c: "\<And>j. captured_refunds db' j = captured_refunds db j + (if j = oid then p_amt child else 0)"
    and f: "\<And>j. refunds_in_flight db' j = refunds_in_flight db j - (if j = oid then x else 0)"
    and room: "captured_refunds db oid + refunds_in_flight db oid - x + p_amt child \<le> p_amt org" "0 \<le> refunds_in_flight db oid - x"
    and po: "\<And>i. posted db' i = posted db i + (if i = cid \<and> folio_funded child then p_amt child else 0)" "posted db cid = 0"
    and leaf: "\<And>q. t_get (payments db) cid = Some q \<Longrightarrow> p_parent q \<noteq> None"
    and wf: "t_wf (payments db')" "money_lines_ok db'"
  shows "pays_ok db'"
proof -
  have "posted db' i = expected_posting q \<and> is_refund_ok db' q \<and>
      (p_parent q = None \<longrightarrow> refunds_fit q (captured_refunds db' i) (refunds_in_flight db' i))"
    if q: "t_get (payments db') i = Some q" for i q
  proof -
    consider "i = oid" | "i = cid" | "i \<noteq> oid" "i \<noteq> cid" by blast
    then show ?thesis
    proof cases
      case 1
      then have q': "q = org\<lparr>p_status := new\<rparr>" using q by (simp add: gt)
      have "expected_posting q = expected_posting org"
        using o(3) new by (auto simp: q' expected_posting_def folio_funded_def)
      moreover have "refunds_fit q (captured_refunds db' i) (refunds_in_flight db' i)"
        using pays_okD(3) [OF ok o(1,2)] o(3) room child(3) unfolding 1 c f
        by (auto simp: q' new refunds_fit_def)
      ultimately show ?thesis
        using pays_okD(1) [OF ok o(1)] po(1) [of i] 1 child(4) o(2) by (simp add: q' is_refund_ok_def)
    next
      case 2
      then have q': "q = child" using q child(4) by (simp add: gt)
      show ?thesis
        using 2 po(1) [of cid] po(2) child o by (auto simp: q' expected_posting_def is_refund_ok_def gt)
    next
      case 3
      then have q': "t_get (payments db) i = Some q" using q by (simp add: gt)
      have "is_refund_ok db' q" using pays_okD(2) [OF ok q'] leaf o by (fastforce simp: is_refund_ok_def gt)
      then show ?thesis using pays_okD(1,3) [OF ok q'] po(1) [of i] 3 by (simp add: c f)
    qed
  qed
  then show ?thesis using wf by (simp add: pays_ok_def)
qed


section \<open>Every operation keeps the payments right\<close>

definition money_ok :: "hotel \<Rightarrow> bool" where
  "money_ok db \<longleftrightarrow> books_ok db \<and> pays_ok db"

lemma money_ok_wf: "money_ok db \<Longrightarrow> t_wf (folios db)" "money_ok db \<Longrightarrow> t_wf (line_items db)" "money_ok db \<Longrightarrow> t_wf (payments db)"
  by (auto simp: money_ok_def pays_wf)

lemma books_post_money:
  assumes "books_ok db" "t_get (folios db) fid \<noteq> None" "l_folio l = fid" "l_type l = PaymentLine \<or> l_type l = RefundLine"
  shows "books_ok (recomputeFolioBalance fid (db\<lparr>line_items := t_insert l (line_items db)\<rparr>))"
proof -
  have "books_but {fid} db" using assms(1) by (rule books_mono) simp
  then have "books_but {fid} (db\<lparr>line_items := t_insert l (line_items db)\<rparr>)" using assms(2-4) by (intro books_insert_line) auto
  then show ?thesis by (rule books_recompute)
qed

lemma books_set_payment: "books_ok db \<Longrightarrow> books_ok (set_payment k g db)"
  by (erule books_frame [rotated 2]) simp_all

text \<open>Posting a money line through the shared routine.\<close>

lemma post_gateway_line_effect:
  assumes "post_gateway_line pid snap db = Inr db'" "books_ok db" "folio_funded p"
  shows "books_ok db' \<and> line_for p pid (- p_amt snap) db db'"
proof -
  have wf: "t_wf (folios db)" using assms(2) by simp
  obtain fid f i db1 where f: "t_get (folios db) fid = Some f"
    and i: "insert_line (business_date db) (payment_line fid ''Paystack payment'' ''paystack'' (p_amt snap) (p_currency snap) pid) db = Inr (i, db1)"
    and db': "db' = recomputeFolioBalance fid db1"
    using assms(1) wf by (auto simp: post_gateway_line_def rbind_eq_Inr split: option.splits)
  obtain d where d: "db1 = db\<lparr>line_items := t_insert (payment_line fid ''Paystack payment'' ''paystack'' (p_amt snap) (p_currency snap) pid d) (line_items db)\<rparr>"
    using insert_line_InrD [OF i] by auto
  have "books_ok db'" unfolding db' d by (rule books_post_money [OF assms(2)]) (simp_all add: f payment_line_def)
  moreover have "line_for p pid (- p_amt snap) db db'"
    by (rule line_for_insert [where l = "payment_line fid ''Paystack payment'' ''paystack'' (p_amt snap) (p_currency snap) pid d"])
      (simp_all add: assms(3) db' d payment_line_def)
  ultimately show ?thesis by simp
qed

lemma post_refund_line_effect:
  assumes "post_refund_line fid desc m a cur pid db = Inr db'" "books_ok db" "folio_funded p"
  shows "books_ok db' \<and> line_for p pid a db db'"
proof -
  have wf: "t_wf (folios db)" using assms(2) by simp
  obtain k f i db1 where f: "t_get (folios db) k = Some f"
    and i: "insert_line (business_date db) (refund_line k desc m a cur pid) db = Inr (i, db1)"
    and db': "db' = recomputeFolioBalance k db1"
    using assms(1) wf by (auto simp: post_refund_line_def rbind_eq_Inr split: option.splits)
  obtain d where d: "db1 = db\<lparr>line_items := t_insert (refund_line k desc m a cur pid d) (line_items db)\<rparr>"
    using insert_line_InrD [OF i] by auto
  have "books_ok db'" unfolding db' d by (rule books_post_money [OF assms(2)]) (simp_all add: f refund_line_def)
  moreover have "line_for p pid a db db'"
    by (rule line_for_insert [where l = "refund_line k desc m a cur pid d"]) (simp_all add: assms(3) db' d refund_line_def)
  ultimately show ?thesis by simp
qed

text \<open>Conditional updates of one payment.\<close>

lemma set_payment_where:
  assumes "t_get (payments db) k = Some p"
  shows "db\<lparr>payments := t_update (\<lambda>i p. i = k \<and> Q p) f (payments db)\<rparr> = set_payment k (\<lambda>p. if Q p then f p else p) db"
  by (simp add: set_payment_def t_update_where)

lemma t_update_none:
  assumes "t_wf t" "t_get t k = None"
  shows "t_update (\<lambda>i r. i = k \<and> Q r) f t = t"
proof -
  have "(i, r) \<in> set (rows t) \<Longrightarrow> i \<noteq> k" for i r using assms by (auto simp: rows_get)
  then have "map (\<lambda>(i, r). (i, if i = k \<and> Q r then f r else r)) (rows t) = rows t" by (intro map_idI) auto
  then show ?thesis by (simp add: t_update_def)
qed

lemma set_payment_same:
  assumes "t_wf (payments db)" "t_get (payments db) k = Some p" "g p = p"
  shows "set_payment k g db = db"
proof -
  have "(i, r) \<in> set (rows (payments db)) \<Longrightarrow> i = k \<Longrightarrow> r = p" for i r using assms(1,2) by (simp add: rows_get)
  then have "map (\<lambda>(i, r). (i, if i = k then g r else r)) (rows (payments db)) = rows (payments db)"
    by (intro map_idI) (use assms(3) in auto)
  then show ?thesis by (simp add: set_payment_def t_update_def)
qed

text \<open>A payment of the hotel that is no refund, as some caller read it before.\<close>

definition same_intent :: "payment \<Rightarrow> payment \<Rightarrow> bool" where
  "same_intent snap p \<longleftrightarrow> p_folio snap = p_folio p \<and> p_target snap = p_target p \<and> p_amt snap = p_amt p \<and> p_parent p = None"

lemma not_terminal_not_settled: "\<not> terminal_status s \<Longrightarrow> \<not> settled_status s"
  by (auto simp: terminal_status_def settled_status_def)

lemma money_gateway_failed:
  assumes ok: "money_ok db" and p: "t_get (payments db) pid = Some p" "p_parent p = None"
    and st: "st \<noteq> ''success''" "\<not> terminal_status (p_status snap)" and run: "applyGatewayResult h pid snap st prov db = Inr db'"
  shows "money_ok db'"
proof -
  have wf: "t_wf (payments db)" and b: "books_ok db" and y: "pays_ok db"
    using ok money_ok_wf by (auto simp: money_ok_def)
  define g :: "payment \<Rightarrow> payment" where "g = (\<lambda>q. if \<not> terminal_status (p_status q) then q\<lparr>p_status := FAILED,
    p_failure := Some (''Gateway reported status '' @ [CHR 0x22] @ st @ [CHR 0x22, CHR 0x2E]),
    p_provider_payment := or_else prov (p_provider_payment snap)\<rparr> else q)"
  have upd: "db\<lparr>payments := t_update (\<lambda>i q. i = pid \<and> \<not> terminal_status (p_status q)) (\<lambda>q. q\<lparr>p_status := FAILED,
      p_failure := Some (''Gateway reported status '' @ [CHR 0x22] @ st @ [CHR 0x22, CHR 0x2E]),
      p_provider_payment := or_else prov (p_provider_payment snap)\<rparr>) (payments db)\<rparr> = set_payment pid g db"
    unfolding t_update_where set_payment_def g_def ..
  have db': "db' = set_payment pid g db"
    using run st unfolding applyGatewayResult_def Let_def upd by simp
  show ?thesis
  proof (cases "terminal_status (p_status p)")
    case True
    then have "g p = p" by (simp add: g_def)
    then show ?thesis using set_payment_same [OF wf p(1)] ok db' by simp
  next
    case nt: False
    have "pays_ok db'" unfolding db'
      by (rule pays_relabel_original [OF y p not_terminal_not_settled [OF nt]]) (simp_all add: g_def nt p(2))
    then show ?thesis using books_set_payment [OF b] db' by (simp add: money_ok_def)
  qed
qed

lemma money_capture:
  assumes ok: "money_ok db" and p: "t_get (payments db) pid = Some p" "same_intent snap p" "\<not> settled_status (p_status p)"
    and tgt: "p_target p \<noteq> ''pos_order''" "p_target p \<noteq> ''supermarket_sale''"
    and g: "p_parent (g p) = None" "p_amt (g p) = p_amt p" "p_target (g p) = p_target p" "p_status (g p) = CAPTURED"
    and run: "(if p_target p = ''pos_register'' then Inr (set_payment pid g db)
       else post_gateway_line pid snap (set_payment pid g db)) = Inr db'"
  shows "money_ok db'"
proof -
  have b: "books_ok (set_payment pid g db)" and y: "pays_ok db"
    using ok books_set_payment by (auto simp: money_ok_def)
  have par: "p_parent p = None" and amt: "p_amt snap = p_amt p" using p(2) by (simp_all add: same_intent_def)
  note cap = pays_capture_original [of db pid p g db', OF y p(1) par p(3) g]
  show ?thesis
  proof (cases "p_target p = ''pos_register''")
    case True
    have "line_for p pid (- p_amt p) (set_payment pid g db) (set_payment pid g db)"
      by (rule line_for_quiet) (simp add: folio_funded_def is_pos_target_def True)
    then show ?thesis using cap b run True by (simp add: money_ok_def)
  next
    case False
    then have "folio_funded p" using tgt by (simp add: folio_funded_def is_pos_target_def)
    then show ?thesis
      using post_gateway_line_effect [OF _ b, of pid snap db' p] run False cap amt by (simp add: money_ok_def)
  qed
qed

lemma money_gateway_success:
  assumes ok: "money_ok db" and p: "t_get (payments db) pid = Some p" "same_intent snap p"
    and tgt: "p_target p \<noteq> ''pos_order''" "p_target p \<noteq> ''supermarket_sale''"
    and nt: "\<not> (terminal_status (p_status snap) \<and> \<not> late_capture snap ''success'')"
    and run: "applyGatewayResult h pid snap ''success'' prov db = Inr db'"
  shows "money_ok db'"
proof -
  define late where "late = late_capture snap ''success''"
  let ?free = "\<lambda>q. \<not> (terminal_status (p_status q) \<and> \<not> (late \<and> p_status q = CANCELLED))"
  define g :: "payment \<Rightarrow> payment" where "g = (\<lambda>q. if ?free q then q\<lparr>p_status := CAPTURED,
    p_provider_payment := or_else prov (p_provider_payment snap),
    p_failure := (if late then Some (late_reason (p_target snap)) else p_failure q)\<rparr> else q)"
  have cl: "claimable pid late = (\<lambda>i q. i = pid \<and> ?free q)" by (simp add: claimable_def fun_eq_iff)
  have t: "p_target snap = p_target p" using p(2) by (simp add: same_intent_def)
  have upd: "db\<lparr>payments := t_update (claimable pid late) (\<lambda>q. q\<lparr>p_status := CAPTURED, p_provider_payment := or_else prov (p_provider_payment snap),
      p_failure := (if late then Some (late_reason (p_target snap)) else p_failure q)\<rparr>) (payments db)\<rparr> = set_payment pid g db"
    unfolding cl t_update_where set_payment_def g_def ..
  show ?thesis
  proof (cases "t_select (claimable pid late) (payments db) = []")
    case True
    then show ?thesis using run nt ok by (simp add: applyGatewayResult_def Let_def late_def)
  next
    case False
    then obtain i q where "(i, q) \<in> set (t_select (claimable pid late) (payments db))"
      by (metis list.set_intros(1) neq_Nil_conv surj_pair)
    then have c: "?free p" using p(1) t_select_set [OF money_ok_wf(3) [OF ok]] by (auto simp: claimable_def)
    have ns: "\<not> settled_status (p_status p)" using c by (auto simp: terminal_status_def settled_status_def)
    have "(if p_target p = ''pos_register'' then Inr (set_payment pid g db)
       else post_gateway_line pid snap (set_payment pid g db)) = Inr db'"
      using run nt False tgt unfolding applyGatewayResult_def Let_def late_def [symmetric] upd by (simp add: t split: if_splits)
    then show ?thesis
      by (rule money_capture [OF ok p ns tgt, rotated 4]) (use c p(2) in \<open>simp_all add: g_def same_intent_def\<close>)
  qed
qed

lemma money_gateway:
  assumes ok: "money_ok db" and p: "t_get (payments db) pid = Some p" "same_intent snap p"
    and tgt: "p_target p \<noteq> ''pos_order''" "p_target p \<noteq> ''supermarket_sale''"
    and run: "applyGatewayResult h pid snap st prov db = Inr db'"
  shows "money_ok db'"
proof -
  consider "terminal_status (p_status snap) \<and> \<not> late_capture snap st" | "st = ''success''" "\<not> (terminal_status (p_status snap) \<and> \<not> late_capture snap st)"
    | "st \<noteq> ''success''" "\<not> terminal_status (p_status snap)"
    by (auto simp: late_capture_def)
  then show ?thesis
  proof cases
    case 1
    then show ?thesis using run ok by (simp add: applyGatewayResult_def Let_def)
  next
    case 2
    then show ?thesis using money_gateway_success [OF ok p tgt] run by simp
  next
    case 3
    then show ?thesis using money_gateway_failed [OF ok p(1)] p(2) run by (simp add: same_intent_def)
  qed
qed


text \<open>Intents and what happens to them short of money.\<close>

lemma money_insert_intent:
  assumes "money_ok db" "insert_payment q db = Inr (i, db')" "p_parent q = None" "\<not> settled_status (p_status q)"
  shows "money_ok db'"
proof -
  have db': "db' = db\<lparr>payments := t_insert q (payments db)\<rparr>" using insert_payment_InrD [OF assms(2)] by simp
  have "pays_ok db'" by (rule pays_insert [of db q]) (use assms db' in \<open>simp_all add: money_ok_def\<close>)
  moreover have "books_ok db'" using assms(1) by (simp add: db' money_ok_def books_payments_frame)
  ultimately show ?thesis by (simp add: money_ok_def)
qed

lemma money_intent:
  assumes "money_ok db" "initiatePaystackPaymentIntent env now ref fid amount cur key re db = Inr (x, db')"
  shows "money_ok db'"
  using assms
  by (auto simp: initiatePaystackPaymentIntent_def rbind_eq_Inr Let_def payment_row_def split: option.split_asm if_split_asm
      intro: money_insert_intent)

lemma money_order_intent:
  "money_ok db \<Longrightarrow> initiatePosOrderPaystackPaymentIntent now ref oid a cur key db = Inr (i, db') \<Longrightarrow> money_ok db'"
  "money_ok db \<Longrightarrow> initiatePosRegisterPaymentIntent now ref oid a cur key db = Inr (i, db') \<Longrightarrow> money_ok db'"
  by (auto simp: initiatePosOrderPaystackPaymentIntent_def initiatePosRegisterPaymentIntent_def order_payment_def
      split: option.splits if_splits intro: money_insert_intent)

text \<open>Any payment in flight may change its status to another that moves no money: an original freely, a refund to PENDING or FAILED.\<close>

lemma money_relabel:
  assumes ok: "money_ok db" and p: "t_get (payments db) k = Some p" "in_flight (p_status p)"
    and g: "p_parent (g p) = p_parent p" "p_amt (g p) = p_amt p" "p_target (g p) = p_target p" "\<not> settled_status (p_status (g p))"
    and s: "p_parent p = None \<or> in_flight (p_status (g p)) \<or> p_status (g p) = FAILED"
  shows "money_ok (set_payment k g db)"
proof -
  have y: "pays_ok db" and b: "books_ok db" using ok by (simp_all add: money_ok_def)
  have "pays_ok (set_payment k g db)"
  proof (cases "p_parent p")
    case None
    then show ?thesis using pays_relabel_original [OF y p(1) None in_flight_not_settled(1) [OF p(2)]] g by simp
  next
    case (Some oid)
    then show ?thesis using pays_relabel_refund [OF y p(1) Some p(2)] g s by simp
  qed
  then show ?thesis using books_set_payment [OF b] by (simp add: money_ok_def)
qed

lemma money_relabel_where:
  assumes ok: "money_ok db"
    and f: "\<And>p. t_get (payments db) k = Some p \<Longrightarrow> in_flight (p_status p) \<Longrightarrow> p_parent (f p) = p_parent p \<and> p_amt (f p) = p_amt p
        \<and> p_target (f p) = p_target p \<and> \<not> settled_status (p_status (f p))
        \<and> (p_parent p = None \<or> in_flight (p_status (f p)) \<or> p_status (f p) = FAILED)"
  shows "money_ok (db\<lparr>payments := t_update (\<lambda>i p. i = k \<and> in_flight (p_status p)) f (payments db)\<rparr>)"
proof (cases "t_get (payments db) k")
  case None
  then show ?thesis using t_update_none [OF money_ok_wf(3) [OF ok]] ok by simp
next
  case (Some p)
  define g where "g = (\<lambda>p. if in_flight (p_status p) then f p else p)"
  have e: "db\<lparr>payments := t_update (\<lambda>i p. i = k \<and> in_flight (p_status p)) f (payments db)\<rparr> = set_payment k g db"
    unfolding t_update_where set_payment_def g_def ..
  show ?thesis
  proof (cases "in_flight (p_status p)")
    case True
    then show ?thesis unfolding e using f [OF Some True] by (intro money_relabel [OF ok Some True]) (simp_all add: g_def)
  next
    case False
    then have "g p = p" by (simp add: g_def)
    then show ?thesis unfolding e using set_payment_same [OF money_ok_wf(3) [OF ok] Some] ok by simp
  qed
qed

lemma money_close:
  assumes "money_ok db" "t_get (payments db) pid = Some p" "p_parent p = None"
  shows "money_ok (closePaymentUnknownToGateway pid db)"
  unfolding closePaymentUnknownToGateway_def using assms by (intro money_relabel_where) auto

lemma money_unknown: "money_ok db \<Longrightarrow> money_ok (flagRefundOutcomeUnknown iid msg db)"
  unfolding flagRefundOutcomeUnknown_def by (rule money_relabel_where) auto

lemma money_refused: "money_ok db \<Longrightarrow> money_ok (refund_refused iid msg key db)"
  unfolding refund_refused_def by (rule money_relabel_where) auto

lemma money_checkout:
  assumes ok: "money_ok db" and run: "startPaystackCheckout gw al re pid db = Inr (x, db')"
  shows "money_ok db'"
proof -
  obtain p where p: "t_get (payments db) pid = Some p" using run by (auto simp: startPaystackCheckout_def split: option.splits)
  show ?thesis
  proof (cases "p_status p = INITIATED")
    case True
    then obtain code acc where db': "db' = set_payment pid (\<lambda>p. p\<lparr>p_status := PENDING, p_access_code := acc, p_subaccount := Some code\<rparr>) db"
      using run p by (auto simp: startPaystackCheckout_def set_payment_def split: option.split_asm if_split_asm sum.split_asm)
    show ?thesis unfolding db' by (rule money_relabel [OF ok p]) (simp_all add: True)
  next
    case False
    then show ?thesis using run p ok by (simp add: startPaystackCheckout_def Let_def)
  qed
qed

lemma money_frame:
  "folios db' = folios db \<Longrightarrow> line_items db' = line_items db \<Longrightarrow> payments db' = payments db \<Longrightarrow> money_ok db' = money_ok db"
  using pays_frame [of db' db] books_frame [of db' db "{}"] books_frame [of db db' "{}"] by (auto simp: money_ok_def)

section \<open>Refunds\<close>

lemma reserving_split: "refundedSoFar db i reserving = captured_refunds db i + refunds_in_flight db i"
proof -
  have "refundedSoFar db i reserving =
      t_total (\<lambda>_ q. (p_parent q = Some i \<and> reserving (p_status q)) \<and> p_status q = CAPTURED) p_amt (payments db)
    + t_total (\<lambda>_ q. (p_parent q = Some i \<and> reserving (p_status q)) \<and> \<not> p_status q = CAPTURED) p_amt (payments db)"
    unfolding refundedSoFar_def by (rule t_total_split)
  moreover have "t_total (\<lambda>_ q. (p_parent q = Some i \<and> reserving (p_status q)) \<and> p_status q = CAPTURED) p_amt (payments db) = captured_refunds db i"
    unfolding captured_refunds_def refundedSoFar_def by (rule t_total_cong) (auto simp: reserving_def)
  moreover have "t_total (\<lambda>_ q. (p_parent q = Some i \<and> reserving (p_status q)) \<and> \<not> p_status q = CAPTURED) p_amt (payments db) = refunds_in_flight db i"
    unfolding refunds_in_flight_def refundedSoFar_def by (rule t_total_cong) (auto simp: reserving_def in_flight_def)
  ultimately show ?thesis by simp
qed

lemma lockRefundable_InrD:
  assumes "lockRefundablePayment pid supplied db = Inr (org, amount)" "\<And>a. supplied = Some a \<Longrightarrow> 0 < a"
  shows "t_get (payments db) pid = Some org" "p_status org = CAPTURED \<or> p_status org = PARTIALLY_REFUNDED" "0 < amount"
    "captured_refunds db pid + refunds_in_flight db pid + amount \<le> p_amt org"
    "supplied = None \<Longrightarrow> captured_refunds db pid + refunds_in_flight db pid + amount = p_amt org"
  using assms
  by (auto simp: lockRefundablePayment_def Let_def reserving_split split: option.split_asm if_split_asm)

lemma ensure_frame [simp]:
  "folios (snd (ensureRefundReconciliation i r db)) = folios db" "line_items (snd (ensureRefundReconciliation i r db)) = line_items db"
  "payments (snd (ensureRefundReconciliation i r db)) = payments db" "business_date (snd (ensureRefundReconciliation i r db)) = business_date db"
  by (simp_all add: ensureRefundReconciliation_def split: option.splits)

lemma money_reserve:
  assumes ok: "money_ok db" and run: "reserve_refund approve now ref False pid supplied reason key db = Inr (x, db')"
    and sup: "\<And>a. supplied = Some a \<Longrightarrow> 0 < a" and o: "\<And>p. t_get (payments db) pid = Some p \<Longrightarrow> p_parent p = None"
  shows "money_ok db'"
proof -
  obtain org amount i q db1 where l: "lockRefundablePayment pid supplied db = Inr (org, amount)"
    and ins: "insert_payment q db = Inr (i, db1)" and q: "p_parent q = Some pid" "p_status q = INITIATED" "p_amt q = amount"
    and db': "db' = snd (ensureRefundReconciliation i reason db1)"
    using run by (fastforce simp: reserve_refund_def rbind_eq_Inr)
  note L = lockRefundable_InrD [OF l sup]
  have db1: "db1 = db\<lparr>payments := t_insert q (payments db)\<rparr>" using insert_payment_InrD [OF ins] by simp
  have "pays_ok db1" unfolding db1
    by (rule pays_reserve [OF _ L(1) o [OF L(1)] L(2)]) (use ok q L in \<open>simp_all add: money_ok_def\<close>)
  then have "money_ok db1" using ok by (simp add: money_ok_def db1 books_payments_frame)
  then show ?thesis using money_frame [of db' db1] by (simp add: db')
qed


lemma copy_terminal_frame [simp]:
  "folios (copy_terminal_detail a b db) = folios db" "line_items (copy_terminal_detail a b db) = line_items db"
  "payments (copy_terminal_detail a b db) = payments db"
  by (simp_all add: copy_terminal_detail_def split: option.splits)

lemma nonneg_in_flight:
  assumes "pays_ok db"
  shows "0 \<le> refunds_in_flight db i"
  unfolding refunds_in_flight_def refundedSoFar_def
proof (rule t_total_nonneg)
  fix j r assume "(j, r) \<in> set (rows (payments db))" "p_parent r = Some i \<and> in_flight (p_status r)"
  then have "is_refund_ok db r" "p_parent r = Some i" using pays_okD(2) [OF assms] by (auto simp: rows_get pays_wf(1) [OF assms])
  then show "0 \<le> p_amt r" by (auto simp: is_refund_ok_def)
qed

text \<open>Status of an original: its own refunds are not counted among anybody's.\<close>

lemma refunds_set_original:
  assumes "t_wf (payments db)" "t_get (payments db) k = Some p" "p_parent p = None"
  shows "refundedSoFar (set_payment k (\<lambda>p. p\<lparr>p_status := s\<rparr>) db) j S = refundedSoFar db j S"
  using refunds_set [OF assms(1,2), of "\<lambda>p. p\<lparr>p_status := s\<rparr>" j S] assms(3) by simp

lemma money_desk:
  assumes ok: "money_ok db" and run: "refund_at_desk approve now ref pid supplied key db = Inr (rid, db')"
    and sup: "\<And>a. supplied = Some a \<Longrightarrow> 0 < a" and o: "\<And>p. t_get (payments db) pid = Some p \<Longrightarrow> p_parent p = None"
  shows "money_ok db'"
proof -
  obtain org amount db1 db2 where l: "lockRefundablePayment pid supplied db = Inr (org, amount)"
    and ins: "insert_payment (desk_refund org pid amount key ref now) db = Inr (rid, db1)"
    and post: "post_refund_line (p_folio org) (desk_refund_text org pid) (p_provider org) amount (p_currency org) rid db1 = Inr db2"
    and run': "db' = set_payment pid (\<lambda>p. p\<lparr>p_status := (if refundedSoFar db pid (\<lambda>s. s = CAPTURED) + amount = p_amt org
        then REFUNDED else PARTIALLY_REFUNDED)\<rparr>) (if p_provider org = ''terminal'' then copy_terminal_detail pid rid db2 else db2)"
    using run by (auto simp: refund_at_desk_def rbind_eq_Inr Let_def)
  define q where "q = desk_refund org pid amount key ref now"
  have q: "p_parent q = Some pid" "p_status q = CAPTURED" "p_amt q = amount" "p_target q = ''folio''"
    by (simp_all add: q_def desk_refund_def)
  define db3 where "db3 = (if p_provider org = ''terminal'' then copy_terminal_detail pid rid db2 else db2)"
  note db' = run' [folded db3_def]
  note L = lockRefundable_InrD [OF l sup]
  have par: "p_parent org = None" by (rule o [OF L(1)])
  have y: "pays_ok db" and b: "books_ok db" using ok by (simp_all add: money_ok_def)
  have wf: "t_wf (payments db)" by (rule money_ok_wf(3) [OF ok])
  have db1: "db1 = db\<lparr>payments := t_insert q (payments db)\<rparr>" "rid = next_id (payments db)" using insert_payment_InrD [OF ins] by (simp_all add: q_def)
  have b1: "books_ok db1" using b by (simp add: db1 books_payments_frame)
  have ff: "folio_funded q" by (simp add: folio_funded_def is_pos_target_def q(4))
  have e: "books_ok db2" "line_for q rid amount db1 db2" using post_refund_line_effect [OF post b1 ff] by simp_all
  have fr0: "payments db3 = payments db2" "line_items db3 = line_items db2" "folios db3 = folios db2" by (simp_all add: db3_def)
  have fr: "payments db3 = payments db1" "line_items db3 = line_items db2" "folios db3 = folios db2" "line_for q rid amount db1 db3"
    using fr0 line_for_frame [OF e(2) fr0(2,1)] by (simp_all add: line_for_def)
  have b3: "books_ok db3" using books_frame [OF fr(3,2) e(1)] .
  have no: "rid \<noteq> pid" using t_get_lt [OF wf L(1)] db1(2) by simp
  have g1: "t_get (payments db3) i = (if i = rid then Some q else t_get (payments db) i)" for i
    using wf unfolding fr(1) by (simp add: db1 t_get_insert)
  have wf3: "t_wf (payments db3)" unfolding fr(1) using wf by (simp add: db1(1))
  have r: "refundedSoFar db' j S = refundedSoFar db j S + (if p_parent q = Some j \<and> S (p_status q) then p_amt q else 0)" for j S
  proof -
    have "t_get (payments db3) pid = Some org" using g1 no L(1) by simp
    then have "refundedSoFar db' j S = refundedSoFar db3 j S" unfolding db' by (rule refunds_set_original [OF wf3 _ par])
    also have "\<dots> = refundedSoFar db1 j S" using refunds_frame [OF fr(1)] by simp
    finally show ?thesis by (simp add: db1(1) refunds_insert)
  qed
  have "pays_ok db'"
  proof (rule pays_book_refund [OF y L(1) par L(2), where child = q and cid = rid and x = 0])
    show "t_get (payments db') i = (if i = pid then Some (org\<lparr>p_status := (if captured_refunds db pid + p_amt q = p_amt org then REFUNDED else PARTIALLY_REFUNDED)\<rparr>)
        else if i = rid then Some q else t_get (payments db) i)" for i
      using no L(1) q(3) unfolding db' set_payment_get g1 by (simp add: captured_refunds_def)
    show "captured_refunds db' j = captured_refunds db j + (if j = pid then p_amt q else 0)" for j
      using q(1,2) by (auto simp: captured_refunds_def r)
    show "refunds_in_flight db' j = refunds_in_flight db j - (if j = pid then 0 else 0)" for j
      using q(1,2) by (auto simp: refunds_in_flight_def r)
    show "posted db' i = posted db i + (if i = rid \<and> folio_funded q then p_amt q else 0)" for i
      proof -
      have "posted db' i = posted db3 i" "posted db1 i = posted db i"
        using posted_frame [of db' db3] posted_frame [of db1 db] unfolding db' db1(1) by simp_all
      then show ?thesis using fr(4) ff q(3) unfolding line_for_def by simp
    qed
    show "t_wf (payments db')" using wf3 by (simp add: db')
    have "money_lines_ok db1" using pays_wf(2) [OF y] by (auto simp: db1 money_lines_ok_def intro: less_SucI)
    then show "money_lines_ok db'" using fr(4) by (simp add: db' line_for_def db1)
  qed (use L q no nonneg_in_flight [OF y] posted_new [OF y] wf db1(2) in \<open>simp_all add: captured_refunds_def\<close>)
  then show ?thesis using books_set_payment [OF b3] by (simp add: money_ok_def db')
qed


lemma stamp_frame [simp]:
  "folios (stampRefundBusinessDate i db) = folios db" "line_items (stampRefundBusinessDate i db) = line_items db"
  "payments (stampRefundBusinessDate i db) = payments db"
  by (simp_all add: stampRefundBusinessDate_def ensureRefundReconciliation_def Let_def split: option.splits prod.splits)

text \<open>What a refund in flight says of the payment it repays: it is still refundable.\<close>

lemma in_flight_original:
  assumes "pays_ok db" "t_get (payments db) k = Some q" "p_parent q = Some oid" "in_flight (p_status q)" "t_get (payments db) oid = Some org"
  shows "p_parent org = None" "p_status org = CAPTURED \<or> p_status org = PARTIALLY_REFUNDED"
    "captured_refunds db oid + refunds_in_flight db oid \<le> p_amt org" "k \<noteq> oid"
proof -
  show par: "p_parent org = None" using pays_okD(2) [OF assms(1,2)] assms(3,5) by (auto simp: is_refund_ok_def)
  have pos: "0 < refunds_in_flight db oid" using in_flight_part [OF assms(1-4)] by simp
  have fit: "refunds_fit org (captured_refunds db oid) (refunds_in_flight db oid)" by (rule pays_okD(3) [OF assms(1,5) par])
  show "p_status org = CAPTURED \<or> p_status org = PARTIALLY_REFUNDED" "captured_refunds db oid + refunds_in_flight db oid \<le> p_amt org"
    using fit pos by (auto simp: refunds_fit_def split: if_splits)
  show "k \<noteq> oid" using par assms(2,3,5) by auto
qed

lemma money_processed:
  assumes ok: "money_ok db" and q: "t_get (payments db) iid = Some intent" "p_parent intent = Some oid" "in_flight (p_status intent)"
    and o: "t_get (payments db) oid = Some org" and tgt: "folio_funded intent"
    and g: "p_parent (g intent) = Some oid" "p_amt (g intent) = p_amt intent" "p_target (g intent) = p_target intent" "p_status (g intent) = CAPTURED"
    and run: "applyProcessedRefundEffects h iid intent oid org reason (set_payment iid g db) = Inr db'"
  shows "money_ok db'"
proof -
  let ?c = "g intent" and ?a = "p_amt intent" and ?db1 = "set_payment iid g db"
  have y: "pays_ok db" and b: "books_ok db" using ok by (simp_all add: money_ok_def)
  have wf: "t_wf (payments db)" by (rule money_ok_wf(3) [OF ok])
  note O = in_flight_original [OF y q o]
  note P = in_flight_part [OF y q]
  have cap1: "refundedSoFar ?db1 oid (\<lambda>s. s = CAPTURED) = captured_refunds db oid + ?a"
    unfolding captured_refunds_def using refunds_set [OF wf q(1), of g oid "\<lambda>s. s = CAPTURED"] q g in_flight_not_settled(2) [OF q(3)] by simp
  let ?new = "if captured_refunds db oid + p_amt ?c = p_amt org then REFUNDED else PARTIALLY_REFUNDED"
  obtain db2 where post: "post_refund_line (p_folio org) (''Paystack refund of payment '' @ show_nat oid) ''paystack'' ?a (p_currency org) iid ?db1 = Inr db2"
    and db': "db' = set_payment oid (\<lambda>p. p\<lparr>p_status := ?new\<rparr>) db2"
    using run tgt unfolding applyProcessedRefundEffects_def Let_def cap1 by (auto simp: rbind_eq_Inr folio_funded_def g(2))
  have b1: "books_ok ?db1" by (rule books_set_payment [OF b])
  have ff: "folio_funded ?c" using tgt g(3) by (simp add: folio_funded_def)
  have e: "books_ok db2" "line_for ?c iid ?a ?db1 db2" using post_refund_line_effect [OF post b1 ff] by simp_all
  have pd: "payments db2 = payments ?db1" using e(2) by (simp add: line_for_def)
  have g1: "t_get (payments db2) i = (if i = iid then Some ?c else t_get (payments db) i)" for i
    using q(1) unfolding pd set_payment_get by simp
  have wf2: "t_wf (payments db2)" unfolding pd using wf by simp
  have o2: "t_get (payments db2) oid = Some org" using g1 O(4) o by simp
  have r: "refundedSoFar db' j S = refundedSoFar ?db1 j S" for j S
    unfolding db' refunds_set_original [OF wf2 o2 O(1)] using refunds_frame [OF pd] by simp
  have "pays_ok db'"
  proof (rule pays_book_refund [OF y o O(1,2), where child = ?c and cid = iid and x = ?a])
    show "t_get (payments db') i = (if i = oid then Some (org\<lparr>p_status := ?new\<rparr>) else if i = iid then Some ?c else t_get (payments db) i)" for i
      using O(4) o unfolding db' set_payment_get g1 by simp
    show "captured_refunds db' j = captured_refunds db j + (if j = oid then p_amt ?c else 0)" for j
      using refunds_set [OF wf q(1), of g j "\<lambda>s. s = CAPTURED"] q g in_flight_not_settled(2) [OF q(3)] unfolding captured_refunds_def r by auto
    show "refunds_in_flight db' j = refunds_in_flight db j - (if j = oid then ?a else 0)" for j
      using refunds_set [OF wf q(1), of g j in_flight] q g unfolding refunds_in_flight_def r by auto
    show "posted db' i = posted db i + (if i = iid \<and> folio_funded ?c then p_amt ?c else 0)" for i
    proof -
      have "posted db' i = posted db2 i" "posted ?db1 i = posted db i"
        using posted_frame [of db' db2] posted_frame [of ?db1 db] unfolding db' by simp_all
      then show ?thesis using e(2) ff g(2) unfolding line_for_def by simp
    qed
    show "posted db iid = 0" using pays_okD(1) [OF y q(1)] in_flight_not_settled(1) [OF q(3)] by (simp add: expected_posting_def)
    show "t_wf (payments db')" using wf2 by (simp add: db')
    show "money_lines_ok db'" using e(2) pays_wf(2) [OF y] t_get_lt [OF wf q(1)] by (simp add: db' line_for_def)
  qed (use O P q g in auto)
  then show ?thesis using books_set_payment [OF e(1)] by (simp add: money_ok_def db')
qed

lemma money_settle:
  assumes ok: "money_ok db" and tgt: "\<And>p. t_get (payments db) iid = Some p \<Longrightarrow> folio_funded p"
    and run: "settleRefundIntent h iid oc rid reason fr db = Inr (x, db')"
  shows "money_ok db'"
proof -
  consider (quiet) "db' = db"
    | (live) intent oid org where "t_get (payments db) iid = Some intent" "p_parent intent = Some oid"
        "t_get (payments db) oid = Some org" "in_flight (p_status intent)"
    using run by (auto simp: settleRefundIntent_def split: option.split_asm bind_splits if_split_asm)
  then show ?thesis
  proof cases
    case live
    show ?thesis
    proof (cases oc)
      case Processed
      obtain db1 where "applyProcessedRefundEffects h iid intent oid org (or_else reason (Some ''Refund confirmed by Paystack''))
            (set_payment iid (\<lambda>p. p\<lparr>p_status := CAPTURED, p_provider_payment := or_else rid (p_provider_payment intent), p_failure := None\<rparr>) db) = Inr db1"
          and db': "db' = stampRefundBusinessDate iid db1"
        using run live Processed by (auto simp: settleRefundIntent_def Let_def rbind_eq_Inr)
      from this(1) have "money_ok db1" by (rule money_processed [OF ok live(1,2,4,3) tgt [OF live(1)], rotated 4]) (simp_all add: live)
      then show ?thesis using money_frame [of db' db1] by (simp add: db')
    next
      case RefundFailed
      have "db' = set_payment iid (\<lambda>p. p\<lparr>p_status := FAILED,
                    p_failure := Some (take 500 (case fr of None \<Rightarrow> ''Paystack reported the refund failed.'' | Some r \<Rightarrow> r)),
                    p_provider_payment := or_else rid (p_provider_payment intent), p_key := freed_key (p_key intent) iid\<rparr>) db"
        using run live RefundFailed by (simp add: settleRefundIntent_def Let_def)
      then show ?thesis using money_relabel [OF ok live(1,4)] by simp
    next
      case StillPending
      have "db' = set_payment iid (\<lambda>p. p\<lparr>p_status := PENDING, p_provider_payment := or_else rid (p_provider_payment intent)\<rparr>) db"
        using run live StillPending by (simp add: settleRefundIntent_def Let_def)
      then show ?thesis using money_relabel [OF ok live(1,4)] by simp
    qed
  qed (use ok in simp)
qed


lemma write_check_frame [simp]:
  "folios (write_check k f db) = folios db" "line_items (write_check k f db) = line_items db" "payments (write_check k f db) = payments db"
  by (simp_all add: write_check_def)

lemma money_write_check [simp]: "money_ok (write_check k f db) = money_ok db"
  by (rule money_frame) simp_all

lemma reconcile_cases:
  assumes run: "reconcileRefundIntent h gw now iid db = Inr (r, db')"
  obtains (same) "db' = db"
    | (live) intent found n k c db2 x where "t_get (payments db) iid = Some intent" "isReconcilableRefund intent"
      "settle_found h iid found c (snd (ensureRefundReconciliation iid None db)) = Inr (x, db2)"
      "db' = (if x then write_check k (\<lambda>c. c\<lparr>rc_attempts := n, rc_result := Some (lookup_name found), rc_last := Some now\<rparr>) db2 else db2)"
      "r = (if x then Some found else None)"
proof (cases "\<exists>intent. t_get (payments db) iid = Some intent \<and> isReconcilableRefund intent")
  case True
  then obtain intent where i: "t_get (payments db) iid = Some intent" "isReconcilableRefund intent" by blast
  obtain k db1 where e: "ensureRefundReconciliation iid None db = (k, db1)" by fastforce
  obtain oid org where o: "Option.bind (p_parent intent) (\<lambda>oid. map_option (Pair oid) (t_get (payments db) oid)) = Some (oid, org)"
    using run i by (auto simp: reconcileRefundIntent_def split: option.split_asm)
  let ?found = "lookUpRefundAtPaystack gw iid intent oid org db"
  let ?n = "Suc (case t_get (refund_checks db1) k of None \<Rightarrow> 0 | Some c \<Rightarrow> rc_attempts c)"
  have "rbind (settle_found h iid ?found (t_get (refund_checks db1) k) db1) (\<lambda>(applied, db2).
      if \<not> applied then Inr (None, db2)
      else Inr (Some ?found, write_check k (\<lambda>c. c\<lparr>rc_attempts := ?n, rc_result := Some (lookup_name ?found), rc_last := Some now\<rparr>) db2)) = Inr (r, db')"
    using run i o by (simp add: reconcileRefundIntent_def Let_def e)
  then obtain x db2 where s: "settle_found h iid ?found (t_get (refund_checks db1) k) db1 = Inr (x, db2)"
    and "(if \<not> x then Inr (None, db2)
      else Inr (Some ?found, write_check k (\<lambda>c. c\<lparr>rc_attempts := ?n, rc_result := Some (lookup_name ?found), rc_last := Some now\<rparr>) db2)) = (Inr (r, db') :: (lookup option \<times> hotel) result)"
    by (elim rbind_InrE) auto
  then have "db' = (if x then write_check k (\<lambda>c. c\<lparr>rc_attempts := ?n, rc_result := Some (lookup_name ?found), rc_last := Some now\<rparr>) db2 else db2)"
    "r = (if x then Some ?found else None)"
    by (cases x; simp)+
  with i s show thesis by (intro live [of intent ?found "t_get (refund_checks db1) k" x db2 k ?n]) (simp_all add: e)
next
  case False
  then show thesis using run same by (auto simp: reconcileRefundIntent_def split: option.split_asm if_split_asm)
qed

lemma money_reconcile:
  assumes ok: "money_ok db" and tgt: "\<And>p. t_get (payments db) iid = Some p \<Longrightarrow> \<not> is_pos_target (p_target p)"
    and run: "reconcileRefundIntent h gw now iid db = Inr (r, db')"
  shows "money_ok db'"
  using run
proof (cases rule: reconcile_cases)
  case (live intent found n k c db2 x)
  let ?db1 = "snd (ensureRefundReconciliation iid None db)"
  have m1: "money_ok ?db1" using ok money_frame [of ?db1 db] by simp
  have ff: "folio_funded p" if "t_get (payments ?db1) iid = Some p" for p
    using that live(1,2) tgt by (simp add: folio_funded_def isReconcilableRefund_def)
  have "money_ok db2"
  proof (cases found)
    case (Answer kind rid)
    then show ?thesis using live(3) money_settle [OF m1 ff] by (auto simp: settle_found_def)
  qed (use live(3) m1 in \<open>simp_all add: settle_found_def\<close>)
  moreover have "folios db' = folios db2" "line_items db' = line_items db2" "payments db' = payments db2" using live(4) by simp_all
  ultimately show ?thesis using money_frame by blast
qed (use ok in simp)

lemma money_clear_refund:
  assumes ok: "money_ok db" and run: "clear_refund cfg approve now iid why db = Inr (x, db')"
  shows "money_ok db'"
proof -
  define db1 where "db1 = snd (ensureRefundReconciliation iid None db)"
  have m1: "money_ok db1" using ok money_frame [of db1 db] by (simp add: db1_def)
  consider (same) "db' = db" | (live) intent k f where "t_get (payments db1) iid = Some intent" "in_flight (p_status intent)"
      "db' = write_check k f (set_payment iid (cleared_payment iid why) db1)"
    using run by (auto simp: clear_refund_def Let_def db1_def rbind_eq_Inr isReconcilableRefund_def case_prod_unfold
        split: option.split_asm if_split_asm)
  then show ?thesis
  proof cases
    case live
    have "money_ok (set_payment iid (cleared_payment iid why) db1)"
      by (rule money_relabel [OF m1 live(1,2)]) (simp_all add: cleared_payment_def)
    then show ?thesis by (simp add: live(3))
  qed (use ok in simp)
qed

lemma money_clear:
  assumes ok: "money_ok db" and tgt: "\<And>p. t_get (payments db) iid = Some p \<Longrightarrow> \<not> is_pos_target (p_target p)"
    and run: "clearStuckRefund h gw cfg approve now iid reason db = (r, db')"
  shows "money_ok db'"
proof (cases "reconcileRefundIntent h gw now iid db")
  case (Inl e)
  then show ?thesis using run ok
    by (auto simp: clearStuckRefund_def Let_def split: if_splits option.splits)
next
  case (Inr y)
  obtain f db1 where y: "y = (f, db1)" by (cases y)
  have m1: "money_ok db1" using money_reconcile [OF ok tgt] Inr y by simp
  have m2: "clear_refund cfg approve now iid why db1 = Inr (x, db2) \<Longrightarrow> money_ok db2" for why x db2
    by (rule money_clear_refund [OF m1])
  have "db' = db \<or> db' = db1 \<or> (\<exists>why x. clear_refund cfg approve now iid why db1 = Inr (x, db'))"
    using run Inr y
    by (auto simp: clearStuckRefund_def Let_def split: if_splits option.splits sum.splits lookup.splits refund_outcome.splits)
  then show ?thesis using ok m1 m2 by blast
qed

section \<open>The ledger's own requests\<close>

lemma money_cash:
  assumes ok: "money_ok db" and run: "captureCashPayment env now ref fid amount cur key bd db = Inr (pid, db')"
  shows "money_ok db'"
proof -
  have b: "books_ok db" and y: "pays_ok db" using ok by (simp_all add: money_ok_def)
  obtain f c db1 lid db2 where p: "insert_payment (payment_row fid ''cash'' key ref c cur CAPTURED now) db = Inr (pid, db1)"
    and i: "insert_line (effective_date bd db) (payment_line fid ''Cash payment'' ''cash'' c cur pid) db1 = Inr (lid, db2)"
    and db': "db' = recomputeFolioBalance fid db2"
    using run by (auto simp: captureCashPayment_def rbind_eq_Inr)
  define q where "q = payment_row fid ''cash'' key ref c cur CAPTURED now"
  have db1: "db1 = db\<lparr>payments := t_insert q (payments db)\<rparr>" "pid = next_id (payments db)" using insert_payment_InrD [OF p] by (simp_all add: q_def)
  obtain d where d: "db2 = db1\<lparr>line_items := t_insert (payment_line fid ''Cash payment'' ''cash'' c cur pid d) (line_items db1)\<rparr>"
    using insert_line_InrD [OF i] by auto
  have "line_for q pid (- p_amt q) db1 db'"
    by (rule line_for_insert [where l = "payment_line fid ''Cash payment'' ''cash'' c cur pid d"])
      (simp_all add: q_def payment_row_def payment_line_def db' d folio_funded_def is_pos_target_def)
  then have "pays_ok db'"
    by (intro pays_insert [OF y, of q]) (simp_all add: q_def payment_row_def db1)
  then show ?thesis using books_captureCash [OF b run] by (simp add: money_ok_def)
qed

lemma money_terminal:
  assumes ok: "money_ok db" and run: "captureTerminalPayment env now ref fid amount cur key bd tref aid db = Inr (pid, db')"
  shows "money_ok db'"
proof -
  have b: "books_ok db" and y: "pays_ok db" using ok by (simp_all add: money_ok_def)
  obtain f c db1 x lid db2 where p: "insert_payment (payment_row fid ''terminal'' key ref c cur CAPTURED now) db = Inr (pid, db1)"
    and i: "insert_line (effective_date bd db) (payment_line fid ''Card payment (terminal)'' ''terminal'' c cur pid)
      (db1\<lparr>terminal_details := x\<rparr>) = Inr (lid, db2)"
    and db': "db' = recomputeFolioBalance fid db2"
    using run by (auto simp: captureTerminalPayment_def Let_def rbind_eq_Inr split: if_split_asm)
  define q where "q = payment_row fid ''terminal'' key ref c cur CAPTURED now"
  have db1: "db1 = db\<lparr>payments := t_insert q (payments db)\<rparr>" "pid = next_id (payments db)" using insert_payment_InrD [OF p] by (simp_all add: q_def)
  obtain d where d: "line_items db2 = t_insert (payment_line fid ''Card payment (terminal)'' ''terminal'' c cur pid d) (line_items db1)"
    "payments db2 = payments db1"
    using insert_line_InrD [OF i] by auto
  have "line_for q pid (- p_amt q) db1 db'"
    by (rule line_for_insert [where l = "payment_line fid ''Card payment (terminal)'' ''terminal'' c cur pid d"])
      (simp_all add: q_def payment_row_def payment_line_def db' d folio_funded_def is_pos_target_def)
  then have "pays_ok db'"
    by (intro pays_insert [OF y, of q]) (simp_all add: q_def payment_row_def db1)
  then show ?thesis using books_captureTerminal [OF b run] by (simp add: money_ok_def)
qed

lemma money_quiet: "money_ok db \<Longrightarrow> quiet db db' \<Longrightarrow> books_ok db' \<Longrightarrow> money_ok db'"
  using quiet_pays by (auto simp: money_ok_def)

lemma quiet_folio_ops:
  "billFolioToCompany fid c db = Inr db' \<Longrightarrow> t_wf (folios db) \<Longrightarrow> quiet db db'"
  "ensurePrimaryFolio res db = Inr (fid, db') \<Longrightarrow> quiet db db'"
  "openAdditionalFolio res label db = Inr (fid, db') \<Longrightarrow> quiet db db'"
  by (auto simp: billFolioToCompany_def ensurePrimaryFolio_def openAdditionalFolio_def rbind_eq_Inr
      split: option.split_asm if_split_asm intro!: quiet_frame)

lemma money_ledger_step:
  assumes "ledger_step db db'" "money_ok db"
  shows "money_ok db'"
proof -
  have b: "books_ok db" and m: "money_lines_ok db" and wf: "t_wf (folios db)"
    using assms(2) pays_wf(2) by (auto simp: money_ok_def)
  have b': "books_ok db'" by (rule books_ledger_step [OF assms(1) b])
  from assms(1) show ?thesis
  proof (cases rule: ledger_step.cases)
    case step_cash
    then show ?thesis using money_cash [OF assms(2)] by blast
  next
    case step_terminal
    then show ?thesis using money_terminal [OF assms(2)] by blast
  next
    case (step_receivables op)
    then have "quiet db db'" using same_ledger_run_ar [of db op] by (intro quiet_frame) simp_all
    then show ?thesis by (rule money_quiet [OF assms(2) _ b'])
  qed (blast intro: money_quiet [OF assms(2) _ b'] quiet_postCharge [OF _ wf] quiet_stay [OF _ b] quiet_late [OF _ b]
      quiet_postAdjustment [OF _ wf] quiet_void [OF m b] quiet_move [OF b] quiet_folio_ops wf)+
qed


section \<open>Any interleaving\<close>

text \<open>
  One committed transaction of the hotel's money: a ledger request, or a step of the payment life cycle. The gateway steps
  are those of folio and Register payments, whose transactions run no POS code; a refund is asked of a payment that is not
  itself a refund; \<open>snap\<close> is any earlier reading of the payment.
\<close>

inductive money_step :: "hotel \<Rightarrow> hotel \<Rightarrow> bool" where
  ms_ledger: "ledger_step db db' \<Longrightarrow> money_step db db'"
| ms_intent: "initiatePaystackPaymentIntent env now ref fid amount cur key re db = Inr (x, db') \<Longrightarrow> money_step db db'"
| ms_order_intent: "initiatePosOrderPaystackPaymentIntent now ref oid a cur key db = Inr (i, db') \<Longrightarrow> money_step db db'"
| ms_register_intent: "initiatePosRegisterPaymentIntent now ref oid a cur key db = Inr (i, db') \<Longrightarrow> money_step db db'"
| ms_checkout: "startPaystackCheckout gw al re pid db = Inr (u, db') \<Longrightarrow> money_step db db'"
| ms_gateway: "applyGatewayResult h pid snap st prov db = Inr db' \<Longrightarrow> t_get (payments db) pid = Some p \<Longrightarrow> same_intent snap p \<Longrightarrow>
    p_target p \<noteq> ''pos_order'' \<Longrightarrow> p_target p \<noteq> ''supermarket_sale'' \<Longrightarrow> money_step db db'"
| ms_close: "t_get (payments db) pid = Some p \<Longrightarrow> p_parent p = None \<Longrightarrow> money_step db (closePaymentUnknownToGateway pid db)"
| ms_desk: "refund_at_desk approve now ref pid supplied key db = Inr (rid, db') \<Longrightarrow> supplied_amount env amount = Inr supplied \<Longrightarrow>
    t_get (payments db) pid = Some p \<Longrightarrow> p_parent p = None \<Longrightarrow> money_step db db'"
| ms_reserve: "reserve_refund approve now ref False pid supplied reason key db = Inr (y, db') \<Longrightarrow> supplied_amount env amount = Inr supplied \<Longrightarrow>
    t_get (payments db) pid = Some p \<Longrightarrow> p_parent p = None \<Longrightarrow> money_step db db'"
| ms_refused: "money_step db (refund_refused iid msg key db)"
| ms_unknown: "money_step db (flagRefundOutcomeUnknown iid msg db)"
| ms_settle: "settleRefundIntent h iid oc rid reason fr db = Inr (b, db') \<Longrightarrow> t_get (payments db) iid = Some p \<Longrightarrow> folio_funded p \<Longrightarrow>
    money_step db db'"
| ms_reconcile: "reconcileRefundIntent h gw now iid db = Inr (r, db') \<Longrightarrow> t_get (payments db) iid = Some p \<Longrightarrow>
    \<not> is_pos_target (p_target p) \<Longrightarrow> money_step db db'"
| ms_clear: "clearStuckRefund h gw cfg approve now iid reason db = (c, db') \<Longrightarrow> t_get (payments db) iid = Some p \<Longrightarrow>
    \<not> is_pos_target (p_target p) \<Longrightarrow> money_step db db'"

lemma supplied_positive: "supplied_amount env amount = Inr (Some a) \<Longrightarrow> 0 < a"
  by (auto simp: supplied_amount_def assertPaymentAmount_def Let_def split: if_split_asm)

lemma money_step_ok: "money_step db db' \<Longrightarrow> money_ok db \<Longrightarrow> money_ok db'"
proof (induction rule: money_step.induct)
  case (ms_desk approve now ref pid supplied key db rid db' env amount p)
  then show ?case using money_desk [of db approve now ref pid supplied key rid db'] supplied_positive [of env amount] by auto
next
  case (ms_reserve approve now ref pid supplied reason key db y db' env amount p)
  then show ?case using money_reserve [of db approve now ref pid supplied reason key y db'] supplied_positive [of env amount] by auto
next
  case (ms_settle h iid oc rid reason fr db b db' p)
  then show ?case using money_settle [of db iid h oc rid reason fr b db'] by auto
next
  case (ms_reconcile h gw now iid db r db' p)
  then show ?case using money_reconcile [of db iid h gw now r db'] by auto
next
  case (ms_clear h gw cfg approve now iid reason db c db' p)
  then show ?case using money_clear [of db iid h gw cfg approve now reason c db'] by auto
qed (blast intro: money_ledger_step money_intent money_order_intent money_checkout money_gateway money_close money_refused money_unknown)+

lemma money_reachable: "money_step\<^sup>*\<^sup>* db db' \<Longrightarrow> money_ok db \<Longrightarrow> money_ok db'"
  by (induction rule: rtranclp_induct) (auto intro: money_step_ok)

end
