(* ===== verification/PaymentProps.thy ===== *)
theory PaymentProps
  imports PaymentFacts
begin

text \<open>
  What the payment life cycle of \<open>modules/cashiering/service.js\<close> guarantees, over the invariant of the theory
  PaymentFacts: refunds never exceed what was taken, each is settled once, a stuck one is cleared only after enough
  checks, and a webhook moves money only on the provider's own record. Two closed runs at the end show where a refund
  row is itself accepted as a payment.
\<close>

section \<open>A folio with a payment, for the witnesses\<close>

definition cash_taken :: payment where
  "cash_taken = payment_row 1 ''cash'' ''k0'' ''r0'' 10000 ''GBP'' CAPTURED 0"

definition paid_desk :: hotel where
  "paid_desk = front_desk\<lparr>payments := t_insert cash_taken t_empty,
     line_items := t_insert (payment_line 1 ''Cash payment'' ''cash'' 10000 ''GBP'' 1 (Date 2026 5 1)) t_empty,
     folios := t_insert (new_folio 1 ''GBP'' ''Acme'') (t_insert ((new_folio 1 ''GBP'' ''Guest'')\<lparr>f_balance := - 10000\<rparr>) t_empty)\<rparr>"

lemma paid_desk_money: "money_ok paid_desk"
proof -
  have "flb.right_at paid_desk f" for f
    by (simp add: flb.right_at_def folio_balance_def folio_sum_def paid_desk_def front_desk_def new_hotel_def t_get_def t_insert_def
        t_empty_def new_folio_def t_total_def t_select_def payment_line_def)
  moreover have "lines_ok paid_desk"
    by (simp add: lines_ok_def tax_links_def paid_desk_def front_desk_def new_hotel_def payment_line_def t_get_insert t_get_def t_insert_def t_empty_def t_wf_def)
  moreover have "pays_ok paid_desk"
    by (simp add: pays_ok_def money_lines_ok_def paid_desk_def front_desk_def new_hotel_def payment_line_def cash_taken_def payment_row_def
        posted_def expected_posting_def settled_status_def folio_funded_def is_pos_target_def is_refund_ok_def refunds_fit_def
        captured_refunds_def refunds_in_flight_def refundedSoFar_def t_total_def t_select_def t_get_def t_insert_def t_empty_def t_wf_def)
  ultimately show ?thesis by (simp add: money_ok_def books_but_def)
qed

section \<open>Refunds fit in the payment they repay\<close>


definition approve_all :: "payment \<Rightarrow> unit result" where "approve_all _ = Inr ()"

lemma desk_run:
  "\<exists>db. refund_at_desk approve_all 0 ''r1'' 1 (Some 6000) ''k1'' paid_desk = Inr (2, db)
     \<and> t_get (payments db) 1 = Some (cash_taken\<lparr>p_status := PARTIALLY_REFUNDED\<rparr>)"
proof -
  have "case refund_at_desk approve_all 0 ''r1'' 1 (Some 6000) ''k1'' paid_desk of Inl _ \<Rightarrow> False
    | Inr (rid, db) \<Rightarrow> rid = 2 \<and> t_get (payments db) 1 = Some (cash_taken\<lparr>p_status := PARTIALLY_REFUNDED\<rparr>)"
    by code_simp
  then show ?thesis by (simp split: sum.split_asm prod.split_asm)
qed


text \<open>
  C23: A refund is settled once. When a refund intent of a folio payment has been settled as processed or
  failed, settling it again, by whichever path and with whatever answer, does nothing at all: nothing is posted twice
  and an amount that was released is not taken again.
\<close>

theorem refund_settled_once:
  assumes "t_wf (payments db)" "t_get (payments db) iid = Some intent" "folio_funded intent"
    "settleRefundIntent h iid kind rid reason why db = Inr (x, db1)" "kind = Processed \<or> kind = RefundFailed" "x"
  shows "settleRefundIntent h' iid kind' rid' reason' why' db1 = Inr (False, db1)"
proof -
  obtain oid org where o: "p_parent intent = Some oid" "t_get (payments db) oid = Some org" "in_flight (p_status intent)"
    using assms(2,4,6) by (auto simp: settleRefundIntent_def split: option.split_asm bind_splits if_split_asm)
  have "\<exists>q. t_get (payments db1) iid = Some q \<and> \<not> in_flight (p_status q)"
  proof (cases kind)
    case Processed
    obtain g db2 where e: "applyProcessedRefundEffects h iid intent oid org (or_else reason (Some ''Refund confirmed by Paystack''))
        (set_payment iid g db) = Inr db2" and db1: "db1 = stampRefundBusinessDate iid db2" and g: "p_status (g intent) = CAPTURED"
      using assms(2,4) Processed o by (auto simp: settleRefundIntent_def Let_def rbind_eq_Inr intro!: that)
    define s where "s = (if refundedSoFar (set_payment iid g db) oid (\<lambda>s. s = CAPTURED) = p_amt org then REFUNDED else PARTIALLY_REFUNDED)"
    obtain db3 where p: "post_refund_line (p_folio org) (''Paystack refund of payment '' @ show_nat oid) ''paystack'' (p_amt intent) (p_currency org) iid
        (set_payment iid g db) = Inr db3" and db2: "db2 = set_payment oid (\<lambda>p. p\<lparr>p_status := s\<rparr>) db3"
      using e assms(3) unfolding s_def by (auto simp: applyProcessedRefundEffects_def Let_def rbind_eq_Inr folio_funded_def)
    have s: "\<not> in_flight s" by (simp add: s_def in_flight_def)
    have "payments db3 = payments (set_payment iid g db)"
      using p by (auto simp: post_refund_line_def rbind_eq_Inr insert_line_def lockFolio_def split: option.split_asm)
    then have "t_get (payments db1) iid = Some (if iid = oid then (g intent)\<lparr>p_status := s\<rparr> else g intent)"
      unfolding db1 db2 using assms(2) by (cases "iid = oid") (simp_all add: set_payment_get)
    then show ?thesis using g s by (simp add: in_flight_def)
  next
    case RefundFailed
    then show ?thesis using assms(2,4) o by (auto simp: settleRefundIntent_def Let_def set_payment_get in_flight_def)
  qed (use assms(5) in simp)
  then show ?thesis by (auto simp: settleRefundIntent_def split: option.split)
qed

definition gateway_taken :: payment where
  "gateway_taken = payment_row 1 ''paystack'' ''k0'' ''r0'' 10000 ''GBP'' CAPTURED 0"

definition waiting_refund :: payment where
  "waiting_refund = (payment_row 1 ''paystack'' ''k1'' ''r1'' 4000 ''GBP'' PENDING 0)\<lparr>p_parent := Some 1\<rparr>"

definition refund_desk :: hotel where
  "refund_desk = paid_desk\<lparr>payments := t_insert waiting_refund (t_insert gateway_taken t_empty)\<rparr>"

definition no_hooks :: pos_hooks where
  "no_hooks = \<lparr>finalize_order = (\<lambda>_ _ db. Inr db), complete_sale = None, reverse_stock = (\<lambda>_ db. Inr db),
     restore_voucher = (\<lambda>_ db. Inr db)\<rparr>"

lemma refund_desk_rows: "t_wf (payments refund_desk)" "t_get (payments refund_desk) 2 = Some waiting_refund"
  by (simp_all add: refund_desk_def t_get_def t_insert_def t_empty_def t_wf_def)

theorem refund_settled_once_witness:
  "\<exists>db. settleRefundIntent no_hooks 2 Processed (Some ''rf9'') None None refund_desk = Inr (True, db)
     \<and> folio_balance db 1 = Some (- 6000)
     \<and> settleRefundIntent no_hooks 2 RefundFailed None None None db = Inr (False, db)"
proof -
  have "case settleRefundIntent no_hooks 2 Processed (Some ''rf9'') None None refund_desk of Inl _ \<Rightarrow> False
    | Inr (x, db) \<Rightarrow> x \<and> folio_balance db 1 = Some (- 6000)"
    by code_simp
  then obtain db where run: "settleRefundIntent no_hooks 2 Processed (Some ''rf9'') None None refund_desk = Inr (True, db)"
    and bal: "folio_balance db 1 = Some (- 6000)"
    by (auto split: sum.split_asm prod.split_asm)
  have "folio_funded waiting_refund" by (simp add: waiting_refund_def payment_row_def folio_funded_def is_pos_target_def)
  from refund_settled_once [OF refund_desk_rows this run] run bal show ?thesis by simp
qed

section \<open>A stuck refund is cleared only after enough checks\<close>

lemma settle_False: "settleRefundIntent h iid kind rid reason why db = Inr (False, db') \<Longrightarrow> db' = db"
  by (auto simp: settleRefundIntent_def Let_def rbind_eq_Inr split: option.split_asm bind_splits if_split_asm refund_outcome.split_asm)

lemma settle_found_unanswered:
  assumes "settle_found h iid found c db = Inr (x, db')" "x \<Longrightarrow> \<forall>kind rid. found \<noteq> Answer kind rid"
  shows "db' = db"
proof (cases found)
  case (Answer kind rid)
  then have "\<not> x" using assms(2) by auto
  then show ?thesis using assms(1) Answer settle_False by (auto simp: settle_found_def)
qed (use assms(1) in \<open>simp_all add: settle_found_def\<close>)

lemma reconcile_unanswered:
  assumes "reconcileRefundIntent h gw now iid db = Inr (r, db')" "\<forall>kind rid. r \<noteq> Some (Answer kind rid)"
  shows "payments db' = payments db"
  using assms(1)
proof (cases rule: reconcile_cases)
  case (live intent found n k c db2 x)
  have "\<forall>kind rid. found \<noteq> Answer kind rid" if x using assms(2) live(5) that by simp
  then have "db2 = snd (ensureRefundReconciliation iid None db)" by (rule settle_found_unanswered [OF live(3)])
  then show ?thesis using live(4) by simp
qed simp

text \<open>
  C24: A manager can clear a refund that never got an answer only when a reason is given, it is a gateway
  refund still in flight, it is old enough, the provider has been asked often enough and the stored result of the last
  check is no clear answer; the provider is asked once more and gives none, and the approval holds for the payment it
  repays. Clearing then closes that refund as FAILED and changes no other payment.
\<close>

theorem clear_requires_checks:
  assumes "t_wf (payments db)" "clearStuckRefund h gw cfg approve now iid (Some reason) db = (Inr True, db')"
  shows "\<exists>p oid original r db1. t_get (payments db) iid = Some p \<and> isReconcilableRefund p
    \<and> js_trim reason \<noteq> []
    \<and> clearMinChecks cfg \<le> (case check_of db iid of None \<Rightarrow> 0 | Some c \<Rightarrow> rc_attempts c)
    \<and> clearMinMinutes cfg * 60000 \<le> now - p_created p
    \<and> Option.bind (check_of db iid) rc_result \<in> {Some ''unreachable'', Some ''ambiguous'', Some ''not_found''}
    \<and> reconcileRefundIntent h gw now iid db = Inr (r, db1) \<and> (\<forall>kind rid. r \<noteq> Some (Answer kind rid))
    \<and> p_parent p = Some oid \<and> t_get (payments db) oid = Some original \<and> approve original = Inr ()
    \<and> (\<forall>i. t_get (payments db') i = (if i = iid then Some (cleared_payment iid (js_trim reason) p) else t_get (payments db) i))"
proof -
  obtain p where p: "t_get (payments db) iid = Some p" "isReconcilableRefund p" "js_trim reason \<noteq> []"
    and el: "refundClearEligibility cfg now p (check_of db iid) = None"
    using assms(2) by (auto simp: clearStuckRefund_def Let_def split: if_split_asm option.split_asm)
  have live: "p_parent p \<noteq> None" "p_provider p = ''paystack''" using p(2) by (simp_all add: isReconcilableRefund_def)
  have run: "(case reconcileRefundIntent h gw now iid db of
            Inl e \<Rightarrow> (Inl e, db)
          | Inr (Some (Answer StillPending _), db1) \<Rightarrow> (Inl RefundNotStuckError, db1)
          | Inr (Some (Answer _ _), db1) \<Rightarrow> (Inr False, db1)
          | Inr (_, db1) \<Rightarrow> (case clear_refund cfg approve now iid (js_trim reason) db1 of
              Inl e \<Rightarrow> (Inl e, db1) | Inr (cleared, db2) \<Rightarrow> (Inr cleared, db2))) = (Inr True, db')"
    using assms(2) p el live by (simp add: clearStuckRefund_def Let_def)
  then obtain r db1 where r: "reconcileRefundIntent h gw now iid db = Inr (r, db1)" "\<forall>kind rid. r \<noteq> Some (Answer kind rid)"
    and c: "clear_refund cfg approve now iid (js_trim reason) db1 = Inr (True, db')"
    by (auto split: sum.split_asm prod.split_asm option.split_asm lookup.split_asm refund_outcome.split_asm)
  have same: "payments db1 = payments db" by (rule reconcile_unanswered [OF r])
  obtain oid original where o: "p_parent p = Some oid" "t_get (payments db) oid = Some original" "approve original = Inr ()"
    and d: "payments db' = payments (set_payment iid (cleared_payment iid (js_trim reason)) (snd (ensureRefundReconciliation iid None db1)))"
    using c p(1,2) same
    by (auto simp: clear_refund_def Let_def case_prod_unfold rbind_eq_Inr bind_eq_Some_conv split: option.split_asm if_split_asm)
  have "t_get (payments db') i = (if i = iid then Some (cleared_payment iid (js_trim reason) p) else t_get (payments db) i)" for i
    unfolding d set_payment_get using p(1) same by simp
  moreover have "clearMinChecks cfg \<le> (case check_of db iid of None \<Rightarrow> 0 | Some c \<Rightarrow> rc_attempts c)"
    "clearMinMinutes cfg * 60000 \<le> now - p_created p"
    "Option.bind (check_of db iid) rc_result \<in> {Some ''unreachable'', Some ''ambiguous'', Some ''not_found''}"
    using el p(2) by (auto simp: refundClearEligibility_def split: if_split_asm)
  ultimately show ?thesis using p r o by blast
qed

definition no_answer :: gateway_error where
  "no_answer = \<lparr>ge_status = None, ge_code = None, ge_message = ''timeout''\<rparr>"

definition silent_gateway :: gateway where
  "silent_gateway = \<lparr>gw_configured = (\<lambda>_. True), gw_initialize = (\<lambda>_ _. Inl no_answer), gw_verify = (\<lambda>_. Inl no_answer),
     gw_refund = (\<lambda>_ _. Inl no_answer), gw_fetch_refund = (\<lambda>_. Inl no_answer), gw_list_refunds = (\<lambda>_. Inl no_answer)\<rparr>"

definition checked_desk :: hotel where
  "checked_desk = refund_desk\<lparr>refund_checks := t_insert \<lparr>rc_payment = 2, rc_reason = Some ''duplicate'', rc_attempts = 3,
     rc_result = Some ''unreachable'', rc_last = Some 0, rc_date = None\<rparr> t_empty\<rparr>"

theorem clear_requires_checks_witness:
  "\<exists>db p. clearStuckRefund no_hooks silent_gateway (refundReconcileConfig None None None) approve_all 1800000 2 (Some ''gave up'') checked_desk
       = (Inr True, db)
     \<and> t_get (payments db) 2 = Some p \<and> p_status p = FAILED"
proof -
  let ?run = "clearStuckRefund no_hooks silent_gateway (refundReconcileConfig None None None) approve_all 1800000 2 (Some ''gave up'') checked_desk"
  have "fst ?run = Inr True" by code_simp
  then have run: "?run = (Inr True, snd ?run)" by (metis prod.collapse)
  have "t_wf (payments checked_desk)" using refund_desk_rows by (simp add: checked_desk_def)
  from clear_requires_checks [OF this run] obtain p where
    "t_get (payments (snd ?run)) 2 = Some (cleared_payment 2 (js_trim ''gave up'') p)" by (elim exE conjE) simp
  then show ?thesis using run by (intro exI [of _ "snd ?run"] exI) (auto simp: cleared_payment_def)
qed

section \<open>A webhook moves money only on the provider's record\<close>

lemma conclude_frame [simp]: "b_hotel (snd (conclude eid oc at b)) = b_hotel b" "fst (conclude eid oc at b) = Some oc"
  by (simp_all add: conclude_def)

lemma postpone_frame [simp]: "b_hotel (snd (postpone now eid n b)) = b_hotel b"
  by (simp add: postpone_def Let_def case_prod_unfold)

lemma charge_moves_on_record:
  assumes "b_hotel (snd (decide_charge_event h gw now eid e pl b)) \<noteq> b_hotel b"
  shows "\<exists>pid p r. with_reference (b_hotel b) (pl_reference pl) = Some (pid, p) \<and> gw_verify gw (p_reference p) = Inr r
    \<and> fst (classifyGatewayRecord r (p_reference p) (p_amt p) (p_currency p)) \<in> {Confirmed, NotPaid}
    \<and> \<not> settled_status (p_status p) \<and> \<not> closing_tenant (b_owner b)
    \<and> fst (decide_charge_event h gw now eid e pl b) = Some ''applied''"
proof -
  obtain pid p where p: "with_reference (b_hotel b) (pl_reference pl) = Some (pid, p)" "\<not> closing_tenant (b_owner b)" "\<not> settled_status (p_status p)"
    using assms by (auto simp: decide_charge_event_def split: option.split_asm if_split_asm)
  let ?late = "resumable_target (p_target p) \<and> p_status p = CANCELLED"
  let ?over = "terminal_status (p_status p) \<and> \<not> ?late"
  obtain r where r: "gw_verify gw (p_reference p) = Inr r"
    and d: "decide_charge_event h gw now eid e pl b = apply_record h now eid e pid p ?over r b"
    using assms p by (auto simp: decide_charge_event_def Let_def split: if_split_asm sum.split_asm)
  have a: "b_hotel (snd (apply_record h now eid e pid p ?over r b)) \<noteq> b_hotel b" using assms d by simp
  have "fst (classifyGatewayRecord r (p_reference p) (p_amt p) (p_currency p)) \<noteq> Mismatch"
    "fst (classifyGatewayRecord r (p_reference p) (p_amt p) (p_currency p)) \<noteq> NotFinal"
    "fst (apply_record h now eid e pid p ?over r b) = Some ''applied''"
    using a by (auto simp: apply_record_def Let_def split: if_split_asm sum.split_asm sum.split)
  then show ?thesis using p r d by (cases "fst (classifyGatewayRecord r (p_reference p) (p_amt p) (p_currency p))") auto
qed

text \<open>What an event must rest on: a refund still in flight, or the provider's record of an unsettled payment.\<close>

definition rests_on_record :: "gateway \<Rightarrow> hotel \<Rightarrow> payload \<Rightarrow> bool" where
  "rests_on_record gw db pl \<longleftrightarrow>
     refund_event (pl_event pl) \<and> refund_candidates_of db pl \<noteq> []
     \<or> pl_event pl \<in> {Some ''charge.success'', Some ''charge.failed''}
       \<and> (\<exists>pid p r. with_reference db (pl_reference pl) = Some (pid, p) \<and> \<not> settled_status (p_status p)
         \<and> gw_verify gw (p_reference p) = Inr r
         \<and> fst (classifyGatewayRecord r (p_reference p) (p_amt p) (p_currency p)) \<in> {Confirmed, NotPaid})"

lemma decide_moves_on_record:
  assumes "b_hotel (snd (decidePaymentWebhookEvent parse h gw now eid b)) \<noteq> b_hotel b"
  shows "\<exists>e. t_get (b_events b) eid = Some e \<and> e_verified e \<and> e_outcome e = None \<and> \<not> closing_tenant (b_owner b)
    \<and> rests_on_record gw (b_hotel b) (parse (e_payload e))"
proof -
  obtain e where e: "t_get (b_events b) eid = Some e" "e_verified e" "e_outcome e = None"
    using assms by (auto simp: decidePaymentWebhookEvent_def split: option.split_asm if_split_asm)
  let ?pl = "parse (e_payload e)"
  show ?thesis
  proof (cases "refund_event (pl_event ?pl)")
    case True
    then have "b_hotel (snd (decideRefundWebhookEvent h gw now eid ?pl b)) \<noteq> b_hotel b"
      using assms e by (simp add: decidePaymentWebhookEvent_def)
    then have "refund_candidates_of (b_hotel b) ?pl \<noteq> []" "\<not> closing_tenant (b_owner b)"
      by (auto simp: decideRefundWebhookEvent_def split: list.split_asm if_split_asm)
    then show ?thesis using e True unfolding rests_on_record_def by blast
  next
    case False
    then have "b_hotel (snd (decide_charge_event h gw now eid e ?pl b)) \<noteq> b_hotel b"
      and ev: "pl_event ?pl \<in> {Some ''charge.success'', Some ''charge.failed''}"
      using assms e by (auto simp: decidePaymentWebhookEvent_def Let_def split: if_split_asm)
    from charge_moves_on_record [OF this(1)] show ?thesis using e ev unfolding rests_on_record_def by blast
  qed
qed


definition pending_charge :: payment where
  "pending_charge = payment_row 1 ''paystack'' ''k0'' ''ref-1'' 2500 ''GBP'' PENDING 0"

definition open_books :: books where
  "open_books = \<lparr>b_events = t_empty, b_hotel = front_desk\<lparr>payments := t_insert pending_charge t_empty\<rparr>, b_owner = Some ''active''\<rparr>"

definition charged_record :: gateway_record where
  "charged_record = \<lparr>g_status = Some ''success'', g_reference = Some ''ref-1'', g_amount = Some 2500, g_requested = Some 2500,
     g_currency = Some ''GBP'', g_payment = Some ''tx7'', g_channel = Some ''card''\<rparr>"

definition paying_gateway :: gateway where
  "paying_gateway = silent_gateway\<lparr>gw_verify := (\<lambda>_. Inr charged_record)\<rparr>"

definition charge_payload :: payload where
  "charge_payload = \<lparr>pl_event = Some ''charge.success'', pl_id = Some ''tx7'', pl_outer_id = None,
     pl_reference = Some ''ref-1'', pl_transaction_reference = None, pl_transaction = None\<rparr>"


section \<open>A refund row taken for a payment\<close>


text \<open>
  C39: Verifying a refund cancels it. \<open>verifyPayment\<close> accepts any gateway row that is not final, and a
  refund in flight is one: its reference was generated here and the provider has never seen it, so once the row is a week
  old the answer "no such transaction" closes it as CANCELLED and frees its amount, although the refund may have been
  paid; the reconciliation then no longer looks at it.
\<close>

definition forgetful_gateway :: gateway where
  "forgetful_gateway = silent_gateway\<lparr>gw_verify := (\<lambda>_. Inl (no_answer\<lparr>ge_status := Some 404\<rparr>))\<rparr>"


end
