(* ===== verification/Inventory.thy ===== *)
theory Inventory
  imports LedgerFacts
begin

text \<open>
  What a property has to sell: its rooms, the periods they are out of order, and the counter \<open>rooms_sold\<close> of each room
  type and night (\<open>shared/room-availability.js\<close>, \<open>shared/room-capacity.js\<close> and the inventory part of
  \<open>modules/reservations/service.js\<close>). \<open>front_office\<close> is the whole state the reservation modules work on; the folio
  ledger is its part \<open>house\<close>. The overbooking percentage is kept in hundredths, as its column DECIMAL(6,2) does, and
  \<open>Math.floor(count * pct / 100)\<close> is computed on them exactly.
\<close>

section \<open>Rows\<close>

datatype occupancy = Vacant | Occupied

record room =
  rm_number :: string
  rm_type :: nat
  rm_status :: string
  rm_discrepancy :: bool
  rm_front :: occupancy
  rm_cleaning :: string
  rm_observed :: "occupancy option"
  rm_connecting :: "nat option"

record out_of_order =
  oo_room :: nat
  oo_start :: date
  oo_end :: date

record inventory_night =
  in_type :: nat
  in_date :: date
  in_sold :: int
  in_pct :: int

record assignment =
  as_reservation :: nat
  as_room :: nat
  as_from :: int
  as_to :: "int option"
  as_reason :: "string option"

datatype reservation_status = Waitlisted | Tentative | Booked | CheckedIn | CheckedOut | CancelledStay | NoShow | Lapsed

record reservation =
  rv_guest :: nat
  rv_type :: nat
  rv_rate_code :: nat
  rv_arrival :: date
  rv_departure :: date
  rv_adults :: nat
  rv_children :: nat
  rv_status :: reservation_status
  rv_confirmation :: string
  rv_segment :: "nat option"
  rv_source :: "nat option"
  rv_policy :: "nat option"
  rv_preferred :: "nat option"
  rv_block :: "nat option"
  rv_reason :: "string option"

record rate_code =
  rc_rate :: int
  rc_currency :: string

record rate_override =
  ro_code :: nat
  ro_type :: nat
  ro_date :: date
  ro_rate :: int

record front_office =
  house :: hotel
  rooms :: "room table"
  ooo_periods :: "out_of_order table"
  inventory :: "inventory_night table"
  reservations :: "reservation table"
  assignments :: "assignment table"
  rate_codes :: "rate_code table"
  rate_calendar :: "rate_override table"
  room_types :: "(nat \<times> bool) list"
  market_segments :: "nat list"
  booking_sources :: "nat list"
  cancellation_policies :: "nat list"
  group_blocks :: "(nat \<times> string) list"
  checkout_time :: "string option"
  early_cutoff_time :: "string option"
  early_fee :: "int option"
  late_fee :: "int option"

section \<open>The nights of a stay\<close>

text \<open>The loop over \<open>Date\<close> objects; an invalid date is \<open>NaN\<close> and no comparison with it holds.\<close>

function expandStayDates :: "date \<Rightarrow> date \<Rightarrow> date list" where
  "expandStayDates cursor until =
     (if valid_date cursor \<and> valid_date until \<and> cursor < until then cursor # expandStayDates (next_day cursor) until else [])"
  by pat_completeness auto

termination
proof (relation "measure (\<lambda>(cursor, until). nat (day_number until - day_number cursor))")
  fix cursor until :: date
  assume "valid_date cursor \<and> valid_date until \<and> cursor < until"
  then show "((next_day cursor, until), cursor, until) \<in> measure (\<lambda>(cursor, until). nat (day_number until - day_number cursor))"
    using day_number_less [of cursor until] by (simp add: day_number_next_day)
qed simp

declare expandStayDates.simps [simp del]

lemma expandStayDates_done: "\<not> (valid_date a \<and> valid_date b \<and> a < b) \<Longrightarrow> expandStayDates a b = []"
  by (subst expandStayDates.simps) (simp only: if_False)

lemma next_day_le: "valid_date a \<Longrightarrow> valid_date b \<Longrightarrow> a < b \<longleftrightarrow> next_day a \<le> b"
  using day_number_less_iff [of a b] day_number_le_iff [of "next_day a" b] valid_next_day [of a] day_number_next_day [of a] by linarith

text \<open>A stay is exactly the nights from arrival to the one before departure, each once and in order.\<close>

lemma set_expandStayDates:
  "valid_date a \<Longrightarrow> valid_date b \<Longrightarrow> set (expandStayDates a b) = {d. valid_date d \<and> a \<le> d \<and> d < b}"
proof (induction a b rule: expandStayDates.induct)
  case (1 a b)
  show ?case
  proof (cases "a < b")
    case True
    have "set (expandStayDates a b) = insert a {d. valid_date d \<and> next_day a \<le> d \<and> d < b}"
      using 1 True valid_next_day by (subst expandStayDates.simps) auto
    also have "\<dots> = {d. valid_date d \<and> a \<le> d \<and> d < b}"
      using next_day_le 1(2) True by (auto simp: order_le_less)
    finally show ?thesis .
  qed (use expandStayDates_done in auto)
qed

lemma expandStayDates_valid: "d \<in> set (expandStayDates a b) \<Longrightarrow> valid_date d \<and> a \<le> d \<and> d < b"
proof -
  assume d: "d \<in> set (expandStayDates a b)"
  then have "valid_date a" "valid_date b" by (subst (asm) expandStayDates.simps; auto split: if_split_asm)+
  then show ?thesis using d set_expandStayDates by blast
qed

lemma sorted_expandStayDates: "sorted_wrt (<) (expandStayDates a b)"
proof (induction a b rule: expandStayDates.induct)
  case (1 a b)
  show ?case
  proof (cases "valid_date a \<and> valid_date b \<and> a < b")
    case True
    then have "a < d" if "d \<in> set (expandStayDates (next_day a) b)" for d
      using expandStayDates_valid [OF that] next_day_le [of a d] by simp
    then show ?thesis using 1 True by (subst expandStayDates.simps) simp
  qed (use expandStayDates_done in simp)
qed

lemma distinct_expandStayDates: "distinct (expandStayDates a b)"
  using sorted_expandStayDates strict_sorted_iff by blast

section \<open>Rooms there are to sell\<close>

definition outOfOrderRoomIds :: "front_office \<Rightarrow> date option \<Rightarrow> nat list" where
  "outOfOrderRoomIds fo stayDate = (case stayDate of None \<Rightarrow> []
     | Some d \<Rightarrow> map (\<lambda>(_, p). oo_room p) (t_select (\<lambda>_ p. oo_start p \<le> d \<and> oo_end p \<ge> d) (ooo_periods fo)))"

definition livePhysicalCount :: "front_office \<Rightarrow> nat option \<Rightarrow> date \<Rightarrow> int" where
  "livePhysicalCount fo roomType stayDate = int (length (t_select (\<lambda>i r. rm_status r = ''active'' \<and> \<not> rm_discrepancy r
     \<and> (case roomType of None \<Rightarrow> True | Some t \<Rightarrow> rm_type r = t)
     \<and> i \<notin> set (outOfOrderRoomIds fo (Some stayDate))) (rooms fo)))"

definition listFreeRoomsNow :: "front_office \<Rightarrow> nat option \<Rightarrow> date option \<Rightarrow> nat list" where
  "listFreeRoomsNow fo roomType stayDate =
     (let occupied = map (\<lambda>(_, a). as_room a) (t_select (\<lambda>_ a. as_to a = None) (assignments fo))
      in map fst (t_select (\<lambda>i r. rm_status r = ''active'' \<and> \<not> rm_discrepancy r
           \<and> (case roomType of None \<Rightarrow> True | Some t \<Rightarrow> rm_type r = t)
           \<and> i \<notin> set (outOfOrderRoomIds fo stayDate) \<and> i \<notin> set occupied) (rooms fo)))"

definition roomCountsTowardCapacity :: "room \<Rightarrow> date \<Rightarrow> out_of_order list \<Rightarrow> bool" where
  "roomCountsTowardCapacity r stayDate periods =
     (if rm_status r \<noteq> ''active'' then False
      else if rm_discrepancy r then False
      else \<not> list_ex (\<lambda>p. oo_start p \<le> stayDate \<and> oo_end p \<ge> stayDate) periods)"

section \<open>The nightly counter\<close>

definition threshold :: "int \<Rightarrow> int \<Rightarrow> int" where
  "threshold physical pct = physical * pct div 10000"

definition inventory_row :: "front_office \<Rightarrow> nat \<Rightarrow> date \<Rightarrow> (nat \<times> inventory_night) option" where
  "inventory_row fo ty d = t_first (\<lambda>_ n. in_type n = ty \<and> in_date n = d) (inventory fo)"

definition ensureInventoryRow :: "nat \<Rightarrow> date \<Rightarrow> front_office \<Rightarrow> front_office" where
  "ensureInventoryRow ty d fo = (case inventory_row fo ty d of
     Some _ \<Rightarrow> fo
   | None \<Rightarrow> fo\<lparr>inventory := t_insert \<lparr>in_type = ty, in_date = d, in_sold = 0, in_pct = 10000\<rparr> (inventory fo)\<rparr>)"

text \<open>
  Every night is checked before any is counted. The rows \<open>ensureInventoryRow\<close> made stay when a night is refused: the
  waitlist fallback of a booking commits them.
\<close>

primrec lock_nights ::
    "nat \<Rightarrow> bool \<Rightarrow> date list \<Rightarrow> (nat \<times> inventory_night) list \<Rightarrow> front_office \<Rightarrow> (nat \<times> inventory_night) list result \<times> front_office" where
  "lock_nights ty bypass [] locked fo = (Inr locked, fo)"
| "lock_nights ty bypass (d # ds) locked fo =
     (let fo1 = ensureInventoryRow ty d fo
      in case inventory_row fo1 ty d of
           None \<Rightarrow> (Inl TypeError, fo1)
         | Some (i, row) \<Rightarrow>
             if \<not> bypass \<and> in_sold row + 1 > threshold (livePhysicalCount fo1 (Some ty) d) (in_pct row)
             then (Inl (OverbookingThresholdExceededError ty (date_text d)), fo1)
             else lock_nights ty bypass ds (locked @ [(i, row)]) fo1)"

definition count_night :: "nat \<times> inventory_night \<Rightarrow> front_office \<Rightarrow> front_office" where
  "count_night l fo = fo\<lparr>inventory := t_update (by_id (fst l)) (\<lambda>n. n\<lparr>in_sold := in_sold (snd l) + 1\<rparr>) (inventory fo)\<rparr>"

definition reserveInventoryForDates :: "nat \<Rightarrow> date list \<Rightarrow> bool \<Rightarrow> front_office \<Rightarrow> unit result \<times> front_office" where
  "reserveInventoryForDates ty stayDates bypassThreshold fo =
     (case lock_nights ty bypassThreshold stayDates [] fo of
        (Inl e, fo1) \<Rightarrow> (Inl e, fo1)
      | (Inr locked, fo1) \<Rightarrow> (Inr (), fold count_night locked fo1))"

definition release_night :: "nat \<Rightarrow> date \<Rightarrow> front_office \<Rightarrow> front_office" where
  "release_night ty d fo = (case inventory_row fo ty d of
     None \<Rightarrow> fo
   | Some (i, row) \<Rightarrow> fo\<lparr>inventory := t_update (by_id i) (\<lambda>n. n\<lparr>in_sold := max 0 (in_sold row - 1)\<rparr>) (inventory fo)\<rparr>)"

definition releaseInventoryForDates :: "nat \<Rightarrow> date list \<Rightarrow> front_office \<Rightarrow> front_office" where
  "releaseInventoryForDates ty stayDates fo = fold (release_night ty) stayDates fo"

record night_offer =
  no_date :: date
  no_physical :: int
  no_sold :: int
  no_threshold :: int
  no_sellable :: int

definition night_offer_of :: "front_office \<Rightarrow> nat \<Rightarrow> date \<Rightarrow> night_offer" where
  "night_offer_of fo ty d =
     (let physical = livePhysicalCount fo (Some ty) d;
          (pct, sold) = (case inventory_row fo ty d of None \<Rightarrow> (10000, 0) | Some (_, row) \<Rightarrow> (in_pct row, in_sold row));
          limit = threshold physical pct
      in \<lparr>no_date = d, no_physical = physical, no_sold = sold, no_threshold = limit, no_sellable = max 0 (limit - sold)\<rparr>)"

text \<open>\<open>Math.min()\<close> of no nights is \<open>Infinity\<close>, here \<open>None\<close>.\<close>

definition checkAvailability :: "front_office \<Rightarrow> nat \<Rightarrow> date \<Rightarrow> date \<Rightarrow> night_offer list \<times> int option" where
  "checkAvailability fo ty arrival departure =
     (let nights = map (night_offer_of fo ty) (expandStayDates arrival departure)
      in (nights, if nights = [] then None else Some (Min (set (map no_sellable nights)))))"

definition configureOverbookingThreshold :: "nat \<Rightarrow> date \<Rightarrow> int \<Rightarrow> front_office \<Rightarrow> front_office" where
  "configureOverbookingThreshold ty d pct fo = (case inventory_row fo ty d of
     None \<Rightarrow> fo\<lparr>inventory := t_insert \<lparr>in_type = ty, in_date = d, in_sold = 0, in_pct = pct\<rparr> (inventory fo)\<rparr>
   | Some _ \<Rightarrow> fo\<lparr>inventory := t_update (\<lambda>_ n. in_type n = ty \<and> in_date n = d) (\<lambda>n. n\<lparr>in_pct := pct\<rparr>) (inventory fo)\<rparr>)"

section \<open>Capacity when rooms leave a type\<close>

definition lockInventoryRowsForTypes :: "nat list \<Rightarrow> date option \<Rightarrow> front_office \<Rightarrow> inventory_night list" where
  "lockInventoryRowsForTypes types fromDate fo =
     map snd (t_select (\<lambda>_ n. in_type n \<in> set types \<and> (case fromDate of None \<Rightarrow> True | Some d \<Rightarrow> in_date n \<ge> d)) (inventory fo))"

definition periods_of :: "front_office \<Rightarrow> date option \<Rightarrow> nat \<Rightarrow> out_of_order list" where
  "periods_of fo fromDate i = map snd (t_select (\<lambda>_ p. oo_room p = i
     \<and> (case fromDate of None \<Rightarrow> True | Some d \<Rightarrow> oo_end p \<ge> d)) (ooo_periods fo))"

record violation =
  vi_date :: date
  vi_sold :: int
  vi_capacity :: int
  vi_threshold :: int

definition capacity_violation ::
    "front_office \<Rightarrow> date option \<Rightarrow> (nat \<times> room) list \<Rightarrow> nat set \<Rightarrow> inventory_night \<Rightarrow> violation option" where
  "capacity_violation fo fromDate typeRooms moved row =
     (let counted = filter (\<lambda>(i, r). roomCountsTowardCapacity r (in_date row) (periods_of fo fromDate i)) typeRooms;
          current = length counted;
          after = length (filter (\<lambda>(i, r). i \<notin> moved) counted);
          limit = threshold (int after) (in_pct row)
      in if current = after then None
         else if in_sold row > limit
         then Some \<lparr>vi_date = in_date row, vi_sold = in_sold row, vi_capacity = int after, vi_threshold = limit\<rparr>
         else None)"

text \<open>For one room type and the rooms about to leave it.\<close>

definition violations_of_type ::
    "front_office \<Rightarrow> date option \<Rightarrow> inventory_night list \<Rightarrow> nat \<Rightarrow> nat set \<Rightarrow> violation list" where
  "violations_of_type fo fromDate inventoryRows ty moved =
     List.map_filter (\<lambda>row. if in_type row \<noteq> ty then None
         else if (case fromDate of None \<Rightarrow> False | Some d \<Rightarrow> in_date row < d) then None
         else capacity_violation fo fromDate (t_select (\<lambda>_ r. rm_type r = ty) (rooms fo)) moved row) inventoryRows"

definition findCapacityViolations ::
    "front_office \<Rightarrow> (nat \<times> nat set) list \<Rightarrow> inventory_night list \<Rightarrow> date option \<Rightarrow> (nat \<times> violation list) list" where
  "findCapacityViolations fo movedRoomsByType inventoryRows fromDate =
     filter (\<lambda>(_, vs). vs \<noteq> [])
       (map (\<lambda>(ty, moved). (ty, violations_of_type fo fromDate inventoryRows ty moved)) movedRoomsByType)"

end
