(* ===== verification/InventoryFacts.thy ===== *)
theory InventoryFacts
  imports Inventory
begin

text \<open>
  What the nightly counter does: one row per room type and night, and what counting and releasing nights changes. The
  locale \<open>night_counter\<close> states the contract the reservations rely on; it is interpreted on the model's own operations.
\<close>

section \<open>The row of a night\<close>

definition sold :: "front_office \<Rightarrow> nat \<Rightarrow> date \<Rightarrow> int" where
  "sold fo ty d = (case inventory_row fo ty d of None \<Rightarrow> 0 | Some (_, n) \<Rightarrow> in_sold n)"

definition pct_of :: "front_office \<Rightarrow> nat \<Rightarrow> date \<Rightarrow> int" where
  "pct_of fo ty d = (case inventory_row fo ty d of None \<Rightarrow> 10000 | Some (_, n) \<Rightarrow> in_pct n)"

definition limit :: "front_office \<Rightarrow> nat \<Rightarrow> date \<Rightarrow> int" where
  "limit fo ty d = threshold (livePhysicalCount fo (Some ty) d) (pct_of fo ty d)"

text \<open>The table's unique key, as the database enforces it.\<close>

definition inv_ok :: "front_office \<Rightarrow> bool" where
  "inv_ok fo \<longleftrightarrow> t_wf (inventory fo) \<and> (\<forall>i j n m. t_get (inventory fo) i = Some n \<longrightarrow> t_get (inventory fo) j = Some m \<longrightarrow>
     in_type n = in_type m \<longrightarrow> in_date n = in_date m \<longrightarrow> i = j)"

definition inventory_only :: "front_office \<Rightarrow> front_office \<Rightarrow> bool" where
  "inventory_only fo fo' \<longleftrightarrow> fo' = fo\<lparr>inventory := inventory fo'\<rparr>"

lemma inventory_only_refl [simp, intro]: "inventory_only fo fo" by (simp add: inventory_only_def)

lemma inventory_only_trans: "inventory_only a b \<Longrightarrow> inventory_only b c \<Longrightarrow> inventory_only a c"
  unfolding inventory_only_def by (metis front_office.surjective front_office.update_convs(4))

lemma inventory_only_upd [simp, intro]: "inventory_only fo (fo\<lparr>inventory := t\<rparr>)" by (simp add: inventory_only_def)

lemma inventory_only_frame:
  assumes "inventory_only fo fo'"
  shows "house fo' = house fo" "rooms fo' = rooms fo" "ooo_periods fo' = ooo_periods fo" "reservations fo' = reservations fo"
    "assignments fo' = assignments fo" "rate_codes fo' = rate_codes fo" "rate_calendar fo' = rate_calendar fo"
  by (subst assms [unfolded inventory_only_def]; simp)+

lemma live_frame: "rooms fo' = rooms fo \<Longrightarrow> ooo_periods fo' = ooo_periods fo \<Longrightarrow> livePhysicalCount fo' = livePhysicalCount fo"
  by (intro ext) (simp add: livePhysicalCount_def outOfOrderRoomIds_def)

lemma inventory_row_iff:
  assumes "inv_ok fo"
  shows "inventory_row fo ty d = Some (i, n) \<longleftrightarrow> t_get (inventory fo) i = Some n \<and> in_type n = ty \<and> in_date n = d"
proof
  assume "inventory_row fo ty d = Some (i, n)"
  then show "t_get (inventory fo) i = Some n \<and> in_type n = ty \<and> in_date n = d"
    using t_first_SomeD [of "inventory fo"] assms by (auto simp: inventory_row_def inv_ok_def)
next
  assume r: "t_get (inventory fo) i = Some n \<and> in_type n = ty \<and> in_date n = d"
  have wf: "t_wf (inventory fo)" using assms by (simp add: inv_ok_def)
  obtain j m where j: "inventory_row fo ty d = Some (j, m)"
    using t_first_NoneD [OF wf, of "\<lambda>_ n. in_type n = ty \<and> in_date n = d" i n] r by (cases "inventory_row fo ty d") (auto simp: inventory_row_def)
  then have "t_get (inventory fo) j = Some m \<and> in_type m = ty \<and> in_date m = d" using t_first_SomeD [OF wf] by (auto simp: inventory_row_def)
  then show "inventory_row fo ty d = Some (i, n)" using r j assms unfolding inv_ok_def by (metis option.inject)
qed

lemma inventory_row_None:
  "inv_ok fo \<Longrightarrow> inventory_row fo ty d = None \<longleftrightarrow> (\<forall>i n. t_get (inventory fo) i = Some n \<longrightarrow> \<not> (in_type n = ty \<and> in_date n = d))"
  using inventory_row_iff [of fo ty d] by (metis not_None_eq surj_pair)

lemma row_reads:
  "inv_ok fo \<Longrightarrow> t_get (inventory fo) i = Some n \<Longrightarrow> sold fo (in_type n) (in_date n) = in_sold n"
  "inv_ok fo \<Longrightarrow> t_get (inventory fo) i = Some n \<Longrightarrow> pct_of fo (in_type n) (in_date n) = in_pct n"
  using inventory_row_iff [of fo "in_type n" "in_date n" i n] by (simp_all add: sold_def pct_of_def)

lemma row_eqI: "(\<And>i m. a = Some (i, m) \<longleftrightarrow> b = Some (i, m)) \<Longrightarrow> a = b"
  by (cases a; cases b) auto

section \<open>Writing rows\<close>

text \<open>A write to the counter of one row, and a row that is added, for every reader at once.\<close>

lemma inv_ok_insert:
  assumes "inv_ok fo" "inventory_row fo (in_type n) (in_date n) = None"
  shows "inv_ok (fo\<lparr>inventory := t_insert n (inventory fo)\<rparr>)"
    and "inventory_row (fo\<lparr>inventory := t_insert n (inventory fo)\<rparr>) ty d =
      (if ty = in_type n \<and> d = in_date n then Some (next_id (inventory fo), n) else inventory_row fo ty d)"
proof -
  have wf: "t_wf (inventory fo)" using assms by (simp add: inv_ok_def)
  have none: "\<And>i m. t_get (inventory fo) i = Some m \<Longrightarrow> \<not> (in_type m = in_type n \<and> in_date m = in_date n)"
    using assms inventory_row_None by blast
  then have none': "\<And>i m. t_get (inventory fo) i = Some m \<Longrightarrow> \<not> (in_type n = in_type m \<and> in_date n = in_date m)" by metis
  show ok: "inv_ok (fo\<lparr>inventory := t_insert n (inventory fo)\<rparr>)"
    using assms(1) none none' wf unfolding inv_ok_def by (auto simp: t_get_insert)
  have "inventory_row (fo\<lparr>inventory := t_insert n (inventory fo)\<rparr>) ty d = Some (i, m) \<longleftrightarrow>
      (if ty = in_type n \<and> d = in_date n then Some (next_id (inventory fo), n) else inventory_row fo ty d) = Some (i, m)" for i m
    unfolding inventory_row_iff [OF ok] using inventory_row_iff [OF assms(1), of ty d i m] none [of i m] wf
    by (auto simp: t_get_insert)
  then show "inventory_row (fo\<lparr>inventory := t_insert n (inventory fo)\<rparr>) ty d =
      (if ty = in_type n \<and> d = in_date n then Some (next_id (inventory fo), n) else inventory_row fo ty d)"
    by (rule row_eqI)
qed

lemma inv_ok_update:
  assumes "inv_ok fo" "t_get (inventory fo) i = Some n" "in_type (f n) = in_type n" "in_date (f n) = in_date n"
  defines "fo' \<equiv> fo\<lparr>inventory := t_update (by_id i) f (inventory fo)\<rparr>"
  shows "inv_ok fo'"
    and "inventory_row fo' ty d = (if ty = in_type n \<and> d = in_date n then Some (i, f n) else inventory_row fo ty d)"
proof -
  have g: "t_get (inventory fo') j = (if j = i then Some (f n) else t_get (inventory fo) j)" for j
    using assms(2) by (simp add: fo'_def t_get_update_id)
  show ok: "inv_ok fo'"
    using assms(1-4) unfolding inv_ok_def g by (auto simp: fo'_def split: if_splits)
  have "inventory_row fo' ty d = Some (j, m) \<longleftrightarrow>
      (if ty = in_type n \<and> d = in_date n then Some (i, f n) else inventory_row fo ty d) = Some (j, m)" for j m
  proof (cases "ty = in_type n \<and> d = in_date n")
    case True
    have "j = i" if "t_get (inventory fo) j = Some m" "in_type m = ty" "in_date m = d"
      using inventory_row_iff [OF assms(1), of ty d j m] inventory_row_iff [OF assms(1), of ty d i n] assms(2) True that by simp
    then show ?thesis using True assms(3,4) unfolding inventory_row_iff [OF ok] g by auto
  next
    case False
    have "t_get (inventory fo) i \<noteq> Some m" if "in_type m = ty" "in_date m = d" using False assms(2) that by auto
    then show ?thesis using False assms(3,4) inventory_row_iff [OF assms(1), of ty d j m] unfolding inventory_row_iff [OF ok] g by auto
  qed
  then show "inventory_row fo' ty d = (if ty = in_type n \<and> d = in_date n then Some (i, f n) else inventory_row fo ty d)"
    by (rule row_eqI)
qed

section \<open>Counting and releasing\<close>

lemma ensure_facts:
  assumes "inv_ok fo"
  shows "inv_ok (ensureInventoryRow ty d fo)" "inventory_only fo (ensureInventoryRow ty d fo)"
    "sold (ensureInventoryRow ty d fo) = sold fo" "pct_of (ensureInventoryRow ty d fo) = pct_of fo"
    "inventory_row (ensureInventoryRow ty d fo) ty d \<noteq> None"
    "t_get (inventory fo) i = Some n \<Longrightarrow> t_get (inventory (ensureInventoryRow ty d fo)) i = Some n"
proof -
  let ?n = "\<lparr>in_type = ty, in_date = d, in_sold = 0, in_pct = 10000\<rparr>"
  have wf: "t_wf (inventory fo)" using assms by (simp add: inv_ok_def)
  show "inv_ok (ensureInventoryRow ty d fo)" "inventory_row (ensureInventoryRow ty d fo) ty d \<noteq> None"
    using assms inv_ok_insert [OF assms, of ?n] by (auto simp: ensureInventoryRow_def split: option.split)
  show "inventory_only fo (ensureInventoryRow ty d fo)" by (simp add: ensureInventoryRow_def split: option.split)
  show "sold (ensureInventoryRow ty d fo) = sold fo" "pct_of (ensureInventoryRow ty d fo) = pct_of fo"
    using inv_ok_insert(2) [OF assms, of ?n] by (auto simp: ensureInventoryRow_def sold_def pct_of_def split: option.split intro!: ext)
  show "t_get (inventory fo) i = Some n \<Longrightarrow> t_get (inventory (ensureInventoryRow ty d fo)) i = Some n"
    using t_get_lt [OF wf, of i n] wf by (simp add: ensureInventoryRow_def t_get_insert split: option.split)
qed

lemma count_night_facts:
  assumes "inv_ok fo" "t_get (inventory fo) i = Some n"
  shows "inv_ok (count_night (i, n) fo)" "inventory_only fo (count_night (i, n) fo)" "pct_of (count_night (i, n) fo) = pct_of fo"
    "sold (count_night (i, n) fo) ty d = sold fo ty d + (if ty = in_type n \<and> d = in_date n then 1 else 0)"
    "t_get (inventory (count_night (i, n) fo)) j = (if j = i then Some (n\<lparr>in_sold := in_sold n + 1\<rparr>) else t_get (inventory fo) j)"
proof -
  let ?f = "\<lambda>m. m\<lparr>in_sold := in_sold n + 1\<rparr>"
  note u = inv_ok_update [OF assms, of ?f]
  have row: "inventory_row fo (in_type n) (in_date n) = Some (i, n)" using inventory_row_iff [OF assms(1)] assms(2) by simp
  show "inv_ok (count_night (i, n) fo)" using u(1) by (simp add: count_night_def)
  show "inventory_only fo (count_night (i, n) fo)" by (simp add: count_night_def)
  show "pct_of (count_night (i, n) fo) = pct_of fo"
    using u(2) row by (intro ext) (simp add: count_night_def pct_of_def)
  show "sold (count_night (i, n) fo) ty d = sold fo ty d + (if ty = in_type n \<and> d = in_date n then 1 else 0)"
    using u(2) row by (simp add: count_night_def sold_def)
  show "t_get (inventory (count_night (i, n) fo)) j = (if j = i then Some (n\<lparr>in_sold := in_sold n + 1\<rparr>) else t_get (inventory fo) j)"
    using assms(2) by (simp add: count_night_def t_get_update_id)
qed

lemma limit_frame: "inventory_only fo fo' \<Longrightarrow> pct_of fo' = pct_of fo \<Longrightarrow> limit fo' = limit fo"
  using live_frame [of fo' fo] inventory_only_frame [of fo fo'] by (intro ext) (simp add: limit_def)

abbreviation held_rows :: "nat \<Rightarrow> front_office \<Rightarrow> (nat \<times> inventory_night) list \<Rightarrow> bool" where
  "held_rows ty fo l \<equiv> \<forall>i n. (i, n) \<in> set l \<longrightarrow> t_get (inventory fo) i = Some n \<and> in_type n = ty"

lemma lock_nights_facts:
  assumes "inv_ok fo" "lock_nights ty bypass ds locked fo = (r, fo')" "held_rows ty fo locked"
  shows "inv_ok fo' \<and> inventory_only fo fo' \<and> sold fo' = sold fo \<and> pct_of fo' = pct_of fo"
    and "r = Inr l \<Longrightarrow> map (in_date \<circ> snd) l = map (in_date \<circ> snd) locked @ ds \<and> held_rows ty fo' l
      \<and> (bypass \<or> (\<forall>d \<in> set ds. sold fo ty d + 1 \<le> limit fo ty d))"
    and "r = Inl e \<Longrightarrow> \<not> bypass \<and> (\<exists>d \<in> set ds. e = OverbookingThresholdExceededError ty (date_text d) \<and> limit fo ty d < sold fo ty d + 1)"
proof -
  have "(inv_ok fo' \<and> inventory_only fo fo' \<and> sold fo' = sold fo \<and> pct_of fo' = pct_of fo) \<and>
    (\<forall>l. r = Inr l \<longrightarrow> map (in_date \<circ> snd) l = map (in_date \<circ> snd) locked @ ds \<and> held_rows ty fo' l
      \<and> (bypass \<or> (\<forall>d \<in> set ds. sold fo ty d + 1 \<le> limit fo ty d))) \<and>
    (\<forall>e. r = Inl e \<longrightarrow> \<not> bypass \<and> (\<exists>d \<in> set ds. e = OverbookingThresholdExceededError ty (date_text d) \<and> limit fo ty d < sold fo ty d + 1))"
    using assms
  proof (induction ds arbitrary: locked fo)
    case Nil
    then show ?case by auto
  next
    case (Cons d ds)
    let ?fo1 = "ensureInventoryRow ty d fo"
    note e = ensure_facts [OF Cons.prems(1), where ty = ty and d = d]
    have lim: "limit ?fo1 = limit fo" by (rule limit_frame [OF e(2,4)])
    obtain i n where row: "inventory_row ?fo1 ty d = Some (i, n)" using e(5) by auto
    have get: "t_get (inventory ?fo1) i = Some n" "in_type n = ty" "in_date n = d" using row inventory_row_iff [OF e(1)] by auto
    have "in_sold n = sold ?fo1 ty d" "in_pct n = pct_of ?fo1 ty d" by (simp_all add: sold_def pct_of_def row)
    then have rd: "in_sold n = sold fo ty d" "in_pct n = pct_of fo ty d" unfolding e(3,4) by simp_all
    have full: "(in_sold n + 1 > threshold (livePhysicalCount ?fo1 (Some ty) d) (in_pct n)) = (limit fo ty d < sold fo ty d + 1)"
      unfolding lim [symmetric] rd by (simp add: limit_def e(4))
    show ?case
    proof (cases "\<not> bypass \<and> limit fo ty d < sold fo ty d + 1")
      case True
      then have "r = Inl (OverbookingThresholdExceededError ty (date_text d))" "fo' = ?fo1"
        using Cons.prems(2) row full by (auto simp: Let_def)
      then show ?thesis using e True by auto
    next
      case False
      then have next_: "lock_nights ty bypass ds (locked @ [(i, n)]) ?fo1 = (r, fo')"
        using Cons.prems(2) row full by (auto simp: Let_def)
      have held: "held_rows ty ?fo1 (locked @ [(i, n)])" using Cons.prems(3) get ensure_facts(6) [OF Cons.prems(1)] by auto
      show ?thesis using Cons.IH [OF e(1) next_ held] e get False lim inventory_only_trans by auto
    qed
  qed
  then show "inv_ok fo' \<and> inventory_only fo fo' \<and> sold fo' = sold fo \<and> pct_of fo' = pct_of fo"
    and "r = Inr l \<Longrightarrow> map (in_date \<circ> snd) l = map (in_date \<circ> snd) locked @ ds \<and> held_rows ty fo' l
      \<and> (bypass \<or> (\<forall>d \<in> set ds. sold fo ty d + 1 \<le> limit fo ty d))"
    and "r = Inl e \<Longrightarrow> \<not> bypass \<and> (\<exists>d \<in> set ds. e = OverbookingThresholdExceededError ty (date_text d) \<and> limit fo ty d < sold fo ty d + 1)"
    by blast+
qed

lemma fold_count_facts:
  "inv_ok fo \<Longrightarrow> held_rows ty fo l \<Longrightarrow> distinct (map (in_date \<circ> snd) l) \<Longrightarrow>
     inv_ok (fold count_night l fo) \<and> inventory_only fo (fold count_night l fo) \<and> pct_of (fold count_night l fo) = pct_of fo
     \<and> (\<forall>t d. sold (fold count_night l fo) t d = sold fo t d + (if t = ty \<and> d \<in> set (map (in_date \<circ> snd) l) then 1 else 0))"
proof (induction l arbitrary: fo)
  case (Cons x l)
  obtain i n where x: "x = (i, n)" by (cases x)
  have get: "t_get (inventory fo) i = Some n" "in_type n = ty" using Cons.prems(2) x by auto
  note c = count_night_facts [OF Cons.prems(1) get(1)]
  have held: "held_rows ty (count_night (i, n) fo) l"
  proof (intro allI impI)
    fix j m assume jm: "(j, m) \<in> set l"
    have m: "t_get (inventory fo) j = Some m" using Cons.prems(2) jm by simp
    have "in_date m \<in> set (map (in_date \<circ> snd) l)" using jm by force
    moreover have "in_date n \<notin> set (map (in_date \<circ> snd) l)" using Cons.prems(3) x by simp
    ultimately have "j \<noteq> i" using m get(1) by (metis option.inject)
    then show "t_get (inventory (count_night (i, n) fo)) j = Some m \<and> in_type m = ty" using c(5) Cons.prems(2) jm x by auto
  qed
  have ih: "inv_ok (fold count_night l (count_night (i, n) fo)) \<and> inventory_only (count_night (i, n) fo) (fold count_night l (count_night (i, n) fo))
     \<and> pct_of (fold count_night l (count_night (i, n) fo)) = pct_of (count_night (i, n) fo)
     \<and> (\<forall>t d. sold (fold count_night l (count_night (i, n) fo)) t d
         = sold (count_night (i, n) fo) t d + (if t = ty \<and> d \<in> set (map (in_date \<circ> snd) l) then 1 else 0))"
    using Cons.IH [OF c(1) held] Cons.prems(3) by simp
  have new: "in_date n \<notin> set (map (in_date \<circ> snd) l)" using Cons.prems(3) x by simp
  have step: "fold count_night (x # l) fo = fold count_night l (count_night (i, n) fo)" by (simp add: x)
  have "sold (fold count_night (x # l) fo) t d = sold fo t d + (if t = ty \<and> d \<in> set (map (in_date \<circ> snd) (x # l)) then 1 else 0)" for t d
  proof -
    have h: "sold (fold count_night l (count_night (i, n) fo)) t d
        = sold (count_night (i, n) fo) t d + (if t = ty \<and> d \<in> set (map (in_date \<circ> snd) l) then 1 else 0)"
      by (rule conjunct2 [OF conjunct2 [OF conjunct2 [OF ih]], rule_format])
    have "sold (fold count_night (x # l) fo) t d
        = sold fo t d + (if t = ty \<and> d = in_date n then 1 else 0) + (if t = ty \<and> d \<in> set (map (in_date \<circ> snd) l) then 1 else 0)"
      unfolding step h c(4) get(2) ..
    then show ?thesis using new by (auto simp: x)
  qed
  moreover have "inventory_only fo (fold count_night (x # l) fo)" unfolding step using ih c(2) inventory_only_trans by blast
  ultimately show ?case using ih c(1,3) unfolding step by auto
qed simp

text \<open>Reserving the nights of a stay: all of them or none, and never past the limit unless told to.\<close>

lemma reserve_facts:
  assumes ok: "inv_ok fo" and run: "reserveInventoryForDates ty ds bypass fo = (r, fo')" and ds: "distinct ds"
  shows "inv_ok fo'" "inventory_only fo fo'" "pct_of fo' = pct_of fo"
    and "r = Inr u \<Longrightarrow> sold fo' t d = sold fo t d + (if t = ty \<and> d \<in> set ds then 1 else 0)"
    and "r = Inr u \<Longrightarrow> bypass \<or> (\<forall>d \<in> set ds. sold fo' ty d \<le> limit fo' ty d)"
    and "r = Inl e \<Longrightarrow> sold fo' = sold fo \<and> \<not> bypass
      \<and> (\<exists>d \<in> set ds. e = OverbookingThresholdExceededError ty (date_text d) \<and> limit fo ty d < sold fo ty d + 1)"
proof -
  obtain q fo1 where q: "lock_nights ty bypass ds [] fo = (q, fo1)" by fastforce
  note L = lock_nights_facts [OF ok q]
  have a: "inv_ok fo1 \<and> inventory_only fo fo1 \<and> sold fo1 = sold fo \<and> pct_of fo1 = pct_of fo" using L(1) by simp
  have good: "inv_ok fo' \<and> inventory_only fo fo' \<and> pct_of fo' = pct_of fo
      \<and> (\<forall>t d. sold fo' t d = sold fo t d + (if t = ty \<and> d \<in> set ds then 1 else 0)) \<and> (bypass \<or> (\<forall>d \<in> set ds. sold fo ty d + 1 \<le> limit fo ty d))"
    if l: "q = Inr l" for l
  proof -
    have fo': "fo' = fold count_night l fo1" using run q l by (simp add: reserveInventoryForDates_def)
    have b: "map (in_date \<circ> snd) l = ds" "held_rows ty fo1 l" "bypass \<or> (\<forall>d \<in> set ds. sold fo ty d + 1 \<le> limit fo ty d)"
      using L(2) [where l = l] l by auto
    have c: "inv_ok fo' \<and> inventory_only fo1 fo' \<and> pct_of fo' = pct_of fo1
        \<and> (\<forall>t d. sold fo' t d = sold fo1 t d + (if t = ty \<and> d \<in> set ds then 1 else 0))"
      unfolding fo' using fold_count_facts [where fo = fo1 and ty = ty and l = l] a b(1,2) ds by simp
    then show ?thesis using a b(3) inventory_only_trans by auto
  qed
  have bad: "fo' = fo1 \<and> r = Inl e" if "q = Inl e" for e using run q that by (simp add: reserveInventoryForDates_def)
  show frame: "inv_ok fo'" "inventory_only fo fo'" "pct_of fo' = pct_of fo" using a good bad by (cases q; auto)+
  have lim: "limit fo' = limit fo" by (rule limit_frame [OF frame(2,3)])
  have r: "\<exists>l. q = Inr l" if "r = Inr u" using run q that by (cases q) (auto simp: reserveInventoryForDates_def)
  show "r = Inr u \<Longrightarrow> sold fo' t d = sold fo t d + (if t = ty \<and> d \<in> set ds then 1 else 0)"
    "r = Inr u \<Longrightarrow> bypass \<or> (\<forall>d \<in> set ds. sold fo' ty d \<le> limit fo' ty d)"
    using good r lim by auto
  show "r = Inl e \<Longrightarrow> sold fo' = sold fo \<and> \<not> bypass
      \<and> (\<exists>d \<in> set ds. e = OverbookingThresholdExceededError ty (date_text d) \<and> limit fo ty d < sold fo ty d + 1)"
    using run q a L(3) [where e = e] by (cases q) (auto simp: reserveInventoryForDates_def)
qed

lemma release_night_facts:
  assumes "inv_ok fo"
  shows "inv_ok (release_night ty d fo)" "inventory_only fo (release_night ty d fo)" "pct_of (release_night ty d fo) = pct_of fo"
    "sold (release_night ty d fo) t e = (if t = ty \<and> e = d then max 0 (sold fo t e - 1) else sold fo t e)"
proof -
  have "inv_ok (release_night ty d fo) \<and> inventory_only fo (release_night ty d fo) \<and> pct_of (release_night ty d fo) = pct_of fo
    \<and> sold (release_night ty d fo) t e = (if t = ty \<and> e = d then max 0 (sold fo t e - 1) else sold fo t e)"
  proof (cases "inventory_row fo ty d")
    case (Some x)
    obtain i n where x: "x = (i, n)" by (cases x)
    have get: "t_get (inventory fo) i = Some n" "in_type n = ty" "in_date n = d" using Some x inventory_row_iff [OF assms] by auto
    note u = inv_ok_update [OF assms get(1), of "\<lambda>m. m\<lparr>in_sold := max 0 (in_sold n - 1)\<rparr>"]
    have e: "release_night ty d fo = fo\<lparr>inventory := t_update (by_id i) (\<lambda>m. m\<lparr>in_sold := max 0 (in_sold n - 1)\<rparr>) (inventory fo)\<rparr>"
      using Some x by (simp add: release_night_def)
    show ?thesis using u Some x get by (auto simp: e pct_of_def sold_def intro!: ext)
  next
    case None
    then show ?thesis using assms by (auto simp: release_night_def sold_def)
  qed
  then show "inv_ok (release_night ty d fo)" "inventory_only fo (release_night ty d fo)" "pct_of (release_night ty d fo) = pct_of fo"
    "sold (release_night ty d fo) t e = (if t = ty \<and> e = d then max 0 (sold fo t e - 1) else sold fo t e)"
    by blast+
qed

lemma release_facts:
  assumes "inv_ok fo" "distinct ds"
  shows "inv_ok (releaseInventoryForDates ty ds fo) \<and> inventory_only fo (releaseInventoryForDates ty ds fo)
    \<and> pct_of (releaseInventoryForDates ty ds fo) = pct_of fo
    \<and> (\<forall>t d. sold (releaseInventoryForDates ty ds fo) t d = (if t = ty \<and> d \<in> set ds then max 0 (sold fo t d - 1) else sold fo t d))"
  using assms
proof (induction ds arbitrary: fo)
  case (Cons d ds)
  note r = release_night_facts [OF Cons.prems(1), where ty = ty and d = d]
  have ih: "inv_ok (fold (release_night ty) ds (release_night ty d fo)) \<and> inventory_only (release_night ty d fo) (fold (release_night ty) ds (release_night ty d fo))
    \<and> pct_of (fold (release_night ty) ds (release_night ty d fo)) = pct_of (release_night ty d fo)
    \<and> (\<forall>t e. sold (fold (release_night ty) ds (release_night ty d fo)) t e
        = (if t = ty \<and> e \<in> set ds then max 0 (sold (release_night ty d fo) t e - 1) else sold (release_night ty d fo) t e))"
    using Cons.IH [OF r(1)] Cons.prems(2) by (simp add: releaseInventoryForDates_def)
  have step: "releaseInventoryForDates ty (d # ds) fo = fold (release_night ty) ds (release_night ty d fo)" by (simp add: releaseInventoryForDates_def)
  have "sold (releaseInventoryForDates ty (d # ds) fo) t e = (if t = ty \<and> e \<in> set (d # ds) then max 0 (sold fo t e - 1) else sold fo t e)" for t e
  proof -
    have h: "sold (fold (release_night ty) ds (release_night ty d fo)) t e
        = (if t = ty \<and> e \<in> set ds then max 0 (sold (release_night ty d fo) t e - 1) else sold (release_night ty d fo) t e)"
      by (rule conjunct2 [OF conjunct2 [OF conjunct2 [OF ih]], rule_format])
    show ?thesis unfolding step h r(4) using Cons.prems(2) by auto
  qed
  then show ?case using ih r(2,3) inventory_only_trans unfolding step by auto
qed (simp add: releaseInventoryForDates_def)

section \<open>The contract\<close>

text \<open>
  What the reservations rely on: a counter per room type and night that a reservation of distinct nights raises by one each,
  or not at all, and a release lowers by one where it is positive. \<open>tallies h\<close> says the counter agrees with a tally of
  the client's own on the nights that are \<open>live\<close>.
\<close>

locale night_counter =
  fixes counter :: "'db \<Rightarrow> nat \<Rightarrow> date \<Rightarrow> int"
    and sound :: "'db \<Rightarrow> bool"
    and reserve :: "nat \<Rightarrow> date list \<Rightarrow> bool \<Rightarrow> 'db \<Rightarrow> unit result \<times> 'db"
    and release :: "nat \<Rightarrow> date list \<Rightarrow> 'db \<Rightarrow> 'db"
  assumes reserve_sound: "sound db \<Longrightarrow> distinct ds \<Longrightarrow> reserve ty ds bp db = (r, db') \<Longrightarrow> sound db'"
    and reserve_counts: "sound db \<Longrightarrow> distinct ds \<Longrightarrow> reserve ty ds bp db = (Inr u, db') \<Longrightarrow>
      counter db' t d = counter db t d + (if t = ty \<and> d \<in> set ds then 1 else 0)"
    and refused_counts: "sound db \<Longrightarrow> distinct ds \<Longrightarrow> reserve ty ds bp db = (Inl e, db') \<Longrightarrow> counter db' = counter db"
    and release_sound: "sound db \<Longrightarrow> distinct ds \<Longrightarrow> sound (release ty ds db)"
    and release_counts: "sound db \<Longrightarrow> distinct ds \<Longrightarrow>
      counter (release ty ds db) t d = (if t = ty \<and> d \<in> set ds then max 0 (counter db t d - 1) else counter db t d)"
begin

definition tallies :: "(date \<Rightarrow> bool) \<Rightarrow> 'db \<Rightarrow> (nat \<Rightarrow> date \<Rightarrow> int) \<Rightarrow> bool" where
  "tallies live db h \<longleftrightarrow> sound db \<and> (\<forall>t d. live d \<longrightarrow> counter db t d = h t d)"

lemma tallies_reserve:
  assumes "tallies live db h" "distinct ds" "reserve ty ds bp db = (Inr u, db')"
    and "\<And>t d. live d \<Longrightarrow> h' t d = h t d + (if t = ty \<and> d \<in> set ds then 1 else 0)"
  shows "tallies live db' h'"
  using assms reserve_sound [of db ds ty bp "Inr u" db'] reserve_counts [of db ds ty bp u db'] by (auto simp: tallies_def)

lemma tallies_refused:
  assumes "tallies live db h" "distinct ds" "reserve ty ds bp db = (Inl e, db')"
  shows "tallies live db' h"
  using assms reserve_sound [of db ds ty bp "Inl e" db'] refused_counts [of db ds ty bp e db'] by (auto simp: tallies_def)

lemma tallies_release:
  assumes "tallies live db h" "distinct ds" "\<And>t d. live d \<Longrightarrow> 0 \<le> h' t d"
    and "\<And>t d. live d \<Longrightarrow> h' t d = h t d - (if t = ty \<and> d \<in> set ds then 1 else 0)"
  shows "tallies live (release ty ds db) h'"
proof -
  have s: "sound db" using assms(1) by (simp add: tallies_def)
  have "counter (release ty ds db) t d = h' t d" if "live d" for t d
  proof -
    have "counter db t d = h t d" using assms(1) that by (simp add: tallies_def)
    then show ?thesis using release_counts [OF s assms(2), of ty t d] assms(3,4) [OF that, of t] by (auto split: if_splits)
  qed
  then show ?thesis using release_sound [OF s assms(2)] by (simp add: tallies_def)
qed

lemma tallies_mono: "tallies live db h \<Longrightarrow> (\<And>d. live' d \<Longrightarrow> live d) \<Longrightarrow> tallies live' db h"
  by (simp add: tallies_def)

end

interpretation nights: night_counter sold inv_ok reserveInventoryForDates releaseInventoryForDates
proof
  fix db db' :: front_office and ds ty bp r t d
  show "inv_ok db \<Longrightarrow> distinct ds \<Longrightarrow> reserveInventoryForDates ty ds bp db = (r, db') \<Longrightarrow> inv_ok db'"
    by (rule reserve_facts(1))
  show "inv_ok db \<Longrightarrow> distinct ds \<Longrightarrow> reserveInventoryForDates ty ds bp db = (Inr u, db') \<Longrightarrow>
      sold db' t d = sold db t d + (if t = ty \<and> d \<in> set ds then 1 else 0)" for u
    by (rule reserve_facts(4)) (assumption | rule refl)+
  show "inv_ok db \<Longrightarrow> distinct ds \<Longrightarrow> reserveInventoryForDates ty ds bp db = (Inl e, db') \<Longrightarrow> sold db' = sold db" for e
    using reserve_facts(6) by blast
  show "inv_ok db \<Longrightarrow> distinct ds \<Longrightarrow> inv_ok (releaseInventoryForDates ty ds db)"
    "inv_ok db \<Longrightarrow> distinct ds \<Longrightarrow> sold (releaseInventoryForDates ty ds db) t d
      = (if t = ty \<and> d \<in> set ds then max 0 (sold db t d - 1) else sold db t d)"
    using release_facts by blast+
qed

end
