(* ===== verification/Reservations.thy ===== *)
theory Reservations
  imports InventoryFacts
begin

text \<open>
  The reservation state machine and the front desk, \<open>modules/reservations/service.js\<close>: booking, confirming, promoting from
  the waitlist, cancelling, no-show, check-in, check-out, room moves and extensions. Each operation is one transaction;
  the row locks it takes are the atomicity of the step. The result \<open>False\<close> with an unchanged state is the source's
  \<open>return null\<close> for a reservation that does not exist. Fees and rates are cents; a confirmation number (a ULID) and the
  clock are arguments; outbox events and bell notifications have no counterpart.
\<close>

section \<open>The status graph\<close>

definition TRANSITIONS :: "reservation_status \<Rightarrow> reservation_status list" where
  "TRANSITIONS s = (case s of
      Waitlisted \<Rightarrow> [Booked, Tentative, CancelledStay]
    | Tentative \<Rightarrow> [Booked, Lapsed, CancelledStay]
    | Booked \<Rightarrow> [CheckedIn, CancelledStay, NoShow]
    | CheckedIn \<Rightarrow> [CheckedOut]
    | CheckedOut \<Rightarrow> [] | CancelledStay \<Rightarrow> [] | NoShow \<Rightarrow> [] | Lapsed \<Rightarrow> [])"

definition isValidTransition :: "reservation_status \<Rightarrow> reservation_status \<Rightarrow> bool" where
  "isValidTransition from target \<longleftrightarrow> target \<in> set (TRANSITIONS from)"

definition res_status_name :: "reservation_status \<Rightarrow> string" where
  "res_status_name s = (case s of Waitlisted \<Rightarrow> ''waitlisted'' | Tentative \<Rightarrow> ''tentative'' | Booked \<Rightarrow> ''confirmed''
     | CheckedIn \<Rightarrow> ''checked_in'' | CheckedOut \<Rightarrow> ''checked_out'' | CancelledStay \<Rightarrow> ''cancelled'' | NoShow \<Rightarrow> ''no_show''
     | Lapsed \<Rightarrow> ''expired'')"

definition bad_transition :: "reservation_status \<Rightarrow> reservation_status \<Rightarrow> app_error" where
  "bad_transition from target = InvalidReservationTransitionError (res_status_name from) (res_status_name target)"

text \<open>Clock times are \<open>'HH:MM'\<close> text, compared as text.\<close>

fun text_less :: "string \<Rightarrow> string \<Rightarrow> bool" where
  "text_less xs [] = False"
| "text_less [] (y # ys) = True"
| "text_less (x # xs) (y # ys) = (of_char x < (of_char y :: nat) \<or> x = y \<and> text_less xs ys)"

datatype checkout_fee = EarlyDeparture int | LateCheckout int

definition computeEarlyLateFee :: "string option \<Rightarrow> string \<Rightarrow> string option \<Rightarrow> int \<Rightarrow> int \<Rightarrow> checkout_fee option" where
  "computeEarlyLateFee scheduled actual earlyCutoff earlyFee lateFee =
     (if given earlyCutoff \<and> text_less actual (the earlyCutoff) then Some (EarlyDeparture earlyFee)
      else if given scheduled \<and> text_less (the scheduled) actual then Some (LateCheckout lateFee)
      else None)"

section \<open>Booking\<close>

definition set_reservation :: "nat \<Rightarrow> (reservation \<Rightarrow> reservation) \<Rightarrow> front_office \<Rightarrow> front_office" where
  "set_reservation i f fo = fo\<lparr>reservations := t_update (by_id i) f (reservations fo)\<rparr>"

definition set_room :: "nat \<Rightarrow> (room \<Rightarrow> room) \<Rightarrow> front_office \<Rightarrow> front_office" where
  "set_room i f fo = fo\<lparr>rooms := t_update (by_id i) f (rooms fo)\<rparr>"

definition on_house :: "(hotel \<Rightarrow> ('a \<times> hotel) result) \<Rightarrow> front_office \<Rightarrow> ('a \<times> front_office) result" where
  "on_house f fo = map_sum id (\<lambda>(x, db). (x, fo\<lparr>house := db\<rparr>)) (f (house fo))"

definition assertPreferredRoomUsable :: "room \<Rightarrow> nat \<Rightarrow> unit result" where
  "assertPreferredRoomUsable r ty =
     (if rm_status r \<noteq> ''active'' then Inl (ValidationError ''PREFERRED_ROOM_NOT_ACTIVE'')
      else if rm_type r \<noteq> ty then Inl (ValidationError ''PREFERRED_ROOM_TYPE_MISMATCH'')
      else Inr ())"

definition preferred_ok :: "nat option \<Rightarrow> nat \<Rightarrow> front_office \<Rightarrow> unit result" where
  "preferred_ok preferred ty fo = (case preferred of
     None \<Rightarrow> Inr ()
   | Some i \<Rightarrow> (case t_get (rooms fo) i of
       None \<Rightarrow> Inl (ValidationError ''PREFERRED_ROOM_NOT_FOUND'')
     | Some r \<Rightarrow> assertPreferredRoomUsable r ty))"

definition known :: "nat option \<Rightarrow> nat list \<Rightarrow> string \<Rightarrow> unit result" where
  "known x ids code = (case x of None \<Rightarrow> Inr () | Some i \<Rightarrow> require (i \<in> set ids) (ValidationError code))"

definition block_ok :: "nat option \<Rightarrow> front_office \<Rightarrow> unit result" where
  "block_ok block fo = (case block of
     None \<Rightarrow> Inr ()
   | Some b \<Rightarrow> (case map_of (group_blocks fo) b of
       None \<Rightarrow> Inl (ValidationError ''GROUP_BLOCK_NOT_FOUND'')
     | Some status \<Rightarrow> require (status \<noteq> ''cancelled'') (ValidationError ''GROUP_BLOCK_CANCELLED'')))"

definition resolveRate :: "rate_code \<Rightarrow> rate_override option \<Rightarrow> int" where
  "resolveRate rc override = (case override of Some ov \<Rightarrow> ro_rate ov | None \<Rightarrow> rc_rate rc)"

definition override_on :: "front_office \<Rightarrow> nat \<Rightarrow> nat \<Rightarrow> date \<Rightarrow> rate_override option" where
  "override_on fo code ty d = map_option snd (t_first (\<lambda>_ ov. ro_code ov = code \<and> ro_type ov = ty \<and> ro_date ov = d) (rate_calendar fo))"

definition snapshot_rates :: "nat \<Rightarrow> nat \<Rightarrow> nat \<Rightarrow> rate_code \<Rightarrow> date list \<Rightarrow> front_office \<Rightarrow> front_office" where
  "snapshot_rates rid code ty rc dates fo =
     fo\<lparr>house := (house fo)\<lparr>daily_rates := fold (\<lambda>d. t_insert \<lparr>dr_reservation = rid, dr_date = d,
        dr_rate = resolveRate rc (override_on fo code ty d), dr_currency = rc_currency rc\<rparr>) dates (daily_rates (house fo))\<rparr>\<rparr>"

record booking =
  bk_guest :: nat
  bk_type :: nat
  bk_rate_code :: nat
  bk_arrival :: date
  bk_departure :: date
  bk_adults :: "nat option"
  bk_children :: "nat option"
  bk_hold :: bool
  bk_waitlist :: bool
  bk_segment :: "nat option"
  bk_source :: "nat option"
  bk_policy :: "nat option"
  bk_preferred :: "nat option"
  bk_block :: "nat option"

definition booking_row :: "booking \<Rightarrow> reservation_status \<Rightarrow> string \<Rightarrow> reservation" where
  "booking_row bk status confirmation = \<lparr>rv_guest = bk_guest bk, rv_type = bk_type bk, rv_rate_code = bk_rate_code bk,
     rv_arrival = bk_arrival bk, rv_departure = bk_departure bk, rv_adults = (case bk_adults bk of None \<Rightarrow> 1 | Some n \<Rightarrow> n),
     rv_children = (case bk_children bk of None \<Rightarrow> 0 | Some n \<Rightarrow> n), rv_status = status, rv_confirmation = confirmation,
     rv_segment = bk_segment bk, rv_source = bk_source bk, rv_policy = bk_policy bk, rv_preferred = bk_preferred bk,
     rv_block = bk_block bk, rv_reason = None\<rparr>"

definition before_business_date :: "date \<Rightarrow> front_office \<Rightarrow> bool" where
  "before_business_date d fo \<longleftrightarrow> (case business_date (house fo) of None \<Rightarrow> False | Some b \<Rightarrow> d < b)"

definition business_date_text :: "front_office \<Rightarrow> string" where
  "business_date_text fo = (case business_date (house fo) of None \<Rightarrow> [] | Some b \<Rightarrow> date_text b)"

text \<open>The checks before any inventory is touched.\<close>

definition booking_checks :: "booking \<Rightarrow> front_office \<Rightarrow> rate_code result" where
  "booking_checks bk fo =
     (if \<not> bk_departure bk > bk_arrival bk then Inl (ValidationError ''ARRIVAL_AFTER_DEPARTURE'')
      else if before_business_date (bk_arrival bk) fo
      then Inl (ArrivalBeforeBusinessDateError (date_text (bk_arrival bk)) (business_date_text fo))
      else rbind (the_or (t_get (rate_codes fo) (bk_rate_code bk)) (ValidationError ''RATE_CODE_NOT_FOUND'')) (\<lambda>rc.
        rbind (known (bk_segment bk) (market_segments fo) ''MARKET_SEGMENT_NOT_FOUND'') (\<lambda>_.
        rbind (known (bk_source bk) (booking_sources fo) ''BOOKING_SOURCE_NOT_FOUND'') (\<lambda>_.
        rbind (known (bk_policy bk) (cancellation_policies fo) ''CANCELLATION_POLICY_NOT_FOUND'') (\<lambda>_.
        rbind (preferred_ok (bk_preferred bk) (bk_type bk) fo) (\<lambda>_.
        rbind (block_ok (bk_block bk) fo) (\<lambda>_. Inr rc)))))))"

definition is_overbooking :: "app_error \<Rightarrow> bool" where
  "is_overbooking e = (case e of OverbookingThresholdExceededError _ _ \<Rightarrow> True | _ \<Rightarrow> False)"

text \<open>The nights are held, or the booking joins the waitlist holding none.\<close>

definition hold_nights :: "booking \<Rightarrow> front_office \<Rightarrow> (reservation_status \<times> front_office) result" where
  "hold_nights bk fo =
     (case reserveInventoryForDates (bk_type bk) (expandStayDates (bk_arrival bk) (bk_departure bk)) False fo of
        (Inr _, fo1) \<Rightarrow> Inr (if bk_hold bk then Tentative else Booked, fo1)
      | (Inl e, fo1) \<Rightarrow> if is_overbooking e \<and> bk_waitlist bk then Inr (Waitlisted, fo1) else Inl e)"

definition insert_booking :: "booking \<Rightarrow> rate_code \<Rightarrow> reservation_status \<Rightarrow> string \<Rightarrow> front_office \<Rightarrow> nat \<times> front_office" where
  "insert_booking bk rc status confirmation fo =
     (let rid = next_id (reservations fo);
          fo1 = fo\<lparr>reservations := t_insert (booking_row bk status confirmation) (reservations fo),
            house := (house fo)\<lparr>block_of := (block_of (house fo))(rid := bk_block bk)\<rparr>\<rparr>
      in (rid, snapshot_rates rid (bk_rate_code bk) (bk_type bk) rc (expandStayDates (bk_arrival bk) (bk_departure bk)) fo1))"

definition createReservation :: "booking \<Rightarrow> string \<Rightarrow> front_office \<Rightarrow> (nat \<times> front_office) result" where
  "createReservation bk confirmation fo =
     rbind (booking_checks bk fo) (\<lambda>rc.
     rbind (hold_nights bk fo) (\<lambda>(status, fo1).
     rbind (preferred_ok (bk_preferred bk) (bk_type bk) fo1) (\<lambda>_.
     Inr (insert_booking bk rc status confirmation fo1))))"

definition openBookingFolio :: "nat \<Rightarrow> front_office \<Rightarrow> (bool \<times> front_office) result" where
  "openBookingFolio rid fo =
     (case t_get (reservations fo) rid of
        None \<Rightarrow> Inr (False, fo)
      | Some rv \<Rightarrow>
        if rv_status rv \<noteq> Booked then Inl (ValidationError ''RESERVATION_NOT_CONFIRMED'')
        else on_house (\<lambda>db. rbind (ensurePrimaryFolio rid db) (\<lambda>(fid, db1).
          map_sum id (Pair True) (postRoomChargesForStay rid fid db1))) fo)"

section \<open>Moving along the graph\<close>

definition stay_nights :: "reservation \<Rightarrow> date list" where
  "stay_nights rv = expandStayDates (rv_arrival rv) (rv_departure rv)"

definition confirmReservation :: "nat \<Rightarrow> front_office \<Rightarrow> (bool \<times> front_office) result" where
  "confirmReservation rid fo =
     (case t_get (reservations fo) rid of
        None \<Rightarrow> Inr (False, fo)
      | Some rv \<Rightarrow>
        if \<not> isValidTransition (rv_status rv) Booked then Inl (bad_transition (rv_status rv) Booked)
        else Inr (True, set_reservation rid (\<lambda>rv. rv\<lparr>rv_status := Booked\<rparr>) fo))"

definition promoteWaitlist :: "nat \<Rightarrow> front_office \<Rightarrow> (bool \<times> front_office) result" where
  "promoteWaitlist rid fo =
     (case t_get (reservations fo) rid of
        None \<Rightarrow> Inr (False, fo)
      | Some rv \<Rightarrow>
        if \<not> isValidTransition (rv_status rv) Booked then Inl (bad_transition (rv_status rv) Booked)
        else if before_business_date (rv_arrival rv) fo
        then Inl (WaitlistArrivalPassedError (date_text (rv_arrival rv)) (business_date_text fo))
        else (case reserveInventoryForDates (rv_type rv) (stay_nights rv) False fo of
            (Inl e, _) \<Rightarrow> Inl e
          | (Inr _, fo1) \<Rightarrow> Inr (True, set_reservation rid (\<lambda>rv. rv\<lparr>rv_status := Booked\<rparr>) fo1)))"

definition cancelReservation :: "nat \<Rightarrow> string option \<Rightarrow> front_office \<Rightarrow> (bool \<times> front_office) result" where
  "cancelReservation rid reason fo =
     (case t_get (reservations fo) rid of
        None \<Rightarrow> Inr (False, fo)
      | Some rv \<Rightarrow>
        if \<not> isValidTransition (rv_status rv) CancelledStay then Inl (bad_transition (rv_status rv) CancelledStay)
        else let fo1 = (if rv_status rv \<noteq> Waitlisted then releaseInventoryForDates (rv_type rv) (stay_nights rv) fo else fo)
          in Inr (True, set_reservation rid (\<lambda>rv. rv\<lparr>rv_status := CancelledStay, rv_reason := reason\<rparr>) fo1))"

definition markNoShow :: "nat \<Rightarrow> front_office \<Rightarrow> (bool \<times> front_office) result" where
  "markNoShow rid fo =
     (case t_get (reservations fo) rid of
        None \<Rightarrow> Inr (False, fo)
      | Some rv \<Rightarrow>
        if \<not> isValidTransition (rv_status rv) NoShow then Inl (bad_transition (rv_status rv) NoShow)
        else Inr (True, set_reservation rid (\<lambda>rv. rv\<lparr>rv_status := NoShow\<rparr>)
               (releaseInventoryForDates (rv_type rv) (stay_nights rv) fo)))"

section \<open>The front desk\<close>

definition open_assignment :: "nat \<Rightarrow> assignment \<Rightarrow> bool" where
  "open_assignment rid a \<longleftrightarrow> as_reservation a = rid \<and> as_to a = None"

definition isRoomOccupied :: "front_office \<Rightarrow> nat \<Rightarrow> room \<Rightarrow> bool" where
  "isRoomOccupied fo i r \<longleftrightarrow> rm_front r = Occupied \<or> t_first (\<lambda>_ a. as_room a = i \<and> as_to a = None) (assignments fo) \<noteq> None"

definition room_out_of_order :: "front_office \<Rightarrow> nat \<Rightarrow> bool" where
  "room_out_of_order fo i \<longleftrightarrow> (case business_date (house fo) of
     None \<Rightarrow> False
   | Some d \<Rightarrow> t_first (\<lambda>_ p. oo_room p = i \<and> oo_start p \<le> d \<and> oo_end p \<ge> d) (ooo_periods fo) \<noteq> None)"

definition assign_room :: "nat \<Rightarrow> nat \<Rightarrow> int \<Rightarrow> string option \<Rightarrow> front_office \<Rightarrow> front_office" where
  "assign_room rid i now reason fo = fo\<lparr>assignments := t_insert \<lparr>as_reservation = rid, as_room = i, as_from = now, as_to = None,
     as_reason = reason\<rparr> (assignments fo)\<rparr>"

definition close_assignments :: "nat \<Rightarrow> int \<Rightarrow> front_office \<Rightarrow> front_office" where
  "close_assignments rid now fo = fo\<lparr>assignments := t_update (\<lambda>_. open_assignment rid) (\<lambda>a. a\<lparr>as_to := Some now\<rparr>) (assignments fo)\<rparr>"

definition vacate_room :: "room \<Rightarrow> room" where
  "vacate_room r = r\<lparr>rm_front := Vacant, rm_cleaning := ''dirty'', rm_observed := None\<rparr>"

definition checkIn :: "int \<Rightarrow> nat \<Rightarrow> nat \<Rightarrow> bool \<Rightarrow> front_office \<Rightarrow> (bool \<times> front_office) result" where
  "checkIn now rid i overrideDirty fo =
     (case t_get (reservations fo) rid of
        None \<Rightarrow> Inr (False, fo)
      | Some rv \<Rightarrow>
        if \<not> isValidTransition (rv_status rv) CheckedIn then Inl (bad_transition (rv_status rv) CheckedIn)
        else (case t_get (rooms fo) i of
            None \<Rightarrow> Inl (ValidationError ''ROOM_NOT_FOUND'')
          | Some r \<Rightarrow>
            if rm_status r \<noteq> ''active'' then Inl (RoomNotActiveError i (rm_status r))
            else if rm_cleaning r \<noteq> ''clean'' \<and> \<not> overrideDirty then Inl (RoomNotCleanError i)
            else if rm_discrepancy r then Inl (RoomOutOfOrderError i)
            else if room_out_of_order fo i then Inl (RoomOutOfOrderError i)
            else if isRoomOccupied fo i r then Inl (RoomUnavailableError i)
            else rbind (on_house (ensurePrimaryFolio rid) (assign_room rid i now None fo)) (\<lambda>(_, fo1).
              Inr (True, set_reservation rid (\<lambda>rv. rv\<lparr>rv_status := CheckedIn\<rparr>)
                (set_room i (\<lambda>r. r\<lparr>rm_front := Occupied\<rparr>) fo1)))))"

definition open_folios_of :: "nat \<Rightarrow> hotel \<Rightarrow> (nat \<times> folio) list" where
  "open_folios_of rid db = t_select (\<lambda>_ f. f_reservation f = rid \<and> f_status f = ''open'') (folios db)"

definition owing_folio :: "(nat \<times> folio) list \<Rightarrow> (nat \<times> folio) option" where
  "owing_folio = find (\<lambda>(_, f). f_company f = None \<and> f_balance f > 0)"

definition fee_line :: "checkout_fee \<Rightarrow> int \<times> string \<times> string" where
  "fee_line fee = (case fee of
     EarlyDeparture a \<Rightarrow> (a, ''Early departure fee'', ''Early departure fee applied at checkout.'')
   | LateCheckout a \<Rightarrow> (a, ''Late checkout fee'', ''Late checkout fee applied at checkout.''))"

record checkout_terms =
  ct_scheduled :: "string option"
  ct_actual :: "string option"
  ct_cutoff :: "string option"
  ct_early :: "int option"
  ct_late :: "int option"

definition or_zero :: "int option \<Rightarrow> int" where
  "or_zero x = (case x of None \<Rightarrow> 0 | Some a \<Rightarrow> a)"

definition first_given :: "'a option \<Rightarrow> 'a option \<Rightarrow> 'a option" where
  "first_given x y = (case x of None \<Rightarrow> y | Some a \<Rightarrow> Some a)"

text \<open>The caller's terms, each falling back to the property's own.\<close>

definition checkout_fee_due :: "checkout_terms \<Rightarrow> front_office \<Rightarrow> checkout_fee option" where
  "checkout_fee_due ct fo =
     (let scheduled = first_given (ct_scheduled ct) (map_option (take 5) (checkout_time fo));
          cutoff = first_given (ct_cutoff ct) (map_option (take 5) (early_cutoff_time fo));
          early = or_zero (first_given (ct_early ct) (early_fee fo));
          late = or_zero (first_given (ct_late ct) (late_fee fo))
      in if given scheduled \<and> given (ct_actual ct)
         then computeEarlyLateFee scheduled (the (ct_actual ct)) cutoff early late else None)"

definition post_checkout_fee :: "checkout_fee option \<Rightarrow> nat \<Rightarrow> date \<Rightarrow> hotel \<Rightarrow> (unit \<times> hotel) result" where
  "post_checkout_fee fee fid d db = (case fee of
     None \<Rightarrow> Inr ((), db)
   | Some x \<Rightarrow> (case fee_line x of (amount, description, reason) \<Rightarrow>
       if amount = 0 then Inr ((), db)
       else map_sum id (\<lambda>(_, db'). ((), db')) (postAdjustment fid description amount None (Some d) (Some reason) False None db)))"

definition close_folio :: "nat \<Rightarrow> hotel \<Rightarrow> hotel" where
  "close_folio fid db = db\<lparr>folios := t_update (by_id fid) (\<lambda>f. f\<lparr>f_status := ''closed''\<rparr>) (folios db)\<rparr>"

definition over_limit_account :: "hotel \<Rightarrow> folio \<Rightarrow> bool" where
  "over_limit_account db f = (case f_company f of None \<Rightarrow> False
     | Some c \<Rightarrow> (case account_for_company db c of None \<Rightarrow> False | Some (_, a) \<Rightarrow> a_over a))"

definition credit_remaining :: "hotel \<Rightarrow> nat list \<Rightarrow> int" where
  "credit_remaining db fids = - sum_list (map (\<lambda>fid. case t_get (folios db) fid of None \<Rightarrow> 0
     | Some f \<Rightarrow> if f_company f = None \<and> f_balance f < 0 then f_balance f else 0) fids)"

record checkout_result =
  co_fee :: "checkout_fee option"
  co_over_limit :: bool
  co_credit :: int

definition release_rooms :: "nat \<Rightarrow> int \<Rightarrow> front_office \<Rightarrow> front_office" where
  "release_rooms rid now fo =
     (let fo1 = close_assignments rid now fo
      in case t_first (\<lambda>_. open_assignment rid) (assignments fo) of
           None \<Rightarrow> fo1
         | Some (_, a) \<Rightarrow> set_room (as_room a) vacate_room fo1)"

text \<open>
  The open folios are locked before a balance is read; the source looks again until the set stops growing, which
  in one step is at once.
\<close>

definition checkOut :: "int \<Rightarrow> nat \<Rightarrow> checkout_terms \<Rightarrow> front_office \<Rightarrow> (checkout_result option \<times> front_office) result" where
  "checkOut now rid ct fo =
     (case t_get (reservations fo) rid of
        None \<Rightarrow> Inr (None, fo)
      | Some rv \<Rightarrow>
        if \<not> isValidTransition (rv_status rv) CheckedOut then Inl (bad_transition (rv_status rv) CheckedOut)
        else rbind (lock_now (map fst (open_folios_of rid (house fo))) (house fo)) (\<lambda>locked.
          let openFolios = filter (\<lambda>(_, f). f_status f = ''open'') locked
          in if openFolios = [] then Inl (ValidationError ''FOLIO_NOT_FOUND'')
             else (case owing_folio openFolios of
                 Some (fid, f) \<Rightarrow> Inl (FolioBalanceOwingError (f_balance f) fid)
               | None \<Rightarrow>
                 let fee = checkout_fee_due ct fo;
                     d = (case business_date (house fo) of None \<Rightarrow> rv_departure rv | Some b \<Rightarrow> b)
                 in rbind (post_checkout_fee fee (fst (hd openFolios)) d (house fo)) (\<lambda>(_, db1).
                    let db2 = fold close_folio (map fst openFolios) db1;
                        overLimit = list_ex (\<lambda>(_, f). over_limit_account db1 f) openFolios;
                        credit = credit_remaining db2 (map fst openFolios);
                        fo1 = release_rooms rid now (fo\<lparr>house := db2\<rparr>)
                    in Inr (Some \<lparr>co_fee = fee, co_over_limit = overLimit, co_credit = credit\<rparr>,
                         set_reservation rid (\<lambda>rv. rv\<lparr>rv_status := CheckedOut\<rparr>) fo1)))))"

definition roomMove :: "int \<Rightarrow> nat \<Rightarrow> nat \<Rightarrow> string option \<Rightarrow> front_office \<Rightarrow> (bool \<times> front_office) result" where
  "roomMove now rid i reason fo =
     (case t_get (reservations fo) rid of
        None \<Rightarrow> Inr (False, fo)
      | Some rv \<Rightarrow>
        if rv_status rv \<noteq> CheckedIn then Inl (ValidationError ''NOT_CHECKED_IN'')
        else (case t_get (rooms fo) i of
            None \<Rightarrow> Inl (ValidationError ''ROOM_NOT_FOUND'')
          | Some r \<Rightarrow>
            if rm_status r \<noteq> ''active'' then Inl (RoomNotActiveError i (rm_status r))
            else if rm_discrepancy r then Inl (RoomOutOfOrderError i)
            else if isRoomOccupied fo i r then Inl (RoomUnavailableError i)
            else Inr (True, set_room i (\<lambda>r. r\<lparr>rm_front := Occupied\<rparr>)
              (let current = t_first (\<lambda>_. open_assignment rid) (assignments fo);
                   fo1 = assign_room rid i now reason (close_assignments rid now fo)
               in case current of None \<Rightarrow> fo1 | Some (_, a) \<Rightarrow> set_room (as_room a) vacate_room fo1))))"

section \<open>Longer stays\<close>

definition is_closed_night :: "front_office \<Rightarrow> date \<Rightarrow> bool" where
  "is_closed_night fo d \<longleftrightarrow> (case business_date (house fo) of None \<Rightarrow> False | Some b \<Rightarrow> d < b)"

definition reserve_or_fail :: "nat \<Rightarrow> date list \<Rightarrow> bool \<Rightarrow> front_office \<Rightarrow> front_office result" where
  "reserve_or_fail ty ds bypass fo = (case reserveInventoryForDates ty ds bypass fo of (Inl e, _) \<Rightarrow> Inl e | (Inr _, fo1) \<Rightarrow> Inr fo1)"

definition rates_on :: "nat \<Rightarrow> date list \<Rightarrow> hotel \<Rightarrow> (date \<times> int) list" where
  "rates_on rid ds db = map (\<lambda>(_, r). (dr_date r, dr_rate r))
     (t_select (\<lambda>_ r. dr_reservation r = rid \<and> dr_date r \<in> set ds) (daily_rates db))"

definition charge_closed_nights :: "nat \<Rightarrow> date list \<Rightarrow> hotel \<Rightarrow> ((date \<times> int) list \<times> hotel) result" where
  "charge_closed_nights rid closed db =
     (case (if closed = [] then None else t_first (\<lambda>_ f. f_reservation f = rid \<and> f_status f = ''open'') (folios db)) of
        None \<Rightarrow> Inr ([], db)
      | Some (fid, _) \<Rightarrow> postLateRoomCharges fid (rates_on rid closed db) (business_date db) False None db)"

text \<open>Without a business date no night is closed, so nothing is charged late.\<close>

definition extendStay :: "nat \<Rightarrow> date \<Rightarrow> front_office \<Rightarrow> ((date \<times> int) list option \<times> front_office) result" where
  "extendStay rid newDeparture fo =
     (case t_get (reservations fo) rid of
        None \<Rightarrow> Inr (None, fo)
      | Some rv \<Rightarrow>
        if rv_status rv \<noteq> CheckedIn then Inl (ValidationError ''NOT_CHECKED_IN'')
        else if \<not> newDeparture > rv_departure rv then Inl (ValidationError ''EXTENSION_NOT_AFTER_CURRENT_DEPARTURE'')
        else let added = expandStayDates (rv_departure rv) newDeparture;
                 closed = filter (is_closed_night fo) added;
                 still_open = filter (\<lambda>d. \<not> is_closed_night fo d) added
          in rbind (if closed = [] then Inr fo else reserve_or_fail (rv_type rv) closed True fo) (\<lambda>fo1.
             rbind (if still_open = [] then Inr fo1 else reserve_or_fail (rv_type rv) still_open False fo1) (\<lambda>fo2.
             rbind (the_or (t_get (rate_codes fo2) (rv_rate_code rv)) TypeError) (\<lambda>rc.
             let fo3 = set_reservation rid (\<lambda>rv. rv\<lparr>rv_departure := newDeparture\<rparr>)
                   (snapshot_rates rid (rv_rate_code rv) (rv_type rv) rc added fo2)
             in map_sum id (\<lambda>(l, fo'). (Some l, fo')) (on_house (charge_closed_nights rid closed) fo3)))))"

definition last_rate :: "nat \<Rightarrow> hotel \<Rightarrow> daily_rate option" where
  "last_rate rid db =
     (let mine = map snd (t_select (\<lambda>_ r. dr_reservation r = rid) (daily_rates db))
      in if mine = [] then None else find (\<lambda>r. dr_date r = Max (set (map dr_date mine))) mine)"

text \<open>
  Night Audit's overstay: tonight, and the nights since the departure date, are booked at the last rate and the guest leaves
  tomorrow. \<open>None\<close> when there is no rate to copy.
\<close>

definition extendOverstayNight ::
    "nat \<Rightarrow> reservation \<Rightarrow> nat \<Rightarrow> date \<Rightarrow> bool \<Rightarrow> string option \<Rightarrow> front_office
     \<Rightarrow> ((daily_rate option \<times> (date \<times> int) list) option \<times> front_office) result" where
  "extendOverstayNight rid rv fid businessDate override why fo =
     (case last_rate rid (house fo) of
        None \<Rightarrow> Inr (None, fo)
      | Some lastRate \<Rightarrow>
        let catchUp = (if rv_departure rv < businessDate then expandStayDates (rv_departure rv) businessDate else []);
            allDates = catchUp @ [businessDate]
        in rbind (reserve_or_fail (rv_type rv) allDates True fo) (\<lambda>fo1.
           let existing = map fst (rates_on rid allDates (house fo1));
               missing = filter (\<lambda>d. d \<notin> set existing) allDates;
               db1 = (house fo1)\<lparr>daily_rates := fold (\<lambda>d. t_insert \<lparr>dr_reservation = rid, dr_date = d,
                  dr_rate = dr_rate lastRate, dr_currency = dr_currency lastRate\<rparr>) missing (daily_rates (house fo1))\<rparr>;
               fo2 = set_reservation rid (\<lambda>rv. rv\<lparr>rv_departure := next_day businessDate\<rparr>) (fo1\<lparr>house := db1\<rparr>)
           in rbind (if catchUp = [] then Inr ([], fo2)
                else on_house (postLateRoomCharges fid (rates_on rid catchUp (house fo2)) (Some businessDate) override why) fo2)
              (\<lambda>(late, fo3). Inr (Some (map_option snd (t_first (\<lambda>_ r. dr_reservation r = rid \<and> dr_date r = businessDate)
                  (daily_rates (house fo3))), late), fo3))))"

section \<open>Preferences and the room board\<close>

definition open_preference_status :: "reservation_status \<Rightarrow> bool" where
  "open_preference_status s \<longleftrightarrow> s = Tentative \<or> s = Booked \<or> s = CheckedIn"

definition findOpenReservationsPreferringRooms :: "nat list \<Rightarrow> front_office \<Rightarrow> (nat \<times> reservation) list" where
  "findOpenReservationsPreferringRooms roomIds fo = t_select (\<lambda>_ rv. open_preference_status (rv_status rv)
     \<and> (case rv_preferred rv of None \<Rightarrow> False | Some i \<Rightarrow> i \<in> set roomIds)) (reservations fo)"

definition clearPreferredRoomForReservations :: "nat list \<Rightarrow> front_office \<Rightarrow> front_office" where
  "clearPreferredRoomForReservations ids fo =
     fo\<lparr>reservations := t_update (\<lambda>i _. i \<in> set ids) (\<lambda>rv. rv\<lparr>rv_preferred := None\<rparr>) (reservations fo)\<rparr>"

definition overlaps :: "date \<Rightarrow> date \<Rightarrow> reservation \<Rightarrow> bool" where
  "overlaps arrival departure rv \<longleftrightarrow> arrival < rv_departure rv \<and> rv_arrival rv < departure"

datatype board_reason = Out_of_order | Discrepancy | Guest_inside | Reserved | Not_clean

definition board_occupied :: "date \<Rightarrow> date \<Rightarrow> front_office \<Rightarrow> nat \<Rightarrow> bool" where
  "board_occupied arrival departure fo i \<longleftrightarrow>
     list_ex (\<lambda>(_, a). as_room a = i \<and> (case t_get (reservations fo) (as_reservation a) of None \<Rightarrow> False
        | Some rv \<Rightarrow> overlaps arrival departure rv)) (t_select (\<lambda>_ a. as_to a = None) (assignments fo))"

definition board_reserved :: "date \<Rightarrow> date \<Rightarrow> front_office \<Rightarrow> nat \<Rightarrow> bool" where
  "board_reserved arrival departure fo i \<longleftrightarrow>
     t_first (\<lambda>_ rv. rv_preferred rv = Some i \<and> open_preference_status (rv_status rv) \<and> overlaps arrival departure rv) (reservations fo) \<noteq> None"

definition board_reason_for :: "date \<Rightarrow> date \<Rightarrow> front_office \<Rightarrow> nat \<Rightarrow> room \<Rightarrow> board_reason option" where
  "board_reason_for arrival departure fo i r =
     (if t_first (\<lambda>_ p. oo_room p = i \<and> oo_start p < departure \<and> oo_end p \<ge> arrival) (ooo_periods fo) \<noteq> None then Some Out_of_order
      else if rm_discrepancy r then Some Discrepancy
      else if board_occupied arrival departure fo i then Some Guest_inside
      else if board_reserved arrival departure fo i then Some Reserved
      else if business_date (house fo) = Some arrival \<and> rm_cleaning r \<noteq> ''clean'' then Some Not_clean
      else None)"

text \<open>In table order; the source sorts by room number for display.\<close>

definition listRoomBoard :: "nat \<Rightarrow> date \<Rightarrow> date \<Rightarrow> front_office \<Rightarrow> (nat \<times> board_reason option) list" where
  "listRoomBoard ty arrival departure fo = map (\<lambda>(i, r). (i, board_reason_for arrival departure fo i r))
     (t_select (\<lambda>_ r. rm_status r = ''active'' \<and> rm_type r = ty) (rooms fo))"

definition listEligiblePreferredRooms :: "nat \<Rightarrow> date \<Rightarrow> date \<Rightarrow> front_office \<Rightarrow> nat list" where
  "listEligiblePreferredRooms ty arrival departure fo =
     map fst (filter (\<lambda>(_, reason). reason = None) (listRoomBoard ty arrival departure fo))"

section \<open>The front desk's lists\<close>

definition listArrivals :: "front_office \<Rightarrow> nat list" where
  "listArrivals fo = map fst (t_select (\<lambda>_ rv. business_date (house fo) = Some (rv_arrival rv) \<and> rv_status rv = Booked) (reservations fo))"

definition listDepartures :: "front_office \<Rightarrow> nat list" where
  "listDepartures fo = map fst (t_select (\<lambda>_ rv. business_date (house fo) = Some (rv_departure rv) \<and> rv_status rv = CheckedIn) (reservations fo))"

definition listInHouse :: "front_office \<Rightarrow> nat list" where
  "listInHouse fo = map fst (t_select (\<lambda>_ rv. rv_status rv = CheckedIn) (reservations fo))"

definition listWaitlist :: "front_office \<Rightarrow> (nat \<times> bool) list" where
  "listWaitlist fo = map (\<lambda>(i, rv). (i, before_business_date (rv_arrival rv) fo)) (t_select (\<lambda>_ rv. rv_status rv = Waitlisted) (reservations fo))"

definition findInHouseReservationForRoom :: "nat \<Rightarrow> front_office \<Rightarrow> nat option" where
  "findInHouseReservationForRoom i fo = map_option (\<lambda>(_, a). as_reservation a) (t_first (\<lambda>_ a. as_room a = i \<and> as_to a = None
     \<and> (case t_get (reservations fo) (as_reservation a) of None \<Rightarrow> False | Some rv \<Rightarrow> rv_status rv = CheckedIn)) (assignments fo))"

text \<open>"Jane Adeyemi" is shown as "J*** A.".\<close>

definition maskGuestName :: "string \<Rightarrow> string \<Rightarrow> string" where
  "maskGuestName firstName lastName =
     (let maskedFirst = (if firstName = [] then [] else hd firstName # replicate (length firstName - 1) CHR ''*'');
          lastInitial = (if lastName = [] then [] else [hd lastName, CHR ''.''])
      in js_trim (concat (case filter (\<lambda>s. s \<noteq> []) [maskedFirst, lastInitial] of
           [a, b] \<Rightarrow> [a, '' '', b] | xs \<Rightarrow> xs)))"

end
