(* ===== verification/PostingFrame.thy ===== *)
theory PostingFrame
  imports LedgerFacts
begin

text \<open>
  What a posting leaves alone. A charge, an adjustment or a run of late charges writes folio lines and balances, and nothing
  a reservation is read from: the business date, the booked nights, the taxes, and of each folio whose it is, whether it is
  open and who is billed.
\<close>

definition folio_heads :: "hotel \<Rightarrow> (nat \<times> nat \<times> string \<times> nat option) list" where
  "folio_heads db = map (\<lambda>(i, f). (i, f_reservation f, f_status f, f_company f)) (rows (folios db))"

definition posting_only :: "hotel \<Rightarrow> hotel \<Rightarrow> bool" where
  "posting_only db db' \<longleftrightarrow> business_date db' = business_date db \<and> daily_rates db' = daily_rates db \<and> taxes db' = taxes db
     \<and> folio_heads db' = folio_heads db \<and> next_id (folios db') = next_id (folios db)"

lemma posting_refl [simp, intro]: "posting_only db db" by (simp add: posting_only_def)

lemma posting_trans: "posting_only a b \<Longrightarrow> posting_only b c \<Longrightarrow> posting_only a c" by (simp add: posting_only_def)

lemma posting_lines [simp, intro]: "posting_only db (db\<lparr>line_items := t\<rparr>)"
  by (simp add: posting_only_def folio_heads_def)

lemma posting_recompute_folio [simp, intro]: "posting_only db (recomputeFolioBalance k db)"
  by (simp add: posting_only_def folio_heads_def recomputeFolioBalance_def Let_def t_update_def comp_def case_prod_unfold)

lemma posting_recompute_ar [simp, intro]: "posting_only db (snd (recomputeArAccountBalance k db))"
  by (simp add: posting_only_def folio_heads_def recomputeArAccountBalance_def Let_def split: option.split)

lemma posting_after [simp, intro]: "posting_only db (after_posting fid k db)"
  using posting_trans [OF posting_recompute_folio posting_recompute_ar]
  by (simp add: after_posting_def Let_def split: option.split)

lemma posting_insert_line: "insert_line d mk db = Inr (i, db') \<Longrightarrow> posting_only db db'"
  by (auto dest: insert_line_InrD)

lemma posting_ar_check: "ar_check f a ov why db = Inr (k, db') \<Longrightarrow> posting_only db db'"
  by (auto simp: ar_check_def rbind_eq_Inr dest!: assertWithin_frame split: option.splits)

lemma posting_foldM: "(\<And>s x s'. f s x = Inr s' \<Longrightarrow> posting_only s s') \<Longrightarrow> foldM f db xs = Inr db' \<Longrightarrow> posting_only db db'"
  by (rule foldM_inv [where P = "posting_only db"]) (auto intro: posting_trans)

lemma posting_tax_line: "post_tax_line fid cur d c db t = Inr db' \<Longrightarrow> posting_only db db'"
  by (auto simp: post_tax_line_def rbind_eq_Inr dest: posting_insert_line)

lemma posting_post_lines:
  assumes "post_lines fid f ty desc tx d k db = Inr (i, db')"
  shows "posting_only db db'"
proof -
  obtain db1 db2 where s: "insert_line d (\<lambda>d. \<lparr>l_folio = fid, l_type = ty, l_description = desc, l_amount = netAmount tx,
      l_currency = f_currency f, l_tax_amount = tax_total (taxLines tx), l_method = None, l_payment = None,
      l_business_date = d, l_related = None, l_voided = False, l_void_reason = None\<rparr>) db = Inr (i, db1)"
    "foldM (post_tax_line fid (f_currency f) d i) db1 (taxLines tx) = Inr db2" "db' = after_posting fid k db2"
    using assms unfolding post_lines_def by (auto simp: rbind_eq_Inr)
  have "posting_only db1 db2" by (rule posting_foldM [OF posting_tax_line s(2)])
  then show ?thesis unfolding s(3) using posting_insert_line [OF s(1)] posting_trans posting_after by blast
qed

lemma posting_postCharge: "postCharge fid ty desc amt bd ov why db = Inr (i, db') \<Longrightarrow> posting_only db db'"
  unfolding postCharge_def Let_def
  by (auto simp: rbind_eq_Inr split: option.split_asm if_split_asm bind_splits
      dest!: posting_ar_check posting_post_lines intro: posting_trans)

lemma posting_postAdjustment: "postAdjustment fid desc amt rel bd reason ov why db = Inr (i, db') \<Longrightarrow> posting_only db db'"
  unfolding postAdjustment_def
  by (auto simp: rbind_eq_Inr split: option.split_asm if_split_asm
      dest!: posting_ar_check posting_insert_line intro: posting_trans [OF posting_trans [OF _ _] posting_after])

lemma posting_stay: "postRoomChargesForStay res fid db = Inr db' \<Longrightarrow> posting_only db db'"
proof -
  have "posting_only s s'" if "post_night fid s x = Inr s'" for s x s'
    using that by (auto simp: post_night_def Let_def map_sum_Inr dest!: posting_postCharge split: if_split_asm)
  then show "postRoomChargesForStay res fid db = Inr db' \<Longrightarrow> posting_only db db'"
    unfolding postRoomChargesForStay_def by (rule posting_foldM)
qed

lemma posting_late:
  assumes "postLateRoomCharges fid nights bd ov why db = Inr (charged, db')"
  shows "posting_only db db'"
proof -
  have "posting_only db (snd (charged, db'))"
  proof (rule foldM_inv [where P = "\<lambda>st. posting_only db (snd st)"])
    show "foldM (post_late_night fid bd ov why) ([], db) nights = Inr (charged, db')" using assms by (simp add: postLateRoomCharges_def)
    fix s x s' assume "posting_only db (snd s)" "post_late_night fid bd ov why s x = Inr s'"
    then show "posting_only db (snd s')"
      by (cases s; cases x) (auto simp: post_late_night_def rbind_eq_Inr split: if_split_asm dest!: posting_postCharge intro: posting_trans)
  qed simp
  then show ?thesis by simp
qed

text \<open>An adjustment moves its folio by its amount and no other.\<close>

lemma postAdjustment_effect:
  assumes b: "books_ok db" and run: "postAdjustment fid desc amt rel bd reason ov why db = Inr (lid, db')"
    and f: "t_get (folios db) fid = Some f"
  shows "folio_balance db' fid = Some (f_balance f + amt)" and "j \<noteq> fid \<Longrightarrow> folio_balance db' j = folio_balance db j"
proof -
  obtain k db1 db2 mk where c: "ar_check f amt ov why db = Inr (k, db1)"
    and i: "insert_line (effective_date bd db) mk db1 = Inr (lid, db2)"
    and mk: "\<And>d. l_folio (mk d) = fid" "\<And>d. l_amount (mk d) = amt" "\<And>d. \<not> l_voided (mk d)"
    and db': "db' = after_posting fid k db2"
    using run b f by (fastforce simp: postAdjustment_def rbind_eq_Inr split: option.split_asm if_split_asm)
  have fr: "folios db1 = folios db" "line_items db1 = line_items db" using ar_check_frame [OF c] by simp_all
  obtain d where db2: "db2 = db1\<lparr>line_items := t_insert (mk d) (line_items db1)\<rparr>" using insert_line_InrD [OF i] by auto
  have "folio_sum db2 fid = folio_sum db fid + amt" using mk by (simp add: folio_sum_def db2 fr t_total_insert)
  moreover have "f_balance f = folio_sum db fid" using b f by (simp add: books_but_def flb.right_at_def folio_balance_def)
  moreover have "t_get (folios db2) fid \<noteq> None" using f by (simp add: db2 fr)
  ultimately show "folio_balance db' fid = Some (f_balance f + amt)" unfolding db' using after_posting_balance by simp
  show "j \<noteq> fid \<Longrightarrow> folio_balance db' j = folio_balance db j"
    unfolding db' by (simp add: after_posting_other) (simp add: folio_balance_def db2 fr)
qed

end
