(* ===== verification/ReservationFacts.thy ===== *)
theory ReservationFacts
  imports Reservations PostingFrame
begin

text \<open>
  Two invariants of the front office and what each operation does to them. \<open>counted\<close>: the counter of every room type and
  night is the number of reservations holding that night. \<open>rooms_agree\<close>: who is in which room is recorded the same way on the
  reservation, on the assignment and on the room, with at most one guest to a room and one room to a guest.
\<close>

section \<open>Who holds a night\<close>

definition holding :: "reservation_status \<Rightarrow> bool" where
  "holding s \<longleftrightarrow> s = Tentative \<or> s = Booked \<or> s = CheckedIn \<or> s = CheckedOut"

definition takes :: "reservation \<Rightarrow> nat \<Rightarrow> date \<Rightarrow> bool" where
  "takes rv ty d \<longleftrightarrow> holding (rv_status rv) \<and> rv_type rv = ty \<and> d \<in> set (stay_nights rv)"

definition held :: "front_office \<Rightarrow> nat \<Rightarrow> date \<Rightarrow> int" where
  "held fo ty d = t_total (\<lambda>_ rv. takes rv ty d) (\<lambda>_. 1) (reservations fo)"

definition dated :: "reservation \<Rightarrow> bool" where
  "dated rv \<longleftrightarrow> valid_date (rv_arrival rv) \<and> valid_date (rv_departure rv) \<and> rv_arrival rv \<le> rv_departure rv"

abbreviation tally :: "front_office \<Rightarrow> (nat \<Rightarrow> date \<Rightarrow> int) \<Rightarrow> bool" where
  "tally \<equiv> nights.tallies (\<lambda>_. True)"

definition counted :: "front_office \<Rightarrow> bool" where
  "counted fo \<longleftrightarrow> tally fo (held fo) \<and> t_wf (reservations fo) \<and> (\<forall>i rv. t_get (reservations fo) i = Some rv \<longrightarrow> dated rv)"

lemma holding_simps [simp]:
  "\<not> holding Waitlisted" "holding Tentative" "holding Booked" "holding CheckedIn" "holding CheckedOut"
  "\<not> holding CancelledStay" "\<not> holding NoShow" "\<not> holding Lapsed"
  by (simp_all add: holding_def)

lemma counted_sold: "counted fo \<Longrightarrow> sold fo t d = held fo t d"
  by (simp add: counted_def nights.tallies_def)

lemma counted_parts: "counted fo \<Longrightarrow> inv_ok fo" "counted fo \<Longrightarrow> t_wf (reservations fo)"
  "counted fo \<Longrightarrow> t_get (reservations fo) i = Some rv \<Longrightarrow> dated rv"
  by (auto simp: counted_def nights.tallies_def)

lemma counter_frame: "inventory fo' = inventory fo \<Longrightarrow> sold fo' = sold fo \<and> inv_ok fo' = inv_ok fo"
  by (auto simp: sold_def inventory_row_def inv_ok_def intro!: ext)

lemma tally_frame: "inventory fo' = inventory fo \<Longrightarrow> tally fo' h = tally fo h"
  using counter_frame [of fo' fo] by (simp add: nights.tallies_def)

lemma held_frame: "reservations fo' = reservations fo \<Longrightarrow> held fo' = held fo"
  by (intro ext) (simp add: held_def)

lemma counted_frame: "inventory fo' = inventory fo \<Longrightarrow> reservations fo' = reservations fo \<Longrightarrow> counted fo' = counted fo"
  using tally_frame [of fo' fo "held fo'"] held_frame [of fo' fo] by (simp add: counted_def)

lemma held_nonneg: "0 \<le> held fo ty d" by (auto simp: held_def intro: t_total_nonneg)

lemma held_set:
  "t_wf (reservations fo) \<Longrightarrow> t_get (reservations fo) k = Some rv \<Longrightarrow>
     held (set_reservation k f fo) ty d = held fo ty d - of_bool (takes rv ty d) + of_bool (takes (f rv) ty d)"
  by (simp add: held_def set_reservation_def t_total_change_row)

lemma held_insert:
  "reservations fo' = t_insert rv (reservations fo) \<Longrightarrow> held fo' ty d = held fo ty d + of_bool (takes rv ty d)"
  by (simp add: held_def t_total_insert)

lemma distinct_stay [simp]: "distinct (stay_nights rv)" "distinct (expandStayDates a b)"
  by (simp_all add: stay_nights_def distinct_expandStayDates)

lemma stay_split:
  "valid_date a \<Longrightarrow> valid_date b \<Longrightarrow> valid_date c \<Longrightarrow> a \<le> b \<Longrightarrow> b \<le> c \<Longrightarrow>
     set (expandStayDates a c) = set (expandStayDates a b) \<union> set (expandStayDates b c)
     \<and> set (expandStayDates a b) \<inter> set (expandStayDates b c) = {}"
  by (auto simp: set_expandStayDates)

section \<open>What an operation on the counter does to the tally\<close>

lemma tally_reserve:
  assumes "tally fo h" "distinct ds" "reserveInventoryForDates ty ds bp fo = (Inr u, fo')"
  shows "tally fo' (\<lambda>t d. h t d + of_bool (t = ty \<and> d \<in> set ds))" and "inventory_only fo fo'"
proof -
  show "tally fo' (\<lambda>t d. h t d + of_bool (t = ty \<and> d \<in> set ds))" by (rule nights.tallies_reserve [OF assms]) simp
  have "inv_ok fo" using assms(1) by (simp add: nights.tallies_def)
  then show "inventory_only fo fo'" by (rule reserve_facts(2) [OF _ assms(3,2)])
qed

lemma tally_refused:
  assumes "tally fo h" "distinct ds" "reserveInventoryForDates ty ds bp fo = (Inl e, fo')"
  shows "tally fo' h" and "inventory_only fo fo'"
proof -
  show "tally fo' h" by (rule nights.tallies_refused [OF assms])
  have "inv_ok fo" using assms(1) by (simp add: nights.tallies_def)
  then show "inventory_only fo fo'" by (rule reserve_facts(2) [OF _ assms(3,2)])
qed

lemma tally_or_fail:
  assumes "tally fo h" "distinct ds" "reserve_or_fail ty ds bp fo = Inr fo'"
  shows "tally fo' (\<lambda>t d. h t d + of_bool (t = ty \<and> d \<in> set ds))" and "inventory_only fo fo'"
proof -
  obtain u where r: "reserveInventoryForDates ty ds bp fo = (Inr u, fo')"
    using assms(3) by (auto simp: reserve_or_fail_def split: prod.splits sum.splits)
  show "tally fo' (\<lambda>t d. h t d + of_bool (t = ty \<and> d \<in> set ds))" "inventory_only fo fo'"
    by (rule tally_reserve [OF assms(1,2) r])+
qed

lemma tally_release:
  assumes "tally fo h" "distinct ds" "\<And>t d. 0 \<le> h t d - of_bool (t = ty \<and> d \<in> set ds)"
  shows "tally (releaseInventoryForDates ty ds fo) (\<lambda>t d. h t d - of_bool (t = ty \<and> d \<in> set ds))"
    and "inventory_only fo (releaseInventoryForDates ty ds fo)"
proof -
  show "tally (releaseInventoryForDates ty ds fo) (\<lambda>t d. h t d - of_bool (t = ty \<and> d \<in> set ds))"
    by (rule nights.tallies_release [OF assms(1,2)]) (use assms(3) in auto)
  show "inventory_only fo (releaseInventoryForDates ty ds fo)"
    using release_facts [of fo ds ty] assms(1,2) by (simp add: nights.tallies_def)
qed

lemma counted_change:
  assumes "tally fo h" "t_wf (reservations fo)" "\<And>i rv. t_get (reservations fo) i = Some rv \<Longrightarrow> dated rv"
    "t_get (reservations fo) k = Some rv" "dated (f rv)"
    and "\<And>t d. h t d = held fo t d - of_bool (takes rv t d) + of_bool (takes (f rv) t d)"
  shows "counted (set_reservation k f fo)"
proof -
  have "held (set_reservation k f fo) = h" by (intro ext) (simp add: held_set [OF assms(2,4)] assms(6))
  moreover have "tally (set_reservation k f fo) h" using assms(1) tally_frame [of "set_reservation k f fo" fo h] by (simp add: set_reservation_def)
  moreover have "dated r" if "t_get (reservations (set_reservation k f fo)) i = Some r" for i r
    using that assms(3) [of i r] assms(4,5) by (simp add: set_reservation_def t_get_update_id split: if_splits)
  moreover have "t_wf (reservations (set_reservation k f fo))" using assms(2) by (simp add: set_reservation_def)
  ultimately show ?thesis unfolding counted_def by blast
qed

lemma counted_keep:
  assumes "counted fo" "t_get (reservations fo) k = Some rv" "holding (rv_status (f rv)) = holding (rv_status rv)"
    "rv_type (f rv) = rv_type rv" "rv_arrival (f rv) = rv_arrival rv" "rv_departure (f rv) = rv_departure rv"
  shows "counted (set_reservation k f fo)"
proof (rule counted_change [where h = "held fo"])
  show "tally fo (held fo)" "t_wf (reservations fo)" "\<And>i rv. t_get (reservations fo) i = Some rv \<Longrightarrow> dated rv" "t_get (reservations fo) k = Some rv"
    using assms by (auto simp: counted_def)
  show "dated (f rv)" using assms counted_parts(3) [OF assms(1,2)] by (simp add: dated_def)
  show "held fo t d = held fo t d - of_bool (takes rv t d) + of_bool (takes (f rv) t d)" for t d
    using assms(3-6) by (simp add: takes_def stay_nights_def)
qed

lemma counted_release:
  assumes c: "counted fo" and k: "t_get (reservations fo) k = Some rv" and h: "holding (rv_status rv)" "\<not> holding (rv_status (f rv))"
    and same: "rv_arrival (f rv) = rv_arrival rv" "rv_departure (f rv) = rv_departure rv"
  shows "counted (set_reservation k f (releaseInventoryForDates (rv_type rv) (stay_nights rv) fo))"
proof -
  have wf: "t_wf (reservations fo)" and t: "tally fo (held fo)" using c by (auto simp: counted_def)
  have takes: "takes rv t d = (t = rv_type rv \<and> d \<in> set (stay_nights rv))" for t d using h(1) by (auto simp: takes_def)
  have "0 \<le> held fo t d - of_bool (t = rv_type rv \<and> d \<in> set (stay_nights rv))" for t d
    using t_total_ge [OF wf k, of "\<lambda>_ rv. takes rv t d" "\<lambda>_. 1"] held_nonneg [of fo t d] takes [of t d] by (cases "takes rv t d") (auto simp: held_def)
  note r = tally_release [OF t distinct_stay(1) this]
  note fr = inventory_only_frame [OF r(2)]
  show ?thesis
  proof (rule counted_change [OF r(1)])
    show "dated (f rv)" using counted_parts(3) [OF c k] same by (simp add: dated_def)
    show "held fo t d - of_bool (t = rv_type rv \<and> d \<in> set (stay_nights rv))
        = held (releaseInventoryForDates (rv_type rv) (stay_nights rv) fo) t d - of_bool (takes rv t d) + of_bool (takes (f rv) t d)" for t d
      using takes h(2) held_frame [OF fr(4)] by (simp add: takes_def [of "f rv"])
  qed (use c k fr(4) in \<open>auto simp: counted_def\<close>)
qed

section \<open>The count and the operations\<close>

text \<open>Each operation's success, unfolded once into what it did.\<close>

lemma dated_booking: "valid_date (bk_arrival bk) \<Longrightarrow> valid_date (bk_departure bk) \<Longrightarrow> bk_arrival bk < bk_departure bk \<Longrightarrow> dated (booking_row bk st c)"
  by (simp add: dated_def booking_row_def)

lemma createReservation_InrD:
  assumes "createReservation bk c fo = Inr (rid, fo')" "counted fo"
  obtains rc st fo1 where "booking_checks bk fo = Inr rc" "hold_nights bk fo = Inr (st, fo1)" "insert_booking bk rc st c fo1 = (rid, fo')"
    "inventory_only fo fo1" "bk_arrival bk < bk_departure bk"
    "st = Waitlisted \<and> bk_waitlist bk \<and> tally fo1 (held fo)
     \<or> st = (if bk_hold bk then Tentative else Booked)
       \<and> tally fo1 (\<lambda>t d. held fo t d + of_bool (t = bk_type bk \<and> d \<in> set (expandStayDates (bk_arrival bk) (bk_departure bk))))
       \<and> (\<forall>d \<in> set (expandStayDates (bk_arrival bk) (bk_departure bk)). sold fo1 (bk_type bk) d \<le> limit fo1 (bk_type bk) d)"
proof -
  obtain rc st fo1 where s: "booking_checks bk fo = Inr rc" "hold_nights bk fo = Inr (st, fo1)" "insert_booking bk rc st c fo1 = (rid, fo')"
    using assms(1) by (auto simp: createReservation_def rbind_eq_Inr)
  have lt: "bk_arrival bk < bk_departure bk" using s(1) by (auto simp: booking_checks_def split: if_splits)
  let ?ds = "expandStayDates (bk_arrival bk) (bk_departure bk)"
  obtain r fo2 where r: "reserveInventoryForDates (bk_type bk) ?ds False fo = (r, fo2)" by fastforce
  have t: "tally fo (held fo)" using assms(2) by (simp add: counted_def)
  show thesis
  proof (cases r)
    case (Inl e)
    then have "st = Waitlisted \<and> bk_waitlist bk" "fo1 = fo2" using s(2) r by (auto simp: hold_nights_def split: if_splits)
    then show thesis using that [OF s _ lt] tally_refused [OF t distinct_stay(2) r [unfolded Inl]] by blast
  next
    case (Inr u)
    then have "st = (if bk_hold bk then Tentative else Booked)" "fo1 = fo2" using s(2) r by (auto simp: hold_nights_def)
    then show thesis using that [OF s _ lt] tally_reserve [OF t distinct_stay(2) r [unfolded Inr]]
      reserve_facts(5) [OF counted_parts(1) [OF assms(2)] r distinct_stay(2) Inr] by blast
  qed
qed

lemma insert_booking_frame:
  "insert_booking bk rc st c fo = (rid, fo') \<Longrightarrow> rid = next_id (reservations fo)
     \<and> reservations fo' = t_insert (booking_row bk st c) (reservations fo) \<and> inventory fo' = inventory fo
     \<and> rooms fo' = rooms fo \<and> assignments fo' = assignments fo \<and> ooo_periods fo' = ooo_periods fo \<and> business_date (house fo') = business_date (house fo)"
  by (auto simp: insert_booking_def Let_def snapshot_rates_def)

lemma stay_booking [simp]: "stay_nights (booking_row bk st c) = expandStayDates (bk_arrival bk) (bk_departure bk)"
  "rv_type (booking_row bk st c) = bk_type bk" "rv_status (booking_row bk st c) = st"
  by (simp_all add: stay_nights_def booking_row_def)

lemma counted_create:
  assumes "createReservation bk c fo = Inr (rid, fo')" "counted fo" "valid_date (bk_arrival bk)" "valid_date (bk_departure bk)"
  shows "counted fo'"
proof -
  obtain rc st fo1 where s: "insert_booking bk rc st c fo1 = (rid, fo')" "inventory_only fo fo1" "bk_arrival bk < bk_departure bk"
    "st = Waitlisted \<and> bk_waitlist bk \<and> tally fo1 (held fo)
     \<or> st = (if bk_hold bk then Tentative else Booked)
       \<and> tally fo1 (\<lambda>t d. held fo t d + of_bool (t = bk_type bk \<and> d \<in> set (expandStayDates (bk_arrival bk) (bk_departure bk))))
       \<and> (\<forall>d \<in> set (expandStayDates (bk_arrival bk) (bk_departure bk)). sold fo1 (bk_type bk) d \<le> limit fo1 (bk_type bk) d)"
    by (rule createReservation_InrD [OF assms(1,2)])
  note fr = insert_booking_frame [OF s(1)] inventory_only_frame [OF s(2)]
  let ?row = "booking_row bk st c"
  have h: "held fo' t d = held fo t d + of_bool (takes ?row t d)" for t d
    using held_insert [of fo' ?row fo1] held_frame [of fo1 fo] fr by simp
  have "takes ?row t d = (st \<noteq> Waitlisted \<and> t = bk_type bk \<and> d \<in> set (expandStayDates (bk_arrival bk) (bk_departure bk)))" for t d
    using s(4) by (auto simp: takes_def)
  then have "tally fo1 (held fo')" using s(4) h by (auto simp: nights.tallies_def split: if_splits)
  then have "tally fo' (held fo')" using tally_frame [of fo' fo1 "held fo'"] fr by simp
  moreover have "dated r" if "t_get (reservations fo') i = Some r" for i r
    using that fr counted_parts(2,3) [OF assms(2)] dated_booking [OF assms(3,4) s(3)] by (auto simp: t_get_insert split: if_splits)
  ultimately show ?thesis using fr counted_parts(2) [OF assms(2)] by (auto simp: counted_def)
qed

lemma on_house_frame:
  "on_house f fo = Inr (x, fo') \<Longrightarrow> \<exists>db. f (house fo) = Inr (x, db) \<and> fo' = fo\<lparr>house := db\<rparr>"
  by (cases "f (house fo)") (auto simp: on_house_def)

lemma counted_house: "counted (fo\<lparr>house := db\<rparr>) = counted fo" by (rule counted_frame) simp_all

lemma counted_open_folio: "openBookingFolio rid fo = Inr (b, fo') \<Longrightarrow> counted fo \<Longrightarrow> counted fo'"
  by (auto simp: openBookingFolio_def counted_house dest!: on_house_frame split: option.splits if_splits)

lemma counted_confirm:
  "confirmReservation rid fo = Inr (b, fo') \<Longrightarrow> counted fo \<Longrightarrow> t_get (reservations fo) rid = Some rv \<Longrightarrow> rv_status rv \<noteq> Waitlisted \<Longrightarrow> counted fo'"
  by (auto simp: confirmReservation_def isValidTransition_def TRANSITIONS_def intro: counted_keep split: if_splits reservation_status.splits)

lemma counted_cancel: "cancelReservation rid why fo = Inr (b, fo') \<Longrightarrow> counted fo \<Longrightarrow> counted fo'"
  by (auto simp: cancelReservation_def Let_def isValidTransition_def TRANSITIONS_def intro: counted_keep counted_release
      split: option.splits if_splits reservation_status.splits)

lemma counted_no_show: "markNoShow rid fo = Inr (b, fo') \<Longrightarrow> counted fo \<Longrightarrow> counted fo'"
  by (auto simp: markNoShow_def isValidTransition_def TRANSITIONS_def intro: counted_release split: option.splits if_splits reservation_status.splits)

lemma counted_promote:
  assumes "promoteWaitlist rid fo = Inr (b, fo')" "counted fo" "t_get (reservations fo) rid = Some rv" "rv_status rv \<noteq> Tentative"
  shows "counted fo'"
proof -
  have s: "rv_status rv = Waitlisted"
    using assms by (auto simp: promoteWaitlist_def isValidTransition_def TRANSITIONS_def split: if_splits reservation_status.splits)
  obtain u fo1 where r: "reserveInventoryForDates (rv_type rv) (stay_nights rv) False fo = (Inr u, fo1)"
    and fo': "fo' = set_reservation rid (\<lambda>rv. rv\<lparr>rv_status := Booked\<rparr>) fo1"
    using assms by (auto simp: promoteWaitlist_def split: if_splits prod.splits sum.splits)
  have t: "tally fo (held fo)" using assms(2) by (simp add: counted_def)
  note R = tally_reserve [OF t distinct_stay(1) r]
  note fr = inventory_only_frame [OF R(2)]
  show ?thesis unfolding fo'
  proof (rule counted_change [OF R(1)])
    show "dated (rv\<lparr>rv_status := Booked\<rparr>)" using counted_parts(3) [OF assms(2,3)] by (simp add: dated_def)
    show "held fo t d + of_bool (t = rv_type rv \<and> d \<in> set (stay_nights rv))
        = held fo1 t d - of_bool (takes rv t d) + of_bool (takes (rv\<lparr>rv_status := Booked\<rparr>) t d)" for t d
      using s held_frame [OF fr(4)] by (auto simp: takes_def stay_nights_def)
  qed (use assms(2,3) fr(4) in \<open>auto simp: counted_def\<close>)
qed

text \<open>Writes that touch neither the counter nor a reservation.\<close>

lemma desk_frames [simp]:
  "inventory (assign_room rid i now why fo) = inventory fo" "reservations (assign_room rid i now why fo) = reservations fo"
  "rooms (assign_room rid i now why fo) = rooms fo" "house (assign_room rid i now why fo) = house fo"
  "inventory (close_assignments rid now fo) = inventory fo" "reservations (close_assignments rid now fo) = reservations fo"
  "rooms (close_assignments rid now fo) = rooms fo" "house (close_assignments rid now fo) = house fo"
  "inventory (set_room i f fo) = inventory fo" "reservations (set_room i f fo) = reservations fo"
  "assignments (set_room i f fo) = assignments fo" "house (set_room i f fo) = house fo"
  "inventory (set_reservation rid g fo) = inventory fo" "rooms (set_reservation rid g fo) = rooms fo"
  "assignments (set_reservation rid g fo) = assignments fo" "house (set_reservation rid g fo) = house fo"
  by (simp_all add: assign_room_def close_assignments_def set_room_def set_reservation_def)

lemma release_rooms_frame [simp]:
  "inventory (release_rooms rid now fo) = inventory fo" "reservations (release_rooms rid now fo) = reservations fo"
  "house (release_rooms rid now fo) = house fo"
  "assignments (release_rooms rid now fo) = assignments (close_assignments rid now fo)"
  by (simp_all add: release_rooms_def Let_def split: option.splits)

text \<open>What a check-in, a check-out and a move did when they succeeded.\<close>

lemma checkIn_InrD:
  assumes "checkIn now rid i od fo = Inr (b, fo')"
  shows "b = False \<and> fo' = fo \<and> t_get (reservations fo) rid = None \<or>
    (\<exists>rv r db. b \<and> t_get (reservations fo) rid = Some rv \<and> rv_status rv = Booked \<and> t_get (rooms fo) i = Some r \<and> rm_status r = ''active''
      \<and> (\<not> od \<longrightarrow> rm_cleaning r = ''clean'') \<and> \<not> rm_discrepancy r \<and> \<not> room_out_of_order fo i \<and> \<not> isRoomOccupied fo i r
      \<and> (\<exists>fid. ensurePrimaryFolio rid (house fo) = Inr (fid, db))
      \<and> fo' = set_reservation rid (\<lambda>rv. rv\<lparr>rv_status := CheckedIn\<rparr>)
          (set_room i (\<lambda>r. r\<lparr>rm_front := Occupied\<rparr>) ((assign_room rid i now None fo)\<lparr>house := db\<rparr>)))"
proof (cases "t_get (reservations fo) rid")
  case None
  then show ?thesis using assms by (simp add: checkIn_def)
next
  case (Some rv)
  have v: "isValidTransition (rv_status rv) CheckedIn" using assms Some by (simp add: checkIn_def split: if_splits)
  then have st: "rv_status rv = Booked" by (auto simp: isValidTransition_def TRANSITIONS_def split: reservation_status.splits)
  obtain r where r: "t_get (rooms fo) i = Some r" using assms Some v by (simp add: checkIn_def split: option.splits)
  have g: "rm_status r = ''active''" "\<not> od \<longrightarrow> rm_cleaning r = ''clean''" "\<not> rm_discrepancy r" "\<not> room_out_of_order fo i" "\<not> isRoomOccupied fo i r"
    using assms Some v r by (auto simp: checkIn_def split: if_splits)
  then obtain x fo1 where f: "on_house (ensurePrimaryFolio rid) (assign_room rid i now None fo) = Inr (x, fo1)"
    "fo' = set_reservation rid (\<lambda>rv. rv\<lparr>rv_status := CheckedIn\<rparr>) (set_room i (\<lambda>r. r\<lparr>rm_front := Occupied\<rparr>) fo1)" "b"
    using assms Some v r by (auto simp: checkIn_def rbind_eq_Inr)
  show ?thesis using Some st r g f on_house_frame [OF f(1)] by auto
qed

lemma checkOut_InrD:
  assumes "checkOut now rid ct fo = Inr (x, fo')"
  shows "x = None \<and> fo' = fo \<and> t_get (reservations fo) rid = None \<or>
    (\<exists>rv locked db1 fid f rest. t_get (reservations fo) rid = Some rv \<and> rv_status rv = CheckedIn
      \<and> lock_now (map fst (open_folios_of rid (house fo))) (house fo) = Inr locked
      \<and> filter (\<lambda>(_, f). f_status f = ''open'') locked = (fid, f) # rest \<and> owing_folio ((fid, f) # rest) = None
      \<and> post_checkout_fee (checkout_fee_due ct fo) fid (case business_date (house fo) of None \<Rightarrow> rv_departure rv | Some b \<Rightarrow> b) (house fo) = Inr ((), db1)
      \<and> x = Some \<lparr>co_fee = checkout_fee_due ct fo, co_over_limit = list_ex (\<lambda>(_, f). over_limit_account db1 f) ((fid, f) # rest),
           co_credit = credit_remaining (fold close_folio (fid # map fst rest) db1) (fid # map fst rest)\<rparr>
      \<and> fo' = set_reservation rid (\<lambda>rv. rv\<lparr>rv_status := CheckedOut\<rparr>)
           (release_rooms rid now (fo\<lparr>house := fold close_folio (fid # map fst rest) db1\<rparr>)))"
proof (cases "t_get (reservations fo) rid")
  case None
  then show ?thesis using assms by (simp add: checkOut_def)
next
  case (Some rv)
  have v: "isValidTransition (rv_status rv) CheckedOut" using assms Some by (simp add: checkOut_def split: if_splits)
  then have st: "rv_status rv = CheckedIn" by (auto simp: isValidTransition_def TRANSITIONS_def split: reservation_status.splits)
  obtain locked where l: "lock_now (map fst (open_folios_of rid (house fo))) (house fo) = Inr locked"
    using assms Some v by (auto simp: checkOut_def rbind_eq_Inr)
  obtain fid f rest where fs: "filter (\<lambda>(_, f). f_status f = ''open'') locked = (fid, f) # rest"
    using assms Some v l by (cases "filter (\<lambda>(_, f). f_status f = ''open'') locked") (auto simp: checkOut_def Let_def)
  have ow: "owing_folio ((fid, f) # rest) = None"
    using assms Some v l fs by (auto simp: checkOut_def Let_def split: option.splits)
  show ?thesis using assms Some v l fs ow st by (auto simp: checkOut_def Let_def rbind_eq_Inr)
qed

lemma roomMove_InrD:
  assumes "roomMove now rid i why fo = Inr (b, fo')"
  shows "b = False \<and> fo' = fo \<and> t_get (reservations fo) rid = None \<or>
    (\<exists>rv r. b \<and> t_get (reservations fo) rid = Some rv \<and> rv_status rv = CheckedIn \<and> t_get (rooms fo) i = Some r \<and> rm_status r = ''active''
      \<and> \<not> rm_discrepancy r \<and> \<not> isRoomOccupied fo i r
      \<and> fo' = set_room i (\<lambda>r. r\<lparr>rm_front := Occupied\<rparr>)
          (case t_first (\<lambda>_. open_assignment rid) (assignments fo) of
             None \<Rightarrow> assign_room rid i now why (close_assignments rid now fo)
           | Some (_, a) \<Rightarrow> set_room (as_room a) vacate_room (assign_room rid i now why (close_assignments rid now fo))))"
  using assms by (auto simp: roomMove_def Let_def split: option.split_asm if_split_asm)

lemma counted_checkIn: "checkIn now rid i od fo = Inr (b, fo') \<Longrightarrow> counted fo \<Longrightarrow> counted fo'"
proof (drule checkIn_InrD, elim disjE conjE exE)
  fix rv r db fid
  assume c: "counted fo" "t_get (reservations fo) rid = Some rv" "rv_status rv = Booked"
  let ?fo = "set_room i (\<lambda>r. r\<lparr>rm_front := Occupied\<rparr>) ((assign_room rid i now None fo)\<lparr>house := db\<rparr>)"
  have "counted ?fo" using c(1) counted_frame [of ?fo fo] by simp
  then have "counted (set_reservation rid (\<lambda>rv. rv\<lparr>rv_status := CheckedIn\<rparr>) ?fo)" by (rule counted_keep) (use c in auto)
  moreover assume "fo' = set_reservation rid (\<lambda>rv. rv\<lparr>rv_status := CheckedIn\<rparr>) ?fo"
  ultimately show "counted fo'" by simp
qed simp

lemma counted_checkOut: "checkOut now rid ct fo = Inr (x, fo') \<Longrightarrow> counted fo \<Longrightarrow> counted fo'"
proof (drule checkOut_InrD, elim disjE conjE exE)
  fix rv locked db1 fid f rest
  assume c: "counted fo" "t_get (reservations fo) rid = Some rv" "rv_status rv = CheckedIn"
  let ?fo = "release_rooms rid now (fo\<lparr>house := fold close_folio (fid # map fst rest) db1\<rparr>)"
  have "counted ?fo" using c(1) counted_frame [of ?fo fo] by simp
  then have "counted (set_reservation rid (\<lambda>rv. rv\<lparr>rv_status := CheckedOut\<rparr>) ?fo)" by (rule counted_keep) (use c in auto)
  moreover assume "fo' = set_reservation rid (\<lambda>rv. rv\<lparr>rv_status := CheckedOut\<rparr>) ?fo"
  ultimately show "counted fo'" by simp
qed simp

lemma counted_roomMove: "roomMove now rid i why fo = Inr (b, fo') \<Longrightarrow> counted fo \<Longrightarrow> counted fo'"
  by (drule roomMove_InrD, rule iffD2 [OF counted_frame]) (auto split: option.splits)

lemma snapshot_frame [simp]:
  "inventory (snapshot_rates rid code ty rc ds fo) = inventory fo" "reservations (snapshot_rates rid code ty rc ds fo) = reservations fo"
  "rooms (snapshot_rates rid code ty rc ds fo) = rooms fo" "assignments (snapshot_rates rid code ty rc ds fo) = assignments fo"
  by (simp_all add: snapshot_rates_def)

lemma split_closed:
  "set (filter P xs) \<union> set (filter (\<lambda>d. \<not> P d) xs) = set xs" "set (filter P xs) \<inter> set (filter (\<lambda>d. \<not> P d) xs) = {}"
  by auto

lemma tally_if_any:
  assumes "tally fo h" "distinct ds" "(if ds = [] then Inr fo else reserve_or_fail ty ds bp fo) = Inr fo'"
  shows "tally fo' (\<lambda>t d. h t d + of_bool (t = ty \<and> d \<in> set ds))" and "inventory_only fo fo'"
  using assms tally_or_fail [OF assms(1,2), of ty bp fo'] by (auto split: if_splits)

lemma extendStay_InrD:
  assumes "extendStay rid nd fo = Inr (x, fo')"
  shows "x = None \<and> fo' = fo \<and> t_get (reservations fo) rid = None \<or>
    (\<exists>rv fo1 fo2 rc l db. t_get (reservations fo) rid = Some rv \<and> rv_status rv = CheckedIn \<and> rv_departure rv < nd
      \<and> (let added = expandStayDates (rv_departure rv) nd; closed = filter (is_closed_night fo) added; still = filter (\<lambda>d. \<not> is_closed_night fo d) added
         in (if closed = [] then Inr fo else reserve_or_fail (rv_type rv) closed True fo) = Inr fo1
          \<and> (if still = [] then Inr fo1 else reserve_or_fail (rv_type rv) still False fo1) = Inr fo2
          \<and> t_get (rate_codes fo2) (rv_rate_code rv) = Some rc
          \<and> charge_closed_nights rid closed (house (snapshot_rates rid (rv_rate_code rv) (rv_type rv) rc added fo2)) = Inr (l, db)
          \<and> x = Some l
          \<and> fo' = (set_reservation rid (\<lambda>rv. rv\<lparr>rv_departure := nd\<rparr>)
               (snapshot_rates rid (rv_rate_code rv) (rv_type rv) rc added fo2))\<lparr>house := db\<rparr>))"
proof (cases "t_get (reservations fo) rid")
  case None
  then show ?thesis using assms by (simp add: extendStay_def)
next
  case (Some rv)
  have g: "rv_status rv = CheckedIn" "rv_departure rv < nd" using assms Some by (auto simp: extendStay_def split: if_splits)
  let ?added = "expandStayDates (rv_departure rv) nd"
  obtain fo1 fo2 rc where f:
    "(if filter (is_closed_night fo) ?added = [] then Inr fo else reserve_or_fail (rv_type rv) (filter (is_closed_night fo) ?added) True fo) = Inr fo1"
    "(if filter (\<lambda>d. \<not> is_closed_night fo d) ?added = [] then Inr fo1
      else reserve_or_fail (rv_type rv) (filter (\<lambda>d. \<not> is_closed_night fo d) ?added) False fo1) = Inr fo2"
    "t_get (rate_codes fo2) (rv_rate_code rv) = Some rc"
    "map_sum id (\<lambda>(l, fo'). (Some l, fo')) (on_house (charge_closed_nights rid (filter (is_closed_night fo) ?added))
       (set_reservation rid (\<lambda>rv. rv\<lparr>rv_departure := nd\<rparr>) (snapshot_rates rid (rv_rate_code rv) (rv_type rv) rc ?added fo2))) = Inr (x, fo')"
    using assms Some g unfolding extendStay_def Let_def by (auto simp: rbind_eq_Inr simp del: filter_empty_conv)
  obtain l where l: "x = Some l" "on_house (charge_closed_nights rid (filter (is_closed_night fo) ?added))
       (set_reservation rid (\<lambda>rv. rv\<lparr>rv_departure := nd\<rparr>) (snapshot_rates rid (rv_rate_code rv) (rv_type rv) rc ?added fo2)) = Inr (l, fo')"
    using f(4) by (cases "on_house (charge_closed_nights rid (filter (is_closed_night fo) ?added))
       (set_reservation rid (\<lambda>rv. rv\<lparr>rv_departure := nd\<rparr>) (snapshot_rates rid (rv_rate_code rv) (rv_type rv) rc ?added fo2))") auto
  show ?thesis unfolding Let_def using Some g f(1-3) l(1) on_house_frame [OF l(2)] unfolding desk_frames by blast
qed

lemma longer_stay:
  assumes "dated rv" "valid_date nd" "rv_departure rv \<le> nd" "holding (rv_status rv)"
  shows "of_bool (takes (rv\<lparr>rv_departure := nd\<rparr>) t d) =
    of_bool (takes rv t d) + (of_bool (t = rv_type rv \<and> d \<in> set (expandStayDates (rv_departure rv) nd)) :: int)"
  using stay_split [of "rv_arrival rv" "rv_departure rv" nd] assms by (auto simp: takes_def stay_nights_def dated_def)

lemma counted_longer:
  assumes c: "counted fo" and k: "t_get (reservations fo) rid = Some rv" and h: "holding (rv_status rv)" and nd: "valid_date nd" "rv_departure rv \<le> nd"
    and t: "tally fo1 g" "\<And>t d. g t d = held fo t d + of_bool (t = rv_type rv \<and> d \<in> set (expandStayDates (rv_departure rv) nd))"
    and fr: "inventory fo2 = inventory fo1" "reservations fo2 = reservations fo"
  shows "counted (set_reservation rid (\<lambda>rv. rv\<lparr>rv_departure := nd\<rparr>) fo2)"
proof (rule counted_change)
  show "tally fo2 g" using t(1) tally_frame [OF fr(1)] by simp
  show "dated (rv\<lparr>rv_departure := nd\<rparr>)" using counted_parts(3) [OF c k] nd by (auto simp: dated_def)
  show "g t d = held fo2 t d - of_bool (takes rv t d) + of_bool (takes (rv\<lparr>rv_departure := nd\<rparr>) t d)" for t d
    using longer_stay [OF counted_parts(3) [OF c k] nd h, of t d] t(2) [of t d] held_frame [OF fr(2)] by simp
qed (use c k fr(2) in \<open>auto simp: counted_def\<close>)

text \<open>An extension, as the counter, the rooms and the statuses see it.\<close>

lemma extend_effect:
  assumes "extendStay rid nd fo = Inr (x, fo')" "counted fo"
  obtains "fo' = fo" | rv fo2 db where "t_get (reservations fo) rid = Some rv" "rv_status rv = CheckedIn" "rv_departure rv < nd"
    "fo' = (set_reservation rid (\<lambda>rv. rv\<lparr>rv_departure := nd\<rparr>) fo2)\<lparr>house := db\<rparr>"
    "tally fo2 (\<lambda>t d. held fo t d + of_bool (t = rv_type rv \<and> d \<in> set (expandStayDates (rv_departure rv) nd)))"
    "reservations fo2 = reservations fo" "rooms fo2 = rooms fo" "assignments fo2 = assignments fo"
  using extendStay_InrD [OF assms(1)]
proof (elim disjE conjE exE)
  fix rv :: reservation and fo1 fo2 rc l db
  assume k: "t_get (reservations fo) rid = Some rv" "rv_status rv = CheckedIn" "rv_departure rv < nd"
  let ?added = "expandStayDates (rv_departure rv) nd"
  let ?closed = "filter (is_closed_night fo) ?added"
  let ?still = "filter (\<lambda>d. \<not> is_closed_night fo d) ?added"
  let ?snap = "snapshot_rates rid (rv_rate_code rv) (rv_type rv) rc ?added fo2"
  assume b: "(let added = ?added; closed = filter (is_closed_night fo) added; still = filter (\<lambda>d. \<not> is_closed_night fo d) added
         in (if closed = [] then Inr fo else reserve_or_fail (rv_type rv) closed True fo) = Inr fo1
          \<and> (if still = [] then Inr fo1 else reserve_or_fail (rv_type rv) still False fo1) = Inr fo2
          \<and> t_get (rate_codes fo2) (rv_rate_code rv) = Some rc
          \<and> charge_closed_nights rid closed (house (snapshot_rates rid (rv_rate_code rv) (rv_type rv) rc added fo2)) = Inr (l, db)
          \<and> x = Some l
          \<and> fo' = (set_reservation rid (\<lambda>rv. rv\<lparr>rv_departure := nd\<rparr>)
               (snapshot_rates rid (rv_rate_code rv) (rv_type rv) rc added fo2))\<lparr>house := db\<rparr>)"
  then have r: "(if ?closed = [] then Inr fo else reserve_or_fail (rv_type rv) ?closed True fo) = Inr fo1"
    "(if ?still = [] then Inr fo1 else reserve_or_fail (rv_type rv) ?still False fo1) = Inr fo2"
    and fo': "fo' = (set_reservation rid (\<lambda>rv. rv\<lparr>rv_departure := nd\<rparr>) ?snap)\<lparr>house := db\<rparr>" by (simp_all only: Let_def)
  have t: "tally fo (held fo)" using assms(2) by (simp add: counted_def)
  have d: "distinct ?closed" "distinct ?still" by simp_all
  note a = tally_if_any [OF t d(1) r(1)]
  note b = tally_if_any [OF a(1) d(2) r(2)]
  note fr = inventory_only_frame [OF inventory_only_trans [OF a(2) b(2)]]
  have "(\<lambda>t d. held fo t d + of_bool (t = rv_type rv \<and> d \<in> set ?closed) + of_bool (t = rv_type rv \<and> d \<in> set ?still))
      = (\<lambda>t d. held fo t d + of_bool (t = rv_type rv \<and> d \<in> set ?added))"
    by (intro ext) (auto simp: of_bool_def)
  from b(1) [unfolded this] have "tally ?snap (\<lambda>t d. held fo t d + of_bool (t = rv_type rv \<and> d \<in> set ?added))"
    using tally_frame [of ?snap fo2] by simp
  then show thesis using that(2) [OF k fo'] fr by simp
qed (use that(1) in simp)

lemma counted_extend:
  assumes "extendStay rid nd fo = Inr (x, fo')" "counted fo" "valid_date nd"
  shows "counted fo'"
  using assms(1,2)
proof (cases rule: extend_effect)
  case (2 rv fo2 db)
  show ?thesis unfolding 2(4) counted_house by (rule counted_longer [OF assms(2) 2(1) _ assms(3) _ 2(5)]) (use 2 in auto)
qed (use assms(2) in simp)

lemma extendOverstayNight_InrD:
  assumes "extendOverstayNight rid rv fid bd ov why fo = Inr (x, fo')"
  shows "x = None \<and> fo' = fo \<and> last_rate rid (house fo) = None \<or>
    (\<exists>lr fo1 db1 db2 late. last_rate rid (house fo) = Some lr
      \<and> reserve_or_fail (rv_type rv) ((if rv_departure rv < bd then expandStayDates (rv_departure rv) bd else []) @ [bd]) True fo = Inr fo1
      \<and> db1 = (house fo1)\<lparr>daily_rates := fold (\<lambda>d. t_insert \<lparr>dr_reservation = rid, dr_date = d, dr_rate = dr_rate lr, dr_currency = dr_currency lr\<rparr>)
          (filter (\<lambda>d. d \<notin> set (map fst (rates_on rid ((if rv_departure rv < bd then expandStayDates (rv_departure rv) bd else []) @ [bd]) (house fo1))))
             ((if rv_departure rv < bd then expandStayDates (rv_departure rv) bd else []) @ [bd])) (daily_rates (house fo1))\<rparr>
      \<and> (if (if rv_departure rv < bd then expandStayDates (rv_departure rv) bd else []) = [] then late = [] \<and> db2 = db1
         else postLateRoomCharges fid (rates_on rid (if rv_departure rv < bd then expandStayDates (rv_departure rv) bd else []) db1) (Some bd) ov why db1 = Inr (late, db2))
      \<and> x = Some (map_option snd (t_first (\<lambda>_ r. dr_reservation r = rid \<and> dr_date r = bd) (daily_rates db2)), late)
      \<and> fo' = (set_reservation rid (\<lambda>rv. rv\<lparr>rv_departure := next_day bd\<rparr>) fo1)\<lparr>house := db2\<rparr>)"
proof (cases "last_rate rid (house fo)")
  case None
  then show ?thesis using assms by (simp add: extendOverstayNight_def)
next
  case (Some lr)
  define up where "up = (if rv_departure rv < bd then expandStayDates (rv_departure rv) bd else [])"
  obtain fo1 where r: "reserve_or_fail (rv_type rv) (up @ [bd]) True fo = Inr fo1"
    using assms Some unfolding extendOverstayNight_def up_def Let_def by (auto simp: rbind_eq_Inr)
  define db1 where "db1 = (house fo1)\<lparr>daily_rates := fold (\<lambda>d. t_insert \<lparr>dr_reservation = rid, dr_date = d, dr_rate = dr_rate lr, dr_currency = dr_currency lr\<rparr>)
          (filter (\<lambda>d. d \<notin> set (map fst (rates_on rid (up @ [bd]) (house fo1)))) (up @ [bd])) (daily_rates (house fo1))\<rparr>"
  define fo2 where "fo2 = set_reservation rid (\<lambda>rv. rv\<lparr>rv_departure := next_day bd\<rparr>) (fo1\<lparr>house := db1\<rparr>)"
  obtain late fo3 where l: "(if up = [] then Inr ([], fo2) else on_house (postLateRoomCharges fid (rates_on rid up (house fo2)) (Some bd) ov why) fo2) = Inr (late, fo3)"
    "x = Some (map_option snd (t_first (\<lambda>_ r. dr_reservation r = rid \<and> dr_date r = bd) (daily_rates (house fo3))), late)" "fo' = fo3"
    using assms Some r unfolding extendOverstayNight_def fo2_def db1_def Let_def up_def [symmetric] by (auto simp: rbind_eq_Inr)
  have h2: "house fo2 = db1" "fo2\<lparr>house := db\<rparr> = (set_reservation rid (\<lambda>rv. rv\<lparr>rv_departure := next_day bd\<rparr>) fo1)\<lparr>house := db\<rparr>" for db
    by (simp_all add: fo2_def set_reservation_def)
  have "fo3 = (set_reservation rid (\<lambda>rv. rv\<lparr>rv_departure := next_day bd\<rparr>) fo1)\<lparr>house := house fo3\<rparr>
     \<and> (if up = [] then late = [] \<and> house fo3 = db1 else postLateRoomCharges fid (rates_on rid up db1) (Some bd) ov why db1 = Inr (late, house fo3))"
  proof (cases "up = []")
    case True
    then have "fo3 = fo2" "late = []" using l(1) by auto
    moreover have "fo2 = fo2\<lparr>house := db1\<rparr>" using h2(1) by simp
    ultimately show ?thesis using True h2 by simp
  next
    case False
    then obtain db2 where "postLateRoomCharges fid (rates_on rid up db1) (Some bd) ov why db1 = Inr (late, db2)" "fo3 = fo2\<lparr>house := db2\<rparr>"
      using l(1) on_house_frame [of "postLateRoomCharges fid (rates_on rid up (house fo2)) (Some bd) ov why" fo2 late fo3] h2(1)
      by (auto split: if_splits)
    then show ?thesis using False h2(2) by simp
  qed
  then show ?thesis using Some r l(2,3) unfolding up_def [symmetric] db1_def by blast
qed

lemma overstay_nights:
  assumes "valid_date dep" "valid_date bd" "dep \<le> bd"
  shows "(if dep < bd then expandStayDates dep bd else []) = expandStayDates dep bd"
    and "set (expandStayDates dep bd @ [bd]) = set (expandStayDates dep (next_day bd))" and "distinct (expandStayDates dep bd @ [bd])"
proof -
  show "(if dep < bd then expandStayDates dep bd else []) = expandStayDates dep bd" by (simp add: expandStayDates_done)
  have "day_number bd < day_number (next_day bd)" by (simp add: day_number_next_day [OF assms(2)])
  then have "bd < next_day bd" using day_number_less_iff [of bd "next_day bd"] assms(2) valid_next_day by blast
  moreover have "d < next_day bd \<longleftrightarrow> d \<le> bd" if "valid_date d" for d
    using that day_number_less_iff [of d "next_day bd"] day_number_le_iff [of d bd] day_number_next_day [of bd] valid_next_day [of bd] assms(2) by auto
  ultimately show "set (expandStayDates dep bd @ [bd]) = set (expandStayDates dep (next_day bd))"
    using assms valid_next_day [OF assms(2)] by (auto simp: set_expandStayDates)
  show "distinct (expandStayDates dep bd @ [bd])" using assms by (auto simp: set_expandStayDates)
qed

lemma counted_overstay:
  assumes "extendOverstayNight rid rv fid bd ov why fo = Inr (x, fo')" "counted fo" "t_get (reservations fo) rid = Some rv"
    "rv_status rv = CheckedIn" "rv_departure rv \<le> bd" "valid_date bd"
  shows "counted fo'"
proof -
  have dep: "valid_date (rv_departure rv)" using counted_parts(3) [OF assms(2,3)] by (simp add: dated_def)
  note n = overstay_nights [OF dep assms(6,5)]
  have "rv_departure rv \<le> next_day bd"
    using day_number_le_iff [of "rv_departure rv" "next_day bd"] day_number_le_iff [of "rv_departure rv" bd] dep assms(5,6)
      day_number_next_day [OF assms(6)] valid_next_day [OF assms(6)] by simp
  note nd = valid_next_day [OF assms(6)] this
  have t: "tally fo (held fo)" using assms(2) by (simp add: counted_def)
  from extendOverstayNight_InrD [OF assms(1)] show ?thesis unfolding n(1)
  proof (elim disjE conjE exE)
    fix lr fo1 db1 db2 late
    assume r: "reserve_or_fail (rv_type rv) (expandStayDates (rv_departure rv) bd @ [bd]) True fo = Inr fo1"
      and fo': "fo' = set_reservation rid (\<lambda>rv. rv\<lparr>rv_departure := next_day bd\<rparr>) fo1\<lparr>house := db2\<rparr>"
    note a = tally_or_fail [OF t n(3) r]
    show ?thesis unfolding fo' counted_house
      by (rule counted_longer [OF assms(2,3) _ nd a(1)]) (use assms(4) n(2) inventory_only_frame(4) [OF a(2)] in auto)
  qed (use assms(2) in simp)
qed

lemma counted_threshold: "counted fo \<Longrightarrow> counted (configureOverbookingThreshold ty d pct fo)"
proof -
  assume c: "counted fo"
  have ok: "inv_ok fo" using c by (rule counted_parts)
  let ?fo = "configureOverbookingThreshold ty d pct fo"
  have "inv_ok ?fo \<and> sold ?fo = sold fo"
  proof (cases "inventory_row fo ty d")
    case None
    let ?n = "\<lparr>in_type = ty, in_date = d, in_sold = 0, in_pct = pct\<rparr>"
    have "inventory_row fo (in_type ?n) (in_date ?n) = None" using None by simp
    from inv_ok_insert [OF ok this] show ?thesis
      using None by (auto simp: configureOverbookingThreshold_def sold_def intro!: ext)
  next
    case (Some x)
    obtain i n where x: "inventory_row fo ty d = Some (i, n)" using Some by (cases x) simp
    then have g: "t_get (inventory fo) i = Some n" "in_type n = ty" "in_date n = d" using inventory_row_iff [OF ok] by auto
    have wf: "t_wf (inventory fo)" using ok by (simp add: inv_ok_def)
    have "(in_type m = ty \<and> in_date m = d) = (j = i)" if "(j, m) \<in> set (rows (inventory fo))" for j m
      using that ok g x inventory_row_iff [OF ok, of ty d j m] by (auto simp: rows_get [OF wf])
    then have "t_update (\<lambda>_ n. in_type n = ty \<and> in_date n = d) (\<lambda>n. n\<lparr>in_pct := pct\<rparr>) (inventory fo)
        = t_update (by_id i) (\<lambda>n. n\<lparr>in_pct := pct\<rparr>) (inventory fo)" by (auto simp: t_update_def)
    then have e: "?fo = fo\<lparr>inventory := t_update (by_id i) (\<lambda>n. n\<lparr>in_pct := pct\<rparr>) (inventory fo)\<rparr>"
      by (simp add: configureOverbookingThreshold_def x)
    note u = inv_ok_update [OF ok g(1), of "\<lambda>n. n\<lparr>in_pct := pct\<rparr>"]
    show ?thesis using u g x by (auto simp: e sold_def intro!: ext)
  qed
  moreover have "reservations ?fo = reservations fo" by (simp add: configureOverbookingThreshold_def split: option.split)
  ultimately show "counted ?fo" using c held_frame [of ?fo fo] by (simp add: counted_def nights.tallies_def)
qed

section \<open>Who is in which room\<close>

definition in_room :: "front_office \<Rightarrow> nat \<Rightarrow> nat \<Rightarrow> nat \<Rightarrow> bool" where
  "in_room fo a rid i \<longleftrightarrow> (\<exists>x. t_get (assignments fo) a = Some x \<and> as_reservation x = rid \<and> as_room x = i \<and> as_to x = None)"

definition checked_in :: "front_office \<Rightarrow> nat \<Rightarrow> bool" where
  "checked_in fo rid \<longleftrightarrow> (\<exists>rv. t_get (reservations fo) rid = Some rv \<and> rv_status rv = CheckedIn)"

definition occupied :: "front_office \<Rightarrow> nat \<Rightarrow> bool" where
  "occupied fo i \<longleftrightarrow> (\<exists>r. t_get (rooms fo) i = Some r \<and> rm_front r = Occupied)"

definition tables_wf :: "front_office \<Rightarrow> bool" where
  "tables_wf fo \<longleftrightarrow> t_wf (rooms fo) \<and> t_wf (assignments fo) \<and> t_wf (reservations fo)"

definition one_to_one :: "(nat \<Rightarrow> nat \<Rightarrow> nat \<Rightarrow> bool) \<Rightarrow> bool" where
  "one_to_one R \<longleftrightarrow> (\<forall>a b rid rid' i i'. R a rid i \<longrightarrow> R b rid' i' \<longrightarrow> rid = rid' \<or> i = i' \<longrightarrow> a = b)"

definition rooms_agree :: "front_office \<Rightarrow> bool" where
  "rooms_agree fo \<longleftrightarrow> tables_wf fo \<and> one_to_one (in_room fo)
     \<and> (\<forall>a rid i. in_room fo a rid i \<longrightarrow> checked_in fo rid \<and> occupied fo i)
     \<and> (\<forall>rid. checked_in fo rid \<longrightarrow> (\<exists>a i. in_room fo a rid i))"

lemma agreeI:
  assumes "tables_wf fo" "one_to_one (in_room fo)" "\<And>a rid i. in_room fo a rid i \<Longrightarrow> checked_in fo rid \<and> occupied fo i"
    "\<And>rid. checked_in fo rid \<Longrightarrow> \<exists>a i. in_room fo a rid i"
  shows "rooms_agree fo"
  using assms unfolding rooms_agree_def by blast

lemma agree_parts:
  assumes "rooms_agree fo"
  shows "tables_wf fo" "one_to_one (in_room fo)" "in_room fo a rid i \<Longrightarrow> checked_in fo rid" "in_room fo a rid i \<Longrightarrow> occupied fo i"
    "checked_in fo rid \<Longrightarrow> \<exists>a i. in_room fo a rid i"
  using assms unfolding rooms_agree_def by blast+

lemma one_to_oneD: "one_to_one R \<Longrightarrow> R a rid i \<Longrightarrow> R b rid' i' \<Longrightarrow> rid = rid' \<or> i = i' \<Longrightarrow> a = b \<and> rid = rid' \<or> a = b"
  unfolding one_to_one_def by blast

lemma in_room_same: "in_room fo a rid i \<Longrightarrow> in_room fo a rid' i' \<Longrightarrow> rid = rid' \<and> i = i'"
  by (auto simp: in_room_def)

text \<open>Each writer, through the three readers.\<close>

lemma in_room_assign:
  "t_wf (assignments fo) \<Longrightarrow> in_room (assign_room rid i now why fo) a rid' i' \<longleftrightarrow>
     a = next_id (assignments fo) \<and> rid' = rid \<and> i' = i \<or> in_room fo a rid' i'"
  using t_get_next [of "assignments fo"] by (auto simp: in_room_def assign_room_def t_get_insert)

lemma in_room_close: "in_room (close_assignments rid now fo) a rid' i' \<longleftrightarrow> in_room fo a rid' i' \<and> rid' \<noteq> rid"
  by (cases "t_get (assignments fo) a") (auto simp: in_room_def close_assignments_def t_get_update open_assignment_def)

lemma readers_frame:
  "assignments fo' = assignments fo \<Longrightarrow> in_room fo' = in_room fo"
  "reservations fo' = reservations fo \<Longrightarrow> checked_in fo' = checked_in fo"
  "rooms fo' = rooms fo \<Longrightarrow> occupied fo' = occupied fo"
  by (auto simp: in_room_def checked_in_def occupied_def intro!: ext)

lemma occupied_set_room:
  "t_get (rooms fo) i = Some r \<Longrightarrow> occupied (set_room i f fo) j = (if j = i then rm_front (f r) = Occupied else occupied fo j)"
  by (auto simp: occupied_def set_room_def t_get_update_id)

lemma occupied_set_missing: "t_get (rooms fo) i = None \<Longrightarrow> occupied (set_room i f fo) = occupied fo"
  by (auto simp: occupied_def set_room_def t_get_update_id intro!: ext split: if_splits)

lemma checked_in_set:
  "t_get (reservations fo) k = Some rv \<Longrightarrow> checked_in (set_reservation k f fo) j = (if j = k then rv_status (f rv) = CheckedIn else checked_in fo j)"
  by (auto simp: checked_in_def set_reservation_def t_get_update_id)

lemma tables_wf_simps [simp]:
  "tables_wf (set_room i f fo) = tables_wf fo" "tables_wf (set_reservation k g fo) = tables_wf fo"
  "tables_wf (fo\<lparr>house := db\<rparr>) = tables_wf fo" "tables_wf (fo\<lparr>inventory := t\<rparr>) = tables_wf fo"
  "tables_wf fo \<Longrightarrow> tables_wf (assign_room rid i now why fo)" "tables_wf fo \<Longrightarrow> tables_wf (close_assignments rid now fo)"
  by (auto simp: tables_wf_def set_room_def set_reservation_def assign_room_def close_assignments_def t_wf_def t_update_def
      t_insert_def comp_def case_prod_unfold)

lemma agree_frame:
  "assignments fo' = assignments fo \<Longrightarrow> rooms fo' = rooms fo \<Longrightarrow> reservations fo' = reservations fo \<Longrightarrow> rooms_agree fo' = rooms_agree fo"
  by (simp add: rooms_agree_def tables_wf_def readers_frame [of fo' fo])

lemma agree_inventory: "inventory_only fo fo' \<Longrightarrow> rooms_agree fo' = rooms_agree fo"
  by (rule agree_frame) (simp_all add: inventory_only_frame)

lemma agree_status:
  assumes "rooms_agree fo" "t_get (reservations fo) k = Some rv" "(rv_status (f rv) = CheckedIn) = (rv_status rv = CheckedIn)"
  shows "rooms_agree (set_reservation k f fo)"
proof -
  have "checked_in (set_reservation k f fo) = checked_in fo"
  proof
    fix j show "checked_in (set_reservation k f fo) j = checked_in fo j"
      unfolding checked_in_set [OF assms(2)] using assms(2,3) by (auto simp: checked_in_def)
  qed
  then show ?thesis using assms(1) readers_frame(1,3) [of "set_reservation k f fo" fo] by (simp add: rooms_agree_def)
qed

lemma in_room_first:
  assumes "rooms_agree fo"
  shows "t_first (\<lambda>_. open_assignment rid) (assignments fo) = Some (a, x) \<Longrightarrow> in_room fo a rid (as_room x)"
    and "t_first (\<lambda>_. open_assignment rid) (assignments fo) = None \<Longrightarrow> \<not> in_room fo a rid i"
proof -
  have wf: "t_wf (assignments fo)" using agree_parts(1) [OF assms] by (simp add: tables_wf_def)
  show "t_first (\<lambda>_. open_assignment rid) (assignments fo) = Some (a, x) \<Longrightarrow> in_room fo a rid (as_room x)"
    by (drule t_first_SomeD [OF wf]) (auto simp: in_room_def open_assignment_def)
  show "t_first (\<lambda>_. open_assignment rid) (assignments fo) = None \<Longrightarrow> \<not> in_room fo a rid i"
    using t_first_NoneD [OF wf, of "\<lambda>_. open_assignment rid" a] by (auto simp: in_room_def open_assignment_def)
qed

lemma not_occupied:
  assumes "rooms_agree fo" "\<not> isRoomOccupied fo i r" "t_get (rooms fo) i = Some r"
  shows "\<not> in_room fo a rid i" "rm_front r = Vacant"
proof -
  have wf: "t_wf (assignments fo)" using agree_parts(1) [OF assms(1)] by (simp add: tables_wf_def)
  have none: "t_first (\<lambda>_ a. as_room a = i \<and> as_to a = None) (assignments fo) = None" and front: "rm_front r \<noteq> Occupied"
    using assms(2) unfolding isRoomOccupied_def by blast+
  show "\<not> in_room fo a rid i" using t_first_NoneD [OF wf none, of a] by (auto simp: in_room_def)
  show "rm_front r = Vacant" using front by (cases "rm_front r") auto
qed

lemma agree_create:
  assumes "createReservation bk c fo = Inr (rid, fo')" "rooms_agree fo" "counted fo"
  shows "rooms_agree fo'"
proof -
  obtain rc st fo1 where s: "insert_booking bk rc st c fo1 = (rid, fo')" "inventory_only fo fo1" "st \<noteq> CheckedIn"
    by (rule createReservation_InrD [OF assms(1,3)]) auto
  note fr = insert_booking_frame [OF s(1)] inventory_only_frame [OF s(2)]
  have wf: "tables_wf fo" by (rule agree_parts [OF assms(2)])
  have "checked_in fo' = checked_in fo"
    using fr s(3) wf t_get_next [of "reservations fo"] by (auto simp: checked_in_def t_get_insert tables_wf_def intro!: ext split: if_splits)
  then show ?thesis using assms(2) fr wf readers_frame(1,3) [of fo' fo] by (simp add: rooms_agree_def tables_wf_def)
qed

lemma agree_house: "rooms_agree (fo\<lparr>house := db\<rparr>) = rooms_agree fo" by (rule agree_frame) simp_all

lemma agree_open_folio: "openBookingFolio rid fo = Inr (b, fo') \<Longrightarrow> rooms_agree fo \<Longrightarrow> rooms_agree fo'"
  by (auto simp: openBookingFolio_def agree_house dest!: on_house_frame split: option.splits if_splits)

lemma release_only: "inv_ok fo \<Longrightarrow> inventory_only fo (releaseInventoryForDates (rv_type rv) (stay_nights rv) fo)"
  using release_facts by simp

lemma agree_status_inv:
  assumes "rooms_agree fo" "inventory_only fo fo1" "t_get (reservations fo) k = Some rv" "rv_status (f rv) \<noteq> CheckedIn" "rv_status rv \<noteq> CheckedIn"
  shows "rooms_agree (set_reservation k f fo1)"
  by (rule agree_status [where rv = rv]) (use assms agree_inventory [OF assms(2)] inventory_only_frame(4) [OF assms(2)] in auto)

lemma agree_confirm: "confirmReservation rid fo = Inr (b, fo') \<Longrightarrow> rooms_agree fo \<Longrightarrow> rooms_agree fo'"
  by (auto simp: confirmReservation_def isValidTransition_def TRANSITIONS_def intro: agree_status_inv split: option.splits if_splits reservation_status.splits)

lemma agree_cancel: "cancelReservation rid why fo = Inr (b, fo') \<Longrightarrow> rooms_agree fo \<Longrightarrow> counted fo \<Longrightarrow> rooms_agree fo'"
  by (auto simp: cancelReservation_def Let_def isValidTransition_def TRANSITIONS_def
      intro!: agree_status_inv release_only counted_parts(1) split: option.splits if_splits reservation_status.splits)

lemma agree_no_show: "markNoShow rid fo = Inr (b, fo') \<Longrightarrow> rooms_agree fo \<Longrightarrow> counted fo \<Longrightarrow> rooms_agree fo'"
  by (auto simp: markNoShow_def isValidTransition_def TRANSITIONS_def
      intro!: agree_status_inv release_only counted_parts(1) split: option.splits if_splits reservation_status.splits)

lemma agree_promote: "promoteWaitlist rid fo = Inr (b, fo') \<Longrightarrow> rooms_agree fo \<Longrightarrow> counted fo \<Longrightarrow> rooms_agree fo'"
  by (auto simp: promoteWaitlist_def isValidTransition_def TRANSITIONS_def
      intro!: agree_status_inv reserve_facts(2) counted_parts(1) split: option.splits if_splits reservation_status.splits prod.splits sum.splits)

text \<open>A guest enters a room nobody is in.\<close>

lemma one_to_one_enter:
  assumes "one_to_one R" "\<And>a rid' i'. R' a rid' i' \<longleftrightarrow> a = n \<and> rid' = rid \<and> i' = i \<or> R a rid' i'"
    "\<And>a i'. \<not> R a rid i'" "\<And>a rid'. \<not> R a rid' i"
  shows "one_to_one R'"
  unfolding one_to_one_def
proof (intro allI impI)
  fix a b r r' j j'
  assume R: "R' a r j" "R' b r' j'" and e: "r = r' \<or> j = j'"
  show "a = b"
  proof (cases "R a r j")
    case True
    have "R b r' j'" using R(2) True assms(3,4) e unfolding assms(2) [of b] by blast
    then show ?thesis using assms(1) True e unfolding one_to_one_def by blast
  next
    case False
    then have x: "a = n" "r = rid" "j = i" using R(1) unfolding assms(2) [of a] by blast+
    have "\<not> R b r' j'" using x assms(3,4) e by blast
    then show ?thesis using R(2) x unfolding assms(2) [of b] by blast
  qed
qed

lemma agree_checkIn:
  assumes "checkIn now rid i od fo = Inr (b, fo')" "rooms_agree fo"
  shows "rooms_agree fo'"
  using checkIn_InrD [OF assms(1)]
proof (elim disjE conjE exE)
  fix rv r db fid
  assume k: "t_get (reservations fo) rid = Some rv" "rv_status rv = Booked" "t_get (rooms fo) i = Some r" "\<not> isRoomOccupied fo i r"
    and fo': "fo' = set_reservation rid (\<lambda>rv. rv\<lparr>rv_status := CheckedIn\<rparr>) (set_room i (\<lambda>r. r\<lparr>rm_front := Occupied\<rparr>) ((assign_room rid i now None fo)\<lparr>house := db\<rparr>))"
  note A = agree_parts [OF assms(2)]
  have wf: "t_wf (assignments fo)" using A(1) by (simp add: tables_wf_def)
  have R: "in_room fo' a r' j \<longleftrightarrow> a = next_id (assignments fo) \<and> r' = rid \<and> j = i \<or> in_room fo a r' j" for a r' j
    using readers_frame(1) [of fo' "assign_room rid i now None fo"] in_room_assign [OF wf] by (simp add: fo')
  have C: "checked_in fo' j \<longleftrightarrow> j = rid \<or> checked_in fo j" for j
    using checked_in_set [of "set_room i (\<lambda>r. r\<lparr>rm_front := Occupied\<rparr>) ((assign_room rid i now None fo)\<lparr>house := db\<rparr>)" rid rv] k
      readers_frame(2) [of "set_room i (\<lambda>r. r\<lparr>rm_front := Occupied\<rparr>) ((assign_room rid i now None fo)\<lparr>house := db\<rparr>)" fo] by (simp add: fo')
  have O: "occupied fo' j \<longleftrightarrow> j = i \<or> occupied fo j" for j
    using occupied_set_room [of "(assign_room rid i now None fo)\<lparr>house := db\<rparr>" i r] k readers_frame(3) [of "(assign_room rid i now None fo)\<lparr>house := db\<rparr>" fo]
      readers_frame(3) [of fo' "set_room i (\<lambda>r. r\<lparr>rm_front := Occupied\<rparr>) ((assign_room rid i now None fo)\<lparr>house := db\<rparr>)"] by (simp add: fo')
  have out: "\<not> in_room fo a rid j" for a j using A(3) [of a rid j] k by (auto simp: checked_in_def)
  show ?thesis
  proof (rule agreeI)
    show "tables_wf fo'" using A(1) by (simp add: fo')
    show "one_to_one (in_room fo')" by (rule one_to_one_enter [OF A(2) R out not_occupied(1) [OF assms(2) k(4,3)]])
    show "checked_in fo' r' \<and> occupied fo' j" if "in_room fo' a r' j" for a r' j using that A(3,4) unfolding R C O by blast
    show "\<exists>a j. in_room fo' a r' j" if "checked_in fo' r'" for r' using that A(5) unfolding R C by blast
  qed
qed (use assms(2) in simp)

text \<open>A guest leaves; the room they were in is the one that is vacated.\<close>

lemma leave_room:
  assumes "rooms_agree fo" and f: "t_first (\<lambda>_. open_assignment rid) (assignments fo) = Some (a, x)"
  shows "in_room fo b r' j \<and> r' \<noteq> rid \<Longrightarrow> j \<noteq> as_room x" "in_room fo b rid j \<Longrightarrow> b = a \<and> j = as_room x"
    and "occupied fo (as_room x)"
proof -
  have i: "in_room fo a rid (as_room x)" by (rule in_room_first(1) [OF assms])
  note A = agree_parts [OF assms(1)]
  show "in_room fo b r' j \<and> r' \<noteq> rid \<Longrightarrow> j \<noteq> as_room x"
    using A(2) i in_room_same [of fo a] unfolding one_to_one_def by blast
  show "in_room fo b rid j \<Longrightarrow> b = a \<and> j = as_room x" using A(2) i in_room_same [of fo a] unfolding one_to_one_def by blast
  show "occupied fo (as_room x)" by (rule A(4) [OF i])
qed

lemma one_to_one_sub: "one_to_one R \<Longrightarrow> (\<And>a r i. R' a r i \<Longrightarrow> R a r i) \<Longrightarrow> one_to_one R'"
  unfolding one_to_one_def by blast

lemma agree_checkOut:
  assumes "checkOut now rid ct fo = Inr (x, fo')" "rooms_agree fo"
  shows "rooms_agree fo'"
  using checkOut_InrD [OF assms(1)]
proof (elim disjE conjE exE)
  fix rv locked db1 fid f rest
  assume k: "t_get (reservations fo) rid = Some rv" "rv_status rv = CheckedIn"
    and fo0: "fo' = set_reservation rid (\<lambda>rv. rv\<lparr>rv_status := CheckedOut\<rparr>)
           (release_rooms rid now (fo\<lparr>house := fold close_folio (fid # map fst rest) db1\<rparr>))"
  define db2 where "db2 = fold close_folio (fid # map fst rest) db1"
  note fo' = fo0 [folded db2_def]
  note A = agree_parts [OF assms(2)]
  let ?fo = "fo\<lparr>house := db2\<rparr>"
  have "checked_in fo rid" using k by (auto simp: checked_in_def)
  then obtain a i where "in_room fo a rid i" using A(5) by blast
  then obtain b y where f: "t_first (\<lambda>_. open_assignment rid) (assignments fo) = Some (b, y)"
    using in_room_first(2) [OF assms(2)] by (cases "t_first (\<lambda>_. open_assignment rid) (assignments fo)") auto
  note L = leave_room [OF assms(2) f]
  obtain r where r: "t_get (rooms fo) (as_room y) = Some r" using L(3) by (auto simp: occupied_def)
  have e: "release_rooms rid now ?fo = set_room (as_room y) vacate_room (close_assignments rid now ?fo)"
    using f by (simp add: release_rooms_def Let_def)
  have R: "in_room fo' a r' j \<longleftrightarrow> in_room fo a r' j \<and> r' \<noteq> rid" for a r' j
    using readers_frame(1) [of fo' "close_assignments rid now ?fo"] readers_frame(1) [of ?fo fo] in_room_close [of rid now ?fo] by (simp add: fo' e)
  have C: "checked_in fo' j \<longleftrightarrow> j \<noteq> rid \<and> checked_in fo j" for j
    using checked_in_set [of "release_rooms rid now ?fo" rid rv] k readers_frame(2) [of "release_rooms rid now ?fo" fo] by (simp add: fo')
  have O: "occupied fo' j \<longleftrightarrow> j \<noteq> as_room y \<and> occupied fo j" for j
    using occupied_set_room [of "close_assignments rid now ?fo" "as_room y" r vacate_room j] r readers_frame(3) [of "close_assignments rid now ?fo" fo]
      readers_frame(3) [of fo' "release_rooms rid now ?fo"] by (simp add: fo' e vacate_room_def)
  show ?thesis
  proof (rule agreeI)
    show "tables_wf fo'" using A(1) by (simp add: fo' e)
    show "one_to_one (in_room fo')" by (rule one_to_one_sub [OF A(2)]) (simp add: R)
    show "checked_in fo' r' \<and> occupied fo' j" if "in_room fo' a r' j" for a r' j using that A(3,4) L(1) unfolding R C O by blast
    show "\<exists>a j. in_room fo' a r' j" if "checked_in fo' r'" for r' using that A(5) unfolding R C by blast
  qed
qed (use assms(2) in simp)

lemma agree_roomMove:
  assumes "roomMove now rid i why fo = Inr (b, fo')" "rooms_agree fo"
  shows "rooms_agree fo'"
  using roomMove_InrD [OF assms(1)]
proof (elim disjE conjE exE)
  fix rv r
  assume k: "t_get (reservations fo) rid = Some rv" "rv_status rv = CheckedIn" "t_get (rooms fo) i = Some r" "\<not> isRoomOccupied fo i r"
    and fo0: "fo' = set_room i (\<lambda>r. r\<lparr>rm_front := Occupied\<rparr>)
          (case t_first (\<lambda>_. open_assignment rid) (assignments fo) of
             None \<Rightarrow> assign_room rid i now why (close_assignments rid now fo)
           | Some (_, a) \<Rightarrow> set_room (as_room a) vacate_room (assign_room rid i now why (close_assignments rid now fo)))"
  note A = agree_parts [OF assms(2)]
  have "checked_in fo rid" using k by (auto simp: checked_in_def)
  then obtain a j where "in_room fo a rid j" using A(5) by blast
  then obtain b y where f: "t_first (\<lambda>_. open_assignment rid) (assignments fo) = Some (b, y)"
    using in_room_first(2) [OF assms(2)] by (cases "t_first (\<lambda>_. open_assignment rid) (assignments fo)") auto
  let ?fo = "assign_room rid i now why (close_assignments rid now fo)"
  have fo': "fo' = set_room i (\<lambda>r. r\<lparr>rm_front := Occupied\<rparr>) (set_room (as_room y) vacate_room ?fo)" using fo0 f by simp
  note L = leave_room [OF assms(2) f]
  note N = not_occupied [OF assms(2) k(4,3)]
  obtain r2 where r2: "t_get (rooms fo) (as_room y) = Some r2" using L(3) by (auto simp: occupied_def)
  have ne: "as_room y \<noteq> i" using L(3) k(3) N(2) by (auto simp: occupied_def)
  have wf: "t_wf (assignments (close_assignments rid now fo))" using A(1) by (simp add: tables_wf_def close_assignments_def)
  have R: "in_room fo' a r' j \<longleftrightarrow> a = next_id (assignments (close_assignments rid now fo)) \<and> r' = rid \<and> j = i \<or> in_room (close_assignments rid now fo) a r' j" for a r' j
    using readers_frame(1) [of fo' ?fo] in_room_assign [OF wf] by (simp add: fo')
  have C: "checked_in fo' = checked_in fo" by (rule readers_frame) (simp add: fo')
  have g: "t_get (rooms (set_room (as_room y) vacate_room ?fo)) i = Some r" using k(3) ne by (auto simp: set_room_def t_get_update_id)
  have O: "occupied fo' j \<longleftrightarrow> j = i \<or> j \<noteq> as_room y \<and> occupied fo j" for j
    unfolding fo' occupied_set_room [OF g] using occupied_set_room [of ?fo "as_room y" r2 vacate_room j] r2 readers_frame(3) [of ?fo fo]
    by (simp add: vacate_room_def)
  show ?thesis
  proof (rule agreeI)
    show "tables_wf fo'" using A(1) by (simp add: fo')
    show "one_to_one (in_room fo')"
      by (rule one_to_one_enter [OF _ R]) (use N(1) in \<open>auto simp: in_room_close intro: one_to_one_sub [OF A(2)]\<close>)
    show "checked_in fo' r' \<and> occupied fo' j" if "in_room fo' a r' j" for a r' j
      using that A(3,4) L(1) \<open>checked_in fo rid\<close> unfolding R C O in_room_close by blast
    show "\<exists>a j. in_room fo' a r' j" if "checked_in fo' r'" for r' using that A(5) unfolding R C in_room_close by blast
  qed
qed (use assms(2) in simp)

lemma agree_departure:
  assumes "rooms_agree fo" "t_get (reservations fo) rid = Some rv" "reservations fo2 = reservations fo" "rooms fo2 = rooms fo" "assignments fo2 = assignments fo"
  shows "rooms_agree ((set_reservation rid (\<lambda>rv. rv\<lparr>rv_departure := nd\<rparr>) fo2)\<lparr>house := db\<rparr>)"
  unfolding agree_house by (rule agree_status [where rv = rv]) (use assms agree_frame [OF assms(5,4,3)] in auto)

lemma agree_extend:
  assumes "extendStay rid nd fo = Inr (x, fo')" "rooms_agree fo" "counted fo"
  shows "rooms_agree fo'"
  using assms(1,3)
proof (cases rule: extend_effect)
  case (2 rv fo2 db)
  show ?thesis unfolding 2(4) by (rule agree_departure [OF assms(2) 2(1,6-8)])
qed (use assms(2) in simp)

lemma agree_overstay:
  assumes "extendOverstayNight rid rv fid bd ov why fo = Inr (x, fo')" "rooms_agree fo" "counted fo" "t_get (reservations fo) rid = Some rv"
    "rv_departure rv \<le> bd" "valid_date bd"
  shows "rooms_agree fo'"
proof -
  have dep: "valid_date (rv_departure rv)" using counted_parts(3) [OF assms(3,4)] by (simp add: dated_def)
  note n = overstay_nights [OF dep assms(6,5)]
  have t: "tally fo (held fo)" using assms(3) by (simp add: counted_def)
  from extendOverstayNight_InrD [OF assms(1)] show ?thesis unfolding n(1)
  proof (elim disjE conjE exE)
    fix lr fo1 db1 db2 late
    assume r: "reserve_or_fail (rv_type rv) (expandStayDates (rv_departure rv) bd @ [bd]) True fo = Inr fo1"
      and fo': "fo' = set_reservation rid (\<lambda>rv. rv\<lparr>rv_departure := next_day bd\<rparr>) fo1\<lparr>house := db2\<rparr>"
    note fr = inventory_only_frame [OF tally_or_fail(2) [OF t n(3) r]]
    show ?thesis unfolding fo' by (rule agree_departure [OF assms(2,4)]) (simp_all add: fr)
  qed (use assms(2) in simp)
qed

lemma agree_threshold: "rooms_agree (configureOverbookingThreshold ty d pct fo) = rooms_agree fo"
  by (rule agree_frame) (simp_all add: configureOverbookingThreshold_def split: option.split)

end
