(* ===== verification/RoomManagement.thy ===== *)
theory RoomManagement
  imports ReservationFacts
begin

text \<open>
  Changing the type of rooms, archiving and deleting them (\<open>modules/setup/room-management.js\<close>), with the capacity guard of
  \<open>shared/room-capacity.js\<close>. A lifecycle request is one step: its discovery reads, locks and restarts are the source's way of
  getting a step that sees one state, so the discovered sets are those of that state and no restart happens. Counts in tables
  of other modules (housekeeping, door access, QR tokens) are the argument \<open>elsewhere\<close>. Audit rows have no counterpart.
\<close>

section \<open>The requests\<close>

datatype lifecycle = ChangeType nat | Archive | DeleteRoom

datatype block_reason = RoomMissing | RoomArchived | RoomOccupied "nat option" | OpenDiscrepancy
  | WouldOverbook nat "violation list" | HasHistory "(string \<times> nat) list"

definition lifecycle_name :: "lifecycle \<Rightarrow> string" where
  "lifecycle_name op = (case op of ChangeType _ \<Rightarrow> ''change_type'' | Archive \<Rightarrow> ''archive'' | DeleteRoom \<Rightarrow> ''delete'')"

definition uniqueSortedIds :: "nat list \<Rightarrow> nat list" where
  "uniqueSortedIds roomIds = sort (remdups roomIds)"

definition t_count :: "(nat \<Rightarrow> 'r \<Rightarrow> bool) \<Rightarrow> 'r table \<Rightarrow> nat" where
  "t_count P t = length (t_select P t)"

text \<open>The tables with a foreign key to a room, and how many of their rows name it.\<close>

definition references_in :: "(string \<Rightarrow> nat \<Rightarrow> nat) \<Rightarrow> front_office \<Rightarrow> nat \<Rightarrow> (string \<times> nat) list" where
  "references_in elsewhere fo i =
     [(''reservation_rooms'', t_count (\<lambda>_ a. as_room a = i) (assignments fo)),
      (''reservations'', t_count (\<lambda>_ rv. rv_preferred rv = Some i) (reservations fo)),
      (''housekeeping_assignments'', elsewhere ''housekeeping_assignments'' i),
      (''housekeeping_discrepancies'', elsewhere ''housekeeping_discrepancies'' i),
      (''out_of_order_periods'', t_count (\<lambda>_ p. oo_room p = i) (ooo_periods fo)),
      (''door_access_events'', elsewhere ''door_access_events'' i),
      (''door_access_stay_confirmations'', elsewhere ''door_access_stay_confirmations'' i),
      (''access_alerts'', elsewhere ''access_alerts'' i),
      (''pos_order_tokens'', elsewhere ''pos_order_tokens'' i)]"

definition countRoomReferences :: "(string \<Rightarrow> nat \<Rightarrow> nat) \<Rightarrow> front_office \<Rightarrow> nat \<Rightarrow> (string \<times> nat) list" where
  "countRoomReferences elsewhere fo i = filter (\<lambda>(_, n). n > 0) (references_in elsewhere fo i)"

section \<open>Guards\<close>

definition already_done :: "lifecycle \<Rightarrow> room \<Rightarrow> bool" where
  "already_done op r = (case op of
      ChangeType target \<Rightarrow> rm_status r \<noteq> ''archived'' \<and> rm_type r = target
    | Archive \<Rightarrow> rm_status r = ''archived''
    | DeleteRoom \<Rightarrow> False)"

definition actionable_room :: "lifecycle \<Rightarrow> room \<Rightarrow> bool" where
  "actionable_room op r \<longleftrightarrow> (rm_status r \<noteq> ''archived'' \<or> op = DeleteRoom) \<and> \<not> already_done op r"

text \<open>What a request does about one room: \<open>guards\<close> are the reasons of step 4, in the order they are added.\<close>

definition guards :: "lifecycle \<Rightarrow> front_office \<Rightarrow> nat \<Rightarrow> block_reason list" where
  "guards op fo i = (case t_get (rooms fo) i of
     None \<Rightarrow> [RoomMissing]
   | Some r \<Rightarrow>
       if rm_status r = ''archived'' \<and> op \<noteq> DeleteRoom then (if op = Archive then [] else [RoomArchived])
       else if already_done op r then []
       else (if isRoomOccupied fo i r
             then [RoomOccupied (map_option (\<lambda>(_, a). as_reservation a) (t_first (\<lambda>_ a. as_room a = i \<and> as_to a = None) (assignments fo)))] else [])
          @ (if op \<noteq> DeleteRoom \<and> rm_discrepancy r then [OpenDiscrepancy] else []))"

definition actionable :: "lifecycle \<Rightarrow> front_office \<Rightarrow> nat list \<Rightarrow> (nat \<times> room) list" where
  "actionable op fo ids = List.map_filter (\<lambda>i. case t_get (rooms fo) i of None \<Rightarrow> None
     | Some r \<Rightarrow> if actionable_room op r then Some (i, r) else None) ids"

definition unchanged :: "lifecycle \<Rightarrow> front_office \<Rightarrow> nat list \<Rightarrow> nat list" where
  "unchanged op fo ids = filter (\<lambda>i. case t_get (rooms fo) i of None \<Rightarrow> False | Some r \<Rightarrow> already_done op r) ids"

text \<open>The rooms about to leave each type; an archived room has no capacity to take away.\<close>

definition moved_of :: "(nat \<times> room) list \<Rightarrow> nat \<Rightarrow> nat set" where
  "moved_of acts ty = set (map fst (filter (\<lambda>(_, r). rm_status r \<noteq> ''archived'' \<and> rm_type r = ty) acts))"

definition source_types :: "(nat \<times> room) list \<Rightarrow> nat list" where
  "source_types acts = rev (remdups (rev (map (rm_type \<circ> snd) (filter (\<lambda>(_, r). rm_status r \<noteq> ''archived'') acts))))"

definition capacity_violations :: "front_office \<Rightarrow> (nat \<times> room) list \<Rightarrow> (nat \<times> violation list) list" where
  "capacity_violations fo acts =
     (let fromDate = business_date (house fo); types = source_types acts
      in findCapacityViolations fo (map (\<lambda>ty. (ty, moved_of acts ty)) types) (lockInventoryRowsForTypes types fromDate fo) fromDate)"

text \<open>Every reason a room is blocked for, in the order the source adds them.\<close>

definition block_reasons :: "(string \<Rightarrow> nat \<Rightarrow> nat) \<Rightarrow> lifecycle \<Rightarrow> front_office \<Rightarrow> nat list \<Rightarrow> nat \<Rightarrow> block_reason list" where
  "block_reasons elsewhere op fo ids i =
     (let acts = actionable op fo ids
      in guards op fo i
         @ map (\<lambda>(ty, vs). WouldOverbook ty vs) (filter (\<lambda>(ty, _). i \<in> moved_of acts ty) (capacity_violations fo acts))
         @ (if op = DeleteRoom \<and> i \<in> set (map fst acts) \<and> countRoomReferences elsewhere fo i \<noteq> []
            then [HasHistory (countRoomReferences elsewhere fo i)] else []))"

definition blocked_rooms :: "(string \<Rightarrow> nat \<Rightarrow> nat) \<Rightarrow> lifecycle \<Rightarrow> front_office \<Rightarrow> nat list \<Rightarrow> (nat \<times> block_reason list) list" where
  "blocked_rooms elsewhere op fo ids = filter (\<lambda>(_, rs). rs \<noteq> []) (map (\<lambda>i. (i, block_reasons elsewhere op fo ids i)) ids)"

section \<open>Applying a request\<close>

text \<open>A retired room connects to nothing, and nothing to it.\<close>

definition linked_rooms :: "nat list \<Rightarrow> front_office \<Rightarrow> nat list" where
  "linked_rooms acts fo = map fst (t_select (\<lambda>i r. case rm_connecting r of None \<Rightarrow> False
     | Some j \<Rightarrow> j \<in> set acts \<or> i \<in> set acts) (rooms fo))"

definition clearLinks :: "nat list \<Rightarrow> front_office \<Rightarrow> front_office" where
  "clearLinks acts fo = fo\<lparr>rooms := t_update (\<lambda>i _. i \<in> set (linked_rooms acts fo)) (\<lambda>r. r\<lparr>rm_connecting := None\<rparr>) (rooms fo)\<rparr>"

definition preferences_of :: "nat list \<Rightarrow> nat list \<Rightarrow> front_office \<Rightarrow> (nat \<times> reservation) list" where
  "preferences_of ids acts fo = filter (\<lambda>(_, rv). case rv_preferred rv of None \<Rightarrow> False | Some i \<Rightarrow> i \<in> set acts)
     (findOpenReservationsPreferringRooms ids fo)"

definition clearPreferences :: "nat list \<Rightarrow> nat list \<Rightarrow> front_office \<Rightarrow> front_office" where
  "clearPreferences ids acts fo = clearPreferredRoomForReservations (map fst (preferences_of ids acts fo)) fo"

record lifecycle_result =
  li_changed :: "nat list"
  li_unchanged :: "nat list"
  li_preferences :: "nat list"
  li_links :: "nat list"

definition apply_change :: "lifecycle \<Rightarrow> nat list \<Rightarrow> nat list \<Rightarrow> front_office \<Rightarrow> front_office" where
  "apply_change op ids acts fo = (case op of
      ChangeType target \<Rightarrow> clearPreferences ids acts
        (fo\<lparr>rooms := t_update (\<lambda>i _. i \<in> set acts) (\<lambda>r. r\<lparr>rm_type := target\<rparr>) (rooms fo)\<rparr>)
    | Archive \<Rightarrow> let fo1 = clearLinks acts fo
        in clearPreferences ids acts
          (fo1\<lparr>rooms := t_update (\<lambda>i _. i \<in> set acts) (\<lambda>r. r\<lparr>rm_status := ''archived'', rm_connecting := None\<rparr>) (rooms fo1)\<rparr>)
    | DeleteRoom \<Rightarrow> let fo1 = clearLinks acts fo in fo1\<lparr>rooms := t_delete (\<lambda>i _. i \<in> set acts) (rooms fo1)\<rparr>)"

definition target_ok :: "lifecycle \<Rightarrow> front_office \<Rightarrow> bool" where
  "target_ok op fo = (case op of ChangeType target \<Rightarrow> map_of (room_types fo) target = Some True | _ \<Rightarrow> True)"

definition runRoomLifecycle ::
    "(string \<Rightarrow> nat \<Rightarrow> nat) \<Rightarrow> lifecycle \<Rightarrow> nat list \<Rightarrow> front_office \<Rightarrow> (lifecycle_result \<times> front_office) result" where
  "runRoomLifecycle elsewhere op roomIds fo =
     (let ids = uniqueSortedIds roomIds; acts = map fst (actionable op fo ids)
      in if \<not> target_ok op fo then Inl (ValidationError ''ROOM_TYPE_NOT_FOUND'')
         else if blocked_rooms elsewhere op fo ids \<noteq> [] then Inl (RoomChangeBlockedError (lifecycle_name op))
         else Inr (\<lparr>li_changed = acts, li_unchanged = unchanged op fo ids,
             li_preferences = (if op = DeleteRoom then [] else map fst (preferences_of ids acts fo)),
             li_links = (case op of ChangeType _ \<Rightarrow> [] | _ \<Rightarrow> linked_rooms acts fo)\<rparr>,
           apply_change op ids acts fo))"

definition changeRoomsType :: "(string \<Rightarrow> nat \<Rightarrow> nat) \<Rightarrow> nat list \<Rightarrow> nat \<Rightarrow> front_office \<Rightarrow> (lifecycle_result \<times> front_office) result" where
  "changeRoomsType elsewhere roomIds target = runRoomLifecycle elsewhere (ChangeType target) roomIds"

definition archiveRooms :: "(string \<Rightarrow> nat \<Rightarrow> nat) \<Rightarrow> nat list \<Rightarrow> front_office \<Rightarrow> (lifecycle_result \<times> front_office) result" where
  "archiveRooms elsewhere = runRoomLifecycle elsewhere Archive"

definition deleteRoom :: "(string \<Rightarrow> nat \<Rightarrow> nat) \<Rightarrow> nat \<Rightarrow> front_office \<Rightarrow> (lifecycle_result \<times> front_office) result" where
  "deleteRoom elsewhere i = runRoomLifecycle elsewhere DeleteRoom [i]"

record room_usage =
  ru_occupied :: bool
  ru_references :: "(string \<times> nat) list"
  ru_deletable :: bool

definition getRoomUsage :: "(string \<Rightarrow> nat \<Rightarrow> nat) \<Rightarrow> nat \<Rightarrow> front_office \<Rightarrow> room_usage option" where
  "getRoomUsage elsewhere i fo = map_option (\<lambda>r.
     let references = countRoomReferences elsewhere fo i; occ = isRoomOccupied fo i r
     in \<lparr>ru_occupied = occ, ru_references = references, ru_deletable = (\<not> occ \<and> references = [])\<rparr>) (t_get (rooms fo) i)"

text \<open>\<open>None\<close>: no such room; the flag says whether anything was restored.\<close>

definition restoreRoom :: "nat \<Rightarrow> front_office \<Rightarrow> (bool option \<times> front_office) result" where
  "restoreRoom i fo = (case t_get (rooms fo) i of
     None \<Rightarrow> Inr (None, fo)
   | Some r \<Rightarrow>
     if rm_status r \<noteq> ''archived'' then Inr (Some False, fo)
     else if map_of (room_types fo) (rm_type r) \<noteq> Some True then Inl (RoomStateError ''CONFLICT_ROOM_TYPE_ARCHIVED'')
     else Inr (Some True, set_room i (\<lambda>r. r\<lparr>rm_status := ''active''\<rparr>) fo))"

end
