(* ===== verification/RoomFacts.thy ===== *)
theory RoomFacts
  imports RoomManagement
begin

text \<open>
  What a room-lifecycle request keeps: the two capacity rules of the source count the same rooms, no night that loses rooms is
  left oversold, and the invariants of \<open>ReservationFacts\<close> hold afterwards.
\<close>

section \<open>One rule of capacity\<close>

definition not_before :: "date option \<Rightarrow> date \<Rightarrow> bool" where
  "not_before since d \<longleftrightarrow> (case since of None \<Rightarrow> True | Some b \<Rightarrow> b \<le> d)"

lemma out_of_order_periods:
  "not_before since d \<Longrightarrow> i \<in> set (outOfOrderRoomIds fo (Some d)) \<longleftrightarrow> list_ex (\<lambda>p. oo_start p \<le> d \<and> oo_end p \<ge> d) (periods_of fo since i)"
  by (cases since) (force simp: outOfOrderRoomIds_def periods_of_def t_select_def list_ex_iff not_before_def)+

lemma live_count:
  assumes "not_before since d"
  shows "livePhysicalCount fo (Some ty) d
    = int (length (filter (\<lambda>(i, r). roomCountsTowardCapacity r d (periods_of fo since i)) (t_select (\<lambda>_ r. rm_type r = ty) (rooms fo))))"
proof -
  have "(rm_status r = ''active'' \<and> \<not> rm_discrepancy r \<and> rm_type r = ty \<and> i \<notin> set (outOfOrderRoomIds fo (Some d)))
      = (rm_type r = ty \<and> roomCountsTowardCapacity r d (periods_of fo since i))" for i r
    using out_of_order_periods [OF assms] by (auto simp: roomCountsTowardCapacity_def)
  then show ?thesis by (simp add: livePhysicalCount_def t_select_def case_prod_unfold conj_commute)
qed

lemma live_nonneg: "0 \<le> livePhysicalCount fo ty d" by (simp add: livePhysicalCount_def)

section \<open>What a committed request was allowed to do\<close>

lemma map_filter_iff: "y \<in> set (List.map_filter f xs) \<longleftrightarrow> (\<exists>x \<in> set xs. f x = Some y)"
  by (induction xs) (auto simp: List.map_filter_simps split: option.splits)

lemma uniqueSortedIds_facts: "set (uniqueSortedIds xs) = set xs" "distinct (uniqueSortedIds xs)"
  by (simp_all add: uniqueSortedIds_def)

lemma actionable_iff:
  "(i, r) \<in> set (actionable op fo ids) \<longleftrightarrow> i \<in> set ids \<and> t_get (rooms fo) i = Some r \<and> actionable_room op r"
  by (auto simp: actionable_def map_filter_iff split: option.splits if_splits)

lemma acts_iff:
  "i \<in> set (map fst (actionable op fo ids)) \<longleftrightarrow> (\<exists>r. i \<in> set ids \<and> t_get (rooms fo) i = Some r \<and> actionable_room op r)"
  using actionable_iff [of i _ op fo ids] by force

lemma moved_iff:
  "i \<in> moved_of (actionable op fo ids) ty \<longleftrightarrow>
     (\<exists>r. i \<in> set ids \<and> t_get (rooms fo) i = Some r \<and> actionable_room op r \<and> rm_status r \<noteq> ''archived'' \<and> rm_type r = ty)"
  using actionable_iff [of i _ op fo ids] by (force simp: moved_of_def)

lemma source_iff: "ty \<in> set (source_types acts) \<longleftrightarrow> moved_of acts ty \<noteq> {}"
  by (force simp: source_types_def moved_of_def filter_empty_conv)

lemma runRoomLifecycle_InrD:
  assumes "runRoomLifecycle elsewhere op roomIds fo = Inr (res, fo')"
  defines "ids \<equiv> uniqueSortedIds roomIds"
  defines "acts \<equiv> actionable op fo ids"
  shows "target_ok op fo" "fo' = apply_change op ids (map fst acts) fo" "i \<in> set ids \<Longrightarrow> guards op fo i = []"
    "capacity_violations fo acts = []" "op = DeleteRoom \<Longrightarrow> i \<in> set (map fst acts) \<Longrightarrow> countRoomReferences elsewhere fo i = []"
    "li_changed res = map fst acts" "li_unchanged res = unchanged op fo ids"
proof -
  have none: "blocked_rooms elsewhere op fo ids = []"
    and r: "target_ok op fo" "fo' = apply_change op ids (map fst acts) fo" "li_changed res = map fst acts" "li_unchanged res = unchanged op fo ids"
    using assms(1) unfolding runRoomLifecycle_def Let_def ids_def acts_def by (auto split: if_splits)
  have b: "block_reasons elsewhere op fo ids i = []" if "i \<in> set ids" for i
    using none that by (auto simp: blocked_rooms_def filter_empty_conv)
  show "target_ok op fo" "fo' = apply_change op ids (map fst acts) fo" "li_changed res = map fst acts" "li_unchanged res = unchanged op fo ids"
    by (fact r)+
  show "i \<in> set ids \<Longrightarrow> guards op fo i = []" using b by (simp add: block_reasons_def Let_def)
  show "op = DeleteRoom \<Longrightarrow> i \<in> set (map fst acts) \<Longrightarrow> countRoomReferences elsewhere fo i = []"
    using b [of i] acts_iff [of i op fo ids] by (auto simp: block_reasons_def Let_def acts_def split: if_splits)
  show "capacity_violations fo acts = []"
  proof (rule ccontr)
    assume "capacity_violations fo acts \<noteq> []"
    then obtain ty vs where v: "(ty, vs) \<in> set (capacity_violations fo acts)" by (cases "capacity_violations fo acts") auto
    then have "ty \<in> set (source_types acts)" by (auto simp: capacity_violations_def Let_def findCapacityViolations_def)
    then obtain i where i: "i \<in> moved_of acts ty" using source_iff by auto
    then have "i \<in> set ids" using moved_iff by (auto simp: acts_def)
    from b [OF this] v i show False by (auto simp: block_reasons_def Let_def acts_def filter_empty_conv)
  qed
qed

lemma no_violation:
  assumes "capacity_violations fo acts = []" "ty \<in> set (source_types acts)" "t_wf (inventory fo)" "t_get (inventory fo) k = Some n" "in_type n = ty"
    "not_before (business_date (house fo)) (in_date n)"
  shows "capacity_violation fo (business_date (house fo)) (t_select (\<lambda>_ r. rm_type r = ty) (rooms fo)) (moved_of acts ty) n = None"
proof (rule ccontr)
  let ?since = "business_date (house fo)"
  let ?rows = "lockInventoryRowsForTypes (source_types acts) ?since fo"
  assume "capacity_violation fo ?since (t_select (\<lambda>_ r. rm_type r = ty) (rooms fo)) (moved_of acts ty) n \<noteq> None"
  then obtain v where v: "capacity_violation fo ?since (t_select (\<lambda>_ r. rm_type r = ty) (rooms fo)) (moved_of acts ty) n = Some v" by auto
  have "(k, n) \<in> set (t_select (\<lambda>_ n. in_type n \<in> set (source_types acts) \<and> (case ?since of None \<Rightarrow> True | Some d \<Rightarrow> in_date n \<ge> d)) (inventory fo))"
    using assms(2-6) by (auto simp: t_select_set not_before_def split: option.splits)
  then have "n \<in> set ?rows" unfolding lockInventoryRowsForTypes_def by force
  then have "v \<in> set (violations_of_type fo ?since ?rows ty (moved_of acts ty))"
    using v assms(5,6) by (auto simp: violations_of_type_def map_filter_iff not_before_def split: option.splits intro!: bexI [of _ n])
  then have "(ty, violations_of_type fo ?since ?rows ty (moved_of acts ty)) \<in> set (capacity_violations fo acts)"
    using assms(2) by (auto simp: capacity_violations_def Let_def findCapacityViolations_def)
  then show False using assms(1) by simp
qed

section \<open>Capacity afterwards\<close>

text \<open>The rooms of the state after a request, up to the links and preferences it clears.\<close>

definition after_room :: "lifecycle \<Rightarrow> nat list \<Rightarrow> nat \<times> room \<Rightarrow> (nat \<times> room) option" where
  "after_room op acts p = (case p of (i, r) \<Rightarrow>
     if i \<notin> set acts then Some (i, r)
     else (case op of ChangeType target \<Rightarrow> Some (i, r\<lparr>rm_type := target\<rparr>)
       | Archive \<Rightarrow> Some (i, r\<lparr>rm_status := ''archived''\<rparr>) | DeleteRoom \<Rightarrow> None))"

definition unlink :: "nat \<times> room \<Rightarrow> nat \<times> room" where
  "unlink p = (fst p, (snd p)\<lparr>rm_connecting := None\<rparr>)"

lemma apply_frame:
  "inventory (apply_change op ids acts fo) = inventory fo" "house (apply_change op ids acts fo) = house fo"
  "ooo_periods (apply_change op ids acts fo) = ooo_periods fo" "assignments (apply_change op ids acts fo) = assignments fo"
  by (simp_all add: apply_change_def Let_def clearPreferences_def clearPreferredRoomForReservations_def clearLinks_def split: lifecycle.split)

lemma apply_rooms: "map unlink (rows (rooms (apply_change op ids acts fo))) = map unlink (List.map_filter (after_room op acts) (rows (rooms fo)))"
proof -
  have 1: "map unlink (map (\<lambda>(i, r). (i, if i \<in> set acts then r\<lparr>rm_type := target\<rparr> else r)) xs)
      = map unlink (List.map_filter (after_room (ChangeType target) acts) xs)" for target xs
    by (induction xs) (auto simp: List.map_filter_simps after_room_def unlink_def)
  have 2: "map unlink (map (\<lambda>(i, r). (i, if i \<in> set acts then r\<lparr>rm_status := ''archived'', rm_connecting := None\<rparr> else r))
        (map (\<lambda>(i, r). (i, if i \<in> L then r\<lparr>rm_connecting := None\<rparr> else r)) xs))
      = map unlink (List.map_filter (after_room Archive acts) xs)" for L xs
    by (induction xs) (auto simp: List.map_filter_simps after_room_def unlink_def)
  have 3: "map unlink (filter (\<lambda>(i, r). i \<notin> set acts) (map (\<lambda>(i, r). (i, if i \<in> L then r\<lparr>rm_connecting := None\<rparr> else r)) xs))
      = map unlink (List.map_filter (after_room DeleteRoom acts) xs)" for L xs
    by (induction xs) (auto simp: List.map_filter_simps after_room_def unlink_def)
  show ?thesis
    using 1 2 3 by (cases op)
      (simp_all add: apply_change_def Let_def clearPreferences_def clearPreferredRoomForReservations_def clearLinks_def t_update_def t_delete_def)
qed

definition counts_for :: "front_office \<Rightarrow> nat \<Rightarrow> date \<Rightarrow> nat \<times> room \<Rightarrow> bool" where
  "counts_for fo ty d p \<longleftrightarrow> rm_type (snd p) = ty \<and> rm_status (snd p) = ''active'' \<and> \<not> rm_discrepancy (snd p)
     \<and> fst p \<notin> set (outOfOrderRoomIds fo (Some d))"

lemma live_counts: "livePhysicalCount fo (Some ty) d = int (length (filter (counts_for fo ty d) (rows (rooms fo))))"
proof -
  have "(\<lambda>(i, r). rm_status r = ''active'' \<and> \<not> rm_discrepancy r \<and> rm_type r = ty \<and> i \<notin> set (outOfOrderRoomIds fo (Some d))) = counts_for fo ty d"
    by (auto simp: counts_for_def)
  then show ?thesis by (simp add: livePhysicalCount_def t_select_def)
qed

lemma counts_unlink: "length (filter (counts_for fo ty d) (map unlink xs)) = length (filter (counts_for fo ty d) xs)"
  by (induction xs) (auto simp: counts_for_def unlink_def)

lemma live_after:
  "livePhysicalCount (apply_change op ids acts fo) (Some ty) d
     = int (length (filter (counts_for fo ty d) (List.map_filter (after_room op acts) (rows (rooms fo)))))"
proof -
  have "counts_for (apply_change op ids acts fo) ty d = counts_for fo ty d"
    by (auto simp: counts_for_def outOfOrderRoomIds_def apply_frame)
  then show ?thesis
    unfolding live_counts using apply_rooms [of op ids acts fo] counts_unlink [of fo ty d] by metis
qed

lemma length_map_filter_ge:
  "(\<And>x. x \<in> set xs \<Longrightarrow> P x \<Longrightarrow> \<exists>y. f x = Some y \<and> P y) \<Longrightarrow> length (filter P xs) \<le> length (filter P (List.map_filter f xs))"
proof (induction xs)
  case (Cons x xs)
  then have "length (filter P xs) \<le> length (filter P (List.map_filter f xs))" by simp
  then show ?case using Cons.prems [of x] by (cases "f x") (auto simp: List.map_filter_simps)
qed (simp add: List.map_filter_simps)

lemma length_map_filter_eq:
  "(\<And>x. x \<in> set xs \<Longrightarrow> (\<exists>y. f x = Some y \<and> P y) = Q x) \<Longrightarrow> length (filter P (List.map_filter f xs)) = length (filter Q xs)"
proof (induction xs)
  case (Cons x xs)
  then have "length (filter P (List.map_filter f xs)) = length (filter Q xs)" by simp
  then show ?case using Cons.prems [of x] by (cases "f x") (auto simp: List.map_filter_simps)
qed (simp add: List.map_filter_simps)

text \<open>A type that loses no room keeps its capacity; a type that does has the capacity the guard computed.\<close>

lemma live_kept:
  assumes "tables_wf fo" "ty \<notin> set (source_types (actionable op fo ids))"
  shows "livePhysicalCount fo (Some ty) d \<le> livePhysicalCount (apply_change op ids (map fst (actionable op fo ids)) fo) (Some ty) d"
proof -
  let ?acts = "map fst (actionable op fo ids)"
  have wf: "t_wf (rooms fo)" using assms(1) by (simp add: tables_wf_def)
  have stay: "rm_status r = ''archived'' \<or> rm_type r \<noteq> ty" if "(i, r) \<in> set (rows (rooms fo))" "i \<in> set ?acts" for i r
    using that assms(2) acts_iff [of i op fo ids] moved_iff [of i op fo ids ty] by (auto simp: source_iff rows_get [OF wf])
  have "length (filter (counts_for fo ty d) (rows (rooms fo))) \<le> length (filter (counts_for fo ty d) (List.map_filter (after_room op ?acts) (rows (rooms fo))))"
  proof (rule length_map_filter_ge)
    fix x assume x: "x \<in> set (rows (rooms fo))" "counts_for fo ty d x"
    then have "fst x \<notin> set ?acts" using stay [of "fst x" "snd x"] by (auto simp: counts_for_def)
    then show "\<exists>y. after_room op ?acts x = Some y \<and> counts_for fo ty d y" using x(2) by (auto simp: after_room_def case_prod_unfold)
  qed
  then show ?thesis unfolding live_after live_counts [of fo] by simp
qed

lemma live_reduced:
  assumes "tables_wf fo" "ty \<in> set (source_types (actionable op fo ids))" "not_before since d"
  defines "acts \<equiv> actionable op fo ids"
  shows "livePhysicalCount (apply_change op ids (map fst acts) fo) (Some ty) d
    = int (length (filter (\<lambda>(i, r). i \<notin> moved_of acts ty) (filter (\<lambda>(i, r). roomCountsTowardCapacity r d (periods_of fo since i))
        (t_select (\<lambda>_ r. rm_type r = ty) (rooms fo)))))"
proof -
  have wf: "t_wf (rooms fo)" using assms(1) by (simp add: tables_wf_def)
  have away: "op \<noteq> ChangeType ty"
    using assms(2) moved_iff [of _ op fo ids ty] by (auto simp: source_iff actionable_room_def already_done_def)
  have moved: "i \<in> set (map fst acts) \<longleftrightarrow> i \<in> moved_of acts ty" if "(i, r) \<in> set (rows (rooms fo))" "rm_type r = ty" "rm_status r = ''active''" for i r
    using that acts_iff [of i op fo ids] moved_iff [of i op fo ids ty] by (auto simp: acts_def rows_get [OF wf])
  have "length (filter (counts_for fo ty d) (List.map_filter (after_room op (map fst acts)) (rows (rooms fo))))
      = length (filter (\<lambda>p. counts_for fo ty d p \<and> fst p \<notin> moved_of acts ty) (rows (rooms fo)))"
  proof (rule length_map_filter_eq)
    fix x assume x: "x \<in> set (rows (rooms fo))"
    show "(\<exists>y. after_room op (map fst acts) x = Some y \<and> counts_for fo ty d y) = (counts_for fo ty d x \<and> fst x \<notin> moved_of acts ty)"
    proof (cases "fst x \<in> set (map fst acts)")
      case True
      then show ?thesis using moved [of "fst x" "snd x"] x away by (cases op) (auto simp: after_room_def counts_for_def case_prod_unfold)
    next
      case False
      then show ?thesis using moved [of "fst x" "snd x"] x by (auto simp: after_room_def counts_for_def case_prod_unfold)
    qed
  qed
  moreover have "(\<lambda>p. counts_for fo ty d p \<and> fst p \<notin> moved_of acts ty) = (\<lambda>(i, r). (rm_type r = ty \<and> roomCountsTowardCapacity r d (periods_of fo since i)) \<and> i \<notin> moved_of acts ty)"
    using out_of_order_periods [OF assms(3)] by (auto simp: counts_for_def roomCountsTowardCapacity_def fun_eq_iff)
  ultimately show ?thesis unfolding live_after by (simp add: t_select_def case_prod_unfold conj_ac)
qed

lemma room_change_fits:
  assumes "tables_wf fo" "inv_ok fo" "runRoomLifecycle elsewhere op roomIds fo = Inr (res, fo')"
    "not_before (business_date (house fo)) d" "livePhysicalCount fo' (Some ty) d < livePhysicalCount fo (Some ty) d"
  shows "sold fo' ty d \<le> limit fo' ty d"
proof -
  define ids where "ids = uniqueSortedIds roomIds"
  define acts where "acts = actionable op fo ids"
  note R = runRoomLifecycle_InrD [OF assms(3), folded ids_def, folded acts_def]
  note fo' = R(2)
  have "inventory fo' = inventory fo" by (simp add: fo' apply_frame)
  then have row: "inventory_row fo' = inventory_row fo" by (auto simp: inventory_row_def intro!: ext)
  have src: "ty \<in> set (source_types acts)"
    using live_kept [OF assms(1), of ty op ids d] assms(5) unfolding fo' acts_def by (auto simp: not_less [symmetric])
  let ?counted = "filter (\<lambda>(i, r). roomCountsTowardCapacity r d (periods_of fo (business_date (house fo)) i)) (t_select (\<lambda>_ r. rm_type r = ty) (rooms fo))"
  have after: "livePhysicalCount fo' (Some ty) d = int (length (filter (\<lambda>(i, r). i \<notin> moved_of acts ty) ?counted))"
    unfolding fo' acts_def by (rule live_reduced [OF assms(1) src [unfolded acts_def] assms(4)])
  show ?thesis
  proof (cases "inventory_row fo ty d")
    case None
    then show ?thesis using live_nonneg [of fo' "Some ty" d] by (simp add: sold_def limit_def pct_of_def row threshold_def)
  next
    case (Some x)
    obtain k n where x: "x = (k, n)" by (cases x)
    then have n: "t_get (inventory fo) k = Some n" "in_type n = ty" "in_date n = d" using Some inventory_row_iff [OF assms(2)] by auto
    have "capacity_violation fo (business_date (house fo)) (t_select (\<lambda>_ r. rm_type r = ty) (rooms fo)) (moved_of acts ty) n = None"
      by (rule no_violation [OF R(4) src _ n(1,2)]) (use assms(2,4) n(3) in \<open>auto simp: inv_ok_def\<close>)
    then have "\<not> in_sold n > threshold (int (length (filter (\<lambda>(i, r). i \<notin> moved_of acts ty) ?counted))) (in_pct n)"
      using assms(5) live_count [OF assms(4), of fo ty] unfolding after by (auto simp: capacity_violation_def Let_def n(3) split: if_splits)
    then show ?thesis using Some x after by (simp add: sold_def limit_def pct_of_def row)
  qed
qed

section \<open>The invariants\<close>

lemma clear_reservations:
  "reservations (apply_change op ids acts fo) = (case op of DeleteRoom \<Rightarrow> reservations fo
     | _ \<Rightarrow> t_update (\<lambda>i _. i \<in> set (map fst (preferences_of ids acts fo))) (\<lambda>rv. rv\<lparr>rv_preferred := None\<rparr>) (reservations fo))"
  by (simp add: apply_change_def Let_def clearPreferences_def clearPreferredRoomForReservations_def clearLinks_def preferences_of_def
      findOpenReservationsPreferringRooms_def split: lifecycle.split)

lemma counted_lifecycle:
  assumes "runRoomLifecycle elsewhere op roomIds fo = Inr (res, fo')" "counted fo"
  shows "counted fo'"
proof -
  note R = runRoomLifecycle_InrD [OF assms(1)]
  define K where "K = set (map fst (preferences_of (uniqueSortedIds roomIds) (map fst (actionable op fo (uniqueSortedIds roomIds))) fo))"
  have r: "reservations fo' = reservations fo \<or> reservations fo' = t_update (\<lambda>i _. i \<in> K) (\<lambda>rv. rv\<lparr>rv_preferred := None\<rparr>) (reservations fo)"
    unfolding R(2) clear_reservations K_def by (auto split: lifecycle.split)
  have i: "inventory fo' = inventory fo" by (simp add: R(2) apply_frame)
  have same: "takes (rv\<lparr>rv_preferred := None\<rparr>) ty d = takes rv ty d" "dated (rv\<lparr>rv_preferred := None\<rparr>) = dated rv" for rv ty d
    by (simp_all add: takes_def stay_nights_def dated_def)
  have "held fo' = held fo" using r t_total_update_same by (auto simp: held_def same intro!: ext t_total_update_same)
  moreover have "t_wf (reservations fo')" using r counted_parts(2) [OF assms(2)] by auto
  moreover have "dated rv" if "t_get (reservations fo') k = Some rv" for k rv
    using r that counted_parts(3) [OF assms(2), of k] by (auto simp: t_get_update same)
  ultimately show ?thesis using assms(2) tally_frame [OF i] by (simp add: counted_def)
qed

lemma agree_lifecycle:
  assumes "runRoomLifecycle elsewhere op roomIds fo = Inr (res, fo')" "rooms_agree fo"
  shows "rooms_agree fo'"
proof -
  define ids where "ids = uniqueSortedIds roomIds"
  define acts where "acts = map fst (actionable op fo ids)"
  note R = runRoomLifecycle_InrD [OF assms(1), folded ids_def, folded acts_def]
  note A = agree_parts [OF assms(2)]
  have wf: "tables_wf fo'"
    using A(1) unfolding R(2) by (simp add: tables_wf_def apply_frame clear_reservations split: lifecycle.split)
      (simp add: apply_change_def Let_def clearPreferences_def clearPreferredRoomForReservations_def clearLinks_def split: lifecycle.split)
  have I: "in_room fo' = in_room fo" by (rule readers_frame) (simp add: R(2) apply_frame)
  have C: "checked_in fo' = checked_in fo"
  proof
    fix k
    have "map_option rv_status (t_get (reservations fo') k) = map_option rv_status (t_get (reservations fo) k)"
      unfolding R(2) clear_reservations by (cases op; cases "t_get (reservations fo) k") (simp_all add: t_get_update)
    then show "checked_in fo' k = checked_in fo k"
      by (cases "t_get (reservations fo') k"; cases "t_get (reservations fo) k") (auto simp: checked_in_def)
  qed
  have "occupied fo' i" if "in_room fo a rid i" for a rid i
  proof -
    have "occupied fo i" by (rule A(4) [OF that])
    then obtain r where r: "t_get (rooms fo) i = Some r" "rm_front r = Occupied" by (auto simp: occupied_def)
    have busy: "isRoomOccupied fo i r" using r by (simp add: isRoomOccupied_def)
    have "i \<notin> set acts"
      using acts_iff [of i op fo ids] R(3) [of i] r busy by (auto simp: acts_def guards_def actionable_room_def split: if_splits)
    then show ?thesis using r unfolding R(2) occupied_def
      by (cases op) (auto simp: apply_change_def Let_def clearPreferences_def clearPreferredRoomForReservations_def clearLinks_def t_get_update t_get_delete_id)
  qed
  then show ?thesis using wf A unfolding rooms_agree_def I C by blast
qed

lemma counted_restore: "restoreRoom i fo = Inr (b, fo') \<Longrightarrow> counted fo \<Longrightarrow> counted fo'"
  using counted_frame [of fo' fo] by (auto simp: restoreRoom_def split: option.splits if_splits)

lemma agree_restore:
  assumes "restoreRoom i fo = Inr (b, fo')" "rooms_agree fo"
  shows "rooms_agree fo'"
proof (cases "t_get (rooms fo) i")
  case (Some r)
  show ?thesis
  proof (cases "fo' = fo")
    case False
    then have e: "fo' = set_room i (\<lambda>r. r\<lparr>rm_status := ''active''\<rparr>) fo" using assms(1) Some by (auto simp: restoreRoom_def split: if_splits)
    have "occupied fo' = occupied fo"
    proof
      fix j show "occupied fo' j = occupied fo j" using Some unfolding e occupied_set_room [OF Some] by (auto simp: occupied_def)
    qed
    then show ?thesis using assms(2) readers_frame(1,2) [of fo' fo] by (simp add: rooms_agree_def e)
  qed (use assms in simp)
qed (use assms in \<open>auto simp: restoreRoom_def\<close>)

end
