(* ===== verification/NightAudit.thy ===== *)
theory NightAudit
  imports RoomFacts
begin

text \<open>
  Closing a business date, \<open>modules/night-audit/service.js\<close>: the claim on the run row of the date, the recovery of a run whose
  worker died, and the one transaction that bills every guest in house, writes the day's report and advances the date. The
  claim is committed before the transaction starts, so they are separate definitions and a worker can stop between them.
  The clock is an argument in milliseconds; the calendar date of an instant in a time zone is the argument \<open>calendar\<close>
  (\<open>None\<close> where it throws). The occupancy percentage of the report is kept as its two operands. The staff notification and
  the outbox event have no counterpart.
\<close>

section \<open>Runs and reports\<close>

datatype run_status = RunRunning | RunCompleted | RunFailed

datatype audit_exception = NoOpenFolio nat | OverstayExtended nat date "date list" | OverstayWithoutRate nat date
  | UnresolvedDiscrepancy nat nat

record audit_run =
  nr_date :: date
  nr_status :: run_status
  nr_heartbeat :: int
  nr_exceptions :: "audit_exception list"

record daily_report =
  dp_date :: date
  dp_run :: nat
  dp_revenue :: int
  dp_payments :: int
  dp_sold :: int
  dp_physical :: int
  dp_adr :: int
  dp_revpar :: int

record discrepancy =
  dc_room :: nat
  dc_resolved :: bool

record audit_db =
  desk :: front_office
  runs :: "audit_run table"
  reports :: "daily_report table"
  discrepancies :: "discrepancy table"
  timezone :: "string option"

definition STALE_TIMEOUT_MS :: int where "STALE_TIMEOUT_MS = 90000"

definition addOneDay :: "date \<Rightarrow> date" where "addOneDay d = next_day d"

definition assertBusinessDateHasEnded :: "(int \<Rightarrow> string \<Rightarrow> date option) \<Rightarrow> int \<Rightarrow> date \<Rightarrow> date \<Rightarrow> string option \<Rightarrow> unit result" where
  "assertBusinessDateHasEnded calendar now businessDate nextBusinessDate zone =
     (if \<not> given zone then Inr ()
      else case calendar now (the zone) of
        None \<Rightarrow> Inr ()
      | Some today \<Rightarrow> if nextBusinessDate > today then Inl (NightAuditPrematureError (date_text businessDate) (date_text today)) else Inr ())"

definition findBlockingConditions :: "audit_db \<Rightarrow> (nat \<times> discrepancy) list" where
  "findBlockingConditions db = t_select (\<lambda>_ c. \<not> dc_resolved c) (discrepancies db)"

section \<open>The claim\<close>

text \<open>The ledger reads which dates have a completed run; the copy it reads is kept in step with the runs.\<close>

definition completed_days :: "audit_run table \<Rightarrow> date list" where
  "completed_days t = map (\<lambda>(_, r). nr_date r) (t_select (\<lambda>_ r. nr_status r = RunCompleted) t)"

definition set_run :: "nat \<Rightarrow> (audit_run \<Rightarrow> audit_run) \<Rightarrow> audit_db \<Rightarrow> audit_db" where
  "set_run k f db = (let t = t_update (by_id k) f (runs db); fo = desk db
     in db\<lparr>runs := t, desk := fo\<lparr>house := (house fo)\<lparr>closed_days := completed_days t\<rparr>\<rparr>\<rparr>)"

definition report_on :: "audit_db \<Rightarrow> date \<Rightarrow> bool" where
  "report_on db d \<longleftrightarrow> t_first (\<lambda>_ p. dp_date p = d) (reports db) \<noteq> None"

text \<open>A claim's outcome and the state it left: recovery commits even where it then throws.\<close>

definition recoverStaleRun :: "nat \<Rightarrow> date \<Rightarrow> audit_db \<Rightarrow> unit result \<times> audit_db" where
  "recoverStaleRun k businessDate db =
     (let advanced = (case business_date (house (desk db)) of None \<Rightarrow> False | Some b \<Rightarrow> b > businessDate)
      in if report_on db businessDate \<and> advanced
         then (Inl (NightAuditAlreadyCompletedError (date_text businessDate)), set_run k (\<lambda>r. r\<lparr>nr_status := RunCompleted\<rparr>) db)
         else (Inr (), set_run k (\<lambda>r. r\<lparr>nr_status := RunFailed\<rparr>) db))"

definition reconcileExistingRun :: "int \<Rightarrow> date \<Rightarrow> audit_db \<Rightarrow> nat option result \<times> audit_db" where
  "reconcileExistingRun now businessDate db =
     (case t_first (\<lambda>_ r. nr_date r = businessDate) (runs db) of
        None \<Rightarrow> (Inr None, db)
      | Some (k, r) \<Rightarrow> (case nr_status r of
            RunCompleted \<Rightarrow> (Inl (NightAuditAlreadyCompletedError (date_text businessDate)), db)
          | RunRunning \<Rightarrow>
              if now - nr_heartbeat r < STALE_TIMEOUT_MS then (Inl (NightAuditAlreadyRunningError (date_text businessDate)), db)
              else map_prod (map_sum id (\<lambda>_. Some k)) id (recoverStaleRun k businessDate db)
          | RunFailed \<Rightarrow> (Inr (Some k), db)))"

definition claimRun :: "int \<Rightarrow> date \<Rightarrow> nat option \<Rightarrow> audit_db \<Rightarrow> (nat \<times> audit_db) result" where
  "claimRun now businessDate existing db = (case existing of
     Some k \<Rightarrow> (case t_get (runs db) k of
         None \<Rightarrow> Inl (NightAuditAlreadyRunningError (date_text businessDate))
       | Some r \<Rightarrow> if nr_status r \<noteq> RunFailed then Inl (NightAuditAlreadyRunningError (date_text businessDate))
           else Inr (k, set_run k (\<lambda>r. r\<lparr>nr_status := RunRunning, nr_heartbeat := now, nr_exceptions := []\<rparr>) db))
   | None \<Rightarrow>
       if t_first (\<lambda>_ r. nr_date r = businessDate) (runs db) \<noteq> None then Inl (NightAuditAlreadyRunningError (date_text businessDate))
       else Inr (next_id (runs db), db\<lparr>runs := t_insert \<lparr>nr_date = businessDate, nr_status = RunRunning, nr_heartbeat = now,
              nr_exceptions = []\<rparr> (runs db)\<rparr>))"

section \<open>The transaction\<close>

definition system_reason :: "string option" where "system_reason = Some ''Night audit system posting''"

definition late_prefix :: string where "late_prefix = ''Late room charge '' @ em_dash"

definition tonight :: "nat \<Rightarrow> date \<Rightarrow> folio_line \<Rightarrow> bool" where
  "tonight fid d l \<longleftrightarrow> room_charge_on fid d l \<and> take (length late_prefix) (l_description l) \<noteq> late_prefix"

definition rate_for :: "hotel \<Rightarrow> nat \<Rightarrow> date \<Rightarrow> daily_rate option" where
  "rate_for db rid d = map_option snd (t_first (\<lambda>_ r. dr_reservation r = rid \<and> dr_date r = d) (daily_rates db))"

definition open_folio_of :: "hotel \<Rightarrow> nat \<Rightarrow> (nat \<times> folio) option" where
  "open_folio_of db rid = t_first (\<lambda>_ f. f_reservation f = rid \<and> f_status f = ''open'') (folios db)"

text \<open>Tonight's rate; a guest past the departure date is extended to it first.\<close>

definition tonights_rate ::
    "date \<Rightarrow> nat \<Rightarrow> reservation \<Rightarrow> nat \<Rightarrow> front_office \<times> audit_exception list
     \<Rightarrow> (daily_rate option \<times> front_office \<times> audit_exception list) result" where
  "tonights_rate d rid rv fid st = (case st of (fo, exs) \<Rightarrow> (case rate_for (house fo) rid d of
       Some r \<Rightarrow> Inr (Some r, fo, exs)
     | None \<Rightarrow>
         if rv_departure rv \<le> d then
           rbind (extendOverstayNight rid rv fid d True system_reason fo) (\<lambda>(x, fo1). case x of
               None \<Rightarrow> Inr (None, fo1, exs @ [OverstayWithoutRate rid d])
             | Some (r, late) \<Rightarrow> Inr (r, fo1, exs @ [OverstayExtended rid d (map fst late)]))
         else Inr (None, fo, exs)))"

definition post_tonight :: "date \<Rightarrow> nat \<Rightarrow> daily_rate \<Rightarrow> front_office \<Rightarrow> front_office result" where
  "post_tonight d fid r fo =
     (if has_line (tonight fid d) (house fo) then Inr fo
      else map_sum id snd (on_house (postCharge fid ''room_charge'' (''Room charge '' @ em_dash @ '' '' @ date_text d) (dr_rate r)
             (Some d) True system_reason) fo))"

definition audit_guest :: "date \<Rightarrow> front_office \<times> audit_exception list \<Rightarrow> nat \<times> reservation \<Rightarrow> (front_office \<times> audit_exception list) result" where
  "audit_guest d st guest = (case st of (fo, exs) \<Rightarrow> (case guest of (rid, rv) \<Rightarrow>
     (case open_folio_of (house fo) rid of
        None \<Rightarrow> Inr (fo, exs @ [NoOpenFolio rid])
      | Some (fid, _) \<Rightarrow>
          rbind (tonights_rate d rid rv fid (fo, exs)) (\<lambda>(rate, fo1, exs1). case rate of
              None \<Rightarrow> Inr (fo1, exs1)
            | Some r \<Rightarrow> map_sum id (\<lambda>fo2. (fo2, exs1)) (post_tonight d fid r fo1)))))"

definition in_house :: "front_office \<Rightarrow> (nat \<times> reservation) list" where
  "in_house fo = t_select (\<lambda>_ rv. rv_status rv = CheckedIn) (reservations fo)"

definition bill_in_house :: "date \<Rightarrow> front_office \<Rightarrow> (front_office \<times> audit_exception list) result" where
  "bill_in_house d fo = foldM (audit_guest d) (fo, []) (in_house fo)"

definition line_on :: "line_type \<Rightarrow> date \<Rightarrow> nat \<Rightarrow> folio_line \<Rightarrow> bool" where
  "line_on ty d i l \<longleftrightarrow> l_type l = ty \<and> l_business_date l = d \<and> \<not> l_voided l"

definition report_of :: "date \<Rightarrow> nat \<Rightarrow> front_office \<Rightarrow> daily_report" where
  "report_of d runId fo =
     (let lines = line_items (house fo);
          revenue = t_total (line_on RoomCharge d) l_amount lines;
          physical = livePhysicalCount fo None d
      in \<lparr>dp_date = d, dp_run = runId, dp_revenue = revenue, dp_payments = - t_total (line_on PaymentLine d) l_amount lines,
          dp_sold = t_total (\<lambda>_ n. in_date n = d) in_sold (inventory fo), dp_physical = physical,
          dp_adr = divide_cents revenue (int (length (t_select (line_on RoomCharge d) lines))), dp_revpar = divide_cents revenue physical\<rparr>)"

definition close_date :: "date \<Rightarrow> front_office \<Rightarrow> front_office" where
  "close_date d fo = fo\<lparr>house := (house fo)\<lparr>business_date := Some (addOneDay d), reported_days := d # reported_days (house fo)\<rparr>\<rparr>"

definition runCriticalTransaction :: "date \<Rightarrow> nat \<Rightarrow> audit_db \<Rightarrow> (daily_report \<times> audit_db) result" where
  "runCriticalTransaction businessDate runId db =
     rbind (bill_in_house businessDate (desk db)) (\<lambda>(fo, exs).
       if report_on db businessDate then Inl (DuplicateEntry ''daily_reports'')
       else let report = report_of businessDate runId fo;
                all = exs @ map (\<lambda>(k, c). UnresolvedDiscrepancy (dc_room c) k) (findBlockingConditions db)
            in Inr (report, set_run runId (\<lambda>r. r\<lparr>nr_status := RunCompleted, nr_exceptions := all\<rparr>)
                 (db\<lparr>desk := close_date businessDate fo, reports := t_insert report (reports db)\<rparr>)))"

section \<open>A run\<close>

text \<open>Up to the claim: the date, the run row and the state with the claim in it.\<close>

definition start_run :: "(int \<Rightarrow> string \<Rightarrow> date option) \<Rightarrow> int \<Rightarrow> audit_db \<Rightarrow> (date \<times> nat) result \<times> audit_db" where
  "start_run calendar now db =
     (case business_date (house (desk db)) of
        None \<Rightarrow> (Inl PropertyNotOpenedError, db)
      | Some d \<Rightarrow> (case assertBusinessDateHasEnded calendar now d (addOneDay d) (timezone db) of
            Inl e \<Rightarrow> (Inl e, db)
          | Inr _ \<Rightarrow> (case reconcileExistingRun now d db of
                (Inl e, db1) \<Rightarrow> (Inl e, db1)
              | (Inr existing, db1) \<Rightarrow> (case claimRun now d existing db1 of
                    Inl e \<Rightarrow> (Inl e, db1)
                  | Inr (k, db2) \<Rightarrow> (Inr (d, k), db2)))))"

definition fail_run :: "nat \<Rightarrow> audit_db \<Rightarrow> audit_db" where
  "fail_run k = set_run k (\<lambda>r. r\<lparr>nr_status := RunFailed\<rparr>)"

definition finish_run :: "date \<Rightarrow> nat \<Rightarrow> audit_db \<Rightarrow> daily_report result \<times> audit_db" where
  "finish_run d k db =
     (case (if findBlockingConditions db \<noteq> [] then Inl NightAuditBlockingConditionsError else runCriticalTransaction d k db) of
        Inl e \<Rightarrow> (Inl e, fail_run k db)
      | Inr (report, db1) \<Rightarrow> (Inr report, db1))"

definition runNightAudit :: "(int \<Rightarrow> string \<Rightarrow> date option) \<Rightarrow> int \<Rightarrow> audit_db \<Rightarrow> daily_report result \<times> audit_db" where
  "runNightAudit calendar now db =
     (case start_run calendar now db of
        (Inl e, db1) \<Rightarrow> (Inl e, db1)
      | (Inr (d, k), db1) \<Rightarrow> finish_run d k db1)"

end
