(* ===== verification/FrontDesk.thy ===== *)
theory FrontDesk
  imports RoomFacts
begin

text \<open>
  Everything the front office can do, in any order: \<open>desk_step\<close> is one committed operation of the reservation and room
  modules, or any change to the ledger, the date included. The invariants of \<open>ReservationFacts\<close> hold in every reachable state,
  and the status of a reservation moves only along the source's graph.
\<close>

section \<open>One committed operation\<close>

text \<open>
  Confirming is for a hold and promoting for a waitlisted booking, which the code leaves to its callers (see
  \<open>confirm_waitlisted_oversells\<close>). Dates a client sends are calendar days.
\<close>

inductive desk_step :: "front_office \<Rightarrow> front_office \<Rightarrow> bool" where
  book: "createReservation bk c fo = Inr (rid, fo') \<Longrightarrow> valid_date (bk_arrival bk) \<Longrightarrow> valid_date (bk_departure bk) \<Longrightarrow> desk_step fo fo'"
| open_folio: "openBookingFolio rid fo = Inr (b, fo') \<Longrightarrow> desk_step fo fo'"
| confirm: "confirmReservation rid fo = Inr (b, fo') \<Longrightarrow> t_get (reservations fo) rid = Some rv \<Longrightarrow> rv_status rv \<noteq> Waitlisted \<Longrightarrow> desk_step fo fo'"
| promote: "promoteWaitlist rid fo = Inr (b, fo') \<Longrightarrow> t_get (reservations fo) rid = Some rv \<Longrightarrow> rv_status rv \<noteq> Tentative \<Longrightarrow> desk_step fo fo'"
| cancel: "cancelReservation rid why fo = Inr (b, fo') \<Longrightarrow> desk_step fo fo'"
| no_show: "markNoShow rid fo = Inr (b, fo') \<Longrightarrow> desk_step fo fo'"
| check_in: "checkIn now rid i od fo = Inr (b, fo') \<Longrightarrow> desk_step fo fo'"
| check_out: "checkOut now rid ct fo = Inr (x, fo') \<Longrightarrow> desk_step fo fo'"
| move: "roomMove now rid i why fo = Inr (b, fo') \<Longrightarrow> desk_step fo fo'"
| extend: "extendStay rid nd fo = Inr (y, fo') \<Longrightarrow> valid_date nd \<Longrightarrow> desk_step fo fo'"
| overstay: "extendOverstayNight rid rv fid d ov why fo = Inr (z, fo') \<Longrightarrow> t_get (reservations fo) rid = Some rv \<Longrightarrow>
    rv_status rv = CheckedIn \<Longrightarrow> rv_departure rv \<le> d \<Longrightarrow> valid_date d \<Longrightarrow> desk_step fo fo'"
| configure: "desk_step fo (configureOverbookingThreshold ty d pct fo)"
| lifecycle: "runRoomLifecycle elsewhere op ids fo = Inr (res, fo') \<Longrightarrow> desk_step fo fo'"
| restore: "restoreRoom i fo = Inr (w, fo') \<Longrightarrow> desk_step fo fo'"
| ledger: "desk_step fo (fo\<lparr>house := db\<rparr>)"

lemma desk_step_keeps: "desk_step fo fo' \<Longrightarrow> counted fo \<and> rooms_agree fo \<Longrightarrow> counted fo' \<and> rooms_agree fo'"
proof (induction rule: desk_step.induct)
  case (ledger fo db)
  then show ?case by (simp add: counted_house agree_house)
next
  case (configure fo ty d pct)
  then show ?case by (simp add: counted_threshold agree_threshold)
qed (blast intro: counted_create counted_open_folio counted_confirm counted_promote counted_cancel counted_no_show counted_checkIn counted_checkOut
    counted_roomMove counted_extend counted_overstay counted_lifecycle counted_restore agree_create agree_open_folio agree_confirm agree_promote
    agree_cancel agree_no_show agree_checkIn agree_checkOut agree_roomMove agree_extend agree_overstay agree_lifecycle agree_restore)+

lemma desk_steps_keep: "desk_step\<^sup>*\<^sup>* fo fo' \<Longrightarrow> counted fo \<Longrightarrow> rooms_agree fo \<Longrightarrow> counted fo' \<and> rooms_agree fo'"
  by (induction rule: rtranclp_induct) (use desk_step_keeps in blast)+

section \<open>A newly opened house\<close>

definition opened :: "front_office \<Rightarrow> bool" where
  "opened fo \<longleftrightarrow> reservations fo = t_empty \<and> assignments fo = t_empty \<and> inventory fo = t_empty \<and> t_wf (rooms fo)"

lemma opened_ok: "opened fo \<Longrightarrow> counted fo \<and> rooms_agree fo"
  by (auto simp: opened_def counted_def rooms_agree_def tables_wf_def nights.tallies_def inv_ok_def sold_def inventory_row_def t_first_def
      t_select_def held_def one_to_one_def in_room_def checked_in_def t_empty_def t_get_def t_wf_def t_total_def)

lemma reached_ok: "opened fo \<Longrightarrow> desk_step\<^sup>*\<^sup>* fo fo' \<Longrightarrow> counted fo' \<and> rooms_agree fo'"
  using desk_steps_keep opened_ok by blast

text \<open>Two rooms of one type, one rate, the first of May.\<close>

definition corner_inn :: front_office where
  "corner_inn = \<lparr>house = new_hotel,
     rooms = t_insert \<lparr>rm_number = ''102'', rm_type = 1, rm_status = ''active'', rm_discrepancy = False, rm_front = Vacant,
         rm_cleaning = ''clean'', rm_observed = None, rm_connecting = None\<rparr>
       (t_insert \<lparr>rm_number = ''101'', rm_type = 1, rm_status = ''active'', rm_discrepancy = False, rm_front = Vacant,
         rm_cleaning = ''clean'', rm_observed = None, rm_connecting = None\<rparr> t_empty),
     ooo_periods = t_empty, inventory = t_empty, reservations = t_empty, assignments = t_empty,
     rate_codes = t_insert \<lparr>rc_rate = 10000, rc_currency = ''GBP''\<rparr> t_empty, rate_calendar = t_empty, room_types = [(1, True), (2, True)],
     market_segments = [], booking_sources = [], cancellation_policies = [], group_blocks = [], checkout_time = Some ''11:00'',
     early_cutoff_time = None, early_fee = None, late_fee = Some 2500\<rparr>"

definition two_nights :: booking where
  "two_nights = \<lparr>bk_guest = 7, bk_type = 1, bk_rate_code = 1, bk_arrival = Date 2026 5 1, bk_departure = Date 2026 5 3,
     bk_adults = Some 2, bk_children = None, bk_hold = False, bk_waitlist = True, bk_segment = None, bk_source = None, bk_policy = None,
     bk_preferred = Some 1, bk_block = None\<rparr>"

definition booked_inn :: front_office where
  "booked_inn = (case createReservation two_nights ''R1'' corner_inn of Inl _ \<Rightarrow> corner_inn | Inr (_, fo) \<Rightarrow> fo)"

definition occupied_inn :: front_office where
  "occupied_inn = (case checkIn 0 1 1 False booked_inn of Inl _ \<Rightarrow> booked_inn | Inr (_, fo) \<Rightarrow> fo)"

lemma corner_inn_opened: "opened corner_inn" by (simp add: opened_def corner_inn_def)

lemma booking_run: "case createReservation two_nights ''R1'' corner_inn of Inl _ \<Rightarrow> False | Inr (rid, _) \<Rightarrow> rid = 1" by code_simp

lemma check_in_run: "case checkIn 0 1 1 False booked_inn of Inl _ \<Rightarrow> False | Inr (b, _) \<Rightarrow> b" by code_simp

lemma booked_inn_run: "createReservation two_nights ''R1'' corner_inn = Inr (1, booked_inn)"
  using booking_run by (auto simp: booked_inn_def split: sum.splits)

lemma occupied_inn_run: "checkIn 0 1 1 False booked_inn = Inr (True, occupied_inn)"
  using check_in_run by (auto simp: occupied_inn_def split: sum.splits)

lemma two_nights_valid: "valid_date (bk_arrival two_nights)" "valid_date (bk_departure two_nights)"
  by (simp_all add: two_nights_def) code_simp+

lemma booked_inn_reached: "desk_step\<^sup>*\<^sup>* corner_inn booked_inn"
  by (rule r_into_rtranclp, rule desk_step.book [OF booked_inn_run two_nights_valid])

lemma occupied_inn_reached: "desk_step\<^sup>*\<^sup>* corner_inn occupied_inn"
  using booked_inn_reached desk_step.check_in [OF occupied_inn_run] by (rule rtranclp.rtrancl_into_rtrancl)

section \<open>The properties\<close>



text \<open>
  C8: One guest to a room: in every reachable state a guest who is checked in is in exactly one room, that room is marked
  occupied, and nobody else is in it; nobody is in a room without being checked in.
\<close>

theorem one_guest_per_room:
  assumes "opened fo" "desk_step\<^sup>*\<^sup>* fo fo'"
  shows "checked_in fo' rid = (\<exists>!i. \<exists>a. in_room fo' a rid i)
    \<and> (in_room fo' a rid i \<longrightarrow> occupied fo' i \<and> (\<forall>b other. in_room fo' b other i \<longrightarrow> b = a \<and> other = rid))"
proof -
  note A = agree_parts [OF conjunct2 [OF reached_ok [OF assms]]]
  have one: "b = a \<and> other = rid \<and> j = i" if "in_room fo' a rid i" "in_room fo' b other j" "rid = other \<or> i = j" for a b rid other i j
    using A(2) that in_room_same unfolding one_to_one_def by blast
  have "checked_in fo' rid = (\<exists>!i. \<exists>a. in_room fo' a rid i)" using A(3,5) one by blast
  moreover have "in_room fo' a rid i \<longrightarrow> occupied fo' i \<and> (\<forall>b other. in_room fo' b other i \<longrightarrow> b = a \<and> other = rid)" using A(4) one by blast
  ultimately show ?thesis by blast
qed

theorem one_guest_per_room_witness:
  "(\<exists>!i. \<exists>a. in_room occupied_inn a 1 i) \<and> occupied occupied_inn 1 \<and> \<not> (\<exists>b. in_room occupied_inn b 2 1)"
proof -
  have c: "checked_in occupied_inn 1" unfolding checked_in_def
    by (rule exI [of _ "the (t_get (reservations occupied_inn) 1)"]) code_simp
  have r: "in_room occupied_inn 1 1 1" unfolding in_room_def
    by (rule exI [of _ "the (t_get (assignments occupied_inn) 1)"]) code_simp
  note W = one_guest_per_room [OF corner_inn_opened occupied_inn_reached, of 1 1 1]
  have "other = 1" if "in_room occupied_inn b other 1" for b other using W r that by blast
  moreover have "(2::nat) \<noteq> 1" by simp
  ultimately show ?thesis using W c r by blast
qed

section \<open>The status graph as a specification\<close>

text \<open>The machine the front office implements: a reservation enters in one of three statuses and moves along the graph.\<close>

inductive status_step :: "(nat \<Rightarrow> reservation_status option) \<Rightarrow> (nat \<Rightarrow> reservation_status option) \<Rightarrow> bool" where
  enters: "s i = None \<Longrightarrow> a = Waitlisted \<or> a = Tentative \<or> a = Booked \<Longrightarrow> status_step s (s(i := Some a))"
| moves: "s i = Some a \<Longrightarrow> isValidTransition a b \<Longrightarrow> status_step s (s(i := Some b))"

definition statuses :: "front_office \<Rightarrow> nat \<Rightarrow> reservation_status option" where
  "statuses fo i = map_option rv_status (t_get (reservations fo) i)"

lemma statuses_frame: "reservations fo' = reservations fo \<Longrightarrow> statuses fo' = statuses fo" by (intro ext) (simp add: statuses_def)

lemma statuses_set:
  "t_get (reservations fo) k = Some rv \<Longrightarrow> statuses (set_reservation k f fo) = (statuses fo)(k := Some (rv_status (f rv)))"
  by (auto simp: statuses_def set_reservation_def t_get_update_id)

lemma status_set_same: "t_get (reservations fo) k = Some rv \<Longrightarrow> (statuses fo)(k := Some (rv_status rv)) = statuses fo"
  by (auto simp: statuses_def)

lemma status_create:
  assumes "createReservation bk c fo = Inr (rid, fo')" "counted fo"
  shows "status_step (statuses fo) (statuses fo')"
proof -
  obtain rc st fo1 where s: "insert_booking bk rc st c fo1 = (rid, fo')" "inventory_only fo fo1" "st = Waitlisted \<or> st = Tentative \<or> st = Booked"
    by (rule createReservation_InrD [OF assms]) (auto split: if_splits)
  note fr = insert_booking_frame [OF s(1)] inventory_only_frame [OF s(2)]
  have wf: "t_wf (reservations fo)" by (rule counted_parts [OF assms(2)])
  have "statuses fo' = (statuses fo)(rid := Some st)"
    using fr wf by (auto simp: statuses_def t_get_insert)
  moreover have "statuses fo rid = None" using fr wf by (simp add: statuses_def)
  ultimately show ?thesis using status_step.enters [OF _ s(3)] by metis
qed

lemma status_move:
  assumes "t_get (reservations fo) k = Some rv" "reservations fo1 = reservations fo" "isValidTransition (rv_status rv) (rv_status (f rv))"
  shows "status_step (statuses fo) (statuses (set_reservation k f fo1))"
proof -
  have "statuses (set_reservation k f fo1) = (statuses fo)(k := Some (rv_status (f rv)))"
    using statuses_set [of fo1 k rv f] assms(1,2) statuses_frame [OF assms(2)] by simp
  then show ?thesis using status_step.moves [of "statuses fo" k "rv_status rv"] assms(1,3) by (simp add: statuses_def)
qed

lemma status_stay:
  assumes "t_get (reservations fo) k = Some rv" "reservations fo1 = reservations fo" "rv_status (f rv) = rv_status rv"
  shows "statuses (set_reservation k f fo1) = statuses fo"
  using statuses_set [of fo1 k rv f] assms statuses_frame [OF assms(2)] status_set_same [OF assms(1)] by simp

lemma release_reservations: "inv_ok fo \<Longrightarrow> reservations (releaseInventoryForDates (rv_type rv) (stay_nights rv) fo) = reservations fo"
  using inventory_only_frame(4) [OF release_only] by simp

lemma status_cancel: "cancelReservation rid why fo = Inr (b, fo') \<Longrightarrow> counted fo \<Longrightarrow> fo' = fo \<or> status_step (statuses fo) (statuses fo')"
  by (auto simp: cancelReservation_def Let_def intro!: status_move release_reservations counted_parts(1) split: option.splits if_splits)

lemma status_no_show: "markNoShow rid fo = Inr (b, fo') \<Longrightarrow> counted fo \<Longrightarrow> fo' = fo \<or> status_step (statuses fo) (statuses fo')"
  by (auto simp: markNoShow_def intro!: status_move release_reservations counted_parts(1) split: option.splits if_splits)

lemma status_confirm: "confirmReservation rid fo = Inr (b, fo') \<Longrightarrow> fo' = fo \<or> status_step (statuses fo) (statuses fo')"
  by (auto simp: confirmReservation_def intro!: status_move split: option.splits if_splits)

lemma reserve_reservations: "counted fo \<Longrightarrow> reserveInventoryForDates ty (stay_nights rv) bp fo = (r, fo') \<Longrightarrow> reservations fo' = reservations fo"
  using inventory_only_frame(4) [OF reserve_facts(2)] counted_parts(1) distinct_stay(1) by blast

lemma status_promote: "promoteWaitlist rid fo = Inr (b, fo') \<Longrightarrow> counted fo \<Longrightarrow> fo' = fo \<or> status_step (statuses fo) (statuses fo')"
  by (auto simp: promoteWaitlist_def intro!: status_move dest: reserve_reservations split: option.splits if_splits prod.splits sum.splits)

lemma status_check_in: "checkIn now rid i od fo = Inr (b, fo') \<Longrightarrow> fo' = fo \<or> status_step (statuses fo) (statuses fo')"
proof (drule checkIn_InrD, elim disjE conjE exE)
  fix rv :: reservation and r db fid
  assume "t_get (reservations fo) rid = Some rv" "rv_status rv = Booked"
    "fo' = set_reservation rid (\<lambda>rv. rv\<lparr>rv_status := CheckedIn\<rparr>) (set_room i (\<lambda>r. r\<lparr>rm_front := Occupied\<rparr>) ((assign_room rid i now None fo)\<lparr>house := db\<rparr>))"
  then show ?thesis by (auto intro!: status_move simp: isValidTransition_def TRANSITIONS_def)
qed simp

lemma status_check_out: "checkOut now rid ct fo = Inr (x, fo') \<Longrightarrow> fo' = fo \<or> status_step (statuses fo) (statuses fo')"
proof (drule checkOut_InrD, elim disjE conjE exE)
  fix rv :: reservation and locked db1 fid f rest
  assume "t_get (reservations fo) rid = Some rv" "rv_status rv = CheckedIn"
    "fo' = set_reservation rid (\<lambda>rv. rv\<lparr>rv_status := CheckedOut\<rparr>) (release_rooms rid now (fo\<lparr>house := fold close_folio (fid # map fst rest) db1\<rparr>))"
  then show ?thesis by (auto intro!: status_move simp: isValidTransition_def TRANSITIONS_def simp del: fold_simps)
qed simp

lemma status_room_move: "roomMove now rid i why fo = Inr (b, fo') \<Longrightarrow> statuses fo' = statuses fo"
  by (drule roomMove_InrD, rule statuses_frame) (auto split: option.splits)

lemma statuses_of_rows:
  "(\<And>i. map_option rv_status (t_get (reservations fo') i) = map_option rv_status (t_get (reservations fo) i)) \<Longrightarrow> statuses fo' = statuses fo"
  by (intro ext) (simp add: statuses_def)

lemma status_lifecycle:
  assumes "runRoomLifecycle elsewhere op ids fo = Inr (res, fo')"
  shows "statuses fo' = statuses fo"
proof (rule statuses_of_rows)
  fix k show "map_option rv_status (t_get (reservations fo') k) = map_option rv_status (t_get (reservations fo) k)"
    unfolding runRoomLifecycle_InrD(2) [OF assms] clear_reservations
    by (cases op; cases "t_get (reservations fo) k") (simp_all add: t_get_update)
qed

lemma status_extend:
  assumes "extendStay rid nd fo = Inr (x, fo')" "counted fo"
  shows "statuses fo' = statuses fo"
  using assms
proof (cases rule: extend_effect)
  case (2 rv fo2 db)
  from status_stay [OF 2(1,6), of "\<lambda>rv. rv\<lparr>rv_departure := nd\<rparr>"] show ?thesis unfolding 2(4) by (simp add: statuses_def fun_eq_iff)
qed simp

lemma status_overstay:
  assumes "extendOverstayNight rid rv fid d ov why fo = Inr (z, fo')" "counted fo" "t_get (reservations fo) rid = Some rv" "rv_departure rv \<le> d" "valid_date d"
  shows "statuses fo' = statuses fo"
proof -
  have dep: "valid_date (rv_departure rv)" using counted_parts(3) [OF assms(2,3)] by (simp add: dated_def)
  note n = overstay_nights [OF dep assms(5,4)]
  have t: "tally fo (held fo)" using assms(2) by (simp add: counted_def)
  from extendOverstayNight_InrD [OF assms(1)] show ?thesis unfolding n(1)
  proof (elim disjE conjE exE)
    fix lr fo1 db1 db2 late
    assume r: "reserve_or_fail (rv_type rv) (expandStayDates (rv_departure rv) d @ [d]) True fo = Inr fo1"
      and fo': "fo' = set_reservation rid (\<lambda>rv. rv\<lparr>rv_departure := next_day d\<rparr>) fo1\<lparr>house := db2\<rparr>"
    have "reservations fo1 = reservations fo" by (rule inventory_only_frame(4) [OF tally_or_fail(2) [OF t n(3) r]])
    from status_stay [OF assms(3) this, of "\<lambda>rv. rv\<lparr>rv_departure := next_day d\<rparr>"] show ?thesis
      unfolding fo' by (simp add: statuses_def fun_eq_iff)
  qed simp
qed

lemma status_restore: "restoreRoom i fo = Inr (w, fo') \<Longrightarrow> statuses fo' = statuses fo"
  by (rule statuses_frame) (auto simp: restoreRoom_def split: option.splits if_splits)

lemma status_open_folio: "openBookingFolio rid fo = Inr (b, fo') \<Longrightarrow> statuses fo' = statuses fo"
  by (rule statuses_frame) (auto simp: openBookingFolio_def dest!: on_house_frame split: option.splits if_splits)

lemma status_configure: "statuses (configureOverbookingThreshold ty d pct fo) = statuses fo"
  by (rule statuses_frame) (simp add: configureOverbookingThreshold_def split: option.split)

lemma desk_status: "desk_step fo fo' \<Longrightarrow> counted fo \<Longrightarrow> statuses fo' = statuses fo \<or> status_step (statuses fo) (statuses fo')"
proof (induction rule: desk_step.induct)
  case (ledger fo db)
  then show ?case by (simp add: statuses_def fun_eq_iff)
next
  case (book bk c fo rid fo')
  show ?case using status_create [OF book(1)] book.prems by auto
next
  case (open_folio rid fo b fo')
  show ?case using status_open_folio [OF open_folio(1)] open_folio.prems by auto
next
  case (confirm rid fo b fo' rv)
  show ?case using status_confirm [OF confirm(1)] confirm.prems by auto
next
  case (promote rid fo b fo' rv)
  show ?case using status_promote [OF promote(1)] promote.prems by auto
next
  case (cancel rid why fo b fo')
  show ?case using status_cancel [OF cancel(1)] cancel.prems by auto
next
  case (no_show rid fo b fo')
  show ?case using status_no_show [OF no_show(1)] no_show.prems by auto
next
  case (check_in now rid i od fo b fo')
  show ?case using status_check_in [OF check_in(1)] check_in.prems by auto
next
  case (check_out now rid ct fo x fo')
  show ?case using status_check_out [OF check_out(1)] check_out.prems by auto
next
  case (move now rid i why fo b fo')
  show ?case using status_room_move [OF move(1)] move.prems by auto
next
  case (extend rid nd fo y fo')
  show ?case using status_extend [OF extend(1)] extend.prems by auto
next
  case (overstay rid rv fid d ov why fo z fo')
  show ?case using status_overstay [OF overstay(1)] overstay.prems overstay.hyps by auto
next
  case (configure fo ty d pct)
  show ?case using status_configure configure.prems by auto
next
  case (lifecycle elsewhere op ids fo res fo')
  show ?case using status_lifecycle [OF lifecycle(1)] lifecycle.prems by auto
next
  case (restore i fo w fo')
  show ?case using status_restore [OF restore(1)] restore.prems by auto
qed

lemma status_final: "status_step\<^sup>*\<^sup>* s s' \<Longrightarrow> s i = Some a \<Longrightarrow> TRANSITIONS a = [] \<Longrightarrow> s' i = Some a"
proof (induction rule: rtranclp_induct)
  case (step s1 s2)
  from step.hyps(2) show ?case using step by cases (auto simp: isValidTransition_def)
qed simp



end
