(* ===== verification/DeskProps.thy ===== *)
theory DeskProps
  imports FrontDesk
begin

text \<open>
  The properties of single front-office operations: what an accepted booking holds, that the availability search and the booking
  agree, what a change of rooms may do to the nights sold, how a check-out settles; and what the code does where it does not do
  what it says.
\<close>

section \<open>Booking\<close>

text \<open>
  C13: An accepted booking fits: a reservation that is created either joins the waitlist, where the caller allowed it, and
  leaves every night's count alone, or is a hold or a confirmed booking whose every night was counted once and stays within
  the limit that the room type's live capacity and overbooking percentage give; no other night's count moves.
\<close>

theorem accepted_booking_fits:
  assumes "counted fo" "createReservation bk c fo = Inr (rid, fo')"
  shows "\<exists>rv. t_get (reservations fo') rid = Some rv \<and> rv_guest rv = bk_guest bk \<and> rv_type rv = bk_type bk
      \<and> rv_arrival rv = bk_arrival bk \<and> rv_departure rv = bk_departure bk
      \<and> (rv_status rv = Waitlisted \<and> bk_waitlist bk \<and> sold fo' = sold fo
        \<or> rv_status rv = (if bk_hold bk then Tentative else Booked)
          \<and> (\<forall>d. d \<in> set (stay_nights rv) \<longrightarrow> sold fo' (bk_type bk) d \<le> limit fo' (bk_type bk) d)
          \<and> (\<forall>t d. sold fo' t d = sold fo t d + (if t = bk_type bk \<and> d \<in> set (stay_nights rv) then 1 else 0)))"
proof -
  obtain rc st fo1 where s: "insert_booking bk rc st c fo1 = (rid, fo')" "inventory_only fo fo1"
    "st = Waitlisted \<and> bk_waitlist bk \<and> tally fo1 (held fo)
     \<or> st = (if bk_hold bk then Tentative else Booked)
       \<and> tally fo1 (\<lambda>t d. held fo t d + of_bool (t = bk_type bk \<and> d \<in> set (expandStayDates (bk_arrival bk) (bk_departure bk))))
       \<and> (\<forall>d \<in> set (expandStayDates (bk_arrival bk) (bk_departure bk)). sold fo1 (bk_type bk) d \<le> limit fo1 (bk_type bk) d)"
    by (rule createReservation_InrD [OF assms(2,1)])
  note fr = insert_booking_frame [OF s(1)] inventory_only_frame [OF s(2)]
  have same: "inventory fo' = inventory fo1" "rooms fo' = rooms fo1" "ooo_periods fo' = ooo_periods fo1" using fr by auto
  have sold': "sold fo' = sold fo1" using counter_frame [OF same(1)] by simp
  have lim: "limit fo' = limit fo1"
    using live_frame [OF same(2,3)] same(1) by (auto simp: limit_def pct_of_def inventory_row_def intro!: ext)
  have g: "t_get (reservations fo') rid = Some (booking_row bk st c)"
    using fr counted_parts(2) [OF assms(1)] by (simp add: t_get_insert)
  have before: "sold fo t d = held fo t d" for t d by (rule counted_sold [OF assms(1)])
  have nights: "stay_nights (booking_row bk st c) = expandStayDates (bk_arrival bk) (bk_departure bk)" by simp
  from s(3) have "(st = Waitlisted \<and> bk_waitlist bk \<and> sold fo1 = sold fo)
     \<or> st = (if bk_hold bk then Tentative else Booked)
       \<and> (\<forall>t d. sold fo1 t d = sold fo t d + (if t = bk_type bk \<and> d \<in> set (stay_nights (booking_row bk st c)) then 1 else 0))
       \<and> (\<forall>d. d \<in> set (stay_nights (booking_row bk st c)) \<longrightarrow> sold fo1 (bk_type bk) d \<le> limit fo1 (bk_type bk) d)"
    unfolding nights using before by (elim disjE conjE) (auto simp: nights.tallies_def of_bool_def intro!: ext)
  then show ?thesis using g unfolding sold' lim
    by (intro exI [of _ "booking_row bk st c"]) (auto simp: booking_row_def)
qed

theorem accepted_booking_fits_witness:
  "sold booked_inn 1 (Date 2026 5 1) = 1 \<and> sold booked_inn 1 (Date 2026 5 1) \<le> limit booked_inn 1 (Date 2026 5 1)
   \<and> sold booked_inn 2 (Date 2026 5 1) = 0"
proof -
  have c: "counted corner_inn" using opened_ok [OF corner_inn_opened] by simp
  obtain rv where rv: "t_get (reservations booked_inn) 1 = Some rv"
    "rv_status rv = Waitlisted \<and> bk_waitlist two_nights \<and> sold booked_inn = sold corner_inn
     \<or> rv_status rv = (if bk_hold two_nights then Tentative else Booked)
          \<and> (\<forall>d. d \<in> set (stay_nights rv) \<longrightarrow> sold booked_inn (bk_type two_nights) d \<le> limit booked_inn (bk_type two_nights) d)
          \<and> (\<forall>t d. sold booked_inn t d = sold corner_inn t d + (if t = bk_type two_nights \<and> d \<in> set (stay_nights rv) then 1 else 0))"
    using accepted_booking_fits [OF c booked_inn_run] by blast
  have st: "(case t_get (reservations booked_inn) 1 of None \<Rightarrow> False | Some rv \<Rightarrow> rv_status rv = Booked \<and> Date 2026 5 1 \<in> set (stay_nights rv))"
    by code_simp
  then have b: "rv_status rv = Booked" "Date 2026 5 1 \<in> set (stay_nights rv)" using rv(1) by auto
  have z: "sold corner_inn t (Date 2026 5 1) = 0" for t by (simp add: sold_def inventory_row_def t_first_def t_select_def corner_inn_def t_empty_def)
  have ty: "bk_type two_nights = 1" by (simp add: two_nights_def)
  show ?thesis using rv(2) b z unfolding ty by auto
qed

text \<open>
  C15: The availability search tells the truth: a search answers that at least one room can be sold on every night of a stay
  exactly when a booking of these nights would be accepted on the same state.
\<close>

theorem availability_predicts_booking:
  assumes "inv_ok fo"
  shows "(\<exists>u fo'. reserveInventoryForDates ty (expandStayDates a b) False fo = (Inr u, fo'))
    = (case snd (checkAvailability fo ty a b) of None \<Rightarrow> True | Some sellable \<Rightarrow> 1 \<le> sellable)"
proof -
  let ?ds = "expandStayDates a b"
  obtain r fo' where run: "reserveInventoryForDates ty ?ds False fo = (r, fo')" by fastforce
  note R = reserve_facts [OF assms run distinct_stay(2)]
  have lim: "limit fo' = limit fo" by (rule limit_frame [OF R(2,3)])
  have offer: "no_sellable (night_offer_of fo ty d) = max 0 (limit fo ty d - sold fo ty d)" for d
    by (auto simp: night_offer_of_def Let_def limit_def pct_of_def sold_def split: option.split prod.split)
  have iff: "(\<exists>u. r = Inr u) = (\<forall>d \<in> set ?ds. sold fo ty d + 1 \<le> limit fo ty d)"
  proof (cases r)
    case (Inl e)
    then show ?thesis using R(6) [OF Inl] by force
  next
    case (Inr u)
    have "sold fo ty d + 1 \<le> limit fo ty d" if "d \<in> set ?ds" for d
      using R(4) [OF Inr, of ty d] R(5) [OF Inr] that unfolding lim by auto
    then show ?thesis using Inr by auto
  qed
  have "(case snd (checkAvailability fo ty a b) of None \<Rightarrow> True | Some sellable \<Rightarrow> 1 \<le> sellable)
      = (\<forall>d \<in> set ?ds. 1 \<le> max 0 (limit fo ty d - sold fo ty d))"
    by (auto simp: checkAvailability_def Let_def offer comp_def)
  then show ?thesis using iff run by auto
qed

theorem availability_predicts_booking_witness:
  "snd (checkAvailability booked_inn 1 (Date 2026 5 2) (Date 2026 5 4)) = Some 1
   \<and> (\<exists>u fo'. reserveInventoryForDates 1 (expandStayDates (Date 2026 5 2) (Date 2026 5 4)) False booked_inn = (Inr u, fo'))"
proof -
  have ok: "inv_ok booked_inn" using reached_ok [OF corner_inn_opened booked_inn_reached] counted_parts(1) by blast
  have s: "snd (checkAvailability booked_inn 1 (Date 2026 5 2) (Date 2026 5 4)) = Some 1" by code_simp
  show ?thesis using availability_predicts_booking [OF ok, of 1 "Date 2026 5 2" "Date 2026 5 4"] s by simp
qed

section \<open>Rooms leaving their type\<close>

text \<open>
  C14: Taking rooms away never oversells: a committed change of type, archiving or deletion of any number of rooms at once
  leaves every room type and every night from the business date on that lost capacity by it with no more rooms sold than
  its new capacity and overbooking percentage allow.
\<close>

theorem room_change_keeps_fit:
  assumes "opened fo0" "desk_step\<^sup>*\<^sup>* fo0 fo" "runRoomLifecycle elsewhere op roomIds fo = Inr (res, fo')"
    "not_before (business_date (house fo)) d" "livePhysicalCount fo' (Some ty) d < livePhysicalCount fo (Some ty) d"
  shows "sold fo' ty d \<le> limit fo' ty d"
proof (rule room_change_fits [OF _ _ assms(3-5)])
  note R = reached_ok [OF assms(1,2)]
  show "tables_wf fo" using agree_parts(1) R by blast
  show "inv_ok fo" using counted_parts(1) R by blast
qed

definition one_room_inn :: front_office where
  "one_room_inn = (case runRoomLifecycle (\<lambda>_ _. 0) Archive [2] booked_inn of Inl _ \<Rightarrow> booked_inn | Inr (_, fo) \<Rightarrow> fo)"

lemma archive_run: "\<exists>res. runRoomLifecycle (\<lambda>_ _. 0) Archive [2] booked_inn = Inr (res, one_room_inn)"
proof -
  have "case runRoomLifecycle (\<lambda>_ _. 0) Archive [2] booked_inn of Inl _ \<Rightarrow> False | Inr _ \<Rightarrow> True" by code_simp
  then show ?thesis by (auto simp: one_room_inn_def split: sum.splits)
qed

theorem room_change_keeps_fit_witness:
  "sold one_room_inn 1 (Date 2026 5 1) \<le> limit one_room_inn 1 (Date 2026 5 1) \<and> sold one_room_inn 1 (Date 2026 5 1) = 1
   \<and> livePhysicalCount one_room_inn (Some 1) (Date 2026 5 1) = 1"
proof -
  obtain res where run: "runRoomLifecycle (\<lambda>_ _. 0) Archive [2] booked_inn = Inr (res, one_room_inn)" using archive_run by blast
  have d: "not_before (business_date (house booked_inn)) (Date 2026 5 1)" unfolding not_before_def by code_simp
  have l: "livePhysicalCount one_room_inn (Some 1) (Date 2026 5 1) < livePhysicalCount booked_inn (Some 1) (Date 2026 5 1)"
    "livePhysicalCount one_room_inn (Some 1) (Date 2026 5 1) = 1" by code_simp+
  have s: "sold one_room_inn 1 (Date 2026 5 1) = 1" unfolding sold_def by code_simp
  show ?thesis using room_change_keeps_fit [OF corner_inn_opened booked_inn_reached run d l(1)] s l(2) by simp
qed

section \<open>Checking out\<close>

lemma open_folios_iff:
  "t_wf (folios db) \<Longrightarrow> (i, f) \<in> set (filter (\<lambda>(_, f). f_status f = ''open'') (rows_of (folios db) (map fst (open_folios_of rid db))))
     \<longleftrightarrow> t_get (folios db) i = Some f \<and> f_reservation f = rid \<and> f_status f = ''open''"
proof -
  assume wf: "t_wf (folios db)"
  have m: "i \<in> set (map fst (open_folios_of rid db)) \<longleftrightarrow> (\<exists>f. t_get (folios db) i = Some f \<and> f_reservation f = rid \<and> f_status f = ''open'')"
    using t_select_set [OF wf, of i _ "\<lambda>_ f. f_reservation f = rid \<and> f_status f = ''open''"] by (force simp: open_folios_of_def)
  have r: "(i, f) \<in> set (rows_of (folios db) ids) \<longleftrightarrow> t_get (folios db) i = Some f \<and> i \<in> set ids" for ids
    using rows_get [OF wf, of i f] by (auto simp: rows_of_def t_select_def)
  show ?thesis using m r by auto
qed

lemma close_folios_get:
  "t_get (folios (fold close_folio fids db)) i = map_option (\<lambda>f. if i \<in> set fids then f\<lparr>f_status := ''closed''\<rparr> else f) (t_get (folios db) i)"
proof (induction fids arbitrary: db)
  case (Cons fid fids)
  then show ?case by (cases "t_get (folios db) i") (auto simp: close_folio_def t_get_update_id)
qed (simp add: option.map_ident)

lemma owing_None: "owing_folio fs = None \<Longrightarrow> (i, f) \<in> set fs \<Longrightarrow> f_company f = None \<Longrightarrow> f_balance f \<le> 0"
  by (force simp: owing_folio_def find_None_iff)

definition fee_amount :: "checkout_fee option \<Rightarrow> int" where
  "fee_amount fee = (case fee of None \<Rightarrow> 0 | Some (EarlyDeparture a) \<Rightarrow> a | Some (LateCheckout a) \<Rightarrow> a)"

lemma map_sum_InrD: "map_sum f g x = Inr y \<Longrightarrow> \<exists>z. x = Inr z \<and> y = g z"
  by (cases x) auto

lemma post_fee_effect:
  assumes "post_checkout_fee fee fid d db = Inr ((), db')" "books_ok db" "t_get (folios db) fid = Some f"
  shows "folio_balance db' i = map_option (\<lambda>b. if i = fid then b + fee_amount fee else b) (folio_balance db i)"
    and "folio_heads db' = folio_heads db"
proof -
  have "folio_balance db' i = map_option (\<lambda>b. if i = fid then b + fee_amount fee else b) (folio_balance db i) \<and> folio_heads db' = folio_heads db"
  proof (cases "db' = db \<and> fee_amount fee = 0")
    case False
    then obtain desc why lid where p: "postAdjustment fid desc (fee_amount fee) None (Some d) (Some why) False None db = Inr (lid, db')"
      using assms(1) by (auto simp: post_checkout_fee_def fee_amount_def fee_line_def dest!: map_sum_InrD
          split: option.splits checkout_fee.splits if_splits)
    note e = postAdjustment_effect [OF assms(2) p assms(3)]
    show ?thesis using e posting_postAdjustment [OF p] assms(3)
      by (cases "i = fid") (auto simp: posting_only_def folio_balance_def [of db] option.map_ident)
  qed (cases "folio_balance db i"; simp)
  then show "folio_balance db' i = map_option (\<lambda>b. if i = fid then b + fee_amount fee else b) (folio_balance db i)"
    "folio_heads db' = folio_heads db" by blast+
qed

lemma heads_iff:
  assumes "t_wf (folios db)"
  shows "(i, r, s, c) \<in> set (folio_heads db) \<longleftrightarrow> (\<exists>f. t_get (folios db) i = Some f \<and> f_reservation f = r \<and> f_status f = s \<and> f_company f = c)"
  using rows_get [OF assms, of i] by (force simp: folio_heads_def)

lemma heads_wf: "folio_heads db' = folio_heads db \<Longrightarrow> next_id (folios db') = next_id (folios db) \<Longrightarrow> t_wf (folios db) \<Longrightarrow> t_wf (folios db')"
proof -
  assume h: "folio_heads db' = folio_heads db" "next_id (folios db') = next_id (folios db)" "t_wf (folios db)"
  have "map fst (rows (folios d)) = map fst (folio_heads d)" for d by (simp add: folio_heads_def comp_def case_prod_unfold)
  then have "map fst (rows (folios db')) = map fst (rows (folios db))" using h(1) by metis
  moreover have "t_wf t \<longleftrightarrow> distinct (map fst (rows t)) \<and> (\<forall>i \<in> set (map fst (rows t)). i < next_id t)" for t :: "folio table"
    by (auto simp: t_wf_def)
  ultimately show ?thesis using h(2,3) by metis
qed

text \<open>
  C21: Checking out settles the stay: it succeeds only for a guest who is checked in and owes nothing on any open folio of
  their own; then the reservation is checked out, every open folio of the stay is closed, its balance is what it was but
  for the fee that was due, which is on the first of them, the guest is in no room and the room they were in is vacant and
  dirty.
\<close>

theorem checkout_settles:
  assumes "opened fo0" "desk_step\<^sup>*\<^sup>* fo0 fo" "books_ok (house fo)" "checkOut now rid ct fo = Inr (Some co, fo')"
  shows "\<exists>rv a i r fees. t_get (reservations fo) rid = Some rv \<and> rv_status rv = CheckedIn
      \<and> t_get (reservations fo') rid = Some (rv\<lparr>rv_status := CheckedOut\<rparr>) \<and> co_fee co = checkout_fee_due ct fo
      \<and> (\<forall>fid f. t_get (folios (house fo)) fid = Some f \<and> f_reservation f = rid \<and> f_status f = ''open'' \<longrightarrow>
          (f_company f = None \<longrightarrow> f_balance f \<le> 0)
          \<and> (\<exists>f'. t_get (folios (house fo')) fid = Some f' \<and> f_status f' = ''closed'' \<and> f_company f' = f_company f
              \<and> f_balance f' = f_balance f + (if fid = fees then fee_amount (checkout_fee_due ct fo) else 0)))
      \<and> (\<exists>f. t_get (folios (house fo)) fees = Some f \<and> f_reservation f = rid \<and> f_status f = ''open'')
      \<and> in_room fo a rid i \<and> (\<forall>b j. \<not> in_room fo' b rid j)
      \<and> t_get (rooms fo) i = Some r \<and> t_get (rooms fo') i = Some (vacate_room r)"
proof -
  note R = conjunct2 [OF reached_ok [OF assms(1,2)]]
  have wf: "t_wf (folios (house fo))" using assms(3) by simp
  from checkOut_InrD [OF assms(4)] obtain rv locked db1 fid f rest where k: "t_get (reservations fo) rid = Some rv" "rv_status rv = CheckedIn"
    and l: "lock_now (map fst (open_folios_of rid (house fo))) (house fo) = Inr locked"
    and fs: "filter (\<lambda>(_, f). f_status f = ''open'') locked = (fid, f) # rest" and owe: "owing_folio ((fid, f) # rest) = None"
    and fee: "post_checkout_fee (checkout_fee_due ct fo) fid (case business_date (house fo) of None \<Rightarrow> rv_departure rv | Some b \<Rightarrow> b) (house fo) = Inr ((), db1)"
    and co: "Some co = Some \<lparr>co_fee = checkout_fee_due ct fo, co_over_limit = list_ex (\<lambda>(_, f). over_limit_account db1 f) ((fid, f) # rest),
           co_credit = credit_remaining (fold close_folio (fid # map fst rest) db1) (fid # map fst rest)\<rparr>"
    and fo0: "fo' = set_reservation rid (\<lambda>rv. rv\<lparr>rv_status := CheckedOut\<rparr>) (release_rooms rid now (fo\<lparr>house := fold close_folio (fid # map fst rest) db1\<rparr>))"
    by auto
  define db2 where "db2 = fold close_folio (fid # map fst rest) db1"
  note fo' = fo0 [folded db2_def]
  have open_iff: "(i, g) \<in> set ((fid, f) # rest) \<longleftrightarrow> t_get (folios (house fo)) i = Some g \<and> f_reservation g = rid \<and> f_status g = ''open''" for i g
    using open_folios_iff [OF wf, of i g rid] l fs by (simp only: lock_now_eq sum.inject)
  have ids: "i \<in> set (fid # map fst rest) \<longleftrightarrow> (\<exists>g. t_get (folios (house fo)) i = Some g \<and> f_reservation g = rid \<and> f_status g = ''open'')" for i
    using open_iff [of i] by (force simp del: fold_simps)
  have f: "t_get (folios (house fo)) fid = Some f" "f_reservation f = rid" "f_status f = ''open''" using open_iff [of fid f] by simp_all
  note E = post_fee_effect [OF fee assms(3) f(1)]
  have "next_id (folios db1) = next_id (folios (house fo))"
    using fee by (auto simp: post_checkout_fee_def posting_only_def dest!: map_sum_InrD posting_postAdjustment split: option.splits prod.splits if_splits)
  then have wf1: "t_wf (folios db1)" using heads_wf [OF E(2)] wf by simp
  have house': "house fo' = db2" by (simp add: fo')
  have each: "(f_company g = None \<longrightarrow> f_balance g \<le> 0)
          \<and> (\<exists>f'. t_get (folios (house fo')) i = Some f' \<and> f_status f' = ''closed'' \<and> f_company f' = f_company g
              \<and> f_balance f' = f_balance g + (if i = fid then fee_amount (checkout_fee_due ct fo) else 0))"
    if g: "t_get (folios (house fo)) i = Some g" "f_reservation g = rid" "f_status g = ''open''" for i g
  proof
    show "f_company g = None \<longrightarrow> f_balance g \<le> 0" using owing_None [OF owe] open_iff [of i g] g by blast
    have "(i, rid, ''open'', f_company g) \<in> set (folio_heads db1)" unfolding E(2) heads_iff [OF wf] using g by blast
    then obtain h where h: "t_get (folios db1) i = Some h" "f_company h = f_company g" unfolding heads_iff [OF wf1] by blast
    have "folio_balance db1 i = Some (f_balance g + (if i = fid then fee_amount (checkout_fee_due ct fo) else 0))"
      using E(1) [of i] g(1) by (cases "i = fid") (simp_all add: folio_balance_def)
    then have "f_balance h = f_balance g + (if i = fid then fee_amount (checkout_fee_due ct fo) else 0)" using h(1) by (simp add: folio_balance_def)
    moreover have "t_get (folios db2) i = Some (h\<lparr>f_status := ''closed''\<rparr>)" unfolding db2_def close_folios_get using h(1) ids [of i] g by auto
    ultimately show "\<exists>f'. t_get (folios (house fo')) i = Some f' \<and> f_status f' = ''closed'' \<and> f_company f' = f_company g
              \<and> f_balance f' = f_balance g + (if i = fid then fee_amount (checkout_fee_due ct fo) else 0)"
      unfolding house' using h(2) by (intro exI [of _ "h\<lparr>f_status := ''closed''\<rparr>"]) auto
  qed
  have ci: "checked_in fo rid" using k by (auto simp: checked_in_def)
  then obtain a0 i0 where "in_room fo a0 rid i0" using agree_parts(5) [OF R] by blast
  then obtain a y where y: "t_first (\<lambda>_. open_assignment rid) (assignments fo) = Some (a, y)"
    using in_room_first(2) [OF R] by (cases "t_first (\<lambda>_. open_assignment rid) (assignments fo)") auto
  have i: "in_room fo a rid (as_room y)" by (rule in_room_first(1) [OF R y])
  obtain r where r: "t_get (rooms fo) (as_room y) = Some r" using agree_parts(4) [OF R i] by (auto simp: occupied_def)
  have rel: "release_rooms rid now (fo\<lparr>house := db2\<rparr>) = set_room (as_room y) vacate_room (close_assignments rid now (fo\<lparr>house := db2\<rparr>))"
    using y by (simp add: release_rooms_def Let_def)
  have "\<not> in_room fo' b rid j" for b j
    using readers_frame(1) [of fo' "close_assignments rid now (fo\<lparr>house := db2\<rparr>)"] in_room_close [of rid now "fo\<lparr>house := db2\<rparr>" b rid j] by (simp add: fo' rel)
  moreover have "t_get (rooms fo') (as_room y) = Some (vacate_room r)" using r by (simp add: fo' rel) (simp add: set_room_def t_get_update_id close_assignments_def)
  moreover have "t_get (reservations fo') rid = Some (rv\<lparr>rv_status := CheckedOut\<rparr>)"
    using k(1) unfolding fo' set_reservation_def by (simp add: t_get_update_id)
  moreover have "co_fee co = checkout_fee_due ct fo" using co by simp
  ultimately show ?thesis using k each f i r by blast
qed

definition late_leave :: checkout_terms where
  "late_leave = \<lparr>ct_scheduled = None, ct_actual = Some ''12:30'', ct_cutoff = None, ct_early = None, ct_late = None\<rparr>"

definition left_inn :: front_office where
  "left_inn = (case checkOut 5 1 late_leave occupied_inn of Inl _ \<Rightarrow> occupied_inn | Inr (_, fo) \<Rightarrow> fo)"

lemma check_out_run: "\<exists>co. checkOut 5 1 late_leave occupied_inn = Inr (Some co, left_inn)"
proof -
  have "case checkOut 5 1 late_leave occupied_inn of Inl _ \<Rightarrow> False | Inr (x, _) \<Rightarrow> x \<noteq> None" by code_simp
  then show ?thesis by (auto simp: left_inn_def split: sum.splits)
qed

lemma create_books:
  assumes "createReservation bk c fo = Inr (rid, fo')" "counted fo" "books_ok (house fo)"
  shows "books_ok (house fo')"
proof -
  obtain rc st fo1 where s: "insert_booking bk rc st c fo1 = (rid, fo')" "inventory_only fo fo1" by (rule createReservation_InrD [OF assms(1,2)])
  have "folios (house fo') = folios (house fo) \<and> line_items (house fo') = line_items (house fo)"
    using s(1) inventory_only_frame(1) [OF s(2)] by (auto simp: insert_booking_def Let_def snapshot_rates_def)
  then show ?thesis using books_frame assms(3) by blast
qed

lemma corner_inn_books: "books_ok (house corner_inn)"
  by (auto simp: corner_inn_def new_hotel_def books_but_def lines_ok_def tax_links_def flb.right_at_def folio_balance_def t_empty_def t_wf_def t_get_def)

lemma occupied_inn_books: "books_ok (house occupied_inn)"
proof -
  have b: "books_ok (house booked_inn)"
    using create_books [OF booked_inn_run _ corner_inn_books] opened_ok [OF corner_inn_opened] by blast
  obtain db fid where f: "ensurePrimaryFolio 1 (house booked_inn) = Inr (fid, db)"
    and e: "occupied_inn = set_reservation 1 (\<lambda>rv. rv\<lparr>rv_status := CheckedIn\<rparr>)
          (set_room 1 (\<lambda>r. r\<lparr>rm_front := Occupied\<rparr>) ((assign_room 1 1 0 None booked_inn)\<lparr>house := db\<rparr>))"
    using checkIn_InrD [OF occupied_inn_run] by blast
  have "house occupied_inn = db" by (subst e) simp
  then show ?thesis using books_ensurePrimary [OF b f] by simp
qed

theorem checkout_settles_witness:
  "(\<exists>f. t_get (folios (house left_inn)) 1 = Some f \<and> f_status f = ''closed'' \<and> f_balance f = 2500)
   \<and> (\<forall>b j. \<not> in_room left_inn b 1 j)"
proof -
  obtain co where run: "checkOut 5 1 late_leave occupied_inn = Inr (Some co, left_inn)" using check_out_run by blast
  from checkout_settles [OF corner_inn_opened occupied_inn_reached occupied_inn_books run] obtain fees where
    e: "\<forall>fid f. t_get (folios (house occupied_inn)) fid = Some f \<and> f_reservation f = 1 \<and> f_status f = ''open'' \<longrightarrow>
          (f_company f = None \<longrightarrow> f_balance f \<le> 0)
          \<and> (\<exists>f'. t_get (folios (house left_inn)) fid = Some f' \<and> f_status f' = ''closed'' \<and> f_company f' = f_company f
              \<and> f_balance f' = f_balance f + (if fid = fees then fee_amount (checkout_fee_due late_leave occupied_inn) else 0))"
    and fees: "\<exists>f. t_get (folios (house occupied_inn)) fees = Some f \<and> f_reservation f = 1 \<and> f_status f = ''open''"
    and out: "\<forall>b j. \<not> in_room left_inn b 1 j"
    by blast
  have amount: "fee_amount (checkout_fee_due late_leave occupied_inn) = 2500" unfolding fee_amount_def by code_simp
  have one: "case t_get (folios (house occupied_inn)) 1 of None \<Rightarrow> False | Some f \<Rightarrow> f_reservation f = 1 \<and> f_status f = ''open'' \<and> f_balance f = 0"
    by code_simp
  have "map fst (rows (folios (house occupied_inn))) = [1]" by code_simp
  then have "fees = 1" using fees by (auto simp: t_get_def dest!: map_of_SomeD)
  moreover obtain f where f: "t_get (folios (house occupied_inn)) 1 = Some f" "f_reservation f = 1" "f_status f = ''open''" "f_balance f = 0"
    using one by (auto split: option.splits)
  moreover obtain f' where "t_get (folios (house left_inn)) 1 = Some f'" "f_status f' = ''closed''"
    "f_balance f' = f_balance f + (if 1 = fees then fee_amount (checkout_fee_due late_leave occupied_inn) else 0)"
    using e [rule_format, of 1 f] f(1-3) by blast
  ultimately show ?thesis using amount out by simp
qed

section \<open>Where the code falls short of its contract\<close>

text \<open>
  The graph lets a waitlisted reservation become confirmed, and \<open>confirmReservation\<close> asks nothing else: confirming one
  instead of promoting it gives the guest a confirmed booking whose nights were never counted, so every night of it has more
  bookings than the counter that the next booking is checked against.
\<close>

theorem confirm_waitlisted_oversells:
  assumes "counted fo" "t_get (reservations fo) rid = Some rv" "rv_status rv = Waitlisted" "d \<in> set (stay_nights rv)"
  shows "\<exists>fo'. confirmReservation rid fo = Inr (True, fo') \<and> statuses fo' rid = Some Booked \<and> sold fo' (rv_type rv) d < held fo' (rv_type rv) d"
proof -
  let ?fo = "set_reservation rid (\<lambda>rv. rv\<lparr>rv_status := Booked\<rparr>) fo"
  have "confirmReservation rid fo = Inr (True, ?fo)"
    using assms(2,3) by (simp add: confirmReservation_def isValidTransition_def TRANSITIONS_def)
  moreover have "held ?fo (rv_type rv) d = held fo (rv_type rv) d + 1"
    using held_set [OF counted_parts(2) [OF assms(1)] assms(2), of "\<lambda>rv. rv\<lparr>rv_status := Booked\<rparr>" "rv_type rv" d] assms(3,4)
    by (simp add: takes_def stay_nights_def)
  moreover have "sold ?fo (rv_type rv) d = held fo (rv_type rv) d"
    using counter_frame [of ?fo fo] counted_sold [OF assms(1)] by simp
  moreover have "statuses ?fo rid = Some Booked" using statuses_set [OF assms(2)] by simp
  ultimately show ?thesis by auto
qed

text \<open>The other way round, promoting a hold counts its nights a second time.\<close>

theorem promote_hold_counts_twice:
  assumes "counted fo" "t_get (reservations fo) rid = Some rv" "rv_status rv = Tentative" "d \<in> set (stay_nights rv)"
    and "promoteWaitlist rid fo = Inr (b, fo')"
  shows "held fo' (rv_type rv) d < sold fo' (rv_type rv) d"
proof -
  obtain u fo1 where r: "reserveInventoryForDates (rv_type rv) (stay_nights rv) False fo = (Inr u, fo1)"
    and fo': "fo' = set_reservation rid (\<lambda>rv. rv\<lparr>rv_status := Booked\<rparr>) fo1"
    using assms(2,5) by (auto simp: promoteWaitlist_def split: if_splits prod.splits sum.splits)
  have ok: "inv_ok fo" by (rule counted_parts [OF assms(1)])
  note fr = inventory_only_frame [OF reserve_facts(2) [OF ok r distinct_stay(1)]]
  have g: "t_get (reservations fo1) rid = Some rv" using assms(2) fr(4) by simp
  have "held fo' (rv_type rv) d = held fo (rv_type rv) d"
    using held_set [of fo1 rid rv "\<lambda>rv. rv\<lparr>rv_status := Booked\<rparr>" "rv_type rv" d] g held_frame [OF fr(4)] counted_parts(2) [OF assms(1)] fr(4) assms(3)
    unfolding fo' by (simp add: takes_def stay_nights_def)
  moreover have "sold fo' (rv_type rv) d = sold fo (rv_type rv) d + 1"
    using reserve_facts(4) [OF ok r distinct_stay(1) refl, of "rv_type rv" d] counter_frame [of fo' fo1] assms(4) unfolding fo' by simp
  ultimately show ?thesis using counted_sold [OF assms(1)] by simp
qed

text \<open>
  A guest can be moved into a room that is out of order today, where a check-in into it is refused; the comment above
  \<open>roomMove\<close> says the destination gets the same out-of-order guard.
\<close>

theorem room_move_ignores_out_of_order:
  assumes "t_get (reservations fo) rid = Some rv" "rv_status rv = CheckedIn" "t_get (rooms fo) i = Some r" "rm_status r = ''active''"
    "\<not> rm_discrepancy r" "\<not> isRoomOccupied fo i r" "room_out_of_order fo i"
  shows "(\<exists>fo'. roomMove now rid i why fo = Inr (True, fo'))
    \<and> (t_get (reservations fo) other = Some rv' \<and> rv_status rv' = Booked \<and> rm_cleaning r = ''clean'' \<longrightarrow>
        checkIn now other i False fo = Inl (RoomOutOfOrderError i))"
  using assms by (auto simp: roomMove_def checkIn_def isValidTransition_def TRANSITIONS_def)

end
