(* ===== verification/NightAuditFacts.thy ===== *)
theory NightAuditFacts
  imports NightAudit DeskProps
begin

text \<open>
  What the night audit does: every guest in house who has a rate for the night is billed it once, a date is closed once and
  none is skipped, a run whose worker died is recovered, and what can stop a run.
\<close>

section \<open>The lines a room charge adds\<close>

lemma post_tax_rows:
  "foldM (post_tax_line fid cur d c) db ts = Inr db' \<Longrightarrow>
     \<exists>ls. rows (line_items db') = rows (line_items db) @ ls \<and> (\<forall>(i, l) \<in> set ls. l_type l = TaxLine)"
proof (induction ts arbitrary: db)
  case (Cons t ts)
  then obtain db1 where s: "post_tax_line fid cur d c db t = Inr db1" "foldM (post_tax_line fid cur d c) db1 ts = Inr db'"
    by (auto simp: rbind_eq_Inr)
  obtain i l where l: "rows (line_items db1) = rows (line_items db) @ [(i, l)]" "l_type l = TaxLine"
    using s(1) by (auto simp: post_tax_line_def rbind_eq_Inr t_insert_def dest!: insert_line_InrD)
  obtain ls where "rows (line_items db') = rows (line_items db1) @ ls" "\<forall>(i, l) \<in> set ls. l_type l = TaxLine"
    using Cons.IH [OF s(2)] by blast
  then show ?case using l by (intro exI [of _ "(i, l) # ls"]) auto
qed simp

lemma room_charge_rows:
  assumes "postCharge fid ''room_charge'' desc amt bd ov why db = Inr (i, db')" "t_wf (folios db)"
  shows "\<exists>l ls. rows (line_items db') = rows (line_items db) @ (i, l) # ls \<and> l_folio l = fid \<and> l_type l = RoomCharge
    \<and> l_description l = desc \<and> \<not> l_voided l \<and> effective_date bd db = Some (l_business_date l) \<and> (\<forall>(j, t) \<in> set ls. l_type t = TaxLine)"
  using assms
proof (elim postCharge_cases)
  fix ty f k db1
  let ?tx = "computeChargeWithTax amt (tax_versions_on db (effective_date bd db) ''room_charge'')"
  assume ty: "charge_type_of ''room_charge'' = Some ty"
    and c: "ar_check f (netAmount ?tx + tax_total (taxLines ?tx)) ov why db = Inr (k, db1)"
    and p: "post_lines fid f ty desc ?tx (effective_date bd db) k db1 = Inr (i, db')"
  have rt: "ty = RoomCharge" using ty by (simp add: charge_type_of_def)
  have lines: "line_items db1 = line_items db" using ar_check_frame [OF c] by simp
  obtain db2 db3 where s1: "insert_line (effective_date bd db) (\<lambda>d. \<lparr>l_folio = fid, l_type = ty, l_description = desc, l_amount = netAmount ?tx,
         l_currency = f_currency f, l_tax_amount = tax_total (taxLines ?tx), l_method = None, l_payment = None,
         l_business_date = d, l_related = None, l_voided = False, l_void_reason = None\<rparr>) db1 = Inr (i, db2)"
    and s2: "foldM (post_tax_line fid (f_currency f) (effective_date bd db) i) db2 (taxLines ?tx) = Inr db3"
    and db': "db' = after_posting fid k db3"
    using p by (auto simp: post_lines_def rbind_eq_Inr)
  obtain dd where dd: "effective_date bd db = Some dd" "i = next_id (line_items db1)"
    "db2 = db1\<lparr>line_items := t_insert \<lparr>l_folio = fid, l_type = ty, l_description = desc, l_amount = netAmount ?tx,
         l_currency = f_currency f, l_tax_amount = tax_total (taxLines ?tx), l_method = None, l_payment = None,
         l_business_date = dd, l_related = None, l_voided = False, l_void_reason = None\<rparr> (line_items db1)\<rparr>"
    using insert_line_InrD [OF s1] by auto
  obtain ls where "rows (line_items db3) = rows (line_items db2) @ ls" "\<forall>(j, t) \<in> set ls. l_type t = TaxLine"
    using post_tax_rows [OF s2] by blast
  then show ?thesis using dd rt lines by (auto simp: db' t_insert_def)
qed

section \<open>Tonight's charges of a folio\<close>

definition tonights :: "hotel \<Rightarrow> nat \<Rightarrow> date \<Rightarrow> nat" where
  "tonights db fid d = length (t_select (\<lambda>_ l. tonight fid d l \<and> \<not> l_voided l) (line_items db))"

lemma has_tonight: "has_line (tonight fid d) db \<longleftrightarrow> 0 < tonights db fid d"
  by (auto simp: has_line_def tonights_def t_first_def split: list.splits)

lemma tonights_taxes: "\<forall>(j, t) \<in> set ls. l_type t = TaxLine \<Longrightarrow> filter (\<lambda>(_, l). tonight fid d l \<and> \<not> l_voided l) ls = []"
  by (auto simp: filter_empty_conv tonight_def room_charge_on_def)

lemma tonights_charge:
  assumes "postCharge fid ''room_charge'' desc amt (Some bd) ov why db = Inr (i, db')" "t_wf (folios db)"
  shows "tonights db' j d = tonights db j d + of_bool (j = fid \<and> d = bd \<and> take (length late_prefix) desc \<noteq> late_prefix)"
proof -
  obtain l ls where l: "rows (line_items db') = rows (line_items db) @ (i, l) # ls" "l_folio l = fid" "l_type l = RoomCharge"
    "l_description l = desc" "\<not> l_voided l" "l_business_date l = bd" "\<forall>(j, t) \<in> set ls. l_type t = TaxLine"
    using room_charge_rows [OF assms] by (auto simp: effective_date_def)
  have e: "(j = fid \<and> d = bd \<and> take (length late_prefix) desc \<noteq> late_prefix) = tonight j d l"
    using l(2-6) by (auto simp: tonight_def room_charge_on_def)
  show ?thesis unfolding e using l(1,5) tonights_taxes [OF l(7), of j d] by (simp add: tonights_def t_select_def)
qed

lemma tonights_lines: "line_items db' = line_items db \<Longrightarrow> tonights db' = tonights db" by (auto simp: tonights_def intro!: ext)

lemma late_is_late: "take (length late_prefix) (late_description d) = late_prefix"
proof -
  have "late_description d = late_prefix @ ('' '' @ date_text d)" by (simp add: late_description_def late_prefix_def)
  then show ?thesis by simp
qed

lemma tonight_is_not_late: "take (length late_prefix) (''Room charge '' @ xs) \<noteq> late_prefix"
proof -
  have "hd (take (length late_prefix) (''Room charge '' @ xs)) \<noteq> hd late_prefix" by (simp add: late_prefix_def em_dash_def)
  then show ?thesis by metis
qed

text \<open>A late charge is never tonight's.\<close>

lemma tonights_late:
  assumes "postLateRoomCharges fid nights (Some bd) ov why db = Inr (charged, db')" "books_ok db"
  shows "tonights db' = tonights db \<and> books_ok db'"
proof -
  have "books_ok (snd (charged, db')) \<and> tonights (snd (charged, db')) = tonights db"
  proof (rule foldM_inv [where P = "\<lambda>st. books_ok (snd st) \<and> tonights (snd st) = tonights db"])
    show "foldM (post_late_night fid (Some bd) ov why) ([], db) nights = Inr (charged, db')" using assms(1) by (simp add: postLateRoomCharges_def)
    fix s x s' assume s: "books_ok (snd s) \<and> tonights (snd s) = tonights db" and r: "post_late_night fid (Some bd) ov why s x = Inr s'"
    obtain c1 db1 d rate where e: "s = (c1, db1)" "x = (d, rate)" by (cases s; cases x)
    show "books_ok (snd s') \<and> tonights (snd s') = tonights db"
    proof (cases "has_line (late_charge_for fid d) db1")
      case False
      then obtain i db2 where p: "postCharge fid ''room_charge'' (late_description d) rate (Some bd) ov why db1 = Inr (i, db2)" "snd s' = db2"
        using r e by (auto simp: post_late_night_def rbind_eq_Inr)
      have b1: "books_ok db1" "t_wf (folios db1)" using s e by auto
      have "tonights db2 = tonights db1" using tonights_charge [OF p(1) b1(2)] by (intro ext) (simp add: late_is_late)
      then show ?thesis using books_postCharge [OF b1(1) p(1)] s e p(2) by simp
    qed (use r s e in \<open>auto simp: post_late_night_def\<close>)
  qed (use assms(2) in simp)
  then show ?thesis by simp
qed

section \<open>The rates and the open folio of a guest\<close>

definition rates_of :: "hotel \<Rightarrow> nat \<Rightarrow> daily_rate list" where
  "rates_of db rid = map snd (t_select (\<lambda>_ r. dr_reservation r = rid) (daily_rates db))"

lemma rate_for_rates: "rate_for db rid d = find (\<lambda>r. dr_date r = d) (rates_of db rid)"
proof -
  have "map_option snd (case filter (\<lambda>(i, r). dr_reservation r = rid \<and> dr_date r = d) xs of [] \<Rightarrow> None | x # _ \<Rightarrow> Some x)
      = find (\<lambda>r. dr_date r = d) (map snd (filter (\<lambda>(i, r). dr_reservation r = rid) xs))" for xs :: "(nat \<times> daily_rate) list"
    by (induction xs) (auto split: list.splits)
  then show ?thesis by (simp add: rate_for_def rates_of_def t_first_def t_select_def)
qed

lemma last_rate_rates: "last_rate rid db = (if rates_of db rid = [] then None else find (\<lambda>r. dr_date r = Max (set (map dr_date (rates_of db rid)))) (rates_of db rid))"
  by (simp add: last_rate_def rates_of_def Let_def)

lemma rates_frame: "daily_rates db' = daily_rates db \<Longrightarrow> rates_of db' = rates_of db" by (auto simp: rates_of_def intro!: ext)

lemma rates_insert_many:
  "map snd (t_select (\<lambda>_ r. dr_reservation r = k) (fold (\<lambda>d. t_insert \<lparr>dr_reservation = rid, dr_date = d, dr_rate = x, dr_currency = c\<rparr>) ds t))
     = map snd (t_select (\<lambda>_ r. dr_reservation r = k) t) @ (if k = rid then map (\<lambda>d. \<lparr>dr_reservation = rid, dr_date = d, dr_rate = x, dr_currency = c\<rparr>) ds else [])"
  by (induction ds arbitrary: t) (auto simp: t_select_insert)

text \<open>Which folio is billed depends only on what a posting leaves alone.\<close>

definition billed_folio :: "hotel \<Rightarrow> nat \<Rightarrow> nat option" where
  "billed_folio db rid = map_option fst (open_folio_of db rid)"

lemma billed_folio_heads: "billed_folio db rid = map_option fst (find (\<lambda>(i, r, s, c). r = rid \<and> s = ''open'') (folio_heads db))"
proof -
  have "map_option fst (case filter (\<lambda>(i, f). f_reservation f = rid \<and> f_status f = ''open'') xs of [] \<Rightarrow> None | x # _ \<Rightarrow> Some x)
      = map_option fst (find (\<lambda>(i, r, s, c). r = rid \<and> s = ''open'') (map (\<lambda>(i, f). (i, f_reservation f, f_status f, f_company f)) xs))"
    for xs :: "(nat \<times> folio) list"
    by (induction xs) (auto split: list.splits)
  then show ?thesis by (simp add: billed_folio_def open_folio_of_def t_first_def t_select_def folio_heads_def)
qed

lemma billed_frame: "folio_heads db' = folio_heads db \<Longrightarrow> billed_folio db' = billed_folio db"
  by (intro ext) (simp add: billed_folio_heads)

section \<open>Billing one guest\<close>

definition office_ok :: "front_office \<Rightarrow> bool" where
  "office_ok fo \<longleftrightarrow> counted fo \<and> rooms_agree fo \<and> books_ok (house fo)"

text \<open>What billing guest \<open>rid\<close> may change.\<close>

definition guest_only :: "date \<Rightarrow> nat \<Rightarrow> front_office \<Rightarrow> front_office \<Rightarrow> bool" where
  "guest_only d rid fo fo' \<longleftrightarrow>
     (\<forall>r. r \<noteq> rid \<longrightarrow> rates_of (house fo') r = rates_of (house fo) r \<and> t_get (reservations fo') r = t_get (reservations fo) r)
     \<and> billed_folio (house fo') = billed_folio (house fo) \<and> business_date (house fo') = business_date (house fo)
     \<and> (\<forall>fid. tonights (house fo') fid d = tonights (house fo) fid d \<or> tonights (house fo) fid d = 0 \<and> tonights (house fo') fid d = 1)"

lemma guest_only_refl: "guest_only d rid fo fo" by (simp add: guest_only_def)

lemma guest_only_trans: "guest_only d rid a b \<Longrightarrow> guest_only d rid b c \<Longrightarrow> guest_only d rid a c"
  unfolding guest_only_def by (metis One_nat_def zero_neq_one)

lemma missing_rate:
  assumes "rate_for db rid bd = None" "bd \<in> set ds" "rates_of db' rid = rates_of db rid
      @ map (\<lambda>d. \<lparr>dr_reservation = rid, dr_date = d, dr_rate = x, dr_currency = c\<rparr>) (filter (\<lambda>d. d \<notin> set (map fst (rates_on rid ds db))) ds)"
  shows "rate_for db' rid bd \<noteq> None"
proof -
  have none: "\<forall>r \<in> set (rates_of db rid). dr_date r \<noteq> bd" using assms(1) by (auto simp: rate_for_rates find_None_iff)
  then have "bd \<notin> set (map fst (rates_on rid ds db))" by (force simp: rates_on_def rates_of_def t_select_def)
  then have "\<lparr>dr_reservation = rid, dr_date = bd, dr_rate = x, dr_currency = c\<rparr> \<in> set (rates_of db' rid)"
    using assms(2) unfolding assms(3) by simp
  then show ?thesis unfolding rate_for_rates find_None_iff by force
qed

lemma disj_resolve: "P \<or> Q \<Longrightarrow> \<not> P \<Longrightarrow> Q" by blast

lemma overstay_effect:
  assumes run: "extendOverstayNight rid rv fid bd ov why fo = Inr (Some (r, late), fo')" and ok: "office_ok fo"
    and k: "t_get (reservations fo) rid = Some rv" "rv_status rv = CheckedIn" "rv_departure rv \<le> bd" "valid_date bd"
    and none: "rate_for (house fo) rid bd = None"
  shows "office_ok fo'" "r = rate_for (house fo') rid bd" "r \<noteq> None" "guest_only d rid fo fo'" "tonights (house fo') = tonights (house fo)"
proof -
  have c: "counted fo" "rooms_agree fo" "books_ok (house fo)" using ok by (auto simp: office_ok_def)
  have dep: "valid_date (rv_departure rv)" using counted_parts(3) [OF c(1) k(1)] by (simp add: dated_def)
  note n = overstay_nights [OF dep k(4,3)]
  let ?up = "expandStayDates (rv_departure rv) bd"
  have some: "\<not> (Some (r, late) = None \<and> fo' = fo \<and> last_rate rid (house fo) = None)" by simp
  note ex = disj_resolve [OF extendOverstayNight_InrD [OF run] some, unfolded n(1)]
  from ex obtain lr fo1 db1 db2 late' where lr: "last_rate rid (house fo) = Some lr" and
    r1: "reserve_or_fail (rv_type rv) (?up @ [bd]) True fo = Inr fo1"
    and db1: "db1 = (house fo1)\<lparr>daily_rates := fold (\<lambda>d. t_insert \<lparr>dr_reservation = rid, dr_date = d, dr_rate = dr_rate lr, dr_currency = dr_currency lr\<rparr>)
          (filter (\<lambda>d. d \<notin> set (map fst (rates_on rid (?up @ [bd]) (house fo1)))) (?up @ [bd])) (daily_rates (house fo1))\<rparr>"
    and post: "if ?up = [] then late' = [] \<and> db2 = db1 else postLateRoomCharges fid (rates_on rid ?up db1) (Some bd) ov why db1 = Inr (late', db2)"
    and r0: "Some (r, late) = Some (map_option snd (t_first (\<lambda>_ r. dr_reservation r = rid \<and> dr_date r = bd) (daily_rates db2)), late')"
    and fo': "fo' = (set_reservation rid (\<lambda>rv. rv\<lparr>rv_departure := next_day bd\<rparr>) fo1)\<lparr>house := db2\<rparr>"
    by (elim exE conjE) (rule that, assumption+)
  have r: "r = map_option snd (t_first (\<lambda>_ r. dr_reservation r = rid \<and> dr_date r = bd) (daily_rates db2))" using r0 by simp
  have t: "tally fo (held fo)" using c(1) by (simp add: counted_def)
  note fr = inventory_only_frame [OF tally_or_fail(2) [OF t n(3) r1]]
  have house': "house fo' = db2" by (simp add: fo')
  have b1: "books_ok db1" unfolding db1 using books_frame [of _ "house fo"] c(3) fr(1) by simp
  have rates1: "rates_of db1 j = rates_of (house fo) j @ (if j = rid then map (\<lambda>d. \<lparr>dr_reservation = rid, dr_date = d, dr_rate = dr_rate lr, dr_currency = dr_currency lr\<rparr>)
          (filter (\<lambda>d. d \<notin> set (map fst (rates_on rid (?up @ [bd]) (house fo)))) (?up @ [bd])) else [])" for j
    unfolding rates_of_def db1 fr(1) by (simp add: rates_insert_many del: set_map)
  have p: "posting_only db1 db2 \<and> tonights db2 = tonights db1 \<and> books_ok db2"
    using post posting_late tonights_late [OF _ b1] b1 by (auto split: if_splits)
  have heads1: "folio_heads db1 = folio_heads (house fo)" "business_date db1 = business_date (house fo)" "line_items db1 = line_items (house fo)"
    by (simp_all add: db1 fr(1) folio_heads_def)
  have rates2: "rates_of db2 = rates_of db1" using p by (intro rates_frame) (simp add: posting_only_def)
  show "tonights (house fo') = tonights (house fo)" using p tonights_lines [OF heads1(3)] house' by simp
  show rr: "r = rate_for (house fo') rid bd" unfolding r house' by (simp add: rate_for_def)
  have "rate_for db1 rid bd \<noteq> None"
    by (rule missing_rate [OF none, of "?up @ [bd]"]) (simp, use rates1 [of rid] in \<open>simp only: if_True refl\<close>)
  then show "r \<noteq> None" unfolding rr house' rate_for_rates rates2 .
  have "t_get (reservations fo') j = t_get (reservations fo) j" if "j \<noteq> rid" for j
    using that fr(4) by (simp add: fo') (simp add: set_reservation_def t_get_update_id)
  moreover have "billed_folio db2 = billed_folio (house fo)" using p heads1(1) by (intro billed_frame) (simp add: posting_only_def)
  moreover have "business_date db2 = business_date (house fo)" using p heads1(2) by (simp add: posting_only_def)
  ultimately show "guest_only d rid fo fo'"
    using \<open>tonights (house fo') = tonights (house fo)\<close> rates1 rates2 unfolding guest_only_def house' by simp
  show "office_ok fo'"
    using counted_overstay [OF run c(1) k] agree_overstay [OF run c(2,1) k(1,3,4)] p house' by (simp add: office_ok_def)
qed

lemma post_tonight_effect:
  assumes "post_tonight d fid r fo = Inr fo'" "office_ok fo"
  shows "office_ok fo'" "guest_only d rid fo fo'" "1 \<le> tonights (house fo') fid d"
proof -
  have c: "counted fo" "rooms_agree fo" "books_ok (house fo)" using assms(2) by (auto simp: office_ok_def)
  have "office_ok fo' \<and> guest_only d rid fo fo' \<and> 1 \<le> tonights (house fo') fid d"
  proof (cases "has_line (tonight fid d) (house fo)")
    case True
    then show ?thesis using assms guest_only_refl has_tonight by (auto simp: post_tonight_def)
  next
    case False
    then have none: "tonights (house fo) fid d = 0" using has_tonight by auto
    obtain i where h: "on_house (postCharge fid ''room_charge'' (''Room charge '' @ em_dash @ '' '' @ date_text d) (dr_rate r) (Some d) True system_reason) fo = Inr (i, fo')"
      using assms(1) False by (auto simp: post_tonight_def dest!: map_sum_InrD)
    then obtain db where p: "postCharge fid ''room_charge'' (''Room charge '' @ em_dash @ '' '' @ date_text d) (dr_rate r) (Some d) True system_reason (house fo) = Inr (i, db)"
      and fo': "fo' = fo\<lparr>house := db\<rparr>" using on_house_frame [OF h] by blast
    have wf: "t_wf (folios (house fo))" using c(3) by simp
    have tn: "tonights db j d = tonights (house fo) j d + of_bool (j = fid)" for j
      using tonights_charge [OF p wf, of j d] tonight_is_not_late by simp
    have f: "posting_only (house fo) db" by (rule posting_postCharge [OF p])
    have "office_ok fo'" using c books_postCharge [OF c(3) p] by (simp add: office_ok_def fo' counted_house agree_house)
    moreover have "guest_only d rid fo fo'"
      unfolding guest_only_def fo' using tn none f rates_frame [of db "house fo"] billed_frame [of db "house fo"] by (auto simp: posting_only_def)
    ultimately show ?thesis using tn [of fid] by (simp add: fo')
  qed
  then show "office_ok fo'" "guest_only d rid fo fo'" "1 \<le> tonights (house fo') fid d" by blast+
qed

text \<open>A guest is billable tonight when the night is booked, or the departure date has come and there is a rate to copy.\<close>

definition billable :: "date \<Rightarrow> front_office \<Rightarrow> nat \<Rightarrow> reservation \<Rightarrow> bool" where
  "billable d fo rid rv \<longleftrightarrow> rate_for (house fo) rid d \<noteq> None \<or> rv_departure rv \<le> d \<and> last_rate rid (house fo) \<noteq> None"

lemma audit_guest_effect:
  assumes run: "audit_guest d (fo, exs) (rid, rv) = Inr (fo', exs')" and ok: "office_ok fo"
    and k: "t_get (reservations fo) rid = Some rv" "rv_status rv = CheckedIn" "valid_date d"
  shows "office_ok fo'" "guest_only d rid fo fo'"
    and "billed_folio (house fo) rid = Some fid \<Longrightarrow> billable d fo rid rv \<Longrightarrow> 1 \<le> tonights (house fo') fid d"
proof -
  have "office_ok fo' \<and> guest_only d rid fo fo' \<and> (\<forall>fid. billed_folio (house fo) rid = Some fid \<and> billable d fo rid rv \<longrightarrow> 1 \<le> tonights (house fo') fid d)"
  proof (cases "open_folio_of (house fo) rid")
    case None
    then show ?thesis using run ok guest_only_refl by (auto simp: audit_guest_def billed_folio_def)
  next
    case (Some x)
    obtain fid f where x: "open_folio_of (house fo) rid = Some (fid, f)" using Some by (cases x) auto
    obtain rate fo1 exs1 where r: "tonights_rate d rid rv fid (fo, exs) = Inr (rate, fo1, exs1)"
      and p0: "(case rate of None \<Rightarrow> Inr (fo1, exs1) | Some r \<Rightarrow> map_sum id (\<lambda>fo2. (fo2, exs1)) (post_tonight d fid r fo1)) = Inr (fo', exs')"
      using run x by (auto simp: audit_guest_def rbind_eq_Inr)
    have p: "case rate of None \<Rightarrow> fo' = fo1 | Some r \<Rightarrow> post_tonight d fid r fo1 = Inr fo'"
      using p0 by (auto split: option.splits dest!: map_sum_InrD)
    have s: "office_ok fo1 \<and> guest_only d rid fo fo1 \<and> (billable d fo rid rv \<longrightarrow> rate \<noteq> None)"
    proof (cases "rate_for (house fo) rid d")
      case (Some r')
      then have "fo1 = fo" "rate = Some r'" using r by (simp_all add: tonights_rate_def)
      then show ?thesis using ok guest_only_refl by simp
    next
      case none: None
      show ?thesis
      proof (cases "rv_departure rv \<le> d")
        case True
        then obtain y where y: "extendOverstayNight rid rv fid d True system_reason fo = Inr (y, fo1)"
          and rate: "rate = (case y of None \<Rightarrow> None | Some (r, _) \<Rightarrow> r)"
          using r none by (auto simp: tonights_rate_def rbind_eq_Inr split: option.splits)
        show ?thesis
        proof (cases y)
          case None
          then have "fo1 = fo" "last_rate rid (house fo) = None" using extendOverstayNight_InrD [OF y] by auto
          then show ?thesis using ok guest_only_refl none by (simp add: billable_def)
        next
          case (Some z)
          obtain r' late where z: "y = Some (r', late)" using Some by (cases z) auto
          show ?thesis using overstay_effect [OF y [unfolded z] ok k(1,2) True k(3) none] rate z by simp
        qed
      next
        case False
        then show ?thesis using r none ok guest_only_refl by (simp add: tonights_rate_def billable_def)
      qed
    qed
    have bf: "billed_folio (house fo) rid = Some fid" using x by (simp add: billed_folio_def)
    show ?thesis
    proof (cases rate)
      case None
      then show ?thesis using s p bf by auto
    next
      case (Some r')
      then have q: "post_tonight d fid r' fo1 = Inr fo'" using p by simp
      show ?thesis using post_tonight_effect [OF q] s guest_only_trans bf by auto
    qed
  qed
  then show "office_ok fo'" "guest_only d rid fo fo'"
    "billed_folio (house fo) rid = Some fid \<Longrightarrow> billable d fo rid rv \<Longrightarrow> 1 \<le> tonights (house fo') fid d"
    by blast+
qed

section \<open>Billing the house\<close>

lemma billable_other:
  "guest_only d rid fo fo' \<Longrightarrow> r \<noteq> rid \<Longrightarrow> billable d fo' r rv = billable d fo r rv"
  by (simp add: billable_def rate_for_rates last_rate_rates guest_only_def)

lemma bill_list:
  assumes "foldM (audit_guest d) (fo, exs) gs = Inr (fo', exs')" "office_ok fo" "valid_date d" "distinct (map fst gs)"
    "\<And>rid rv. (rid, rv) \<in> set gs \<Longrightarrow> t_get (reservations fo) rid = Some rv \<and> rv_status rv = CheckedIn"
  shows "office_ok fo' \<and> billed_folio (house fo') = billed_folio (house fo) \<and> business_date (house fo') = business_date (house fo)
    \<and> (\<forall>fid. tonights (house fo') fid d = tonights (house fo) fid d \<or> tonights (house fo) fid d = 0 \<and> tonights (house fo') fid d = 1)
    \<and> (\<forall>rid rv fid. (rid, rv) \<in> set gs \<and> billed_folio (house fo) rid = Some fid \<and> billable d fo rid rv \<longrightarrow> 1 \<le> tonights (house fo') fid d)"
  using assms
proof (induction gs arbitrary: fo exs)
  case (Cons g gs)
  obtain rid rv where g: "g = (rid, rv)" by (cases g)
  obtain fo1 exs1 where s: "audit_guest d (fo, exs) (rid, rv) = Inr (fo1, exs1)" "foldM (audit_guest d) (fo1, exs1) gs = Inr (fo', exs')"
    using Cons.prems(1) g by (auto simp: rbind_eq_Inr)
  have k: "t_get (reservations fo) rid = Some rv" "rv_status rv = CheckedIn" using Cons.prems(5) [of rid rv] g by auto
  note E = audit_guest_effect [OF s(1) Cons.prems(2) k Cons.prems(3)]
  have new: "r \<noteq> rid" if "(r, rv') \<in> set gs" for r rv' using Cons.prems(4) that g by force
  have kept: "t_get (reservations fo1) r = Some rv' \<and> rv_status rv' = CheckedIn" if "(r, rv') \<in> set gs" for r rv'
    using Cons.prems(5) [of r rv'] E(2) new [OF that] that by (auto simp: guest_only_def)
  have d: "distinct (map fst gs)" using Cons.prems(4) by simp
  note ih = Cons.IH [OF s(2) E(1) Cons.prems(3) d kept]
  have t: "tonights (house fo') fid d = tonights (house fo1) fid d \<or> tonights (house fo1) fid d = 0 \<and> tonights (house fo') fid d = 1"
    "tonights (house fo1) fid d = tonights (house fo) fid d \<or> tonights (house fo) fid d = 0 \<and> tonights (house fo1) fid d = 1" for fid
    using ih E(2) by (auto simp: guest_only_def)
  have b: "billed_folio (house fo1) = billed_folio (house fo)" "business_date (house fo1) = business_date (house fo)" using E(2) by (auto simp: guest_only_def)
  have "\<forall>r rv' fid. (r, rv') \<in> set (g # gs) \<and> billed_folio (house fo) r = Some fid \<and> billable d fo r rv' \<longrightarrow> 1 \<le> tonights (house fo') fid d"
  proof (intro allI impI, elim conjE)
    fix r rv' fid assume q: "(r, rv') \<in> set (g # gs)" "billed_folio (house fo) r = Some fid" "billable d fo r rv'"
    show "1 \<le> tonights (house fo') fid d"
    proof (cases "(r, rv') = (rid, rv)")
      case True
      then have "1 \<le> tonights (house fo1) fid d" using E(3) q by simp
      then show ?thesis using t(1) [of fid] by auto
    next
      case False
      then have r: "(r, rv') \<in> set gs" using q(1) g by auto
      have "billable d fo1 r rv'" using billable_other [OF E(2) new [OF r], of rv'] q(3) by simp
      moreover have "billed_folio (house fo1) r = Some fid" using q(2) b(1) by simp
      ultimately show ?thesis using ih r by blast
    qed
  qed
  moreover have "tonights (house fo') fid d = tonights (house fo) fid d \<or> tonights (house fo) fid d = 0 \<and> tonights (house fo') fid d = 1" for fid
    using t [of fid] by auto
  moreover have "billed_folio (house fo') = billed_folio (house fo)" "business_date (house fo') = business_date (house fo)" using ih b by simp_all
  ultimately show ?case using ih by blast
qed simp

lemma bill_in_house_effect:
  assumes "bill_in_house d fo = Inr (fo', exs)" "office_ok fo" "valid_date d"
  shows "office_ok fo'" "business_date (house fo') = business_date (house fo)"
    and "tonights (house fo') fid d = tonights (house fo) fid d \<or> tonights (house fo) fid d = 0 \<and> tonights (house fo') fid d = 1"
    and "t_get (reservations fo) rid = Some rv \<Longrightarrow> rv_status rv = CheckedIn \<Longrightarrow> billed_folio (house fo) rid = Some fid \<Longrightarrow> billable d fo rid rv
      \<Longrightarrow> 1 \<le> tonights (house fo') fid d"
proof -
  have wf: "t_wf (reservations fo)" using assms(2) counted_parts(2) by (simp add: office_ok_def)
  have m: "(r, v) \<in> set (in_house fo) \<longleftrightarrow> t_get (reservations fo) r = Some v \<and> rv_status v = CheckedIn" for r v
    unfolding in_house_def by (rule t_select_set [OF wf])
  have "distinct (map fst (in_house fo))" unfolding in_house_def by (rule t_select_distinct [OF wf])
  note B = bill_list [OF assms(1) [unfolded bill_in_house_def] assms(2,3) this m [THEN iffD1]]
  show "office_ok fo'" "business_date (house fo') = business_date (house fo)"
    "tonights (house fo') fid d = tonights (house fo) fid d \<or> tonights (house fo) fid d = 0 \<and> tonights (house fo') fid d = 1"
    "t_get (reservations fo) rid = Some rv \<Longrightarrow> rv_status rv = CheckedIn \<Longrightarrow> billed_folio (house fo) rid = Some fid \<Longrightarrow> billable d fo rid rv
      \<Longrightarrow> 1 \<le> tonights (house fo') fid d"
    using B m by blast+
qed

section \<open>What the steps of a run write\<close>

lemma set_run_frame [simp]:
  "reports (set_run k f db) = reports db" "discrepancies (set_run k f db) = discrepancies db" "timezone (set_run k f db) = timezone db"
  "runs (set_run k f db) = t_update (by_id k) f (runs db)" "reservations (desk (set_run k f db)) = reservations (desk db)"
  "business_date (house (desk (set_run k f db))) = business_date (house (desk db))"
  "line_items (house (desk (set_run k f db))) = line_items (house (desk db))"
  by (simp_all add: set_run_def Let_def)

lemma runNightAudit_InrD:
  assumes "runNightAudit calendar now db = (Inr report, db')"
  obtains d k db1 where "start_run calendar now db = (Inr (d, k), db1)" "finish_run d k db1 = (Inr report, db')"
  using assms by (auto simp: runNightAudit_def split: prod.splits sum.splits)

lemma finish_run_InrD:
  assumes "finish_run d k db = (Inr report, db')"
  obtains fo exs all where "findBlockingConditions db = []" "bill_in_house d (desk db) = Inr (fo, exs)" "\<not> report_on db d" "report = report_of d k fo"
    "db' = set_run k (\<lambda>r. r\<lparr>nr_status := RunCompleted, nr_exceptions := all\<rparr>) (db\<lparr>desk := close_date d fo, reports := t_insert report (reports db)\<rparr>)"
proof -
  have b: "findBlockingConditions db = []" and r: "runCriticalTransaction d k db = Inr (report, db')"
    using assms by (auto simp: finish_run_def split: sum.splits if_splits)
  obtain fo exs where f: "bill_in_house d (desk db) = Inr (fo, exs)" using r by (auto simp: runCriticalTransaction_def rbind_eq_Inr)
  have "\<not> report_on db d" using r f by (auto simp: runCriticalTransaction_def split: if_splits)
  then show thesis using that [OF b f] r f by (auto simp: runCriticalTransaction_def Let_def)
qed

text \<open>A claim changes the run of the day and nothing else the audit reads.\<close>

definition claim_only :: "audit_db \<Rightarrow> audit_db \<Rightarrow> bool" where
  "claim_only db db' \<longleftrightarrow> (\<exists>days. desk db' = (desk db)\<lparr>house := (house (desk db))\<lparr>closed_days := days\<rparr>\<rparr>) \<and> reports db' = reports db
     \<and> discrepancies db' = discrepancies db \<and> timezone db' = timezone db"

lemma claim_only_refl: "claim_only db db"
proof -
  have "desk db = (desk db)\<lparr>house := (house (desk db))\<lparr>closed_days := closed_days (house (desk db))\<rparr>\<rparr>" by simp
  then show ?thesis unfolding claim_only_def by blast
qed

lemma claim_only_set_run: "claim_only db db1 \<Longrightarrow> claim_only db (set_run k f db1)"
  by (auto simp: claim_only_def set_run_def Let_def)

lemma claim_only_runs: "claim_only db db1 \<Longrightarrow> claim_only db (db1\<lparr>runs := t\<rparr>)" by (simp add: claim_only_def)

lemma reconcile_claim: "reconcileExistingRun now d db = (r, db') \<Longrightarrow> claim_only db db'"
  using claim_only_refl [of db] claim_only_set_run [OF claim_only_refl, of db]
  by (auto simp: reconcileExistingRun_def recoverStaleRun_def Let_def map_prod_def split: option.splits run_status.splits if_splits)

lemma claimRun_claim: "claimRun now d existing db1 = Inr (k, db2) \<Longrightarrow> claim_only db db1 \<Longrightarrow> claim_only db db2"
  by (auto simp: claimRun_def split: option.splits if_splits intro: claim_only_set_run claim_only_runs)

lemma start_run_claim: "start_run calendar now db = (r, db') \<Longrightarrow> claim_only db db'"
  by (auto simp: start_run_def split: option.splits sum.splits prod.splits intro: claim_only_refl reconcile_claim claimRun_claim)

lemma start_run_date: "start_run calendar now db = (Inr (d, k), db') \<Longrightarrow> business_date (house (desk db)) = Some d"
  by (auto simp: start_run_def split: option.splits sum.splits prod.splits)

lemma claim_office:
  assumes "claim_only db db'"
  shows "office_ok (desk db') = office_ok (desk db)" "reservations (desk db') = reservations (desk db)" "business_date (house (desk db')) = business_date (house (desk db))"
    "billed_folio (house (desk db')) = billed_folio (house (desk db))" "tonights (house (desk db')) = tonights (house (desk db))"
    "billable d (desk db') rid rv = billable d (desk db) rid rv"
proof -
  obtain days where e: "desk db' = (desk db)\<lparr>house := (house (desk db))\<lparr>closed_days := days\<rparr>\<rparr>" using assms by (auto simp: claim_only_def)
  have "books_ok (house (desk db')) = books_ok (house (desk db))" unfolding e by (auto intro: books_frame [rotated 2])
  then show "office_ok (desk db') = office_ok (desk db)" unfolding office_ok_def e by (simp add: counted_house agree_house)
  show "reservations (desk db') = reservations (desk db)" "business_date (house (desk db')) = business_date (house (desk db))" by (simp_all add: e)
  show "billed_folio (house (desk db')) = billed_folio (house (desk db))" by (rule billed_frame) (simp add: e folio_heads_def)
  show "tonights (house (desk db')) = tonights (house (desk db))" by (rule tonights_lines) (simp add: e)
  have "rates_of (house (desk db')) = rates_of (house (desk db))" by (rule rates_frame) (simp add: e)
  then show "billable d (desk db') rid rv = billable d (desk db) rid rv" by (simp add: billable_def rate_for_rates last_rate_rates)
qed

end
