(* ===== verification/AuditProps.thy ===== *)
theory AuditProps
  imports NightAuditFacts
begin

text \<open>
  The contract of the night audit: what a run that succeeds has done, what the records of the audited dates look like after any
  sequence of runs, crashes and front-desk work, and when a run succeeds at all.
\<close>

section \<open>A successful run\<close>

lemma close_office: "office_ok fo \<Longrightarrow> office_ok (close_date d fo)"
  unfolding office_ok_def close_date_def counted_house agree_house by (auto intro: books_frame [rotated 2])

lemma set_run_office: "office_ok (desk (set_run k f db)) = office_ok (desk db)"
  by (rule claim_office(1)) (rule claim_only_set_run [OF claim_only_refl])

lemma report_revenue: "dp_revenue (report_of d k fo) = t_total (line_on RoomCharge d) l_amount (line_items (house fo))"
  by (simp add: report_of_def Let_def)



text \<open>The house of \<open>FrontDesk\<close> on its first night, one guest in room 101.\<close>

definition audit_inn :: audit_db where
  "audit_inn = \<lparr>desk = occupied_inn, runs = t_empty, reports = t_empty, discrepancies = t_empty, timezone = None\<rparr>"

definition audited_inn :: audit_db where
  "audited_inn = snd (runNightAudit (\<lambda>_ _. None) 1000 audit_inn)"

lemma audited_inn_run: "\<exists>report. runNightAudit (\<lambda>_ _. None) 1000 audit_inn = (Inr report, audited_inn)"
proof -
  have "case runNightAudit (\<lambda>_ _. None) 1000 audit_inn of (Inl _, _) \<Rightarrow> False | (Inr _, _) \<Rightarrow> True" by code_simp
  then show ?thesis by (auto simp: audited_inn_def split: prod.splits sum.splits)
qed

lemma audit_inn_facts:
  "office_ok (desk audit_inn)" "business_date (house (desk audit_inn)) = Some (Date 2026 5 1)" "valid_date (Date 2026 5 1)"
proof -
  show "office_ok (desk audit_inn)" using reached_ok [OF corner_inn_opened occupied_inn_reached] occupied_inn_books by (simp add: office_ok_def audit_inn_def)
  show "business_date (house (desk audit_inn)) = Some (Date 2026 5 1)" "valid_date (Date 2026 5 1)" by code_simp+
qed


section \<open>The record of the audited dates\<close>

lemma expand_snoc:
  assumes "valid_date a" "valid_date b" "a \<le> b"
  shows "expandStayDates a (next_day b) = expandStayDates a b @ [b]"
proof -
  have "sorted_wrt (<) (expandStayDates a b @ [b])"
    using sorted_expandStayDates [of a b] expandStayDates_valid [of _ a b] by (auto simp: sorted_wrt_append)
  then show ?thesis
    using overstay_nights(2) [OF assms] sorted_expandStayDates [of a "next_day b"] strict_sorted_equal by metis
qed

definition dates_of :: "audit_db \<Rightarrow> date list" where
  "dates_of db = map (dp_date \<circ> snd) (rows (reports db))"

text \<open>
  Whatever can happen around the audit, statement by statement: a worker that read a business date, perhaps long ago, recovers
  the run of that date or claims it; a worker that holds a claim, however old it is by now, runs its transaction or records
  its failure; the front office works between; discrepancies and the time zone change. A worker may stop after any of them.
\<close>

inductive audit_step :: "audit_db \<Rightarrow> audit_db \<Rightarrow> bool" where
  recover: "t_get (runs db) k = Some r \<Longrightarrow> recoverStaleRun k (nr_date r) db = (x, db') \<Longrightarrow> audit_step db db'"
| claim: "business_date (house (desk db)) = Some d \<or> d \<in> set (dates_of db) \<Longrightarrow>
    (case existing of None \<Rightarrow> True | Some j \<Rightarrow> \<exists>r. t_get (runs db) j = Some r \<and> nr_date r = d) \<Longrightarrow>
    claimRun now d existing db = Inr (k, db') \<Longrightarrow> audit_step db db'"
| transact: "t_get (runs db) k = Some r \<Longrightarrow> finish_run (nr_date r) k db = (x, db') \<Longrightarrow> audit_step db db'"
| fail: "audit_step db (fail_run k db)"
| work: "desk_step (desk db) fo \<Longrightarrow> business_date (house fo) = business_date (house (desk db)) \<Longrightarrow>
    closed_days (house fo) = closed_days (house (desk db)) \<Longrightarrow> audit_step db (db\<lparr>desk := fo\<rparr>)"
| discrepancy: "audit_step db (db\<lparr>discrepancies := t\<rparr>)"
| relocate: "audit_step db (db\<lparr>timezone := z\<rparr>)"

definition run_ok :: "date \<Rightarrow> date \<Rightarrow> audit_run \<Rightarrow> bool" where
  "run_ok first b r \<longleftrightarrow> valid_date (nr_date r) \<and> first \<le> nr_date r \<and> nr_date r \<le> b \<and> (nr_status r = RunCompleted \<longrightarrow> nr_date r < b)"

definition runs_ok :: "date \<Rightarrow> date \<Rightarrow> audit_run table \<Rightarrow> bool" where
  "runs_ok first b t \<longleftrightarrow> t_wf t \<and> (\<forall>k r. t_get t k = Some r \<longrightarrow> run_ok first b r)
     \<and> (\<forall>j k r s. t_get t k = Some r \<and> t_get t j = Some s \<and> nr_date s = nr_date r \<longrightarrow> j = k)"

definition history :: "date \<Rightarrow> audit_db \<Rightarrow> date \<Rightarrow> bool" where
  "history first db b \<longleftrightarrow> business_date (house (desk db)) = Some b \<and> valid_date first \<and> valid_date b \<and> first \<le> b
     \<and> dates_of db = expandStayDates first b \<and> closed_days (house (desk db)) = completed_days (runs db) \<and> runs_ok first b (runs db)"

lemma report_on_dates: "report_on db d \<longleftrightarrow> d \<in> set (dates_of db)"
proof -
  have "report_on db d \<longleftrightarrow> t_select (\<lambda>_ p. dp_date p = d) (reports db) \<noteq> []"
    by (simp add: report_on_def t_first_def split: list.split)
  also have "\<dots> \<longleftrightarrow> (\<exists>x \<in> set (rows (reports db)). dp_date (snd x) = d)"
    unfolding t_select_def filter_empty_conv case_prod_unfold by blast
  finally have "report_on db d \<longleftrightarrow> (\<exists>x \<in> set (rows (reports db)). dp_date (snd x) = d)" .
  then show ?thesis by (auto simp: dates_of_def)
qed

lemma runs_update:
  assumes "runs_ok first b t" "\<And>r. nr_date (f r) = nr_date r" "\<And>r. t_get t k = Some r \<Longrightarrow> nr_status (f r) = RunCompleted \<Longrightarrow> nr_date r < b"
  shows "runs_ok first b (t_update (by_id k) f t)"
  using assms unfolding runs_ok_def run_ok_def by (auto simp: t_get_update_id split: if_splits)

lemma runs_insert:
  assumes "runs_ok first b t" "run_ok first b r" "t_first (\<lambda>_ s. nr_date s = nr_date r) t = None"
  shows "runs_ok first b (t_insert r t)"
proof -
  have wf: "t_wf t" using assms(1) by (simp add: runs_ok_def)
  have "nr_date s \<noteq> nr_date r" if "t_get t k = Some s" for k s using t_first_NoneD [OF wf assms(3) that] by simp
  then show ?thesis using assms(1,2) wf unfolding runs_ok_def by (auto simp: t_get_insert split: if_splits; metis)
qed

lemma runs_later: "runs_ok first b t \<Longrightarrow> b < c \<Longrightarrow> runs_ok first c t" unfolding runs_ok_def run_ok_def by fastforce

lemma history_set_run:
  assumes "history first db b" "\<And>r. nr_date (f r) = nr_date r" "\<And>r. t_get (runs db) k = Some r \<Longrightarrow> nr_status (f r) = RunCompleted \<Longrightarrow> nr_date r < b"
  shows "history first (set_run k f db) b"
proof -
  have "runs_ok first b (t_update (by_id k) f (runs db))" using assms by (intro runs_update) (auto simp: history_def)
  moreover have "closed_days (house (desk (set_run k f db))) = completed_days (t_update (by_id k) f (runs db))" by (simp add: set_run_def Let_def)
  ultimately show ?thesis using assms(1) by (simp add: history_def dates_of_def)
qed

lemma history_transact:
  assumes h: "history first db b" and k: "t_get (runs db) k = Some r" and f: "finish_run (nr_date r) k db = (Inr report, db')"
  shows "history first db' (next_day b)" "nr_date r = b"
proof -
  obtain fo exs all where n: "\<not> report_on db (nr_date r)" and rep: "report = report_of (nr_date r) k fo"
    and db': "db' = set_run k (\<lambda>r. r\<lparr>nr_status := RunCompleted, nr_exceptions := all\<rparr>) (db\<lparr>desk := close_date (nr_date r) fo, reports := t_insert report (reports db)\<rparr>)"
    by (rule finish_run_InrD [OF f])
  have d: "valid_date first" "valid_date b" "first \<le> b" "run_ok first b r" using h k by (auto simp: history_def runs_ok_def)
  have "nr_date r \<notin> set (expandStayDates first b)" using n h by (simp add: report_on_dates history_def)
  then show e: "nr_date r = b" using d by (auto simp: set_expandStayDates run_ok_def)
  have b: "valid_date (next_day b)" "b < next_day b"
    using valid_next_day [OF d(2)] day_number_less_iff [of b "next_day b"] day_number_next_day [OF d(2)] d(2) by simp_all
  have runs: "runs_ok first (next_day b) (t_update (by_id k) (\<lambda>r. r\<lparr>nr_status := RunCompleted, nr_exceptions := all\<rparr>) (runs db))"
    using h b(2) e k by (intro runs_update runs_later [OF _ b(2)]) (auto simp: history_def)
  have "dates_of db' = expandStayDates first b @ [b]"
    using h e by (simp add: dates_of_def db' t_insert_def rep report_of_def Let_def history_def)
  moreover have "closed_days (house (desk db')) = completed_days (runs db')" by (simp add: db' set_run_def Let_def)
  moreover have "business_date (house (desk db')) = Some (next_day b)" by (simp add: db' close_date_def addOneDay_def e)
  ultimately show "history first db' (next_day b)"
    using d(1,3) b runs expand_snoc [OF d(1-3)] by (simp add: history_def db')
qed


lemma history_step:
  assumes "audit_step db db'" "history first db b"
  shows "\<exists>c. history first db' c"
  using assms
proof (cases rule: audit_step.cases)
  case (recover k r x)
  have r: "run_ok first b r" using assms(2) recover(1) by (auto simp: history_def runs_ok_def)
  have bd: "business_date (house (desk db)) = Some b" using assms(2) by (simp add: history_def)
  show ?thesis
  proof (cases "report_on db (nr_date r) \<and> b > nr_date r")
    case True
    then have "db' = set_run k (\<lambda>r. r\<lparr>nr_status := RunCompleted\<rparr>) db" using recover(2) bd by (simp add: recoverStaleRun_def)
    then show ?thesis using history_set_run [OF assms(2), of "\<lambda>r. r\<lparr>nr_status := RunCompleted\<rparr>" k] recover(1) True by auto
  next
    case False
    then have "db' = set_run k (\<lambda>r. r\<lparr>nr_status := RunFailed\<rparr>) db" using recover(2) bd by (auto simp: recoverStaleRun_def)
    then show ?thesis using history_set_run [OF assms(2), of "\<lambda>r. r\<lparr>nr_status := RunFailed\<rparr>" k] by auto
  qed
next
  case (claim d existing now k)
  show ?thesis
  proof (cases existing)
    case (Some j)
    then have "db' = set_run j (\<lambda>r. r\<lparr>nr_status := RunRunning, nr_heartbeat := now, nr_exceptions := []\<rparr>) db"
      using claim(3) by (auto simp: claimRun_def split: option.splits if_splits)
    then show ?thesis using history_set_run [OF assms(2), of "\<lambda>r. r\<lparr>nr_status := RunRunning, nr_heartbeat := now, nr_exceptions := []\<rparr>" j] by auto
  next
    case None
    let ?r = "\<lparr>nr_date = d, nr_status = RunRunning, nr_heartbeat = now, nr_exceptions = []\<rparr>"
    have new: "t_first (\<lambda>_ s. nr_date s = d) (runs db) = None" and db': "db' = db\<lparr>runs := t_insert ?r (runs db)\<rparr>"
      using claim(3) None by (cases "t_first (\<lambda>_ s. nr_date s = d) (runs db)"; simp add: claimRun_def)+
    have "run_ok first b ?r" using claim(1) assms(2) expandStayDates_valid [of d first b] by (auto simp: history_def run_ok_def)
    then have "runs_ok first b (t_insert ?r (runs db))" using runs_insert [of first b "runs db" ?r] assms(2) new by (simp add: history_def)
    moreover have "completed_days (t_insert ?r (runs db)) = completed_days (runs db)" by (simp add: completed_days_def t_select_insert)
    ultimately show ?thesis using assms(2) by (auto simp: history_def db' dates_of_def)
  qed
next
  case (transact k r x)
  show ?thesis
  proof (cases x)
    case (Inl e)
    then have "db' = set_run k (\<lambda>r. r\<lparr>nr_status := RunFailed\<rparr>) db" using transact(2) by (auto simp: finish_run_def fail_run_def split: sum.splits)
    then show ?thesis using history_set_run [OF assms(2), of "\<lambda>r. r\<lparr>nr_status := RunFailed\<rparr>" k] by auto
  next
    case (Inr report)
    then show ?thesis using history_transact [OF assms(2) transact(1)] transact(2) by blast
  qed
next
  case (fail k)
  then show ?thesis using history_set_run [OF assms(2), of "\<lambda>r. r\<lparr>nr_status := RunFailed\<rparr>" k] by (auto simp: fail_run_def)
qed (auto simp: history_def dates_of_def)

text \<open>A run is made of these steps.\<close>

lemma reconcile_steps:
  assumes "reconcileExistingRun now d db = (q, db1)" "t_wf (runs db)"
  shows "audit_step\<^sup>*\<^sup>* db db1 \<and> t_wf (runs db1) \<and> business_date (house (desk db1)) = business_date (house (desk db))
    \<and> (\<forall>existing. q = Inr existing \<longrightarrow> (case existing of None \<Rightarrow> True | Some j \<Rightarrow> \<exists>r. t_get (runs db1) j = Some r \<and> nr_date r = d))"
proof (cases "t_first (\<lambda>_ r. nr_date r = d) (runs db)")
  case None
  then show ?thesis using assms by (auto simp: reconcileExistingRun_def)
next
  case (Some x)
  obtain k r where x: "t_first (\<lambda>_ r. nr_date r = d) (runs db) = Some (k, r)" using Some by (cases x) auto
  have k: "t_get (runs db) k = Some r" "nr_date r = d" using t_first_SomeD [OF assms(2) x] by auto
  show ?thesis
  proof (cases "nr_status r = RunRunning \<and> \<not> now - nr_heartbeat r < STALE_TIMEOUT_MS")
    case False
    then show ?thesis using assms x k by (auto simp: reconcileExistingRun_def split: run_status.splits if_splits)
  next
    case True
    obtain y where y: "recoverStaleRun k d db = (y, db1)" "q = map_sum id (\<lambda>_. Some k) y"
      using assms(1) x True by (cases "recoverStaleRun k d db") (auto simp: reconcileExistingRun_def)
    have "audit_step db db1" using audit_step.recover [OF k(1)] y(1) k(2) by blast
    moreover have "t_wf (runs db1) \<and> business_date (house (desk db1)) = business_date (house (desk db)) \<and> (\<exists>r. t_get (runs db1) k = Some r \<and> nr_date r = d)"
      using y(1) assms(2) k by (auto simp: recoverStaleRun_def Let_def t_get_update_id split: if_splits)
    ultimately show ?thesis using y(2) by (cases y) auto
  qed
qed

lemma start_steps:
  assumes "start_run calendar now db = (q, db1)" "t_wf (runs db)"
  shows "audit_step\<^sup>*\<^sup>* db db1 \<and> (\<forall>d k. q = Inr (d, k) \<longrightarrow> (\<exists>r. t_get (runs db1) k = Some r \<and> nr_date r = d))"
proof (cases "business_date (house (desk db))")
  case None
  then show ?thesis using assms by (auto simp: start_run_def)
next
  case (Some d)
  show ?thesis
  proof (cases "assertBusinessDateHasEnded calendar now d (addOneDay d) (timezone db)")
    case (Inl e)
    then show ?thesis using assms Some by (auto simp: start_run_def)
  next
    case (Inr u)
    obtain q1 db2 where r: "reconcileExistingRun now d db = (q1, db2)" by (cases "reconcileExistingRun now d db")
    note R = reconcile_steps [OF r assms(2)]
    show ?thesis
    proof (cases q1)
      case (Inl e)
      then show ?thesis using assms Some Inr r R by (auto simp: start_run_def)
    next
      case ex: (Inr existing)
      show ?thesis
      proof (cases "claimRun now d existing db2")
        case (Inl e)
        then show ?thesis using assms Some Inr r R ex by (auto simp: start_run_def)
      next
        case c: (Inr y)
        obtain k db3 where y: "claimRun now d existing db2 = Inr (k, db3)" using c by (cases y) auto
        have e: "q = Inr (d, k)" "db1 = db3" using assms(1) Some Inr r ex y by (simp_all add: start_run_def)
        have "audit_step db2 db1" using audit_step.claim [of db2 d existing now k db3] R Some ex y e(2) by auto
        moreover have "\<exists>r. t_get (runs db1) k = Some r \<and> nr_date r = d"
          using y R ex e(2) by (cases existing) (auto simp: claimRun_def t_get_insert t_get_update_id split: option.splits if_splits)
        ultimately show ?thesis using R e(1) by (auto intro: rtranclp.rtrancl_into_rtrancl)
      qed
    qed
  qed
qed

lemma audit_steps:
  assumes "runNightAudit calendar now db = (q, db')" "t_wf (runs db)"
  shows "audit_step\<^sup>*\<^sup>* db db'"
proof -
  obtain c db1 where c: "start_run calendar now db = (c, db1)" by (cases "start_run calendar now db")
  note S = start_steps [OF c assms(2)]
  show ?thesis
  proof (cases c)
    case (Inl e)
    then show ?thesis using assms(1) c S by (simp add: runNightAudit_def)
  next
    case (Inr y)
    obtain d k where y: "c = Inr (d, k)" using Inr by (cases y) auto
    have f: "finish_run d k db1 = (q, db')" using assms(1) c y by (simp add: runNightAudit_def)
    obtain r where r: "t_get (runs db1) k = Some r" "nr_date r = d" using S y by blast
    have "audit_step db1 db'" using audit_step.transact [OF r(1)] f r(2) by blast
    then show ?thesis using S by (auto intro: rtranclp.rtrancl_into_rtrancl)
  qed
qed

text \<open>
  C5: No business date is audited twice and none is skipped, whatever the order of claims, recoveries, transactions, failures
  and front-desk work, with workers that die or come back late: the reports are exactly those of the days from the first
  business date up to the day before the current one, in that order; a date has at most one run, a completed run is of a date
  that was closed, and the dates the ledger refuses to post to are those of the completed runs.
\<close>

theorem night_audit_history:
  assumes "business_date (house (desk db)) = Some first" "valid_date first" "runs db = t_empty" "reports db = t_empty" "closed_days (house (desk db)) = []"
    and "audit_step\<^sup>*\<^sup>* db db'"
  shows "\<exists>b. business_date (house (desk db')) = Some b \<and> first \<le> b \<and> dates_of db' = expandStayDates first b
    \<and> closed_days (house (desk db')) = completed_days (runs db') \<and> runs_ok first b (runs db')"
proof -
  have "history first db first"
    using assms(1-5) expandStayDates_done [of first first] by (simp add: history_def dates_of_def runs_ok_def completed_days_def t_select_def t_empty_def t_get_def t_wf_def)
  with assms(6) have "\<exists>b. history first db' b" by (induction rule: rtranclp_induct) (use history_step in blast)+
  then show ?thesis by (auto simp: history_def)
qed

theorem night_audit_history_witness:
  "\<exists>b. business_date (house (desk audited_inn)) = Some b \<and> dates_of audited_inn = expandStayDates (Date 2026 5 1) b \<and> dates_of audited_inn = [Date 2026 5 1]"
proof -
  obtain report where run: "runNightAudit (\<lambda>_ _. None) 1000 audit_inn = (Inr report, audited_inn)" using audited_inn_run by blast
  have e: "runs audit_inn = t_empty" "reports audit_inn = t_empty" by (simp_all add: audit_inn_def)
  have c: "closed_days (house (desk audit_inn)) = []" "dates_of audited_inn = [Date 2026 5 1]" unfolding dates_of_def by code_simp+
  have "audit_step\<^sup>*\<^sup>* audit_inn audited_inn" by (rule audit_steps [OF run]) (simp add: e)
  from night_audit_history [OF audit_inn_facts(2,3) e c(1) this] c(2) show ?thesis by blast
qed

end
