(* ===== verification/AuditRecovery.thy ===== *)
theory AuditRecovery
  imports AuditProps
begin

text \<open>
  When the night audit succeeds. Whose folio a charge lands on and who pays for it is not changed by posting, so whether every
  guest can be charged can be read off before the run; with that, a run that is not premature, finds no blocking condition and
  can claim its date always closes it, also after a worker died in the middle.
\<close>

section \<open>Who pays\<close>

definition account_heads :: "hotel \<Rightarrow> (nat \<times> nat \<times> string) list" where
  "account_heads db = map (\<lambda>(i, a). (i, a_company a, a_status a)) (rows (accounts db))"

definition parties :: "hotel \<Rightarrow> hotel \<Rightarrow> bool" where
  "parties db db' \<longleftrightarrow> folio_heads db' = folio_heads db \<and> next_id (folios db') = next_id (folios db)
     \<and> account_heads db' = account_heads db \<and> next_id (accounts db') = next_id (accounts db)"

lemma parties_refl [simp, intro]: "parties db db" by (simp add: parties_def)

lemma parties_trans: "parties a b \<Longrightarrow> parties b c \<Longrightarrow> parties a c" by (simp add: parties_def)

lemma parties_frame: "folios db' = folios db \<Longrightarrow> accounts db' = accounts db \<Longrightarrow> parties db db'"
  by (simp add: parties_def folio_heads_def account_heads_def)

lemma parties_recompute_ar: "parties db (snd (recomputeArAccountBalance k db))"
  by (auto simp: parties_def folio_heads_def account_heads_def recomputeArAccountBalance_def Let_def t_update_def split: option.split)

lemma parties_after: "parties db (after_posting fid k db)"
proof -
  have "parties db (recomputeFolioBalance fid db)"
    by (simp add: parties_def folio_heads_def account_heads_def recomputeFolioBalance_def Let_def t_update_def comp_def case_prod_unfold)
  then show ?thesis using parties_trans [OF _ parties_recompute_ar] by (simp add: after_posting_def Let_def split: option.split)
qed

lemma parties_ar_check: "ar_check f a ov why db = Inr (k, db') \<Longrightarrow> parties db db'"
  by (auto simp: ar_check_def rbind_eq_Inr parties_recompute_ar dest!: assertWithin_frame split: option.splits)

lemma parties_insert_line: "insert_line d mk db = Inr (i, db') \<Longrightarrow> parties db db'"
  by (auto dest!: insert_line_InrD intro: parties_frame)

lemma parties_tax_lines: "foldM (post_tax_line fid cur d c) db ts = Inr db' \<Longrightarrow> parties db db'"
  by (rule foldM_inv [where P = "parties db"]) (auto simp: post_tax_line_def rbind_eq_Inr dest!: parties_insert_line intro: parties_trans)

lemma parties_postCharge:
  assumes "postCharge fid ty desc amt bd ov why db = Inr (i, db')" "t_wf (folios db)"
  shows "parties db db'"
  using assms
proof (elim postCharge_cases)
  fix t f k db1
  let ?tx = "computeChargeWithTax amt (tax_versions_on db (effective_date bd db) ty)"
  assume c: "ar_check f (netAmount ?tx + tax_total (taxLines ?tx)) ov why db = Inr (k, db1)"
    and p: "post_lines fid f t desc ?tx (effective_date bd db) k db1 = Inr (i, db')"
  obtain mk db2 db3 where s: "insert_line (effective_date bd db) mk db1 = Inr (i, db2)"
    "foldM (post_tax_line fid (f_currency f) (effective_date bd db) i) db2 (taxLines ?tx) = Inr db3" "db' = after_posting fid k db3"
    using p unfolding post_lines_def by (auto simp: rbind_eq_Inr)
  show ?thesis
    using parties_ar_check [OF c] parties_insert_line [OF s(1)] parties_tax_lines [OF s(2)] parties_after [of db3 fid k] s(3) parties_trans by metis
qed

definition active_payer :: "hotel \<Rightarrow> nat \<Rightarrow> bool" where
  "active_payer db c \<longleftrightarrow> (case account_for_company db c of None \<Rightarrow> False | Some (k, a) \<Rightarrow> a_status a = ''active'')"

definition chargeable :: "hotel \<Rightarrow> nat \<Rightarrow> bool" where
  "chargeable db fid \<longleftrightarrow> (case t_get (folios db) fid of None \<Rightarrow> False
     | Some f \<Rightarrow> f_status f = ''open'' \<and> (case f_company f of None \<Rightarrow> True | Some c \<Rightarrow> active_payer db c))"

lemma active_heads: "active_payer db c = (case find (\<lambda>(i, co, s). co = c) (account_heads db) of None \<Rightarrow> False | Some (i, co, s) \<Rightarrow> s = ''active'')"
proof -
  have "(case (case filter (\<lambda>(i, a). a_company a = c) xs of [] \<Rightarrow> None | x # _ \<Rightarrow> Some x) of None \<Rightarrow> False | Some (k, a) \<Rightarrow> a_status a = ''active'')
      = (case find (\<lambda>(i, co, s). co = c) (map (\<lambda>(i, a). (i, a_company a, a_status a)) xs) of None \<Rightarrow> False | Some (i, co, s) \<Rightarrow> s = ''active'')"
    for xs :: "(nat \<times> ar_account) list"
    by (induction xs) (auto split: list.splits)
  then show ?thesis by (simp add: active_payer_def account_for_company_def t_first_def t_select_def account_heads_def)
qed

lemma chargeable_heads:
  "t_wf (folios db) \<Longrightarrow> chargeable db fid \<longleftrightarrow> (\<exists>r co. (fid, r, ''open'', co) \<in> set (folio_heads db) \<and> (case co of None \<Rightarrow> True | Some c \<Rightarrow> active_payer db c))"
  by (auto simp: chargeable_def heads_iff split: option.splits)

lemma wf_ids: "t_wf t \<longleftrightarrow> distinct (map fst (rows t)) \<and> (\<forall>i \<in> set (map fst (rows t)). i < next_id t)"
  by (force simp: t_wf_def)

lemma accounts_wf: "account_heads db' = account_heads db \<Longrightarrow> next_id (accounts db') = next_id (accounts db) \<Longrightarrow> t_wf (accounts db) \<Longrightarrow> t_wf (accounts db')"
proof -
  have ids: "map fst (rows (accounts h)) = map fst (account_heads h)" for h by (simp add: account_heads_def comp_def case_prod_unfold)
  show "account_heads db' = account_heads db \<Longrightarrow> next_id (accounts db') = next_id (accounts db) \<Longrightarrow> t_wf (accounts db) \<Longrightarrow> t_wf (accounts db')"
    unfolding wf_ids ids by simp
qed

lemma parties_keep:
  assumes "parties db db'"
  shows "active_payer db' c = active_payer db c" "t_wf (accounts db) \<Longrightarrow> t_wf (accounts db')" "t_wf (folios db) \<Longrightarrow> t_wf (folios db')"
    "t_wf (folios db) \<Longrightarrow> chargeable db' fid = chargeable db fid" "billed_folio db' = billed_folio db"
proof -
  note p = assms [unfolded parties_def]
  show a: "active_payer db' c = active_payer db c" for c using p by (simp add: active_heads)
  show "t_wf (accounts db) \<Longrightarrow> t_wf (accounts db')" using p accounts_wf by blast
  show f: "t_wf (folios db) \<Longrightarrow> t_wf (folios db')" using p heads_wf [of db' db] by simp
  show "t_wf (folios db) \<Longrightarrow> chargeable db' fid = chargeable db fid" using p a f by (simp add: chargeable_heads cong: option.case_cong)
  show "billed_folio db' = billed_folio db" using p by (intro billed_frame) simp
qed


section \<open>What goes through\<close>

lemma tax_lines_go_through: "\<exists>db'. foldM (post_tax_line fid cur (Some d) c) db ts = Inr db'"
proof (induction ts arbitrary: db)
  case (Cons t ts)
  obtain db1 where "post_tax_line fid cur (Some d) c db t = Inr db1" by (simp add: post_tax_line_def insert_line_def)
  then show ?case using Cons by simp
qed simp

lemma posting_goes_through: "\<exists>r. post_lines fid f ty desc tx (Some d) k db = Inr r"
proof -
  define mk where "mk = (\<lambda>d. \<lparr>l_folio = fid, l_type = ty, l_description = desc, l_amount = netAmount tx, l_currency = f_currency f,
     l_tax_amount = tax_total (taxLines tx), l_method = None, l_payment = None, l_business_date = d, l_related = None, l_voided = False, l_void_reason = None\<rparr>)"
  obtain i db1 where i: "insert_line (Some d) mk db = Inr (i, db1)" by (simp add: insert_line_def)
  obtain db2 where "foldM (post_tax_line fid (f_currency f) (Some d) i) db1 (taxLines tx) = Inr db2" using tax_lines_go_through by blast
  then show ?thesis using i by (simp add: post_lines_def flip: mk_def)
qed

lemma override_goes_through:
  assumes "case f_company f of None \<Rightarrow> True | Some c \<Rightarrow> active_payer db c" "t_wf (accounts db)" "given why"
  shows "\<exists>r. ar_check f amt True why db = Inr r"
proof (cases "f_company f")
  case (Some c)
  obtain k a where a: "account_for_company db c = Some (k, a)" "a_status a = ''active''"
    using assms(1) Some by (auto simp: active_payer_def split: option.splits)
  have "t_get (accounts db) k = Some a" using t_first_SomeD [OF assms(2)] a(1) by (simp add: account_for_company_def)
  then obtain b db1 where "recomputeArAccountBalance k db = (Some b, db1)" by (simp add: recomputeArAccountBalance_def Let_def)
  then show ?thesis using a assms(3) Some by (simp add: ar_check_def assertWithinCreditLimit_def Let_def)
qed (simp add: ar_check_def)

lemma charge_goes_through:
  assumes "chargeable db fid" "t_wf (folios db)" "t_wf (accounts db)" "given why"
  shows "\<exists>i db'. postCharge fid ''room_charge'' desc amt (Some d) True why db = Inr (i, db')"
proof -
  obtain f where f: "t_get (folios db) fid = Some f" "f_status f = ''open''" "case f_company f of None \<Rightarrow> True | Some c \<Rightarrow> active_payer db c"
    using assms(1) by (auto simp: chargeable_def split: option.splits)
  let ?tx = "computeChargeWithTax amt (tax_versions_on db (Some d) ''room_charge'')"
  obtain k db1 where c: "ar_check f (netAmount ?tx + tax_total (taxLines ?tx)) True why db = Inr (k, db1)"
    using override_goes_through [OF f(3) assms(3,4)] by force
  obtain r where "post_lines fid f RoomCharge desc ?tx (Some d) k db1 = Inr r" using posting_goes_through by blast
  then have "postCharge fid ''room_charge'' desc amt (Some d) True why db = Inr r"
    using f(1,2) assms(2) c by (simp add: postCharge_def charge_type_of_def effective_date_def Let_def)
  then show ?thesis by (cases r) simp
qed

lemma late_charges_go_through:
  assumes "chargeable db fid" "t_wf (folios db)" "t_wf (accounts db)" "given why"
  shows "\<exists>charged db'. postLateRoomCharges fid nights (Some d) True why db = Inr (charged, db') \<and> parties db db'"
proof -
  have "\<exists>charged db'. foldM (post_late_night fid (Some d) True why) (c, db) nights = Inr (charged, db') \<and> parties db db'"
    if "chargeable db fid" "t_wf (folios db)" "t_wf (accounts db)" for c db
    using that
  proof (induction nights arbitrary: c db)
    case (Cons n ns)
    obtain c1 db1 where s: "post_late_night fid (Some d) True why (c, db) n = Inr (c1, db1)" "parties db db1"
    proof (cases "has_line (late_charge_for fid (fst n)) db")
      case True
      then show thesis using that [of c db] by (cases n) (simp add: post_late_night_def)
    next
      case False
      obtain i db1 where "postCharge fid ''room_charge'' (late_description (fst n)) (snd n) (Some d) True why db = Inr (i, db1)"
        using charge_goes_through [OF Cons.prems assms(4)] by blast
      then show thesis using that [of "c @ [n]" db1] False parties_postCharge [OF _ Cons.prems(2)] by (cases n) (simp add: post_late_night_def)
    qed
    note K = parties_keep [OF s(2)]
    have "chargeable db1 fid" "t_wf (folios db1)" "t_wf (accounts db1)" using K(2,3,4) Cons.prems by simp_all
    from Cons.IH [OF this] obtain charged db2 where r: "foldM (post_late_night fid (Some d) True why) (c1, db1) ns = Inr (charged, db2)" "parties db1 db2" by blast
    then show ?case using s(1) parties_trans [OF s(2) r(2)] by simp
  qed simp
  then show ?thesis using assms(1-3) by (simp add: postLateRoomCharges_def)
qed

lemma bypass_goes_through:
  assumes "inv_ok fo" "distinct ds"
  shows "\<exists>fo1. reserve_or_fail ty ds True fo = Inr fo1 \<and> house fo1 = house fo"
proof -
  obtain r fo1 where r: "reserveInventoryForDates ty ds True fo = (r, fo1)" by fastforce
  have "r \<noteq> Inl e" for e using reserve_facts(6) [OF assms(1) r assms(2)] by blast
  then show ?thesis using r inventory_only_frame(1) [OF reserve_facts(2) [OF assms(1) r assms(2)]] by (cases r) (auto simp: reserve_or_fail_def)
qed

definition payable :: "hotel \<Rightarrow> bool" where
  "payable db \<longleftrightarrow> t_wf (accounts db) \<and> (\<forall>rid fid. billed_folio db rid = Some fid \<longrightarrow> chargeable db fid)"

lemma payable_keep: "parties db db' \<Longrightarrow> t_wf (folios db) \<Longrightarrow> payable db \<Longrightarrow> payable db'"
  using parties_keep [of db db'] by (simp add: payable_def)

lemma overstay_goes_through:
  assumes ok: "office_ok fo" "payable (house fo)" and k: "t_get (reservations fo) rid = Some rv" "rv_departure rv \<le> bd" "valid_date bd"
    and f: "billed_folio (house fo) rid = Some fid" and why: "given why"
  shows "\<exists>x fo'. extendOverstayNight rid rv fid bd True why fo = Inr (x, fo') \<and> parties (house fo) (house fo')"
proof (cases "last_rate rid (house fo)")
  case None
  then show ?thesis by (simp add: extendOverstayNight_def)
next
  case (Some lr)
  have c: "counted fo" "books_ok (house fo)" using ok(1) by (auto simp: office_ok_def)
  have dep: "valid_date (rv_departure rv)" using counted_parts(3) [OF c(1) k(1)] by (simp add: dated_def)
  note n = overstay_nights [OF dep k(3,2)]
  let ?ds = "expandStayDates (rv_departure rv) bd @ [bd]"
  obtain fo1 where r: "reserve_or_fail (rv_type rv) ?ds True fo = Inr fo1" "house fo1 = house fo"
    using bypass_goes_through [OF counted_parts(1) [OF c(1)] n(3)] by blast
  define db1 where "db1 = (house fo1)\<lparr>daily_rates := fold (\<lambda>d. t_insert \<lparr>dr_reservation = rid, dr_date = d, dr_rate = dr_rate lr, dr_currency = dr_currency lr\<rparr>)
      (filter (\<lambda>d. d \<notin> set (map fst (rates_on rid ?ds (house fo1)))) ?ds) (daily_rates (house fo1))\<rparr>"
  have p: "parties (house fo) db1" by (rule parties_frame) (simp_all add: db1_def r(2))
  note K = parties_keep [OF p]
  have ch: "chargeable db1 fid" "t_wf (folios db1)" "t_wf (accounts db1)" using K(2,3,4) ok(2) f c(2) by (simp_all add: payable_def)
  obtain late db2 where l: "postLateRoomCharges fid (rates_on rid (expandStayDates (rv_departure rv) bd) db1) (Some bd) True why db1 = Inr (late, db2)" "parties db1 db2"
    using late_charges_go_through [OF ch why] by blast
  define fo2 where "fo2 = set_reservation rid (\<lambda>rv. rv\<lparr>rv_departure := next_day bd\<rparr>) (fo1\<lparr>house := db1\<rparr>)"
  have h: "house fo2 = db1" by (simp add: fo2_def set_reservation_def)
  have e: "extendOverstayNight rid rv fid bd True why fo =
      rbind (if expandStayDates (rv_departure rv) bd = [] then Inr ([], fo2)
             else on_house (postLateRoomCharges fid (rates_on rid (expandStayDates (rv_departure rv) bd) (house fo2)) (Some bd) True why) fo2)
        (\<lambda>(late, fo3). Inr (Some (map_option snd (t_first (\<lambda>_ r. dr_reservation r = rid \<and> dr_date r = bd) (daily_rates (house fo3))), late), fo3))"
    by (simp only: extendOverstayNight_def Some option.case r(1) Let_def n(1) rbind_simps fo2_def db1_def)
  show ?thesis
  proof (cases "expandStayDates (rv_departure rv) bd = []")
    case True
    then show ?thesis unfolding e using p h by auto
  next
    case False
    have "on_house (postLateRoomCharges fid (rates_on rid (expandStayDates (rv_departure rv) bd) (house fo2)) (Some bd) True why) fo2
        = Inr (late, fo2\<lparr>house := db2\<rparr>)" using l(1) by (simp add: on_house_def h)
    then show ?thesis unfolding e using False parties_trans [OF p l(2)] by auto
  qed
qed


lemma system_reason_given: "given system_reason" by (simp add: system_reason_def)

lemma guest_goes_through:
  assumes ok: "office_ok fo" "payable (house fo)" and k: "t_get (reservations fo) rid = Some rv" "valid_date d"
  shows "\<exists>fo' exs'. audit_guest d (fo, exs) (rid, rv) = Inr (fo', exs') \<and> parties (house fo) (house fo')"
proof (cases "open_folio_of (house fo) rid")
  case None
  then show ?thesis by (auto simp: audit_guest_def)
next
  case (Some x)
  obtain fid f where x: "open_folio_of (house fo) rid = Some (fid, f)" using Some by (cases x) auto
  have bf: "billed_folio (house fo) rid = Some fid" using x by (simp add: billed_folio_def)
  obtain rate fo1 exs1 where r: "tonights_rate d rid rv fid (fo, exs) = Inr (rate, fo1, exs1)" "parties (house fo) (house fo1)"
  proof (cases "rate_for (house fo) rid d = None \<and> rv_departure rv \<le> d")
    case True
    obtain y fo1 where "extendOverstayNight rid rv fid d True system_reason fo = Inr (y, fo1)" "parties (house fo) (house fo1)"
      using overstay_goes_through [OF ok k(1) _ k(2) bf system_reason_given] True by blast
    then show thesis using that True by (cases y) (auto simp: tonights_rate_def)
  next
    case False
    then show thesis using that [of "rate_for (house fo) rid d" fo exs] by (auto simp: tonights_rate_def split: option.splits)
  qed
  have wf: "t_wf (folios (house fo))" using ok(1) books_wf by (auto simp: office_ok_def)
  note K = parties_keep [OF r(2)]
  have ch: "chargeable (house fo1) fid" "t_wf (folios (house fo1))" "t_wf (accounts (house fo1))" using K(2,3,4) wf ok(2) bf by (simp_all add: payable_def)
  show ?thesis
  proof (cases rate)
    case None
    then show ?thesis using x r by (simp add: audit_guest_def)
  next
    case (Some q)
    have "\<exists>fo2. post_tonight d fid q fo1 = Inr fo2 \<and> parties (house fo1) (house fo2)"
    proof (cases "has_line (tonight fid d) (house fo1)")
      case True
      then show ?thesis by (simp add: post_tonight_def)
    next
      case False
      obtain i db where p: "postCharge fid ''room_charge'' (''Room charge '' @ em_dash @ '' '' @ date_text d) (dr_rate q) (Some d) True system_reason (house fo1) = Inr (i, db)"
        using charge_goes_through [OF ch system_reason_given] by blast
      then show ?thesis using False parties_postCharge [OF p ch(2)] by (simp add: post_tonight_def on_house_def)
    qed
    then show ?thesis using x r Some parties_trans by (fastforce simp: audit_guest_def)
  qed
qed

lemma house_goes_through:
  assumes "office_ok fo" "payable (house fo)" "valid_date d"
  shows "\<exists>fo' exs. bill_in_house d fo = Inr (fo', exs)"
proof -
  have "\<exists>fo' exs'. foldM (audit_guest d) (fo, exs) gs = Inr (fo', exs')"
    if "office_ok fo" "payable (house fo)" "distinct (map fst gs)"
      "\<And>rid rv. (rid, rv) \<in> set gs \<Longrightarrow> t_get (reservations fo) rid = Some rv \<and> rv_status rv = CheckedIn" for fo exs gs
    using that
  proof (induction gs arbitrary: fo exs)
    case (Cons g gs)
    obtain rid rv where g: "g = (rid, rv)" by (cases g)
    have k: "t_get (reservations fo) rid = Some rv" "rv_status rv = CheckedIn" using Cons.prems(4) [of rid rv] g by auto
    obtain fo1 exs1 where s: "audit_guest d (fo, exs) (rid, rv) = Inr (fo1, exs1)" "parties (house fo) (house fo1)"
      using guest_goes_through [OF Cons.prems(1,2) k(1) assms(3)] by blast
    note E = audit_guest_effect [OF s(1) Cons.prems(1) k assms(3)]
    have wf: "t_wf (folios (house fo))" using Cons.prems(1) books_wf by (auto simp: office_ok_def)
    have kept: "t_get (reservations fo1) r = Some rv' \<and> rv_status rv' = CheckedIn" if q: "(r, rv') \<in> set gs" for r rv'
    proof -
      have "r \<noteq> rid" using Cons.prems(3) q g by force
      then show ?thesis using Cons.prems(4) [of r rv'] E(2) q by (auto simp: guest_only_def)
    qed
    have "\<exists>fo' exs'. foldM (audit_guest d) (fo1, exs1) gs = Inr (fo', exs')"
      using Cons.IH [OF E(1) payable_keep [OF s(2) wf Cons.prems(2)] _ kept] Cons.prems(3) by simp
    then show ?case using s(1) g by simp
  qed simp
  moreover have wf: "t_wf (reservations fo)" using assms(1) counted_parts(2) by (simp add: office_ok_def)
  moreover have "distinct (map fst (in_house fo))" unfolding in_house_def by (rule t_select_distinct [OF wf])
  moreover have "(r, v) \<in> set (in_house fo) \<Longrightarrow> t_get (reservations fo) r = Some v \<and> rv_status v = CheckedIn" for r v
    unfolding in_house_def t_select_set [OF wf] .
  ultimately show ?thesis unfolding bill_in_house_def using assms(1,2) by blast
qed

section \<open>A run that can start succeeds\<close>

text \<open>The date is over where the property is, or there is no way to tell.\<close>

definition date_over :: "(int \<Rightarrow> string \<Rightarrow> date option) \<Rightarrow> int \<Rightarrow> string option \<Rightarrow> date \<Rightarrow> bool" where
  "date_over calendar now zone d \<longleftrightarrow> (given zone \<longrightarrow> (case calendar now (the zone) of None \<Rightarrow> True | Some today \<Rightarrow> next_day d \<le> today))"

text \<open>A run in the way: completed, or with a heartbeat younger than ninety seconds.\<close>

definition in_the_way :: "int \<Rightarrow> audit_run \<Rightarrow> bool" where
  "in_the_way now r \<longleftrightarrow> nr_status r = RunCompleted \<or> nr_status r = RunRunning \<and> now - nr_heartbeat r < 90000"

lemma start_goes_through:
  assumes b: "business_date (house (desk db)) = Some d" and over: "date_over calendar now (timezone db) d" and wf: "t_wf (runs db)"
    and free: "\<And>k r. t_get (runs db) k = Some r \<Longrightarrow> nr_date r = d \<Longrightarrow> \<not> in_the_way now r"
  shows "\<exists>k db1. start_run calendar now db = (Inr (d, k), db1)"
proof -
  have ended: "assertBusinessDateHasEnded calendar now d (addOneDay d) (timezone db) = Inr ()"
    using over by (auto simp: assertBusinessDateHasEnded_def date_over_def addOneDay_def split: option.splits)
  show ?thesis
  proof (cases "t_first (\<lambda>_ r. nr_date r = d) (runs db)")
    case None
    then have "reconcileExistingRun now d db = (Inr None, db)" by (simp add: reconcileExistingRun_def)
    moreover obtain y where "claimRun now d None db = Inr y" using None by (simp add: claimRun_def)
    ultimately show ?thesis using b ended by (cases y) (simp add: start_run_def)
  next
    case (Some x)
    obtain k r where x: "t_first (\<lambda>_ r. nr_date r = d) (runs db) = Some (k, r)" using Some by (cases x) auto
    have k: "t_get (runs db) k = Some r" "nr_date r = d" using t_first_SomeD [OF wf x] by auto
    have "\<exists>db1 r1. reconcileExistingRun now d db = (Inr (Some k), db1) \<and> t_get (runs db1) k = Some r1 \<and> nr_status r1 = RunFailed"
    proof (cases "nr_status r = RunRunning")
      case True
      then have stale: "\<not> now - nr_heartbeat r < STALE_TIMEOUT_MS" using free [OF k] by (simp add: in_the_way_def STALE_TIMEOUT_MS_def)
      then have "reconcileExistingRun now d db = (Inr (Some k), set_run k (\<lambda>r. r\<lparr>nr_status := RunFailed\<rparr>) db)"
        using x True b by (simp add: reconcileExistingRun_def recoverStaleRun_def)
      then show ?thesis using k(1) by (simp add: t_get_update_id)
    next
      case False
      then have "nr_status r = RunFailed" using free [OF k] by (cases "nr_status r") (auto simp: in_the_way_def)
      then show ?thesis using x k(1) by (simp add: reconcileExistingRun_def)
    qed
    then obtain db1 r1 where r1: "reconcileExistingRun now d db = (Inr (Some k), db1)" "t_get (runs db1) k = Some r1" "nr_status r1 = RunFailed" by blast
    then obtain y where "claimRun now d (Some k) db1 = Inr y" by (simp add: claimRun_def)
    then show ?thesis using b ended r1(1) by (cases y) (simp add: start_run_def)
  qed
qed



lemma billed_open: "t_wf (folios db) \<Longrightarrow> billed_folio db rid = Some fid \<Longrightarrow> \<exists>f. t_get (folios db) fid = Some f \<and> f_status f = ''open''"
  by (auto simp: billed_folio_def open_folio_of_def dest!: t_first_SomeD)

lemma guests_pay:
  assumes "t_wf (folios db)" "t_wf (accounts db)" "list_all (\<lambda>(_, f). f_company f = None) (rows (folios db))"
  shows "payable db"
proof -
  have "chargeable db fid" if b: "billed_folio db rid = Some fid" for rid fid
  proof -
    obtain f where f: "t_get (folios db) fid = Some f" "f_status f = ''open''" using billed_open [OF assms(1) b] by blast
    have "(fid, f) \<in> set (rows (folios db))" using f(1) by (simp add: t_get_def map_of_SomeD)
    then have "f_company f = None" using assms(3) by (auto simp: list_all_iff)
    then show ?thesis using f by (simp add: chargeable_def)
  qed
  then show ?thesis using assms(2) by (simp add: payable_def)
qed

text \<open>The worker that claimed the first night died at once.\<close>

definition deserted_inn :: audit_db where
  "deserted_inn = snd (start_run (\<lambda>_ _. None) 1000 audit_inn)"


section \<open>Where the code falls short of its contract\<close>

text \<open>
  The comment on the posting options says a room charge must never make the audit fail. Over the limit it does not; but a
  guest in house whose folio is billed to an account that has since been suspended makes every run fail.
\<close>

lemma inactive_refuses:
  "f_company f = Some c \<Longrightarrow> \<not> active_payer db c \<Longrightarrow> ar_check f amt ov why db = Inl ArAccountNotFoundError"
  by (auto simp: ar_check_def assertWithinCreditLimit_def active_payer_def split: option.splits)

theorem suspended_account_blocks_audit:
  assumes "t_wf (folios (house fo))" "open_folio_of (house fo) rid = Some (fid, f)" "f_company f = Some c" "\<not> active_payer (house fo) c"
    and "rate_for (house fo) rid d = Some r" "\<not> has_line (tonight fid d) (house fo)"
  shows "audit_guest d (fo, exs) (rid, rv) = Inl ArAccountNotFoundError"
proof -
  have f: "t_get (folios (house fo)) fid = Some f" "f_status f = ''open''" using assms(1,2) t_first_SomeD [of "folios (house fo)"] by (auto simp: open_folio_of_def)
  have "postCharge fid ''room_charge'' desc amt (Some d) True why (house fo) = Inl ArAccountNotFoundError" for desc amt why
    using f assms(1) inactive_refuses [OF assms(3,4)] by (simp add: postCharge_def charge_type_of_def Let_def)
  then show ?thesis using assms(2,5,6) by (simp add: audit_guest_def tonights_rate_def post_tonight_def on_house_def)
qed

text \<open>
  A worker that comes back after its claim was taken over and the date closed marks the completed run as failed: the failure is
  written by run id alone, without asking that the run is still its own.
\<close>

theorem late_worker_fails_completed_run:
  assumes "t_get (runs db) k = Some r" "nr_status r = RunCompleted" "report_on db (nr_date r)"
  shows "\<exists>e. finish_run (nr_date r) k db = (Inl e, fail_run k db) \<and> t_get (runs (fail_run k db)) k = Some (r\<lparr>nr_status := RunFailed\<rparr>)"
proof -
  have "\<exists>e. (if findBlockingConditions db \<noteq> [] then Inl NightAuditBlockingConditionsError else runCriticalTransaction (nr_date r) k db) = Inl e"
    using assms(3) by (cases "bill_in_house (nr_date r) (desk db)") (auto simp: runCriticalTransaction_def)
  then show ?thesis using assms(1) by (auto simp: finish_run_def fail_run_def t_get_update_id)
qed

end
