(* ===== verification/Stock.thy ===== *)
theory Stock
  imports Store Validation
begin

text \<open>
  Stock control, \<open>modules/stock/service.js\<close>, with what it reads of an outlet's menu (\<open>shared/outlet-menu.js\<close>), of outlet types
  (\<open>shared/outlet-types.js\<close>) and of staff assignments (\<open>shared/outlet-assignments.js\<close>): the movement ledger and the on-hand
  quantities derived from it, deliveries, wastage, transfers and the requests for them, sales and their reversal, stock
  takes. Quantities are thousandths, costs cents. Free texts (notes, reasons, names, units) that nothing reads back are left
  out; the staff alerts of a crossed threshold and the audit rows of an override are kept, as logs.
\<close>

section \<open>Outlets and staff\<close>

definition STORE_OUTLET_TYPE :: string where "STORE_OUTLET_TYPE = ''store''"

record access =
  ua_user :: nat
  ua_role :: string

record assignment_row =
  oa_user :: nat
  oa_outlet :: nat

definition UNRESTRICTED_ROLES :: "string list" where "UNRESTRICTED_ROLES = [''manager'', ''admin'', ''super_admin'']"

definition scopeCovers :: "nat list option \<Rightarrow> nat list \<Rightarrow> bool" where
  "scopeCovers scope ids = (case scope of None \<Rightarrow> True | Some s \<Rightarrow> list_ex (\<lambda>i. i \<in> set s) ids)"

section \<open>Rows\<close>

datatype movement_type = GoodsReceived | GoodsSold | SaleReversed | GoodsWasted | CountAdjusted | StockTransferred

datatype request_status = RequestPending | RequestIssued | RequestRejected | RequestCancelled

datatype take_status = TakeOpen | TakeCompleted | TakeCancelled

datatype stock_alert = OutOfStock nat nat int | ReorderLevelReached nat nat int

record stock_item =
  si_active :: bool
  si_category :: "string option"
  si_cost :: int
  si_quantity :: int
  si_reorder :: int

record stock_level =
  sl_outlet :: nat
  sl_item :: nat
  sl_quantity :: int
  sl_reorder :: int

record stock_movement =
  mv_outlet :: nat
  mv_item :: nat
  mv_type :: movement_type
  mv_quantity :: int
  mv_unit_cost :: int
  mv_total_cost :: int
  mv_date :: "date option"
  mv_order :: "nat option"
  mv_settlement :: "nat option"
  mv_reversed :: "nat option"
  mv_take :: "nat option"
  mv_reference :: "string option"

record recipe_line =
  cp_menu :: nat
  cp_item :: nat
  cp_quantity :: int

text \<open>A group of choices of a menu item: its name and its options, each with what it adds to the price.\<close>

type_synonym modifier_group = "string \<times> (string \<times> int) list"

record menu_item =
  mi_status :: string
  mi_category :: string
  mi_price :: int
  mi_modifiers :: "modifier_group list"

record menu_setting =
  ms_outlet :: nat
  ms_menu :: nat
  ms_price :: "int option"
  ms_available :: bool
  ms_auto_off :: bool

record stock_category =
  sc_name :: string
  sc_status :: string

record carried_category =
  oc_outlet :: nat
  oc_category :: nat

record transfer_request =
  tq_from :: nat
  tq_to :: nat
  tq_status :: request_status
  tq_top_up_of :: "nat option"
  tq_by :: "nat option"
  tq_decided_by :: "nat option"
  tq_date :: "date option"

record request_line =
  rl_request :: nat
  rl_item :: nat
  rl_requested :: int
  rl_issued :: "int option"
  rl_reference :: "string option"

record stock_take =
  tk_outlet :: nat
  tk_status :: take_status
  tk_date :: "date option"

record take_line =
  tl_take :: nat
  tl_item :: nat
  tl_counted :: int
  tl_theoretical :: "int option"
  tl_variance :: "int option"

text \<open>The tables of one property; \<open>pos_orders\<close> gives the outlet of an order.\<close>

record stock_db =
  outlets :: "outlet table"
  property_access :: "access table"
  outlet_assignments :: "assignment_row table"
  stock_items :: "stock_item table"
  stock_levels :: "stock_level table"
  stock_movements :: "stock_movement table"
  menu_item_components :: "recipe_line table"
  menu_items :: "menu_item table"
  outlet_menu_items :: "menu_setting table"
  menu_categories :: "string table"
  stock_item_categories :: "stock_category table"
  outlet_categories :: "carried_category table"
  pos_orders :: "nat table"
  transfer_requests :: "transfer_request table"
  transfer_request_lines :: "request_line table"
  stock_takes :: "stock_take table"
  stock_take_lines :: "take_line table"
  trading_date :: "date option"
  alert_log :: "stock_alert list"
  override_log :: "(nat \<times> int) list"

text \<open>\<open>new Set(xs)\<close> keeps the first of equal elements.\<close>

definition js_unique :: "'a list \<Rightarrow> 'a list" where "js_unique xs = rev (remdups (rev xs))"

definition outletScopeForUser :: "stock_db \<Rightarrow> nat option \<Rightarrow> nat list option" where
  "outletScopeForUser db user = (case user of None \<Rightarrow> None
   | Some u \<Rightarrow> (case t_first (\<lambda>_ a. ua_user a = u) (property_access db) of
       None \<Rightarrow> None
     | Some (_, a) \<Rightarrow>
         if ua_role a \<in> set UNRESTRICTED_ROLES then None
         else let mine = map (oa_outlet \<circ> snd) (t_select (\<lambda>_ r. oa_user r = u) (outlet_assignments db))
           in if mine = [] then None else Some mine))"

definition usersCoveringOutlets :: "stock_db \<Rightarrow> nat list \<Rightarrow> nat list \<Rightarrow> nat list" where
  "usersCoveringOutlets db users wanted = filter (\<lambda>u.
     (case t_first (\<lambda>_ a. ua_user a = u) (property_access db) of None \<Rightarrow> False | Some (_, a) \<Rightarrow> ua_role a \<in> set UNRESTRICTED_ROLES)
     \<or> (let mine = map (oa_outlet \<circ> snd) (t_select (\<lambda>_ r. oa_user r = u) (outlet_assignments db))
        in mine = [] \<or> list_ex (\<lambda>i. i \<in> set wanted) mine)) users"

section \<open>Locks\<close>

definition lockStockItemsSorted :: "stock_db \<Rightarrow> nat list \<Rightarrow> (nat \<times> stock_item) list result" where
  "lockStockItemsSorted db ids = foldM (\<lambda>locked i. case t_get (stock_items db) i of
       None \<Rightarrow> Inl (ValidationError ''STOCK_ITEM_NOT_FOUND'')
     | Some r \<Rightarrow> Inr (locked @ [(i, r)])) [] (sort (js_unique ids))"

definition components_of :: "stock_db \<Rightarrow> nat \<Rightarrow> nat list" where
  "components_of db m = map (cp_item \<circ> snd) (t_select (\<lambda>_ c. cp_menu c = m) (menu_item_components db))"

definition menus_using :: "stock_db \<Rightarrow> nat list \<Rightarrow> nat list" where
  "menus_using db ids = js_unique (map (cp_menu \<circ> snd) (t_select (\<lambda>_ c. cp_item c \<in> set ids) (menu_item_components db)))"

definition resolveLockClosure :: "stock_db \<Rightarrow> nat list \<Rightarrow> nat list" where
  "resolveLockClosure db ids =
     (let unique = js_unique ids; menus = menus_using db unique
      in if unique = [] \<or> menus = [] then unique
         else js_unique (unique @ map (cp_item \<circ> snd) (t_select (\<lambda>_ c. cp_menu c \<in> set menus) (menu_item_components db))))"

section \<open>On-hand quantities\<close>

definition level_row :: "stock_db \<Rightarrow> nat \<Rightarrow> nat \<Rightarrow> (nat \<times> stock_level) option" where
  "level_row db ou i = t_first (\<lambda>_ l. sl_outlet l = ou \<and> sl_item l = i) (stock_levels db)"

definition on_hand :: "stock_db \<Rightarrow> nat \<Rightarrow> nat \<Rightarrow> int" where
  "on_hand db ou i = (case level_row db ou i of None \<Rightarrow> 0 | Some (_, l) \<Rightarrow> sl_quantity l)"

definition upsertLevel :: "nat \<Rightarrow> nat \<Rightarrow> (stock_level \<Rightarrow> stock_level) \<Rightarrow> stock_db \<Rightarrow> stock_db" where
  "upsertLevel ou i f db = (case level_row db ou i of
     Some (k, _) \<Rightarrow> db\<lparr>stock_levels := t_update (by_id k) f (stock_levels db)\<rparr>
   | None \<Rightarrow> db\<lparr>stock_levels := t_insert (f \<lparr>sl_outlet = ou, sl_item = i, sl_quantity = 0,
       sl_reorder = (case t_get (stock_items db) i of None \<Rightarrow> 0 | Some r \<Rightarrow> si_reorder r)\<rparr>) (stock_levels db)\<rparr>)"

definition notifyStockThresholdCrossings :: "nat \<Rightarrow> nat \<Rightarrow> int \<Rightarrow> int \<Rightarrow> int \<Rightarrow> stock_db \<Rightarrow> stock_db" where
  "notifyStockThresholdCrossings i ou beforeQuantity reorderLevel currentQuantity db =
     (if beforeQuantity > 0 \<and> currentQuantity \<le> 0 then db\<lparr>alert_log := alert_log db @ [OutOfStock i ou currentQuantity]\<rparr>
      else if reorderLevel > 0 \<and> currentQuantity > 0 \<and> beforeQuantity > reorderLevel \<and> currentQuantity \<le> reorderLevel
      then db\<lparr>alert_log := alert_log db @ [ReorderLevelReached i ou currentQuantity]\<rparr>
      else db)"

definition outlet_sum :: "stock_db \<Rightarrow> nat \<Rightarrow> nat \<Rightarrow> int" where
  "outlet_sum db ou i = t_total (\<lambda>_ m. mv_item m = i \<and> mv_outlet m = ou) mv_quantity (stock_movements db)"

definition item_sum :: "stock_db \<Rightarrow> nat \<Rightarrow> int" where
  "item_sum db i = t_total (\<lambda>_ m. mv_item m = i) mv_quantity (stock_movements db)"

definition recomputeStockLevel :: "nat \<Rightarrow> nat \<Rightarrow> stock_db \<Rightarrow> stock_db" where
  "recomputeStockLevel i ou db =
     (let item = t_get (stock_items db) i;
          before = map_option snd (level_row db ou i);
          currentQuantity = outlet_sum db ou i;
          db1 = upsertLevel ou i (\<lambda>l. l\<lparr>sl_quantity := currentQuantity\<rparr>) db;
          db2 = db1\<lparr>stock_items := t_update (by_id i) (\<lambda>s. s\<lparr>si_quantity := item_sum db1 i\<rparr>) (stock_items db1)\<rparr>
      in case item of None \<Rightarrow> db2
         | Some it \<Rightarrow> notifyStockThresholdCrossings i ou (case before of None \<Rightarrow> 0 | Some l \<Rightarrow> sl_quantity l)
             (case before of None \<Rightarrow> si_reorder it | Some l \<Rightarrow> sl_reorder l) currentQuantity db2)"

section \<open>What an outlet sells\<close>

definition lower :: "char \<Rightarrow> char" where
  "lower c = (if 65 \<le> (of_char c :: nat) \<and> (of_char c :: nat) \<le> 90 then char_of (of_char c + 32 :: nat) else c)"

definition nameKey :: "string \<Rightarrow> string" where "nameKey s = map lower (js_trim s)"

definition carriedCategoryNames :: "stock_db \<Rightarrow> nat \<Rightarrow> string list" where
  "carriedCategoryNames db ou =
     List.map_filter (\<lambda>(_, r). t_get (menu_categories db) (oc_category r)) (t_select (\<lambda>_ r. oc_outlet r = ou) (outlet_categories db))"

definition carries :: "stock_db \<Rightarrow> nat \<Rightarrow> string \<Rightarrow> bool" where
  "carries db ou name \<longleftrightarrow> nameKey name \<in> set (map nameKey (carriedCategoryNames db ou))"

definition setting_row :: "stock_db \<Rightarrow> nat \<Rightarrow> nat \<Rightarrow> (nat \<times> menu_setting) option" where
  "setting_row db ou m = t_first (\<lambda>_ s. ms_outlet s = ou \<and> ms_menu s = m) (outlet_menu_items db)"

text \<open>An item without a row of its own at the outlet is available.\<close>

definition applyOutletSetting :: "stock_db \<Rightarrow> nat \<Rightarrow> nat \<Rightarrow> bool \<times> bool" where
  "applyOutletSetting db ou m = (case setting_row db ou m of None \<Rightarrow> (True, False) | Some (_, s) \<Rightarrow> (ms_available s, ms_auto_off s))"

definition menuItemAtOutlet :: "stock_db \<Rightarrow> nat \<Rightarrow> nat \<Rightarrow> (menu_item \<times> bool) option" where
  "menuItemAtOutlet db ou m = (case t_get (menu_items db) m of
     None \<Rightarrow> None
   | Some mi \<Rightarrow> if mi_status mi = ''active'' \<and> carries db ou (mi_category mi) then Some (mi, fst (applyOutletSetting db ou m)) else None)"

text \<open>What the item costs at the outlet: the outlet's own price, or the main one.\<close>

definition outlet_price :: "stock_db \<Rightarrow> nat \<Rightarrow> nat \<Rightarrow> menu_item \<Rightarrow> int" where
  "outlet_price db ou m mi = (case setting_row db ou m of None \<Rightarrow> mi_price mi
     | Some (_, s) \<Rightarrow> (case ms_price s of None \<Rightarrow> mi_price mi | Some p \<Rightarrow> p))"

definition upsertOutletMenuSetting :: "nat \<Rightarrow> nat \<Rightarrow> (menu_setting \<Rightarrow> menu_setting) \<Rightarrow> stock_db \<Rightarrow> stock_db" where
  "upsertOutletMenuSetting ou m f db = (case setting_row db ou m of
     Some (k, _) \<Rightarrow> db\<lparr>outlet_menu_items := t_update (by_id k) f (outlet_menu_items db)\<rparr>
   | None \<Rightarrow> db\<lparr>outlet_menu_items := t_insert (f \<lparr>ms_outlet = ou, ms_menu = m, ms_price = None, ms_available = True, ms_auto_off = False\<rparr>)
       (outlet_menu_items db)\<rparr>)"

abbreviation switch_menu_item :: "nat \<Rightarrow> nat \<Rightarrow> bool \<Rightarrow> bool \<Rightarrow> stock_db \<Rightarrow> stock_db" where
  "switch_menu_item ou m available autoOff \<equiv> upsertOutletMenuSetting ou m (\<lambda>s. s\<lparr>ms_available := available, ms_auto_off := autoOff\<rparr>)"

text \<open>Every active item of the categories an outlet carries, with what it costs there and whether it is on sale.\<close>

definition menuItemsForOutlet :: "stock_db \<Rightarrow> nat \<Rightarrow> (nat \<times> int \<times> bool) list" where
  "menuItemsForOutlet db ou = map (\<lambda>(m, mi). (m, outlet_price db ou m mi, fst (applyOutletSetting db ou m)))
     (t_select (\<lambda>_ mi. mi_status mi = ''active'' \<and> list_ex (\<lambda>n. map lower n = map lower (mi_category mi)) (carriedCategoryNames db ou)) (menu_items db))"

definition carryCategory :: "nat \<Rightarrow> nat \<Rightarrow> stock_db \<Rightarrow> stock_db" where
  "carryCategory ou c db =
     (if t_first (\<lambda>_ r. oc_outlet r = ou \<and> oc_category r = c) (outlet_categories db) \<noteq> None then db
      else db\<lparr>outlet_categories := t_insert \<lparr>oc_outlet = ou, oc_category = c\<rparr> (outlet_categories db)\<rparr>)"

definition availability_effect :: "nat \<Rightarrow> string list \<Rightarrow> bool \<Rightarrow> nat \<Rightarrow> stock_db \<Rightarrow> stock_db" where
  "availability_effect ou soldHere supermarket m db = (case t_get (menu_items db) m of
     None \<Rightarrow> db
   | Some mi \<Rightarrow>
       if mi_status mi \<noteq> ''active'' \<or> nameKey (mi_category mi) \<notin> set soldHere then db
       else let anyDepleted = list_ex (\<lambda>i. on_hand db ou i \<le> 0) (components_of db m);
                (available, autoOff) = applyOutletSetting db ou m
         in if supermarket then if \<not> available \<and> autoOff then switch_menu_item ou m True False db else db
            else if anyDepleted \<and> available then switch_menu_item ou m False True db
            else if \<not> anyDepleted \<and> \<not> available \<and> autoOff then switch_menu_item ou m True False db
            else db)"

text \<open>The items the guard locks: those that moved and the siblings of their recipes.\<close>

definition effect_locks :: "stock_db \<Rightarrow> nat list \<Rightarrow> nat list" where
  "effect_locks db ids = ids @ map (cp_item \<circ> snd) (t_select (\<lambda>_ c. cp_menu c \<in> set (menus_using db ids)) (menu_item_components db))"

definition applyStockAvailabilityEffects :: "nat list \<Rightarrow> nat \<Rightarrow> stock_db \<Rightarrow> stock_db result" where
  "applyStockAvailabilityEffects ids ou db =
     (let menus = sort (menus_using db ids)
      in if menus = [] then Inr db
         else rbind (lockStockItemsSorted db (effect_locks db ids)) (\<lambda>_.
           let soldHere = map nameKey (carriedCategoryNames db ou);
               supermarket = (case t_get (outlets db) ou of None \<Rightarrow> False | Some x \<Rightarrow> isSupermarketOutlet (Some x))
           in Inr (fold (availability_effect ou soldHere supermarket) menus db)))"

end
