(* ===== verification/StockOps.thy ===== *)
theory StockOps
  imports Stock
begin

text \<open>
  The operations of \<open>modules/stock/service.js\<close> that move stock. Each is one transaction; a refusal writes nothing. A generated
  reference (\<open>TRF-\<close> and a ULID) is an argument. The quantities of a request are checked by the controller.
\<close>

section \<open>Sales\<close>

text \<open>A JavaScript \<open>Map\<close> from stock item to quantity: an update keeps the position of its key.\<close>

fun add_qty :: "nat \<Rightarrow> int \<Rightarrow> (nat \<times> int) list \<Rightarrow> (nat \<times> int) list" where
  "add_qty k v [] = [(k, v)]"
| "add_qty k v ((j, w) # xs) = (if j = k then (j, w + v) # xs else (j, w) # add_qty k v xs)"

definition ordered_quantity :: "(nat \<times> int) list \<Rightarrow> nat \<Rightarrow> int" where
  "ordered_quantity lines m = sum_list (map snd (filter (\<lambda>(j, _). j = m) lines))"

definition computeStockDeductionsForLines :: "stock_db \<Rightarrow> (nat \<times> int) list \<Rightarrow> (nat \<times> int) list" where
  "computeStockDeductionsForLines db lines =
     foldl (\<lambda>ds (_, c). add_qty (cp_item c) (cp_quantity c * ordered_quantity lines (cp_menu c)) ds) []
       (t_select (\<lambda>_ c. cp_menu c \<in> set (map fst lines)) (menu_item_components db))"

definition findStockShortfalls :: "stock_db \<Rightarrow> (nat \<times> int) list \<Rightarrow> nat \<Rightarrow> (nat \<times> int \<times> int) list" where
  "findStockShortfalls db lines ou = (let deductions = computeStockDeductionsForLines db lines
     in sort_key fst (List.map_filter (\<lambda>(i, _). case map_of deductions i of None \<Rightarrow> None
          | Some needed \<Rightarrow> if on_hand db ou i + - needed < 0 then Some (i, on_hand db ou i, needed) else None) (rows (stock_items db))))"

definition units_of :: "stock_db \<Rightarrow> nat \<Rightarrow> recipe_line \<Rightarrow> int" where
  "units_of db ou c = (if cp_quantity c > 0 \<and> on_hand db ou (cp_item c) > 0 then on_hand db ou (cp_item c) div cp_quantity c else 0)"

definition unitsOnHandForMenuItem :: "stock_db \<Rightarrow> nat \<Rightarrow> nat \<Rightarrow> int option" where
  "unitsOnHandForMenuItem db ou m = (case map snd (t_select (\<lambda>_ c. cp_menu c = m) (menu_item_components db)) of
     [] \<Rightarrow> None | c # cs \<Rightarrow> Some (foldl (\<lambda>u c. min u (units_of db ou c)) (units_of db ou c) cs))"

text \<open>The items a sale would take to zero or below; without a reason it is refused, and with one the overrides are logged.\<close>

definition affected_items :: "stock_db \<Rightarrow> (nat \<times> int) list \<Rightarrow> nat \<Rightarrow> (nat \<times> int) list" where
  "affected_items db lines ou = (let deductions = computeStockDeductionsForLines db lines
     in List.map_filter (\<lambda>(i, _). case map_of deductions i of None \<Rightarrow> None
          | Some deduction \<Rightarrow> let projected = on_hand db ou i + - deduction in if projected \<le> 0 then Some (i, projected) else None)
        (rows (stock_items db)))"

definition assertStockAvailableOrOverridden ::
    "(nat \<times> int) list \<Rightarrow> string option \<Rightarrow> nat \<Rightarrow> ((nat \<times> int) list \<Rightarrow> unit result) option \<Rightarrow> stock_db \<Rightarrow> (nat list \<times> stock_db) result" where
  "assertStockAvailableOrOverridden lines overrideReason ou onOverride db =
     (let affected = affected_items db lines ou
      in if affected = [] then Inr ([], db)
         else if js_trim (case overrideReason of None \<Rightarrow> [] | Some r \<Rightarrow> r) = [] then Inl (InsufficientStockOverrideRequiredError affected)
         else rbind (case onOverride of None \<Rightarrow> Inr () | Some approve \<Rightarrow> approve affected) (\<lambda>_.
           Inr (map fst affected, db\<lparr>override_log := override_log db @ affected\<rparr>)))"

definition add_movement :: "stock_movement \<Rightarrow> stock_db \<Rightarrow> stock_db" where
  "add_movement m db = db\<lparr>stock_movements := t_insert m (stock_movements db)\<rparr>"

text \<open>Every movement is followed by the recomputation of its item at its outlet.\<close>

definition post_movement :: "stock_movement \<Rightarrow> stock_db \<Rightarrow> stock_db" where
  "post_movement m db = recomputeStockLevel (mv_item m) (mv_outlet m) (add_movement m db)"

definition plain_movement :: "nat \<Rightarrow> nat \<Rightarrow> movement_type \<Rightarrow> int \<Rightarrow> int \<Rightarrow> date option \<Rightarrow> stock_movement" where
  "plain_movement ou i ty q cost d = \<lparr>mv_outlet = ou, mv_item = i, mv_type = ty, mv_quantity = q, mv_unit_cost = cost,
     mv_total_cost = extended_cost_cents cost q, mv_date = d, mv_order = None, mv_settlement = None, mv_reversed = None, mv_take = None,
     mv_reference = None\<rparr>"

definition sell_one :: "nat \<Rightarrow> nat \<Rightarrow> nat \<Rightarrow> date option \<Rightarrow> (nat \<times> stock_item) list \<Rightarrow> stock_db \<Rightarrow> nat \<times> int \<Rightarrow> stock_db result" where
  "sell_one ou orderId settlementId d locked db x = (case x of (i, deduction) \<Rightarrow> (case map_of locked i of
     None \<Rightarrow> Inl TypeError
   | Some it \<Rightarrow> Inr (post_movement ((plain_movement ou i GoodsSold (- deduction) (si_cost it) d)
       \<lparr>mv_order := Some orderId, mv_settlement := Some settlementId\<rparr>) db)))"

definition deductStockForSettlement :: "nat \<Rightarrow> nat \<Rightarrow> (nat \<times> int) list \<Rightarrow> date option \<Rightarrow> stock_db \<Rightarrow> stock_db result" where
  "deductStockForSettlement orderId settlementId items d db =
     (let deductions = computeStockDeductionsForLines db items; ids = map fst deductions
      in if deductions = [] then Inr db
         else (case t_get (pos_orders db) orderId of
             None \<Rightarrow> Inl TypeError
           | Some ou \<Rightarrow>
               rbind (lockStockItemsSorted db (resolveLockClosure db ids)) (\<lambda>locked.
               rbind (foldM (sell_one ou orderId settlementId d locked) db deductions) (\<lambda>db1.
               applyStockAvailabilityEffects ids ou db1))))"

definition reverse_one :: "stock_db \<Rightarrow> nat \<times> stock_movement \<Rightarrow> stock_db" where
  "reverse_one db x = (case x of (k, m) \<Rightarrow> post_movement
     ((plain_movement (mv_outlet m) (mv_item m) SaleReversed (- mv_quantity m) (mv_unit_cost m) (mv_date m))
        \<lparr>mv_order := mv_order m, mv_settlement := mv_settlement m, mv_reversed := Some k\<rparr>) db)"

definition sold_by :: "nat \<Rightarrow> nat \<Rightarrow> stock_movement \<Rightarrow> bool" where
  "sold_by settlementId k m \<longleftrightarrow> mv_settlement m = Some settlementId \<and> mv_type m = GoodsSold"

definition reverseStockForSettlement :: "nat \<Rightarrow> stock_db \<Rightarrow> stock_db result" where
  "reverseStockForSettlement settlementId db =
     (let originals = t_select (sold_by settlementId) (stock_movements db); ids = js_unique (map (mv_item \<circ> snd) originals)
      in if originals = [] then Inr db
         else rbind (lockStockItemsSorted db (resolveLockClosure db ids)) (\<lambda>_.
           foldM (\<lambda>db ou. applyStockAvailabilityEffects (map (mv_item \<circ> snd) (filter (\<lambda>(_, m). mv_outlet m = ou) originals)) ou db)
             (foldl reverse_one db originals) (js_unique (map (mv_outlet \<circ> snd) originals))))"

section \<open>Items and recipes\<close>

definition assertOutlet :: "stock_db \<Rightarrow> nat \<Rightarrow> outlet result" where
  "assertOutlet db ou = (case t_get (outlets db) ou of
     None \<Rightarrow> Inl (ValidationError ''OUTLET_NOT_FOUND'')
   | Some x \<Rightarrow> if o_status x \<noteq> ''active'' then Inl (ValidationError ''OUTLET_NOT_FOUND'') else Inr x)"

text \<open>
  A category is optional; a name must be registered and active. Names are compared without case, as the column's collation does
  (here for ASCII letters). The menu category of the same name is what an outlet carries.
\<close>

definition resolveStockCategoryName :: "stock_db \<Rightarrow> string option \<Rightarrow> string option result" where
  "resolveStockCategoryName db name =
     (let trimmed = js_trim (case name of None \<Rightarrow> [] | Some n \<Rightarrow> n)
      in if trimmed = [] then Inr None
         else (case t_first (\<lambda>_ c. map lower (sc_name c) = map lower trimmed \<and> sc_status c = ''active'') (stock_item_categories db) of
             None \<Rightarrow> Inl (ValidationFieldError ''CATEGORY_NOT_FOUND'' ''category'' ''not_registered'')
           | Some (_, c) \<Rightarrow> Inr (Some (sc_name c))))"

definition carryCategoryByName :: "nat \<Rightarrow> string option \<Rightarrow> stock_db \<Rightarrow> stock_db" where
  "carryCategoryByName ou name db = (case name of
     None \<Rightarrow> db
   | Some n \<Rightarrow> if n = [] then db
       else (case t_first (\<lambda>_ c. map lower c = map lower (js_trim n)) (menu_categories db) of
           None \<Rightarrow> db | Some (c, _) \<Rightarrow> carryCategory ou c db))"

definition createStockItem ::
    "nat option \<Rightarrow> string option \<Rightarrow> int option \<Rightarrow> int option \<Rightarrow> stock_db \<Rightarrow> (nat \<times> stock_db) result" where
  "createStockItem outletId category purchaseCost reorderLevel db =
     rbind (case outletId of None \<Rightarrow> Inr () | Some ou \<Rightarrow> map_sum id (\<lambda>_. ()) (assertOutlet db ou)) (\<lambda>_.
     rbind (resolveStockCategoryName db category) (\<lambda>categoryName.
       let i = next_id (stock_items db); reorder = (case reorderLevel of None \<Rightarrow> 0 | Some r \<Rightarrow> r);
           db1 = db\<lparr>stock_items := t_insert \<lparr>si_active = True, si_category = categoryName,
             si_cost = (case purchaseCost of None \<Rightarrow> 0 | Some c \<Rightarrow> c), si_quantity = 0, si_reorder = reorder\<rparr> (stock_items db)\<rparr>
       in Inr (i, case outletId of None \<Rightarrow> db1
            | Some ou \<Rightarrow> carryCategoryByName ou categoryName (upsertLevel ou i (\<lambda>l. l\<lparr>sl_reorder := reorder\<rparr>) db1))))"

text \<open>The columns a change names; with an outlet, a reorder level is that outlet's own.\<close>

record item_changes =
  ic_category :: "string option option"
  ic_cost :: "int option"
  ic_reorder :: "int option"
  ic_active :: "bool option"

definition changed_item :: "item_changes \<Rightarrow> string option option \<Rightarrow> int option \<Rightarrow> stock_item \<Rightarrow> stock_item" where
  "changed_item ch category reorder it = it\<lparr>
     si_category := (case category of None \<Rightarrow> si_category it | Some c \<Rightarrow> c),
     si_cost := (case ic_cost ch of None \<Rightarrow> si_cost it | Some c \<Rightarrow> c),
     si_reorder := (case reorder of None \<Rightarrow> si_reorder it | Some r \<Rightarrow> r),
     si_active := (case ic_active ch of None \<Rightarrow> si_active it | Some a \<Rightarrow> a)\<rparr>"

definition updateStockItem :: "nat \<Rightarrow> item_changes \<Rightarrow> nat option \<Rightarrow> stock_db \<Rightarrow> stock_db result" where
  "updateStockItem i ch outletId db =
     rbind (case ic_category ch of
         None \<Rightarrow> Inr None
       | Some name \<Rightarrow>
           if (case t_get (stock_items db) i of None \<Rightarrow> False
               | Some it \<Rightarrow> (case name of None \<Rightarrow> False | Some n \<Rightarrow> Some (js_trim n) = si_category it)) then Inr None
           else map_sum id Some (resolveStockCategoryName db name)) (\<lambda>category.
     case (outletId, ic_reorder ch) of
       (Some ou, Some r) \<Rightarrow> rbind (assertOutlet db ou) (\<lambda>_.
           if t_get (stock_items db) i = None then Inl (ValidationError ''STOCK_ITEM_NOT_FOUND'')
           else let db1 = upsertLevel ou i (\<lambda>l. l\<lparr>sl_reorder := r\<rparr>) db
             in Inr (db1\<lparr>stock_items := t_update (by_id i) (changed_item ch category None) (stock_items db1)\<rparr>))
     | _ \<Rightarrow> Inr (db\<lparr>stock_items := t_update (by_id i) (changed_item ch category (ic_reorder ch)) (stock_items db)\<rparr>))"

text \<open>An item as an outlet sees it: its own quantity and reorder level there.\<close>

definition withLevel :: "stock_db \<Rightarrow> nat \<Rightarrow> nat \<Rightarrow> stock_item \<Rightarrow> int \<times> int" where
  "withLevel db ou i it = (case level_row db ou i of None \<Rightarrow> (0, si_reorder it) | Some (_, l) \<Rightarrow> (sl_quantity l, sl_reorder l))"

definition listStockItems :: "stock_db \<Rightarrow> nat \<Rightarrow> bool \<Rightarrow> bool \<Rightarrow> (nat \<times> int \<times> int) list" where
  "listStockItems db ou lowStockOnly carriedOnly =
     filter (\<lambda>(_, q, level). \<not> lowStockOnly \<or> q \<le> level)
       (map (\<lambda>(i, it). (i, withLevel db ou i it))
         (t_select (\<lambda>i it. si_active it \<and> ((case si_category it of None \<Rightarrow> False | Some c \<Rightarrow> c \<noteq> [] \<and> carries db ou c)
            \<or> \<not> carriedOnly \<and> level_row db ou i \<noteq> None)) (stock_items db)))"

definition archiveStockItem :: "nat \<Rightarrow> stock_db \<Rightarrow> stock_db result" where
  "archiveStockItem i = updateStockItem i \<lparr>ic_category = None, ic_cost = None, ic_reorder = None, ic_active = Some False\<rparr> None"

definition upsertMenuItemComponents :: "nat \<Rightarrow> (nat \<times> int) list \<Rightarrow> stock_db \<Rightarrow> stock_db result" where
  "upsertMenuItemComponents m components db =
     (if t_get (menu_items db) m = None then Inl (ValidationError ''MENU_ITEM_NOT_FOUND'')
      else if list_ex (\<lambda>(i, _). t_get (stock_items db) i = None) components then Inl (ValidationError ''STOCK_ITEM_NOT_FOUND'')
      else if \<not> distinct (map fst components) then Inl (DuplicateEntry ''pos_menu_item_components_menu_stock_unique'')
      else Inr (db\<lparr>menu_item_components := foldl (\<lambda>t (i, q). t_insert \<lparr>cp_menu = m, cp_item = i, cp_quantity = q\<rparr> t)
          (t_delete (\<lambda>_ c. cp_menu c = m) (menu_item_components db)) components\<rparr>))"

section \<open>Deliveries and wastage\<close>

definition active_stores :: "stock_db \<Rightarrow> (nat \<times> outlet) list" where
  "active_stores db = t_select (\<lambda>_ x. o_type x = STORE_OUTLET_TYPE \<and> o_status x = ''active'') (outlets db)"

definition assertReceivableOutlet :: "stock_db \<Rightarrow> nat \<Rightarrow> outlet \<Rightarrow> bool \<Rightarrow> unit result" where
  "assertReceivableOutlet db ou x openingStock =
     (if o_type x = STORE_OUTLET_TYPE \<or> openingStock \<and> isSupermarketOutlet (Some x) then Inr ()
      else if active_stores db = [] then Inr () else Inl (ReceiveAtStoreOnlyError ou))"

definition receive_one :: "nat \<Rightarrow> string option \<Rightarrow> date option \<Rightarrow> stock_db \<Rightarrow> nat \<times> int \<times> int \<Rightarrow> stock_db" where
  "receive_one ou ref d db x = (case x of (i, q, cost) \<Rightarrow>
     (let db1 = add_movement ((plain_movement ou i GoodsReceived q cost d)\<lparr>mv_reference := ref\<rparr>) db
      in recomputeStockLevel i ou (db1\<lparr>stock_items := t_update (by_id i) (\<lambda>s. s\<lparr>si_cost := cost\<rparr>) (stock_items db1)\<rparr>)))"

definition recordGoodsReceived :: "nat \<Rightarrow> (nat \<times> int \<times> int) list \<Rightarrow> string option \<Rightarrow> date option \<Rightarrow> bool \<Rightarrow> stock_db \<Rightarrow> stock_db result" where
  "recordGoodsReceived ou lines ref d openingStock db =
     (if lines = [] then Inl (ValidationFieldError ''MISSING_FIELD'' ''lines'' ''missing'')
      else rbind (assertOutlet db ou) (\<lambda>x.
           rbind (assertReceivableOutlet db ou x openingStock) (\<lambda>_.
           let ids = js_unique (map fst lines)
           in rbind (lockStockItemsSorted db (resolveLockClosure db ids)) (\<lambda>_.
              applyStockAvailabilityEffects ids ou (foldl (receive_one ou ref d) db lines)))))"

definition recordWastage :: "nat \<Rightarrow> nat option \<Rightarrow> int \<Rightarrow> string option \<Rightarrow> date option \<Rightarrow> stock_db \<Rightarrow> stock_db result" where
  "recordWastage i outletId quantity reason d db =
     (if \<not> given reason then Inl (ValidationError ''MISSING_FIELD'')
      else (case outletId of
          None \<Rightarrow> Inl (ValidationFieldError ''MISSING_FIELD'' ''outlet_id'' ''missing'')
        | Some ou \<Rightarrow> rbind (assertOutlet db ou) (\<lambda>_.
            rbind (lockStockItemsSorted db (resolveLockClosure db [i])) (\<lambda>locked. (case map_of locked i of
                None \<Rightarrow> Inl TypeError
              | Some it \<Rightarrow> applyStockAvailabilityEffects [i] ou (post_movement (plain_movement ou i GoodsWasted (- quantity) (si_cost it) d) db))))))"

section \<open>Transfers\<close>

definition transferStock :: "nat \<Rightarrow> nat \<Rightarrow> nat \<Rightarrow> int \<Rightarrow> string \<Rightarrow> date option \<Rightarrow> stock_db \<Rightarrow> stock_db result" where
  "transferStock i from_outlet to_outlet quantity ref d db =
     (if from_outlet = to_outlet then Inl (ValidationFieldError ''SAME_OUTLET_TRANSFER'' ''to_outlet_id'' ''same_as_from'')
      else rbind (assertOutlet db from_outlet) (\<lambda>_.
           rbind (assertOutlet db to_outlet) (\<lambda>_.
           rbind (lockStockItemsSorted db (resolveLockClosure db [i])) (\<lambda>locked. (case map_of locked i of
               None \<Rightarrow> Inl (ValidationError ''STOCK_ITEM_NOT_FOUND'')
             | Some it \<Rightarrow>
                 if \<not> si_active it then Inl (ValidationError ''STOCK_ITEM_NOT_FOUND'')
                 else if on_hand db from_outlet i < quantity
                 then Inl (InsufficientStockForTransferError i from_outlet (on_hand db from_outlet i) quantity)
                 else let leg = (\<lambda>ou q. (plain_movement ou i StockTransferred q (si_cost it) d)\<lparr>mv_reference := Some ref\<rparr>);
                          db1 = add_movement (leg to_outlet quantity) (add_movement (leg from_outlet (- quantity)) db);
                          db2 = recomputeStockLevel i to_outlet (recomputeStockLevel i from_outlet db1)
                   in rbind (applyStockAvailabilityEffects [i] from_outlet db2) (applyStockAvailabilityEffects [i] to_outlet))))))"

section \<open>Requests\<close>

definition lockPendingRequest :: "stock_db \<Rightarrow> nat \<Rightarrow> nat option \<Rightarrow> transfer_request result" where
  "lockPendingRequest db rid user = (case t_get (transfer_requests db) rid of
     None \<Rightarrow> Inl StockTransferRequestNotFoundError
   | Some r \<Rightarrow>
       if \<not> scopeCovers (outletScopeForUser db user) [tq_from r, tq_to r] then Inl StockTransferRequestNotFoundError
       else if tq_status r \<noteq> RequestPending then Inl (StockTransferRequestNotPendingError rid)
       else Inr r)"

definition lines_of :: "stock_db \<Rightarrow> nat \<Rightarrow> (nat \<times> request_line) list" where
  "lines_of db rid = t_select (\<lambda>_ l. rl_request l = rid) (transfer_request_lines db)"

definition sent_short :: "request_line \<Rightarrow> bool" where
  "sent_short l \<longleftrightarrow> (case rl_issued l of None \<Rightarrow> 0 | Some q \<Rightarrow> q) < rl_requested l"

definition live_top_up :: "nat \<Rightarrow> nat \<Rightarrow> transfer_request \<Rightarrow> bool" where
  "live_top_up rid k r \<longleftrightarrow> tq_top_up_of r = Some rid \<and> (tq_status r = RequestPending \<or> tq_status r = RequestIssued)"

definition assertCanTopUp :: "stock_db \<Rightarrow> nat \<Rightarrow> nat \<Rightarrow> nat \<Rightarrow> nat option \<Rightarrow> unit result" where
  "assertCanTopUp db rid from_outlet to_outlet user = (case t_get (transfer_requests db) rid of
     None \<Rightarrow> Inl StockTransferRequestNotFoundError
   | Some r \<Rightarrow>
       if \<not> scopeCovers (outletScopeForUser db user) [tq_from r, tq_to r] then Inl StockTransferRequestNotFoundError
       else if tq_from r \<noteq> from_outlet \<or> tq_to r \<noteq> to_outlet
       then Inl (ValidationFieldError ''TOP_UP_OUTLETS_MISMATCH'' ''top_up_of_request_id'' ''outlets_mismatch'')
       else if tq_status r \<noteq> RequestIssued then Inl (TopUpRequiresShortIssueError rid)
       else if \<not> list_ex (sent_short \<circ> snd) (lines_of db rid) then Inl (TopUpRequiresShortIssueError rid)
       else (case t_first (live_top_up rid) (transfer_requests db) of
           None \<Rightarrow> Inr () | Some (k, _) \<Rightarrow> Inl (RequestAlreadyToppedUpError rid k)))"

text \<open>A cashier tied to a supermarket asks the store, for products of the supermarket's own categories.\<close>

definition mart_request_ok :: "stock_db \<Rightarrow> outlet \<Rightarrow> nat \<Rightarrow> nat list \<Rightarrow> unit result" where
  "mart_request_ok db from_outlet to_outlet ids =
     (if o_type from_outlet \<noteq> STORE_OUTLET_TYPE then Inl SupermarketRequestMustComeFromStoreError
      else let foreign = map fst (t_select (\<lambda>i it. i \<in> set ids \<and> \<not> (case si_category it of None \<Rightarrow> False
                | Some c \<Rightarrow> c \<noteq> [] \<and> carries db to_outlet c)) (stock_items db))
        in if foreign = [] then Inr () else Inl (RequestItemNotAtOutletError foreign))"

definition createTransferRequest ::
    "nat \<Rightarrow> nat \<Rightarrow> (nat \<times> int) list \<Rightarrow> nat option \<Rightarrow> nat option \<Rightarrow> stock_db \<Rightarrow> (nat \<times> stock_db) result" where
  "createTransferRequest from_outlet to_outlet lines user topUpOf db =
     (if from_outlet = to_outlet then Inl (ValidationFieldError ''SAME_OUTLET_TRANSFER'' ''to_outlet_id'' ''same_as_from'')
      else rbind (case topUpOf of None \<Rightarrow> Inr () | Some rid \<Rightarrow> assertCanTopUp db rid from_outlet to_outlet user) (\<lambda>_.
           rbind (assertOutlet db from_outlet) (\<lambda>source.
           rbind (assertOutlet db to_outlet) (\<lambda>dest.
           let scope = outletScopeForUser db user; ids = map fst lines
           in if scope \<noteq> None \<and> to_outlet \<notin> set (the scope)
              then Inl (ValidationFieldError ''OUTLET_NOT_ASSIGNED'' ''to_outlet_id'' ''not_assigned'')
              else if \<not> distinct ids then Inl (ValidationFieldError ''DUPLICATE_STOCK_ITEM'' ''lines'' ''duplicate'')
              else if list_ex (\<lambda>i. case t_get (stock_items db) i of None \<Rightarrow> True | Some it \<Rightarrow> \<not> si_active it) ids
              then Inl (ValidationError ''STOCK_ITEM_NOT_FOUND'')
              else rbind (if scope \<noteq> None \<and> isSupermarketOutlet (Some dest) then mart_request_ok db source to_outlet ids else Inr ()) (\<lambda>_.
                let rid = next_id (transfer_requests db)
                in Inr (rid, db\<lparr>transfer_requests := t_insert \<lparr>tq_from = from_outlet, tq_to = to_outlet, tq_status = RequestPending,
                       tq_top_up_of = topUpOf, tq_by = user, tq_decided_by = None, tq_date = None\<rparr> (transfer_requests db),
                     transfer_request_lines := foldl (\<lambda>t (i, q). t_insert \<lparr>rl_request = rid, rl_item = i, rl_requested = q,
                       rl_issued = None, rl_reference = None\<rparr> t) (transfer_request_lines db) lines\<rparr>))))))"

text \<open>One quantity for each item of the request, none above what was asked.\<close>

definition take_line_given :: "(nat \<times> int) list \<Rightarrow> (nat \<times> int) list \<Rightarrow> nat \<times> int \<Rightarrow> (nat \<times> int) list result" where
  "take_line_given asked given_so_far line = (case line of (i, q) \<Rightarrow> (case map_of asked i of
     None \<Rightarrow> Inl (ValidationFieldError ''ISSUE_LINES_MISMATCH'' ''lines'' ''mismatch'')
   | Some requested \<Rightarrow>
       if i \<in> fst ` set given_so_far then Inl (ValidationFieldError ''ISSUE_LINES_MISMATCH'' ''lines'' ''mismatch'')
       else if q > requested then Inl (ValidationFieldError ''QUANTITY_EXCEEDS_REQUEST'' ''lines'' ''exceeds_request'')
       else Inr (given_so_far @ [(i, q)])))"

definition set_request :: "nat \<Rightarrow> (transfer_request \<Rightarrow> transfer_request) \<Rightarrow> stock_db \<Rightarrow> stock_db" where
  "set_request rid f db = db\<lparr>transfer_requests := t_update (by_id rid) f (transfer_requests db)\<rparr>"

definition issueTransferRequest ::
    "nat \<Rightarrow> (nat \<times> int) list \<Rightarrow> nat option \<Rightarrow> (nat \<Rightarrow> string) \<Rightarrow> date option \<Rightarrow> stock_db \<Rightarrow> stock_db result" where
  "issueTransferRequest rid lines user refs d db =
     rbind (lockPendingRequest db rid user) (\<lambda>r.
     let asked = map (\<lambda>(_, l). (rl_item l, rl_requested l)) (lines_of db rid)
     in rbind (foldM (take_line_given asked) [] lines) (\<lambda>quantities.
        if length quantities \<noteq> length asked then Inl (ValidationFieldError ''ISSUE_LINES_MISMATCH'' ''lines'' ''mismatch'')
        else let toSend = sort_key fst (filter (\<lambda>(_, q). q > 0) quantities)
          in if toSend = [] then Inl (ValidationFieldError ''NOTHING_ISSUED'' ''lines'' ''all_zero'')
             else rbind (lockStockItemsSorted db (resolveLockClosure db (map fst toSend))) (\<lambda>locked.
               if list_ex (\<lambda>(i, _). case map_of locked i of None \<Rightarrow> True | Some it \<Rightarrow> \<not> si_active it) toSend
               then Inl (ValidationFieldError ''STOCK_ITEM_ARCHIVED'' ''lines'' ''archived'')
               else let short = filter (\<lambda>(i, q). on_hand db (tq_from r) i < q) toSend
                 in if short \<noteq> [] then Inl (InsufficientStockForIssueError (map fst short))
                    else rbind (foldM (\<lambda>db (i, q). transferStock i (tq_from r) (tq_to r) q (refs i) d db) db toSend) (\<lambda>db1.
                      Inr (set_request rid (\<lambda>r. r\<lparr>tq_status := RequestIssued, tq_decided_by := user, tq_date := d\<rparr>)
                        (db1\<lparr>transfer_request_lines := t_update (\<lambda>_ l. rl_request l = rid)
                           (\<lambda>l. l\<lparr>rl_issued := map_of quantities (rl_item l),
                                 rl_reference := (if rl_item l \<in> fst ` set toSend then Some (refs (rl_item l)) else None)\<rparr>)
                           (transfer_request_lines db1)\<rparr>))))))"

definition rejectTransferRequest :: "nat \<Rightarrow> nat option \<Rightarrow> stock_db \<Rightarrow> stock_db result" where
  "rejectTransferRequest rid user db = rbind (lockPendingRequest db rid user) (\<lambda>_.
     Inr (set_request rid (\<lambda>r. r\<lparr>tq_status := RequestRejected, tq_decided_by := user\<rparr>) db))"

definition cancelTransferRequest :: "nat \<Rightarrow> nat option \<Rightarrow> stock_db \<Rightarrow> stock_db result" where
  "cancelTransferRequest rid user db = rbind (lockPendingRequest db rid user) (\<lambda>_.
     Inr (set_request rid (\<lambda>r. r\<lparr>tq_status := RequestCancelled, tq_decided_by := user\<rparr>) db))"

section \<open>Stock takes\<close>

definition openStockTake :: "nat \<Rightarrow> stock_db \<Rightarrow> (nat \<times> stock_db) result" where
  "openStockTake ou db =
     (if t_get (outlets db) ou = None then Inl (ValidationError ''OUTLET_NOT_FOUND'')
      else Inr (next_id (stock_takes db), db\<lparr>stock_takes := t_insert \<lparr>tk_outlet = ou, tk_status = TakeOpen, tk_date = None\<rparr> (stock_takes db)\<rparr>))"

definition recordStockTakeCount :: "nat \<Rightarrow> nat \<Rightarrow> int \<Rightarrow> stock_db \<Rightarrow> stock_db result" where
  "recordStockTakeCount k i countedQuantity db = (case t_get (stock_takes db) k of
     None \<Rightarrow> Inl (ValidationError ''STOCK_TAKE_NOT_FOUND'')
   | Some t \<Rightarrow>
       if tk_status t \<noteq> TakeOpen then Inl (StockTakeNotOpenError k)
       else if t_get (stock_items db) i = None then Inl (ValidationError ''STOCK_ITEM_NOT_FOUND'')
       else if t_first (\<lambda>_ l. tl_take l = k \<and> tl_item l = i) (stock_take_lines db) = None
       then Inr (db\<lparr>stock_take_lines := t_insert \<lparr>tl_take = k, tl_item = i, tl_counted = countedQuantity, tl_theoretical = None,
              tl_variance = None\<rparr> (stock_take_lines db)\<rparr>)
       else Inr (db\<lparr>stock_take_lines := t_update (\<lambda>_ l. tl_take l = k \<and> tl_item l = i) (\<lambda>l. l\<lparr>tl_counted := countedQuantity\<rparr>)
              (stock_take_lines db)\<rparr>))"

definition take_not_decided :: "nat \<Rightarrow> stock_db \<Rightarrow> stock_take result" where
  "take_not_decided k db = (case t_get (stock_takes db) k of
     None \<Rightarrow> Inl (ValidationError ''STOCK_TAKE_NOT_FOUND'')
   | Some t \<Rightarrow> (case tk_status t of
       TakeCompleted \<Rightarrow> Inl (StockTakeAlreadyCompletedError k)
     | TakeCancelled \<Rightarrow> Inl (StockTakeAlreadyCancelledError k)
     | TakeOpen \<Rightarrow> Inr t))"

text \<open>A line of the take with what its outlet holds and the difference.\<close>

definition counted_line :: "stock_db \<Rightarrow> nat \<Rightarrow> nat \<times> take_line \<Rightarrow> nat \<times> nat \<times> int \<times> int" where
  "counted_line db ou x = (case x of (li, l) \<Rightarrow>
     (li, tl_item l, on_hand db ou (tl_item l), tl_counted l + - on_hand db ou (tl_item l)))"

definition adjust_one :: "nat \<Rightarrow> nat \<Rightarrow> date option \<Rightarrow> (nat \<times> stock_item) list \<Rightarrow> stock_db \<Rightarrow> nat \<times> nat \<times> int \<times> int \<Rightarrow> stock_db result" where
  "adjust_one k ou d locked db x = (case x of (li, i, theoretical, variance) \<Rightarrow>
     (let db1 = db\<lparr>stock_take_lines := t_update (by_id li) (\<lambda>l. l\<lparr>tl_theoretical := Some theoretical, tl_variance := Some variance\<rparr>)
            (stock_take_lines db)\<rparr>
      in if variance = 0 then Inr db1
         else (case map_of locked i of
             None \<Rightarrow> Inl TypeError
           | Some it \<Rightarrow> Inr (post_movement ((plain_movement ou i CountAdjusted variance (si_cost it) d)\<lparr>mv_take := Some k\<rparr>) db1))))"

definition completeStockTake :: "nat \<Rightarrow> stock_db \<Rightarrow> stock_db result" where
  "completeStockTake k db =
     rbind (take_not_decided k db) (\<lambda>t.
     let ou = tk_outlet t; lines = t_select (\<lambda>_ l. tl_take l = k) (stock_take_lines db); ids = js_unique (map (tl_item \<circ> snd) lines)
     in rbind (lockStockItemsSorted db (resolveLockClosure db ids)) (\<lambda>locked.
        let counted = map (counted_line db ou) lines;
            raising = filter (\<lambda>(_, _, _, v). v > 0) counted;
            guarded = (case t_get (outlets db) ou of None \<Rightarrow> False | Some x \<Rightarrow> o_type x \<noteq> STORE_OUTLET_TYPE)
        in if guarded \<and> active_stores db \<noteq> [] \<and> raising \<noteq> []
           then Inl (StockTakeCannotRaiseStockError ou (map (\<lambda>(_, i, _, _). i) raising))
           else rbind (foldM (adjust_one k ou (trading_date db) locked) db counted) (\<lambda>db1.
                let changed = map (\<lambda>(_, i, _, _). i) (filter (\<lambda>(_, _, _, v). v \<noteq> 0) counted)
                in rbind (if changed = [] then Inr db1 else applyStockAvailabilityEffects changed ou db1) (\<lambda>db2.
                   Inr (db2\<lparr>stock_takes := t_update (by_id k) (\<lambda>t. t\<lparr>tk_status := TakeCompleted, tk_date := trading_date db\<rparr>) (stock_takes db2)\<rparr>)))))"

definition cancelStockTake :: "nat \<Rightarrow> string option \<Rightarrow> stock_db \<Rightarrow> stock_db result" where
  "cancelStockTake k reason db =
     (if \<not> given reason then Inl (ValidationFieldError ''MISSING_FIELD'' ''reason'' ''missing'')
      else rbind (take_not_decided k db) (\<lambda>_.
        Inr (db\<lparr>stock_takes := t_update (by_id k) (\<lambda>t. t\<lparr>tk_status := TakeCancelled\<rparr>) (stock_takes db)\<rparr>)))"

end
