(* ===== verification/StockFacts.thy ===== *)
theory StockFacts
  imports StockOps
begin

text \<open>
  What keeps the stock books right: a movement followed by the recomputation of its item at its outlet leaves every on-hand
  quantity equal to the sum of the movements behind it. The locale \<open>keyed_ledger\<close> is the rule, for a stored number per key.
\<close>

section \<open>A stored number per key\<close>

locale keyed_ledger =
  fixes ok :: "'db \<Rightarrow> bool" and stored :: "'db \<Rightarrow> 'k \<Rightarrow> int" and truth :: "'db \<Rightarrow> 'k \<Rightarrow> int" and recompute :: "'k \<Rightarrow> 'db \<Rightarrow> 'db"
  assumes recompute_ok: "ok db \<Longrightarrow> ok (recompute k db)"
    and stored_here: "ok db \<Longrightarrow> stored (recompute k db) k = truth db k"
    and stored_elsewhere: "ok db \<Longrightarrow> j \<noteq> k \<Longrightarrow> stored (recompute k db) j = stored db j"
    and truth_kept: "truth (recompute k db) j = truth db j"
begin

definition right_but :: "'k set \<Rightarrow> 'db \<Rightarrow> bool" where
  "right_but K db \<longleftrightarrow> ok db \<and> (\<forall>j. j \<notin> K \<longrightarrow> stored db j = truth db j)"

lemma right_recompute: "right_but K db \<Longrightarrow> right_but (K - {k}) (recompute k db)"
  unfolding right_but_def
proof (intro conjI allI impI)
  assume r: "ok db \<and> (\<forall>j. j \<notin> K \<longrightarrow> stored db j = truth db j)"
  then show "ok (recompute k db)" using recompute_ok by blast
  fix j assume "j \<notin> K - {k}"
  then show "stored (recompute k db) j = truth (recompute k db) j"
    using r stored_here stored_elsewhere truth_kept by (cases "j = k") auto
qed

lemma right_touch: "right_but K db \<Longrightarrow> ok db' \<Longrightarrow> (\<And>j. stored db' j = stored db j) \<Longrightarrow> (\<And>j. j \<noteq> k \<Longrightarrow> truth db' j = truth db j) \<Longrightarrow> right_but (insert k K) db'"
  by (simp add: right_but_def)

text \<open>One entry, then its recomputation.\<close>

lemma right_entry:
  assumes "right_but {} db" "ok db'" "\<And>j. stored db' j = stored db j" "\<And>j. j \<noteq> k \<Longrightarrow> truth db' j = truth db j"
  shows "right_but {} (recompute k db')"
proof -
  have "right_but (insert k {}) db'" by (rule right_touch [OF assms(1-3)]) (rule assms(4))
  then show ?thesis using right_recompute [of "insert k {}" db' k] by simp
qed

end

section \<open>First rows after a write\<close>

lemma t_first_find: "t_first P t = find (\<lambda>(i, r). P i r) (rows t)"
proof -
  have "(case filter (\<lambda>(i, r). P i r) xs of [] \<Rightarrow> None | x # _ \<Rightarrow> Some x) = find (\<lambda>(i, r). P i r) xs" for xs
    by (induction xs) (auto split: list.splits)
  then show ?thesis by (simp add: t_first_def t_select_def)
qed

lemma t_first_update:
  "(\<And>j r. P j (f r) = P j r) \<Longrightarrow> t_first P (t_update Q f t) = map_option (\<lambda>(j, r). (j, if Q j r then f r else r)) (t_first P t)"
proof -
  assume P: "\<And>j r. P j (f r) = P j r"
  have "find (\<lambda>(i, r). P i r) (map (\<lambda>(i, r). (i, if Q i r then f r else r)) xs)
      = map_option (\<lambda>(j, r). (j, if Q j r then f r else r)) (find (\<lambda>(i, r). P i r) xs)" for xs
    by (induction xs) (auto simp: P)
  then show ?thesis by (simp add: t_first_find t_update_def)
qed

lemma find_on_append: "find P (xs @ ys) = (case find P xs of None \<Rightarrow> find P ys | Some x \<Rightarrow> Some x)"
  by (induction xs) auto

lemma t_first_insert:
  "t_first P (t_insert r t) = (case t_first P t of None \<Rightarrow> if P (next_id t) r then Some (next_id t, r) else None | Some x \<Rightarrow> Some x)"
  by (simp add: t_first_find t_insert_def find_on_append split: option.split)

section \<open>On-hand quantities\<close>

definition levels_ok :: "stock_db \<Rightarrow> bool" where "levels_ok db \<longleftrightarrow> t_wf (stock_levels db)"

definition hand :: "stock_db \<Rightarrow> nat \<times> nat \<Rightarrow> int" where "hand db k = on_hand db (fst k) (snd k)"

definition moved :: "stock_db \<Rightarrow> nat \<times> nat \<Rightarrow> int" where "moved db k = outlet_sum db (fst k) (snd k)"

definition recompute_at :: "nat \<times> nat \<Rightarrow> stock_db \<Rightarrow> stock_db" where "recompute_at k = recomputeStockLevel (snd k) (fst k)"

text \<open>The tables a movement or a recomputation never writes.\<close>

definition stock_only :: "stock_db \<Rightarrow> stock_db \<Rightarrow> bool" where
  "stock_only db db' \<longleftrightarrow>
     outlets db' = outlets db \<and> menu_item_components db' = menu_item_components db \<and> menu_items db' = menu_items db
     \<and> transfer_requests db' = transfer_requests db \<and> transfer_request_lines db' = transfer_request_lines db
     \<and> stock_takes db' = stock_takes db \<and> stock_take_lines db' = stock_take_lines db \<and> pos_orders db' = pos_orders db
     \<and> property_access db' = property_access db \<and> outlet_assignments db' = outlet_assignments db
     \<and> trading_date db' = trading_date db \<and> override_log db' = override_log db
     \<and> menu_categories db' = menu_categories db \<and> outlet_categories db' = outlet_categories db
     \<and> (\<forall>i. map_option si_active (t_get (stock_items db') i) = map_option si_active (t_get (stock_items db) i))
     \<and> next_id (stock_items db') = next_id (stock_items db) \<and> (t_wf (stock_items db) \<longrightarrow> t_wf (stock_items db'))"

lemma stock_only_refl [simp, intro]: "stock_only db db" by (simp add: stock_only_def)

lemma stock_only_trans: "stock_only a b \<Longrightarrow> stock_only b c \<Longrightarrow> stock_only a c" by (simp add: stock_only_def)

lemma stock_only_frame:
  assumes "stock_only db db'"
  shows "outlets db' = outlets db" "menu_item_components db' = menu_item_components db" "menu_items db' = menu_items db"
    "transfer_requests db' = transfer_requests db" "transfer_request_lines db' = transfer_request_lines db"
    "stock_takes db' = stock_takes db" "stock_take_lines db' = stock_take_lines db" "pos_orders db' = pos_orders db"
    "property_access db' = property_access db" "outlet_assignments db' = outlet_assignments db" "trading_date db' = trading_date db"
    "override_log db' = override_log db" "menu_categories db' = menu_categories db" "outlet_categories db' = outlet_categories db"
    "map_option si_active (t_get (stock_items db') i) = map_option si_active (t_get (stock_items db) i)"
    "next_id (stock_items db') = next_id (stock_items db)" "t_wf (stock_items db) \<Longrightarrow> t_wf (stock_items db')"
  using assms by (simp_all add: stock_only_def)

lemma level_row_upsert:
  assumes "t_wf (stock_levels db)" "\<And>l. sl_outlet (f l) = sl_outlet l" "\<And>l. sl_item (f l) = sl_item l"
  shows "level_row (upsertLevel ou i f db) ou' i' =
    (if ou' = ou \<and> i' = i then (case level_row db ou i of
        None \<Rightarrow> Some (next_id (stock_levels db), f \<lparr>sl_outlet = ou, sl_item = i, sl_quantity = 0,
          sl_reorder = (case t_get (stock_items db) i of None \<Rightarrow> 0 | Some r \<Rightarrow> si_reorder r)\<rparr>)
      | Some (k, l) \<Rightarrow> Some (k, f l))
     else level_row db ou' i')"
proof (cases "level_row db ou i")
  case None
  then show ?thesis using assms by (auto simp: upsertLevel_def level_row_def t_first_insert split: option.split)
next
  case (Some x)
  obtain k l where x: "level_row db ou i = Some (k, l)" using Some by (cases x) auto
  have k: "t_get (stock_levels db) k = Some l" "sl_outlet l = ou" "sl_item l = i"
    using t_first_SomeD [OF assms(1)] x by (auto simp: level_row_def)
  have u: "level_row (upsertLevel ou i f db) ou' i' = map_option (\<lambda>(j, r). (j, if j = k then f r else r)) (level_row db ou' i')"
    using x assms(2,3) by (simp add: upsertLevel_def) (simp add: level_row_def t_first_update)
  show ?thesis
  proof (cases "ou' = ou \<and> i' = i")
    case True
    then show ?thesis using u x by simp
  next
    case False
    have "j \<noteq> k" if "level_row db ou' i' = Some (j, r)" for j r
      using t_first_SomeD [OF assms(1) that [unfolded level_row_def]] k False by auto
    then show ?thesis using u False by (cases "level_row db ou' i'") auto
  qed
qed

lemma upsert_frame [simp]:
  "stock_items (upsertLevel ou i f db) = stock_items db" "stock_movements (upsertLevel ou i f db) = stock_movements db"
  "t_wf (stock_levels db) \<Longrightarrow> t_wf (stock_levels (upsertLevel ou i f db))"
  by (simp_all add: upsertLevel_def split: option.split prod.split)

lemma notify_frame [simp]:
  "stock_items (notifyStockThresholdCrossings i ou b r c db) = stock_items db" "stock_levels (notifyStockThresholdCrossings i ou b r c db) = stock_levels db"
  "stock_movements (notifyStockThresholdCrossings i ou b r c db) = stock_movements db"
  by (simp_all add: notifyStockThresholdCrossings_def)

lemma recompute_levels:
  "stock_levels (recomputeStockLevel i ou db) = stock_levels (upsertLevel ou i (\<lambda>l. l\<lparr>sl_quantity := outlet_sum db ou i\<rparr>) db)"
  "stock_movements (recomputeStockLevel i ou db) = stock_movements db"
  by (simp_all add: recomputeStockLevel_def Let_def split: option.split)

lemma recompute_items:
  "t_get (stock_items (recomputeStockLevel i ou db)) j
     = (if j = i then map_option (\<lambda>s. s\<lparr>si_quantity := item_sum db i\<rparr>) (t_get (stock_items db) i) else t_get (stock_items db) j)"
  by (simp add: recomputeStockLevel_def Let_def t_get_update_id item_sum_def split: option.split)

lemma on_hand_levels: "stock_levels db' = stock_levels db \<Longrightarrow> on_hand db' = on_hand db"
  by (intro ext) (simp add: on_hand_def level_row_def)

lemma sums_movements: "stock_movements db' = stock_movements db \<Longrightarrow> outlet_sum db' = outlet_sum db \<and> item_sum db' = item_sum db"
  by (intro conjI ext) (simp_all add: outlet_sum_def item_sum_def)

lemma on_hand_recompute:
  assumes "t_wf (stock_levels db)"
  shows "on_hand (recomputeStockLevel i ou db) ou' i' = (if ou' = ou \<and> i' = i then outlet_sum db ou i else on_hand db ou' i')"
proof -
  let ?f = "\<lambda>l. l\<lparr>sl_quantity := outlet_sum db ou i\<rparr>"
  have "on_hand (recomputeStockLevel i ou db) ou' i' = on_hand (upsertLevel ou i ?f db) ou' i'"
    using on_hand_levels [OF recompute_levels(1)] by metis
  also have "\<dots> = (if ou' = ou \<and> i' = i then outlet_sum db ou i else on_hand db ou' i')"
    using level_row_upsert [OF assms, of ?f ou i ou' i'] by (auto simp: on_hand_def split: option.split)
  finally show ?thesis .
qed

interpretation level: keyed_ledger levels_ok hand moved recompute_at
proof
  fix db :: stock_db and j k :: "nat \<times> nat"
  show "levels_ok db \<Longrightarrow> levels_ok (recompute_at k db)" by (simp add: levels_ok_def recompute_at_def recompute_levels)
  show "levels_ok db \<Longrightarrow> hand (recompute_at k db) k = moved db k" by (simp add: levels_ok_def hand_def moved_def recompute_at_def on_hand_recompute)
  show "levels_ok db \<Longrightarrow> j \<noteq> k \<Longrightarrow> hand (recompute_at k db) j = hand db j"
    by (auto simp: levels_ok_def hand_def recompute_at_def on_hand_recompute prod_eq_iff)
  show "moved (recompute_at k db) j = moved db j" using sums_movements [OF recompute_levels(2)] by (simp add: moved_def recompute_at_def)
qed

text \<open>The property-wide total of an item is a derived column in the ledger's sense.\<close>

definition item_quantity :: "stock_db \<Rightarrow> nat \<Rightarrow> int option" where
  "item_quantity db i = map_option si_quantity (t_get (stock_items db) i)"

interpretation total: derived_column item_quantity item_sum "\<lambda>i. recomputeStockLevel i ou" for ou
proof
  fix db :: stock_db and j k :: nat
  show "item_quantity db k \<noteq> None \<Longrightarrow> item_quantity (recomputeStockLevel k ou db) k = Some (item_sum db k)"
    by (auto simp: item_quantity_def recompute_items)
  show "item_quantity db k = None \<Longrightarrow> item_quantity (recomputeStockLevel k ou db) k = None" by (auto simp: item_quantity_def recompute_items)
  show "j \<noteq> k \<Longrightarrow> item_quantity (recomputeStockLevel k ou db) j = item_quantity db j" by (simp add: item_quantity_def recompute_items)
  show "item_sum (recomputeStockLevel k ou db) j = item_sum db j" using sums_movements [OF recompute_levels(2)] by simp
qed


section \<open>The books\<close>

definition levels_total :: "stock_db \<Rightarrow> nat \<Rightarrow> int" where
  "levels_total db i = t_total (\<lambda>_ l. sl_item l = i) sl_quantity (stock_levels db)"

lemma levels_total_recompute:
  assumes "t_wf (stock_levels db)"
  shows "levels_total (recomputeStockLevel i ou db) j = levels_total db j + (if j = i then outlet_sum db ou i - on_hand db ou i else 0)"
proof (cases "level_row db ou i")
  case None
  then show ?thesis unfolding levels_total_def recompute_levels by (simp add: upsertLevel_def on_hand_def t_total_insert)
next
  case (Some x)
  obtain k l where x: "level_row db ou i = Some (k, l)" using Some by (cases x) auto
  have "t_get (stock_levels db) k = Some l" "sl_item l = i"
    using t_first_SomeD [OF assms] x by (auto simp: level_row_def)
  then show ?thesis unfolding levels_total_def recompute_levels using x
    by (simp add: upsertLevel_def on_hand_def t_total_change_row [OF assms])
qed

definition stock_ok :: "stock_db \<Rightarrow> bool" where
  "stock_ok db \<longleftrightarrow> level.right_but {} db \<and> (\<forall>i. total.right_at db i) \<and> (\<forall>i. levels_total db i = item_sum db i)"

lemma stock_ok_levels_total: "stock_ok db \<Longrightarrow> levels_total db i = item_sum db i"
  by (simp add: stock_ok_def)

lemma stock_ok_hand: "stock_ok db \<Longrightarrow> on_hand db ou i = outlet_sum db ou i"
  by (auto simp: stock_ok_def level.right_but_def hand_def moved_def)

lemma stock_ok_total: "stock_ok db \<Longrightarrow> t_get (stock_items db) i = Some it \<Longrightarrow> si_quantity it = item_sum db i"
  by (simp add: stock_ok_def total.right_at_def item_quantity_def)

lemma stock_ok_levels [simp]: "stock_ok db \<Longrightarrow> t_wf (stock_levels db)"
  by (simp add: stock_ok_def level.right_but_def levels_ok_def)

lemma stock_ok_frame:
  assumes "stock_levels db' = stock_levels db" "stock_movements db' = stock_movements db" "item_quantity db' = item_quantity db"
  shows "stock_ok db' = stock_ok db"
  using on_hand_levels [OF assms(1)] sums_movements [OF assms(2)] assms
  by (simp add: stock_ok_def level.right_but_def levels_ok_def hand_def moved_def total.right_at_def levels_total_def)

lemma moved_add: "outlet_sum (add_movement m db) ou i = outlet_sum db ou i + (if mv_outlet m = ou \<and> mv_item m = i then mv_quantity m else 0)"
  "item_sum (add_movement m db) i = item_sum db i + (if mv_item m = i then mv_quantity m else 0)"
  by (simp_all add: outlet_sum_def item_sum_def add_movement_def t_total_insert)

lemma add_frame [simp]:
  "stock_levels (add_movement m db) = stock_levels db" "stock_items (add_movement m db) = stock_items db"
  "on_hand (add_movement m db) = on_hand db" "item_quantity (add_movement m db) = item_quantity db"
  by (simp_all add: add_movement_def) (intro ext, simp add: on_hand_def level_row_def, intro ext, simp add: item_quantity_def)

text \<open>One posted movement.\<close>

lemma post_movement_ok: "stock_ok db \<Longrightarrow> stock_ok (post_movement m db)"
proof -
  assume ok: "stock_ok db"
  have "post_movement m db = recompute_at (mv_outlet m, mv_item m) (add_movement m db)" by (simp add: post_movement_def recompute_at_def)
  moreover have "level.right_but {} (recompute_at (mv_outlet m, mv_item m) (add_movement m db))"
  proof (rule level.right_entry [of db])
    show "level.right_but {} db" using ok by (simp add: stock_ok_def)
    show "levels_ok (add_movement m db)" using ok by (simp add: levels_ok_def)
    show "hand (add_movement m db) j = hand db j" for j by (simp add: hand_def)
    show "j \<noteq> (mv_outlet m, mv_item m) \<Longrightarrow> moved (add_movement m db) j = moved db j" for j by (auto simp: moved_def moved_add prod_eq_iff)
  qed
  moreover have "total.right_at (recomputeStockLevel (mv_item m) (mv_outlet m) (add_movement m db)) i" for i
    using ok by (intro total.right_after_touch [of db]) (auto simp: stock_ok_def moved_add)
  moreover have "levels_total (post_movement m db) i = item_sum (post_movement m db) i" for i
  proof -
    have w: "t_wf (stock_levels (add_movement m db))" using ok by simp
    have "levels_total (add_movement m db) i = levels_total db i" by (simp add: levels_total_def)
    then show ?thesis
      using stock_ok_levels_total [OF ok, of i] stock_ok_hand [OF ok] sums_movements [OF recompute_levels(2)]
      by (simp add: post_movement_def levels_total_recompute [OF w] moved_add)
  qed
  ultimately show ?thesis by (simp add: stock_ok_def post_movement_def)
qed

lemma post_movement_hand:
  assumes "stock_ok db"
  shows "on_hand (post_movement m db) ou i = on_hand db ou i + (if mv_outlet m = ou \<and> mv_item m = i then mv_quantity m else 0)"
  using stock_ok_hand [OF post_movement_ok [OF assms, of m]] stock_ok_hand [OF assms] sums_movements [OF recompute_levels(2)] moved_add(1)
  by (simp add: post_movement_def)

lemma upsert_others:
  "outlets (upsertLevel ou i f db) = outlets db" "menu_item_components (upsertLevel ou i f db) = menu_item_components db"
  "menu_items (upsertLevel ou i f db) = menu_items db" "transfer_requests (upsertLevel ou i f db) = transfer_requests db"
  "transfer_request_lines (upsertLevel ou i f db) = transfer_request_lines db" "stock_takes (upsertLevel ou i f db) = stock_takes db"
  "stock_take_lines (upsertLevel ou i f db) = stock_take_lines db" "pos_orders (upsertLevel ou i f db) = pos_orders db"
  "property_access (upsertLevel ou i f db) = property_access db" "outlet_assignments (upsertLevel ou i f db) = outlet_assignments db"
  "trading_date (upsertLevel ou i f db) = trading_date db" "override_log (upsertLevel ou i f db) = override_log db"
  "menu_categories (upsertLevel ou i f db) = menu_categories db" "outlet_categories (upsertLevel ou i f db) = outlet_categories db"
  by (simp_all add: upsertLevel_def split: option.split prod.split)

lemma notify_others:
  "outlets (notifyStockThresholdCrossings i ou b r c db) = outlets db"
  "menu_item_components (notifyStockThresholdCrossings i ou b r c db) = menu_item_components db"
  "menu_items (notifyStockThresholdCrossings i ou b r c db) = menu_items db"
  "transfer_requests (notifyStockThresholdCrossings i ou b r c db) = transfer_requests db"
  "transfer_request_lines (notifyStockThresholdCrossings i ou b r c db) = transfer_request_lines db"
  "stock_takes (notifyStockThresholdCrossings i ou b r c db) = stock_takes db"
  "stock_take_lines (notifyStockThresholdCrossings i ou b r c db) = stock_take_lines db"
  "pos_orders (notifyStockThresholdCrossings i ou b r c db) = pos_orders db"
  "property_access (notifyStockThresholdCrossings i ou b r c db) = property_access db"
  "outlet_assignments (notifyStockThresholdCrossings i ou b r c db) = outlet_assignments db"
  "trading_date (notifyStockThresholdCrossings i ou b r c db) = trading_date db"
  "override_log (notifyStockThresholdCrossings i ou b r c db) = override_log db"
  "menu_categories (notifyStockThresholdCrossings i ou b r c db) = menu_categories db"
  "outlet_categories (notifyStockThresholdCrossings i ou b r c db) = outlet_categories db"
  by (simp_all add: notifyStockThresholdCrossings_def)

lemma recompute_only: "stock_only db (recomputeStockLevel i ou db)"
proof -
  have "map_option si_active (t_get (stock_items (recomputeStockLevel i ou db)) j) = map_option si_active (t_get (stock_items db) j)" for j
    unfolding recompute_items by (cases "t_get (stock_items db) j") auto
  moreover have "next_id (stock_items (recomputeStockLevel i ou db)) = next_id (stock_items db)"
    "t_wf (stock_items db) \<Longrightarrow> t_wf (stock_items (recomputeStockLevel i ou db))"
    by (simp_all add: recomputeStockLevel_def Let_def split: option.split)
  ultimately show ?thesis
    unfolding stock_only_def by (simp add: recomputeStockLevel_def Let_def upsert_others notify_others split: option.split)
qed

lemma add_only: "stock_only db (add_movement m db)" by (simp add: stock_only_def add_movement_def)

lemma post_only: "stock_only db (post_movement m db)"
  unfolding post_movement_def by (rule stock_only_trans [OF add_only recompute_only])

lemma post_movements: "stock_movements (post_movement m db) = t_insert m (stock_movements db)"
  by (simp add: post_movement_def recompute_levels add_movement_def)

section \<open>The availability of menu items\<close>

text \<open>The oversell guard writes settings of the outlet and nothing else.\<close>

definition settings_only :: "stock_db \<Rightarrow> stock_db \<Rightarrow> bool" where
  "settings_only db db' \<longleftrightarrow> stock_only db db' \<and> stock_items db' = stock_items db \<and> stock_levels db' = stock_levels db
     \<and> stock_movements db' = stock_movements db \<and> alert_log db' = alert_log db"

lemma settings_only_refl [simp, intro]: "settings_only db db" by (simp add: settings_only_def)

lemma settings_only_trans: "settings_only a b \<Longrightarrow> settings_only b c \<Longrightarrow> settings_only a c"
  using stock_only_trans by (auto simp: settings_only_def)

lemma availability_effect_only: "settings_only db (availability_effect ou sold mart m db)"
proof -
  have "settings_only db (switch_menu_item ou m a b db)" for a b
    by (simp add: upsertOutletMenuSetting_def settings_only_def stock_only_def split: option.split prod.split)
  then show ?thesis by (simp add: availability_effect_def Let_def split: option.split prod.split)
qed

lemma fold_effect_only: "settings_only db (fold (availability_effect ou sold mart) ms db)"
  by (induction ms arbitrary: db) (auto intro: settings_only_trans availability_effect_only)

lemma apply_effects_only: "applyStockAvailabilityEffects ids ou db = Inr db' \<Longrightarrow> settings_only db db'"
  by (auto simp: applyStockAvailabilityEffects_def Let_def rbind_eq_Inr fold_effect_only split: if_splits)

lemma settings_frame:
  assumes "settings_only db db'"
  shows "stock_only db db'" "stock_ok db' = stock_ok db" "on_hand db' = on_hand db" "stock_movements db' = stock_movements db" "stock_items db' = stock_items db"
    "stock_levels db' = stock_levels db"
proof -
  note e = assms [unfolded settings_only_def]
  show "stock_ok db' = stock_ok db" by (rule stock_ok_frame) (simp_all add: e item_quantity_def fun_eq_iff)
  show "on_hand db' = on_hand db" by (rule on_hand_levels) (simp add: e)
qed (use assms in \<open>auto simp: settings_only_def\<close>)

end
