(* ===== verification/StockMoves.thy ===== *)
theory StockMoves
  imports StockFacts
begin

text \<open>
  What each stock operation does to the books: the list of movements it posts. From that list follow the change of every on-hand
  quantity, of every total and of every cost.
\<close>

section \<open>Posting a list of movements\<close>

definition change_at :: "stock_movement list \<Rightarrow> nat \<Rightarrow> nat \<Rightarrow> int" where
  "change_at ms ou i = sum_list (map mv_quantity (filter (\<lambda>m. mv_outlet m = ou \<and> mv_item m = i) ms))"

definition moves :: "stock_db \<Rightarrow> stock_movement list \<Rightarrow> stock_db \<Rightarrow> bool" where
  "moves db ms db' \<longleftrightarrow> stock_ok db' \<and> stock_only db db' \<and> stock_movements db' = fold t_insert ms (stock_movements db)"

lemma change_simps [simp]: "change_at [] ou i = 0" "change_at (m # ms) ou i = (if mv_outlet m = ou \<and> mv_item m = i then mv_quantity m else 0) + change_at ms ou i"
  "change_at (xs @ ys) ou i = change_at xs ou i + change_at ys ou i"
  by (simp_all add: change_at_def)

lemma moves_trans: "moves a xs b \<Longrightarrow> moves b ys c \<Longrightarrow> moves a (xs @ ys) c"
  using stock_only_trans by (auto simp: moves_def)

lemma moves_post: "stock_ok db \<Longrightarrow> moves db [m] (post_movement m db)"
  by (simp add: moves_def post_movement_ok post_only post_movements)

lemma moves_settings: "stock_ok db \<Longrightarrow> settings_only db db' \<Longrightarrow> moves db [] db'"
  using settings_frame [of db db'] by (simp add: moves_def)

lemma outlet_sum_inserts:
  "t_total (\<lambda>_ m. mv_item m = i \<and> mv_outlet m = ou) mv_quantity (fold t_insert ms t)
     = t_total (\<lambda>_ m. mv_item m = i \<and> mv_outlet m = ou) mv_quantity t + change_at ms ou i"
  by (induction ms arbitrary: t) (auto simp: t_total_insert)

lemma moves_hand: "stock_ok db \<Longrightarrow> moves db ms db' \<Longrightarrow> on_hand db' ou i = on_hand db ou i + change_at ms ou i"
  using stock_ok_hand [of db ou i] stock_ok_hand [of db' ou i] outlet_sum_inserts [of i ou ms "stock_movements db"] by (simp add: moves_def outlet_sum_def)

lemma moves_ok: "moves db ms db' \<Longrightarrow> stock_ok db'" "moves db ms db' \<Longrightarrow> stock_only db db'" by (simp_all add: moves_def)

text \<open>A fold of posting steps.\<close>

lemma moves_foldl:
  assumes "\<And>db x. x \<in> set xs \<Longrightarrow> stock_ok db \<Longrightarrow> stock_only db0 db \<Longrightarrow> moves db [mk x] (f db x)"
  shows "stock_ok db \<Longrightarrow> stock_only db0 db \<Longrightarrow> moves db (map mk xs) (foldl f db xs)"
  using assms
proof (induction xs arbitrary: db)
  case Nil
  then show ?case by (simp add: moves_def)
next
  case (Cons x xs)
  have s: "moves db [mk x] (f db x)" using Cons.prems by simp
  have "moves (f db x) (map mk xs) (foldl f (f db x) xs)"
  proof (rule Cons.IH)
    show "stock_ok (f db x)" "stock_only db0 (f db x)" using moves_ok [OF s] stock_only_trans Cons.prems(2) by blast+
    show "moves d [mk y] (f d y)" if "y \<in> set xs" "stock_ok d" "stock_only db0 d" for d y using Cons.prems(3) that by simp
  qed
  then show ?case using moves_trans [OF s] by simp
qed

lemma moves_foldM:
  assumes "\<And>db x db'. x \<in> set xs \<Longrightarrow> stock_ok db \<Longrightarrow> stock_only db0 db \<Longrightarrow> f db x = Inr db' \<Longrightarrow> moves db (mk x) db'"
  shows "foldM f db xs = Inr db' \<Longrightarrow> stock_ok db \<Longrightarrow> stock_only db0 db \<Longrightarrow> moves db (concat (map mk xs)) db'"
  using assms
proof (induction xs arbitrary: db)
  case Nil
  then show ?case by (simp add: moves_def)
next
  case (Cons x xs)
  obtain db1 where r: "f db x = Inr db1" "foldM f db1 xs = Inr db'" using Cons.prems(1) by (auto simp: rbind_eq_Inr)
  have s: "moves db (mk x) db1" using Cons.prems r(1) by simp
  have "moves db1 (concat (map mk xs)) db'"
  proof (rule Cons.IH [OF r(2)])
    show "stock_ok db1" "stock_only db0 db1" using moves_ok [OF s] stock_only_trans Cons.prems(3) by blast+
    show "moves d (mk y) d'" if "y \<in> set xs" "stock_ok d" "stock_only db0 d" "f d y = Inr d'" for d y d' using Cons.prems(4) that by simp
  qed
  then show ?case using moves_trans [OF s] by simp
qed

lemma moves_apply: "applyStockAvailabilityEffects ids ou db = Inr db' \<Longrightarrow> stock_ok db \<Longrightarrow> moves db [] db'"
  by (rule moves_settings [OF _ apply_effects_only])

section \<open>Locked items\<close>

lemma lock_items:
  assumes "lockStockItemsSorted db ids = Inr locked"
  shows "\<forall>i \<in> set ids. map_of locked i = t_get (stock_items db) i \<and> t_get (stock_items db) i \<noteq> None"
proof -
  have g: "\<forall>i. map_of locked i = (if i \<in> set xs then t_get (stock_items db) i else map_of acc i) \<and> (i \<in> set xs \<longrightarrow> t_get (stock_items db) i \<noteq> None)"
    if "foldM (\<lambda>locked i. case t_get (stock_items db) i of None \<Rightarrow> Inl (ValidationError ''STOCK_ITEM_NOT_FOUND'') | Some r \<Rightarrow> Inr (locked @ [(i, r)])) acc xs = Inr locked"
      "\<forall>i \<in> set xs. map_of acc i = None" "distinct xs" for acc xs
    using that
  proof (induction xs arbitrary: acc)
    case (Cons x xs)
    obtain r where r: "t_get (stock_items db) x = Some r" using Cons.prems(1) by (cases "t_get (stock_items db) x") auto
    have "\<forall>i. map_of locked i = (if i \<in> set xs then t_get (stock_items db) i else map_of (acc @ [(x, r)]) i) \<and> (i \<in> set xs \<longrightarrow> t_get (stock_items db) i \<noteq> None)"
      using Cons.prems r by (intro Cons.IH) (auto simp: map_add_def split: option.split)
    then show ?case using r Cons.prems(2) by (auto simp: map_add_def split: option.splits)
  qed simp
  have "set (sort (js_unique ids)) = set ids" "distinct (sort (js_unique ids))" by (simp_all add: js_unique_def)
  then show ?thesis using g [of "[]" "sort (js_unique ids)"] assms by (simp add: lockStockItemsSorted_def)
qed

lemma closure_contains: "set ids \<subseteq> set (resolveLockClosure db ids)"
  by (auto simp: resolveLockClosure_def Let_def js_unique_def)


section \<open>What a sale consumes\<close>

definition recipe_quantity :: "stock_db \<Rightarrow> nat \<Rightarrow> nat \<Rightarrow> int" where
  "recipe_quantity db m i = t_total (\<lambda>_ c. cp_menu c = m \<and> cp_item c = i) cp_quantity (menu_item_components db)"

definition needs :: "stock_db \<Rightarrow> (nat \<times> int) list \<Rightarrow> nat \<Rightarrow> int" where
  "needs db lines i = sum_list (map (\<lambda>(m, n). n * recipe_quantity db m i) lines)"

definition amount_of :: "(nat \<times> int) list \<Rightarrow> nat \<Rightarrow> int" where
  "amount_of xs i = sum_list (map snd (filter (\<lambda>(j, _). j = i) xs))"

lemma amount_simps [simp]: "amount_of [] i = 0" "amount_of ((j, v) # xs) i = (if j = i then v else 0) + amount_of xs i"
  by (simp_all add: amount_of_def)

lemma add_qty_amount: "amount_of (add_qty k v xs) i = amount_of xs i + (if k = i then v else 0)"
  by (induction k v xs rule: add_qty.induct) auto

lemma add_qty_keys: "fst ` set (add_qty k v xs) = insert k (fst ` set xs)"
  by (induction k v xs rule: add_qty.induct) auto

lemma add_qty_distinct: "distinct (map fst xs) \<Longrightarrow> distinct (map fst (add_qty k v xs))"
  by (induction k v xs rule: add_qty.induct) (auto simp: add_qty_keys)

lemma amount_absent: "i \<notin> fst ` set xs \<Longrightarrow> amount_of xs i = 0"
  by (induction xs) auto

lemma amount_map_of: "distinct (map fst xs) \<Longrightarrow> amount_of xs i = (case map_of xs i of None \<Rightarrow> 0 | Some v \<Rightarrow> v)"
proof (induction xs)
  case (Cons x xs)
  then show ?case by (cases x) (auto simp: amount_absent)
qed simp

lemma ordered_absent: "m \<notin> fst ` set lines \<Longrightarrow> ordered_quantity lines m = 0"
  using amount_absent [of m lines] by (simp add: ordered_quantity_def amount_of_def)

lemma deductions_distinct: "distinct (map fst (computeStockDeductionsForLines db lines))"
proof -
  have "distinct (map fst ds) \<Longrightarrow> distinct (map fst (foldl (\<lambda>ds (_, c). add_qty (cp_item c) (g c) ds) ds cs))" for ds g and cs :: "(nat \<times> recipe_line) list"
    by (induction cs arbitrary: ds) (auto simp: add_qty_distinct)
  then show ?thesis by (simp add: computeStockDeductionsForLines_def)
qed

text \<open>The recipe arithmetic of the code is the sum over the lines of what each needs.\<close>

lemma deductions_need: "amount_of (computeStockDeductionsForLines db lines) i = needs db lines i"
proof -
  let ?cs = "rows (menu_item_components db)"
  let ?g = "\<lambda>ls c. cp_quantity c * ordered_quantity ls (cp_menu c)"
  have fold: "amount_of (foldl (\<lambda>ds (_, c). add_qty (cp_item c) (g c) ds) ds cs) i
      = amount_of ds i + sum_list (map (\<lambda>(_, c). if cp_item c = i then g c else 0) cs)" for ds g and cs :: "(nat \<times> recipe_line) list"
    by (induction cs arbitrary: ds) (auto simp: add_qty_amount)
  have drop: "sum_list (map (\<lambda>(_, c). if cp_item c = i then ?g lines c else 0) (filter (\<lambda>(_, c). cp_menu c \<in> set (map fst lines)) cs))
      = sum_list (map (\<lambda>(_, c). if cp_item c = i then ?g lines c else 0) cs)" for cs :: "(nat \<times> recipe_line) list"
  proof (induction cs)
    case (Cons x cs)
    then show ?case by (cases x) (auto simp: ordered_absent)
  qed simp
  have one: "sum_list (map (\<lambda>(_, c). if cp_item c = i then cp_quantity c * (if m = cp_menu c then n else 0) else 0) cs)
      = n * sum_list (map (\<lambda>(_, c). if cp_menu c = m \<and> cp_item c = i then cp_quantity c else 0) cs)" for m n and cs :: "(nat \<times> recipe_line) list"
    by (induction cs) (auto simp: algebra_simps)
  have lin: "sum_list (map (\<lambda>(_, c). if cp_item c = i then ?g ((m, n) # ls) c else 0) cs)
      = sum_list (map (\<lambda>(_, c). if cp_item c = i then cp_quantity c * (if m = cp_menu c then n else 0) else 0) cs)
        + sum_list (map (\<lambda>(_, c). if cp_item c = i then ?g ls c else 0) cs)" for m n ls and cs :: "(nat \<times> recipe_line) list"
    by (induction cs) (auto simp: algebra_simps ordered_quantity_def)
  have rq: "recipe_quantity db m i = sum_list (map (\<lambda>(_, c). if cp_menu c = m \<and> cp_item c = i then cp_quantity c else 0) ?cs)" for m
  proof -
    have "sum_list (map (\<lambda>(i, r). cp_quantity r) (filter (\<lambda>(_, c). cp_menu c = m \<and> cp_item c = i) cs))
        = sum_list (map (\<lambda>(_, c). if cp_menu c = m \<and> cp_item c = i then cp_quantity c else 0) cs)" for cs :: "(nat \<times> recipe_line) list"
      by (induction cs) (auto split: if_splits)
    then show ?thesis by (simp add: recipe_quantity_def t_total_def t_select_def)
  qed
  have "sum_list (map (\<lambda>(_, c). if cp_item c = i then ?g ls c else 0) ?cs) = needs db ls i" for ls
  proof (induction ls)
    case Nil
    have "sum_list (map (\<lambda>(_, c). if cp_item c = i then ?g [] c else 0) cs) = 0" for cs :: "(nat \<times> recipe_line) list"
      by (induction cs) (auto simp: ordered_quantity_def)
    then show ?case by (simp add: needs_def)
  next
    case (Cons l ls)
    obtain m n where l: "l = (m, n)" by fastforce
    have "sum_list (map (\<lambda>(_, c). if cp_item c = i then ?g (l # ls) c else 0) ?cs)
        = n * recipe_quantity db m i + sum_list (map (\<lambda>(_, c). if cp_item c = i then ?g ls c else 0) ?cs)"
      by (simp only: l lin one rq)
    then show ?case by (simp only: Cons l needs_def list.map sum_list.Cons prod.case)
  qed
  then show ?thesis using fold drop by (simp add: computeStockDeductionsForLines_def t_select_def)
qed

end
