(* ===== verification/StockEffects.thy ===== *)
theory StockEffects
  imports StockMoves
begin

text \<open>
  The movements each operation of the stock module posts, item by item and with their costs, and that it posts no others.
\<close>

definition item_cost :: "stock_db \<Rightarrow> nat \<Rightarrow> int" where
  "item_cost db i = (case t_get (stock_items db) i of None \<Rightarrow> 0 | Some it \<Rightarrow> si_cost it)"

definition knows :: "stock_db \<Rightarrow> stock_movement list \<Rightarrow> bool" where
  "knows db ms \<longleftrightarrow> (\<forall>m \<in> set ms. t_get (stock_items db) (mv_item m) \<noteq> None)"

lemma plain_fields [simp]:
  "mv_outlet (plain_movement ou i ty q c d) = ou" "mv_item (plain_movement ou i ty q c d) = i" "mv_type (plain_movement ou i ty q c d) = ty"
  "mv_quantity (plain_movement ou i ty q c d) = q" "mv_unit_cost (plain_movement ou i ty q c d) = c"
  "mv_total_cost (plain_movement ou i ty q c d) = extended_cost_cents c q" "mv_settlement (plain_movement ou i ty q c d) = None"
  by (simp_all add: plain_movement_def)

lemma moves_known: "stock_only db db' \<Longrightarrow> (t_get (stock_items db') i = None) = (t_get (stock_items db) i = None)"
  using stock_only_frame(15) [of db db' i] by (metis option.map_disc_iff)

lemma locked_closure:
  assumes "lockStockItemsSorted db (resolveLockClosure db ids) = Inr locked" "i \<in> set ids"
  shows "\<exists>it. map_of locked i = Some it \<and> t_get (stock_items db) i = Some it"
proof -
  have "i \<in> set (resolveLockClosure db ids)" using closure_contains assms(2) by blast
  then show ?thesis using lock_items [OF assms(1)] by fastforce
qed

section \<open>Sales and their reversal\<close>

definition sale_of :: "stock_db \<Rightarrow> nat \<Rightarrow> nat \<Rightarrow> nat \<Rightarrow> date option \<Rightarrow> nat \<times> int \<Rightarrow> stock_movement" where
  "sale_of db ou orderId sid d x = (case x of (i, q) \<Rightarrow>
     (plain_movement ou i GoodsSold (- q) (item_cost db i) d)\<lparr>mv_order := Some orderId, mv_settlement := Some sid\<rparr>)"

lemma sale_of_fields [simp]:
  "mv_outlet (sale_of db ou orderId sid d x) = ou" "mv_item (sale_of db ou orderId sid d x) = fst x" "mv_quantity (sale_of db ou orderId sid d x) = - snd x"
  "mv_type (sale_of db ou orderId sid d x) = GoodsSold" "mv_settlement (sale_of db ou orderId sid d x) = Some sid"
  "mv_order (sale_of db ou orderId sid d x) = Some orderId"
  by (simp_all add: sale_of_def split: prod.split)

lemma sale_moves:
  assumes "deductStockForSettlement orderId sid items d db = Inr db'" "stock_ok db" "computeStockDeductionsForLines db items \<noteq> []"
    "t_get (pos_orders db) orderId = Some ou"
  shows "moves db (map (sale_of db ou orderId sid d) (computeStockDeductionsForLines db items)) db'"
    "knows db (map (sale_of db ou orderId sid d) (computeStockDeductionsForLines db items))"
proof -
  let ?ds = "computeStockDeductionsForLines db items" and ?sale = "sale_of db ou orderId sid d"
  obtain locked db1 where l: "lockStockItemsSorted db (resolveLockClosure db (map fst ?ds)) = Inr locked"
    and f: "foldM (sell_one ou orderId sid d locked) db ?ds = Inr db1" and a: "applyStockAvailabilityEffects (map fst ?ds) ou db1 = Inr db'"
    using assms(1,3,4) by (auto simp: deductStockForSettlement_def Let_def rbind_eq_Inr)
  have known: "\<exists>it. map_of locked i = Some it \<and> t_get (stock_items db) i = Some it" if "(i, q) \<in> set ?ds" for i q
    using locked_closure [OF l] that by force
  have "moves db (concat (map (\<lambda>x. [?sale x]) ?ds)) db1"
  proof (rule moves_foldM [OF _ f assms(2) stock_only_refl])
    fix db2 x db3 assume x: "x \<in> set ?ds" "stock_ok db2" "sell_one ou orderId sid d locked db2 x = Inr db3"
    obtain i q where iq: "x = (i, q)" by fastforce
    then obtain it where "map_of locked i = Some it" "t_get (stock_items db) i = Some it" using known x(1) by blast
    then have "db3 = post_movement (?sale x) db2" using x(3) iq by (simp add: sell_one_def sale_of_def item_cost_def)
    then show "moves db2 [?sale x] db3" using moves_post x(2) by simp
  qed
  then have m: "moves db (map ?sale ?ds) db1" by (simp add: concat_map_singleton)
  show "moves db (map ?sale ?ds) db'" using moves_trans [OF m moves_apply [OF a]] moves_ok(1) [OF m] by simp
  show "knows db (map ?sale ?ds)" using known by (fastforce simp: knows_def)
qed

lemma sale_nothing: "computeStockDeductionsForLines db items = [] \<Longrightarrow> deductStockForSettlement orderId sid items d db = Inr db"
  by (simp add: deductStockForSettlement_def)

definition reversal_of :: "nat \<times> stock_movement \<Rightarrow> stock_movement" where
  "reversal_of x = (case x of (k, m) \<Rightarrow> (plain_movement (mv_outlet m) (mv_item m) SaleReversed (- mv_quantity m) (mv_unit_cost m) (mv_date m))
     \<lparr>mv_order := mv_order m, mv_settlement := mv_settlement m, mv_reversed := Some k\<rparr>)"

lemma reversal_of_fields [simp]:
  "mv_outlet (reversal_of x) = mv_outlet (snd x)" "mv_item (reversal_of x) = mv_item (snd x)" "mv_quantity (reversal_of x) = - mv_quantity (snd x)"
  "mv_type (reversal_of x) = SaleReversed"
  by (simp_all add: reversal_of_def split: prod.split)

lemma moves_effects:
  "foldM (\<lambda>db ou. applyStockAvailabilityEffects (ids ou) ou db) db ous = Inr db' \<Longrightarrow> stock_ok db \<Longrightarrow> moves db [] db'"
proof -
  assume f: "foldM (\<lambda>db ou. applyStockAvailabilityEffects (ids ou) ou db) db ous = Inr db'" "stock_ok db"
  have "moves db (concat (map (\<lambda>_. []) ous)) db'"
    by (rule moves_foldM [OF _ f stock_only_refl]) (rule moves_apply)
  moreover have "concat (map (\<lambda>_. []) ous) = ([] :: stock_movement list)" by simp
  ultimately show ?thesis by simp
qed

lemma reverse_moves:
  assumes "reverseStockForSettlement sid db = Inr db'" "stock_ok db"
  shows "moves db (map reversal_of (t_select (sold_by sid) (stock_movements db))) db'"
    "knows db (map reversal_of (t_select (sold_by sid) (stock_movements db)))"
proof -
  let ?os = "t_select (sold_by sid) (stock_movements db)"
  have both: "moves db (map reversal_of ?os) db' \<and> knows db (map reversal_of ?os)"
  proof (cases "?os = []")
    case True
    then show ?thesis using assms by (simp add: reverseStockForSettlement_def moves_def knows_def)
  next
    case False
    let ?ids = "js_unique (map (mv_item \<circ> snd) ?os)"
    let ?db1 = "foldl reverse_one db ?os"
    obtain locked where l: "lockStockItemsSorted db (resolveLockClosure db ?ids) = Inr locked"
      and a: "foldM (\<lambda>db ou. applyStockAvailabilityEffects (map (mv_item \<circ> snd) (filter (\<lambda>(_, m). mv_outlet m = ou) ?os)) ou db) ?db1
          (js_unique (map (mv_outlet \<circ> snd) ?os)) = Inr db'"
      using assms(1) False by (auto simp: reverseStockForSettlement_def Let_def rbind_eq_Inr)
    have m: "moves db (map reversal_of ?os) ?db1"
    proof (rule moves_foldl [OF _ assms(2) stock_only_refl])
      fix db2 x assume "stock_ok db2"
      then show "moves db2 [reversal_of x] (reverse_one db2 x)" using moves_post by (cases x) (simp add: reverse_one_def reversal_of_def)
    qed
    have "knows db (map reversal_of ?os)" using locked_closure [OF l] by (fastforce simp: knows_def js_unique_def)
    then show ?thesis using moves_trans [OF m moves_effects [OF a]] moves_ok(1) [OF m] by simp
  qed
  then show "moves db (map reversal_of ?os) db'" "knows db (map reversal_of ?os)" by blast+
qed

section \<open>Deliveries and wastage\<close>

lemma items_movements_swap:
  "db\<lparr>stock_movements := ms, stock_items := is\<rparr> = db\<lparr>stock_items := is, stock_movements := ms\<rparr>"
  by simp

lemma set_cost_moves:
  assumes "stock_ok db"
  shows "moves db [] (db\<lparr>stock_items := t_update (by_id i) (\<lambda>s. s\<lparr>si_cost := c\<rparr>) (stock_items db)\<rparr>)" (is "moves db [] ?db")
proof -
  have q: "item_quantity ?db = item_quantity db"
  proof
    fix j show "item_quantity ?db j = item_quantity db j" by (cases "t_get (stock_items db) j") (auto simp: item_quantity_def t_get_update_id)
  qed
  have a: "map_option si_active (t_get (stock_items ?db) j) = map_option si_active (t_get (stock_items db) j)" for j
    by (cases "t_get (stock_items db) j") (auto simp: t_get_update_id)
  have "stock_ok ?db = stock_ok db" by (rule stock_ok_frame) (simp_all only: q, simp_all)
  then show ?thesis using assms a by (simp add: moves_def stock_only_def)
qed

definition delivery_of :: "nat \<Rightarrow> string option \<Rightarrow> date option \<Rightarrow> nat \<times> int \<times> int \<Rightarrow> stock_movement" where
  "delivery_of ou ref d x = (case x of (i, q, cost) \<Rightarrow> (plain_movement ou i GoodsReceived q cost d)\<lparr>mv_reference := ref\<rparr>)"

lemma receive_moves:
  assumes "recordGoodsReceived ou lines ref d opening db = Inr db'" "stock_ok db"
  shows "moves db (map (delivery_of ou ref d) lines) db'" "knows db (map (delivery_of ou ref d) lines)"
proof -
  let ?ids = "js_unique (map fst lines)"
  obtain locked where l: "lockStockItemsSorted db (resolveLockClosure db ?ids) = Inr locked"
    and a: "applyStockAvailabilityEffects ?ids ou (foldl (receive_one ou ref d) db lines) = Inr db'"
    using assms(1) by (auto simp: recordGoodsReceived_def Let_def rbind_eq_Inr split: if_splits)
  have m: "moves db (map (delivery_of ou ref d) lines) (foldl (receive_one ou ref d) db lines)"
  proof (rule moves_foldl [OF _ assms(2) stock_only_refl])
    fix db2 :: stock_db and x :: "nat \<times> int \<times> int" assume ok: "stock_ok db2"
    obtain i q c where x: "x = (i, q, c)" by (cases x)
    let ?db = "db2\<lparr>stock_items := t_update (by_id i) (\<lambda>s. s\<lparr>si_cost := c\<rparr>) (stock_items db2)\<rparr>"
    have "receive_one ou ref d db2 x = post_movement (delivery_of ou ref d x) ?db"
      by (simp add: x receive_one_def delivery_of_def post_movement_def add_movement_def Let_def items_movements_swap)
    moreover have "moves db2 [] ?db" by (rule set_cost_moves [OF ok])
    ultimately show "moves db2 [delivery_of ou ref d x] (receive_one ou ref d db2 x)"
      using moves_trans [of db2 "[]" ?db] moves_post [of ?db] moves_ok(1) [of db2 "[]" ?db] by simp
  qed
  show "moves db (map (delivery_of ou ref d) lines) db'" using moves_trans [OF m moves_apply [OF a]] moves_ok(1) [OF m] by simp
  show "knows db (map (delivery_of ou ref d) lines)"
    using locked_closure [OF l] by (fastforce simp: knows_def delivery_of_def js_unique_def)
qed

lemma waste_moves:
  assumes "recordWastage i outletId q reason d db = Inr db'" "stock_ok db"
  obtains ou it where "outletId = Some ou" "t_get (stock_items db) i = Some it"
    "moves db [plain_movement ou i GoodsWasted (- q) (si_cost it) d] db'"
proof -
  obtain ou locked it where o: "outletId = Some ou" and l: "lockStockItemsSorted db (resolveLockClosure db [i]) = Inr locked" "map_of locked i = Some it"
    and a: "applyStockAvailabilityEffects [i] ou (post_movement (plain_movement ou i GoodsWasted (- q) (si_cost it) d) db) = Inr db'"
    using assms(1) by (auto simp: recordWastage_def rbind_eq_Inr split: if_splits option.splits)
  have it: "t_get (stock_items db) i = Some it" using locked_closure [OF l(1), of i] l(2) by simp
  have m: "moves db [plain_movement ou i GoodsWasted (- q) (si_cost it) d] (post_movement (plain_movement ou i GoodsWasted (- q) (si_cost it) d) db)"
    by (rule moves_post [OF assms(2)])
  show thesis using that [OF o it] moves_trans [OF m moves_apply [OF a]] moves_ok(1) [OF m] by simp
qed

section \<open>Transfers\<close>

text \<open>Two movements of one item between two outlets, then both recomputations.\<close>

lemma two_legs:
  assumes ok: "stock_ok db" and o: "mv_outlet m1 = a" "mv_outlet m2 = b" "mv_item m1 = i" "mv_item m2 = i" and ab: "a \<noteq> b"
  shows "moves db [m1, m2] (recomputeStockLevel i b (recomputeStockLevel i a (add_movement m2 (add_movement m1 db))))"
proof -
  let ?d1 = "add_movement m1 db" and ?d2 = "add_movement m2 (add_movement m1 db)"
  let ?d3 = "recomputeStockLevel i a ?d2" and ?d4 = "recomputeStockLevel i b (recomputeStockLevel i a (add_movement m2 (add_movement m1 db)))"
  have w: "t_wf (stock_levels ?d2)" "t_wf (stock_levels ?d3)" using ok by (simp_all add: recompute_levels)
  have "level.right_but (insert (a, i) {}) ?d1"
    by (rule level.right_touch [of "{}" db]) (use ok o in \<open>auto simp: stock_ok_def levels_ok_def hand_def moved_def moved_add prod_eq_iff level.right_but_def\<close>)
  then have "level.right_but (insert (b, i) {(a, i)}) ?d2"
    by (rule level.right_touch) (use ok o in \<open>auto simp: stock_ok_def levels_ok_def hand_def moved_def moved_add prod_eq_iff level.right_but_def\<close>)
  then have "level.right_but ({(b, i), (a, i)} - {(a, i)}) (recompute_at (a, i) ?d2)" by (rule level.right_recompute)
  then have "level.right_but ({(b, i), (a, i)} - {(a, i)} - {(b, i)}) (recompute_at (b, i) (recompute_at (a, i) ?d2))" by (rule level.right_recompute)
  moreover have "{(b, i), (a, i)} - {(a, i)} - {(b, i)} = {}" by blast
  ultimately have l: "level.right_but {} ?d4" by (simp add: recompute_at_def)
  have "total.right_at ?d3 j" for j
    by (rule total.right_after_touch [of db]) (use ok o in \<open>auto simp: stock_ok_def moved_add\<close>)
  then have t: "total.right_at ?d4 j" for j by (rule total.right_kept)
  have "levels_total ?d2 j = levels_total db j" for j by (simp add: levels_total_def)
  then have "levels_total ?d4 j = item_sum ?d4 j" for j
    using stock_ok_levels_total [OF ok, of j] stock_ok_hand [OF ok] sums_movements [OF recompute_levels(2)] ab o
    by (simp add: levels_total_recompute [OF w(1)] levels_total_recompute [OF w(2)] on_hand_recompute [OF w(1)] moved_add)
  then have "stock_ok ?d4" using l t by (simp add: stock_ok_def)
  moreover have "stock_only db ?d4" using stock_only_trans add_only recompute_only by metis
  ultimately show ?thesis by (simp add: moves_def recompute_levels add_movement_def)
qed

definition leg_of :: "stock_db \<Rightarrow> nat \<Rightarrow> string \<Rightarrow> date option \<Rightarrow> nat \<Rightarrow> int \<Rightarrow> stock_movement" where
  "leg_of db i ref d ou q = (plain_movement ou i StockTransferred q (item_cost db i) d)\<lparr>mv_reference := Some ref\<rparr>"

lemma leg_of_fields [simp]:
  "mv_outlet (leg_of db i ref d ou q) = ou" "mv_item (leg_of db i ref d ou q) = i" "mv_quantity (leg_of db i ref d ou q) = q"
  "mv_total_cost (leg_of db i ref d ou q) = extended_cost_cents (item_cost db i) q" "mv_type (leg_of db i ref d ou q) = StockTransferred"
  by (simp_all add: leg_of_def)

lemma transfer_moves:
  assumes "transferStock i a b q ref d db = Inr db'" "stock_ok db"
  shows "moves db [leg_of db i ref d a (- q), leg_of db i ref d b q] db'"
    "a \<noteq> b" "q \<le> on_hand db a i" "\<exists>it. t_get (stock_items db) i = Some it \<and> si_active it"
proof -
  obtain locked it where l: "lockStockItemsSorted db (resolveLockClosure db [i]) = Inr locked" "map_of locked i = Some it"
    and c: "a \<noteq> b" "si_active it" "\<not> on_hand db a i < q"
    and e: "rbind (applyStockAvailabilityEffects [i] a (recomputeStockLevel i b (recomputeStockLevel i a
        (add_movement ((plain_movement b i StockTransferred q (si_cost it) d)\<lparr>mv_reference := Some ref\<rparr>)
          (add_movement ((plain_movement a i StockTransferred (- q) (si_cost it) d)\<lparr>mv_reference := Some ref\<rparr>) db))))) (applyStockAvailabilityEffects [i] b) = Inr db'"
    using assms(1) by (auto simp: transferStock_def rbind_eq_Inr Let_def split: if_splits option.splits)
  have it: "t_get (stock_items db) i = Some it" using locked_closure [OF l(1), of i] l(2) by simp
  let ?m1 = "leg_of db i ref d a (- q)" and ?m2 = "leg_of db i ref d b q"
  let ?db2 = "recomputeStockLevel i b (recomputeStockLevel i a (add_movement ?m2 (add_movement ?m1 db)))"
  obtain db3 where a3: "applyStockAvailabilityEffects [i] a ?db2 = Inr db3" "applyStockAvailabilityEffects [i] b db3 = Inr db'"
    using e it by (auto simp: leg_of_def item_cost_def rbind_eq_Inr)
  have m: "moves db [?m1, ?m2] ?db2" by (rule two_legs [OF assms(2)]) (simp_all add: c)
  have n: "moves ?db2 [] db3" using moves_apply [OF a3(1)] moves_ok(1) [OF m] by simp
  have p: "moves db3 [] db'" using moves_apply [OF a3(2)] moves_ok(1) [OF n] by simp
  show "moves db [?m1, ?m2] db'" using moves_trans [OF moves_trans [OF m n] p] by simp
  show "a \<noteq> b" "q \<le> on_hand db a i" "\<exists>it. t_get (stock_items db) i = Some it \<and> si_active it" using c it by auto
qed

end
