(* ===== verification/StockDocs.thy ===== *)
theory StockDocs
  imports StockEffects
begin

text \<open>
  What issuing a request and completing a stock take do to the books.
\<close>

section \<open>The quantities given\<close>

lemma amount_mset: "mset xs = mset ys \<Longrightarrow> amount_of xs i = amount_of ys i"
proof -
  assume m: "mset xs = mset ys"
  have "amount_of zs i = sum_mset (image_mset snd (filter_mset (\<lambda>(j, _). j = i) (mset zs)))" for zs
    by (induction zs) (auto simp: amount_of_def)
  then show ?thesis using m by simp
qed

lemma amount_positive: "(\<And>j q. (j, q) \<in> set xs \<Longrightarrow> 0 \<le> q) \<Longrightarrow> amount_of (filter (\<lambda>(_, q). q > 0) xs) i = amount_of xs i"
proof (induction xs)
  case (Cons x xs)
  obtain j q where x: "x = (j, q)" by fastforce
  have "0 \<le> q" "amount_of (filter (\<lambda>(_, q). q > 0) xs) i = amount_of xs i" using Cons x by auto
  then show ?case using x by auto
qed simp

lemma amount_distinct: "distinct (map fst xs) \<Longrightarrow> (i, q) \<in> set xs \<Longrightarrow> amount_of xs i = q"
  by (simp add: amount_map_of)

lemma take_given:
  "take_line_given asked acc (i, q) = Inr acc' \<Longrightarrow> (\<exists>r. map_of asked i = Some r \<and> q \<le> r) \<and> i \<notin> fst ` set acc \<and> acc' = acc @ [(i, q)]"
  by (auto simp: take_line_given_def split: option.splits if_splits)

lemma given_lines:
  assumes "foldM (take_line_given asked) acc lines = Inr qs"
  shows "qs = acc @ lines \<and> (\<forall>(i, q) \<in> set lines. \<exists>r. map_of asked i = Some r \<and> q \<le> r) \<and> (distinct (map fst acc) \<longrightarrow> distinct (map fst qs))"
  using assms
proof (induction lines arbitrary: acc)
  case (Cons x lines)
  obtain i q where x: "x = (i, q)" by fastforce
  obtain acc' where a: "take_line_given asked acc (i, q) = Inr acc'" and f: "foldM (take_line_given asked) acc' lines = Inr qs"
    using Cons.prems x by (auto simp: rbind_eq_Inr)
  have "distinct (map fst acc) \<longrightarrow> distinct (map fst qs)"
    using take_given [OF a] conjunct2 [OF conjunct2 [OF Cons.IH [OF f]]] by simp
  then show ?case using take_given [OF a] Cons.IH [OF f] x by simp
qed simp

section \<open>Issuing a request\<close>

definition send_change :: "nat \<Rightarrow> nat \<Rightarrow> (nat \<times> int) list \<Rightarrow> nat \<Rightarrow> nat \<Rightarrow> int" where
  "send_change a b sent ou i = (if ou = b then amount_of sent i else 0) - (if ou = a then amount_of sent i else 0)"

lemma send_moves:
  "foldM (\<lambda>db (i, q). transferStock i a b q (refs i) d db) db sent = Inr db' \<Longrightarrow> stock_ok db \<Longrightarrow>
   \<exists>ms. moves db ms db' \<and> knows db ms \<and> (\<forall>ou i. change_at ms ou i = send_change a b sent ou i)"
proof (induction sent arbitrary: db)
  case Nil
  then show ?case by (intro exI [of _ "[]"]) (simp add: moves_def knows_def send_change_def)
next
  case (Cons x sent)
  obtain i q where x: "x = (i, q)" by fastforce
  obtain db1 where t: "transferStock i a b q (refs i) d db = Inr db1" and f: "foldM (\<lambda>db (i, q). transferStock i a b q (refs i) d db) db1 sent = Inr db'"
    using Cons.prems(1) x by (auto simp: rbind_eq_Inr)
  note tm = transfer_moves [OF t Cons.prems(2)]
  obtain ms where ms: "moves db1 ms db'" "knows db1 ms" "\<And>ou i. change_at ms ou i = send_change a b sent ou i"
    using Cons.IH [OF f moves_ok(1) [OF tm(1)]] by blast
  let ?two = "[leg_of db i (refs i) d a (- q), leg_of db i (refs i) d b q]"
  have "moves db (?two @ ms) db'" by (rule moves_trans [OF tm(1) ms(1)])
  moreover have "knows db (?two @ ms)"
    using ms(2) tm(4) moves_known [OF moves_ok(2) [OF tm(1)]] by (auto simp: knows_def)
  moreover have "change_at (?two @ ms) ou j = send_change a b (x # sent) ou j" for ou j
    using tm(2) by (simp add: ms(3) x send_change_def)
  ultimately show ?case by blast
qed

lemma lock_pending:
  "lockPendingRequest db rid user = Inr r \<Longrightarrow> t_get (transfer_requests db) rid = Some r \<and> tq_status r = RequestPending"
  by (auto simp: lockPendingRequest_def split: option.splits if_splits)

definition issued_line :: "(nat \<times> int) list \<Rightarrow> (nat \<Rightarrow> string) \<Rightarrow> request_line \<Rightarrow> request_line" where
  "issued_line lines refs l = l\<lparr>rl_issued := map_of lines (rl_item l),
     rl_reference := (if \<exists>q > 0. (rl_item l, q) \<in> set lines then Some (refs (rl_item l)) else None)\<rparr>"

lemma issue_effect:
  assumes "issueTransferRequest rid lines user refs d db = Inr db'" "stock_ok db" "\<forall>(i, q) \<in> set lines. 0 \<le> q"
  obtains r db1 ms where "t_get (transfer_requests db) rid = Some r" "tq_status r = RequestPending"
    "moves db ms db1" "knows db ms" "\<And>ou i. change_at ms ou i = send_change (tq_from r) (tq_to r) lines ou i"
    "distinct (map fst lines)" "length lines = length (lines_of db rid)"
    "\<forall>(i, q) \<in> set lines. \<exists>l. l \<in> snd ` set (lines_of db rid) \<and> rl_item l = i \<and> q \<le> rl_requested l"
    "\<forall>(i, q) \<in> set lines. 0 < q \<longrightarrow> q \<le> on_hand db (tq_from r) i" "\<exists>(i, q) \<in> set lines. 0 < q" "tq_from r \<noteq> tq_to r"
    "db' = set_request rid (\<lambda>r. r\<lparr>tq_status := RequestIssued, tq_decided_by := user, tq_date := d\<rparr>)
       (db1\<lparr>transfer_request_lines := t_update (\<lambda>_ l. rl_request l = rid) (issued_line lines refs) (transfer_request_lines db1)\<rparr>)"
proof -
  let ?asked = "map (\<lambda>(_, l). (rl_item l, rl_requested l)) (lines_of db rid)"
  obtain r qs where r: "lockPendingRequest db rid user = Inr r" and g: "foldM (take_line_given ?asked) [] lines = Inr qs"
    using assms(1) by (auto simp: issueTransferRequest_def rbind_eq_Inr Let_def)
  have qs: "qs = lines" and le: "\<forall>(i, q) \<in> set lines. \<exists>r. map_of ?asked i = Some r \<and> q \<le> r" and di: "distinct (map fst lines)"
    using given_lines [OF g] by auto
  let ?send = "sort_key fst (filter (\<lambda>(_, q). q > 0) lines)"
  obtain db1 where s: "length lines = length (lines_of db rid)" "?send \<noteq> []" "filter (\<lambda>(i, q). on_hand db (tq_from r) i < q) ?send = []"
    and f: "foldM (\<lambda>db (i, q). transferStock i (tq_from r) (tq_to r) q (refs i) d db) db ?send = Inr db1"
    and db': "db' = set_request rid (\<lambda>r. r\<lparr>tq_status := RequestIssued, tq_decided_by := user, tq_date := d\<rparr>)
       (db1\<lparr>transfer_request_lines := t_update (\<lambda>_ l. rl_request l = rid)
          (\<lambda>l. l\<lparr>rl_issued := map_of lines (rl_item l), rl_reference := (if rl_item l \<in> fst ` set ?send then Some (refs (rl_item l)) else None)\<rparr>)
          (transfer_request_lines db1)\<rparr>)"
    using assms(1) r g by (auto simp: issueTransferRequest_def rbind_eq_Inr Let_def qs split: if_splits)
  obtain ms where ms: "moves db ms db1" "knows db ms" "\<And>ou i. change_at ms ou i = send_change (tq_from r) (tq_to r) ?send ou i"
    using send_moves [OF f assms(2)] by blast
  have "amount_of ?send i = amount_of lines i" for i
    using amount_mset [of ?send "filter (\<lambda>(_, q). q > 0) lines" i] amount_positive [of lines i] assms(3) by fastforce
  then have ch: "change_at ms ou i = send_change (tq_from r) (tq_to r) lines ou i" for ou i by (simp add: ms(3) send_change_def)
  have "tq_from r \<noteq> tq_to r"
  proof -
    obtain x xs where x: "?send = x # xs" using s(2) by (cases ?send) auto
    obtain i q where "x = (i, q)" by fastforce
    then show ?thesis using f x by (auto simp: rbind_eq_Inr transferStock_def)
  qed
  moreover have "db' = set_request rid (\<lambda>r. r\<lparr>tq_status := RequestIssued, tq_decided_by := user, tq_date := d\<rparr>)
       (db1\<lparr>transfer_request_lines := t_update (\<lambda>_ l. rl_request l = rid) (issued_line lines refs) (transfer_request_lines db1)\<rparr>)"
  proof -
    have e: "(rl_item l \<in> fst ` set ?send) = (\<exists>q > 0. (rl_item l, q) \<in> set lines)" for l by force
    have "(\<lambda>l. l\<lparr>rl_issued := map_of lines (rl_item l), rl_reference := (if rl_item l \<in> fst ` set ?send then Some (refs (rl_item l)) else None)\<rparr>)
        = issued_line lines refs" by (intro ext) (simp only: issued_line_def e)
    then show ?thesis using db' by simp
  qed
  moreover have "\<forall>(i, q) \<in> set lines. \<exists>l. l \<in> snd ` set (lines_of db rid) \<and> rl_item l = i \<and> q \<le> rl_requested l"
  proof clarify
    fix i q assume "(i, q) \<in> set lines"
    then obtain n where "map_of ?asked i = Some n" "q \<le> n" using le by blast
    then have "(i, n) \<in> set ?asked" by (auto dest: map_of_SomeD)
    then show "\<exists>l. l \<in> snd ` set (lines_of db rid) \<and> rl_item l = i \<and> q \<le> rl_requested l" using \<open>q \<le> n\<close> by force
  qed
  moreover have "\<forall>(i, q) \<in> set lines. 0 < q \<longrightarrow> q \<le> on_hand db (tq_from r) i" "\<exists>(i, q) \<in> set lines. 0 < q"
  proof -
    have e: "set ?send = {(i, q). (i, q) \<in> set lines \<and> 0 < q}" by auto
    show "\<forall>(i, q) \<in> set lines. 0 < q \<longrightarrow> q \<le> on_hand db (tq_from r) i" using s(3) e by (fastforce simp: filter_empty_conv not_less)
    have "set ?send \<noteq> {}" using s(2) by (metis set_empty)
    then show "\<exists>(i, q) \<in> set lines. 0 < q" using e by auto
  qed
  ultimately show thesis using lock_pending [OF r] ms(1,2) ch di s(1) by (intro that [of r ms db1]) blast+
qed

section \<open>Completing a stock take\<close>

definition noted :: "nat \<times> nat \<times> int \<times> int \<Rightarrow> take_line table \<Rightarrow> take_line table" where
  "noted x t = (case x of (li, i, theoretical, variance) \<Rightarrow>
     t_update (by_id li) (\<lambda>l. l\<lparr>tl_theoretical := Some theoretical, tl_variance := Some variance\<rparr>) t)"

definition adjustment_of :: "stock_db \<Rightarrow> nat \<Rightarrow> nat \<Rightarrow> date option \<Rightarrow> nat \<times> nat \<times> int \<times> int \<Rightarrow> stock_movement list" where
  "adjustment_of db k ou d x = (case x of (li, i, theoretical, variance) \<Rightarrow>
     if variance = 0 then [] else [(plain_movement ou i CountAdjusted variance (item_cost db i) d)\<lparr>mv_take := Some k\<rparr>])"

abbreviation with_lines :: "take_line table \<Rightarrow> stock_db \<Rightarrow> stock_db" where
  "with_lines t db \<equiv> db\<lparr>stock_take_lines := t\<rparr>"

lemma with_lines_ok [simp]: "stock_ok (with_lines t db) = stock_ok db"
  by (rule stock_ok_frame) (simp_all add: item_quantity_def fun_eq_iff)

lemma moves_with_lines: "moves a ms b \<Longrightarrow> moves (with_lines t a) ms (with_lines t b)"
  by (simp add: moves_def stock_only_def)

lemma adjust_moves:
  assumes known: "\<forall>(li, i, th, v) \<in> set counted. \<exists>it. map_of locked i = Some it \<and> si_cost it = item_cost db0 i"
  shows "foldM (adjust_one k ou d locked) db counted = Inr db' \<Longrightarrow> stock_ok db \<Longrightarrow>
    moves (with_lines (fold noted counted (stock_take_lines db)) db) (concat (map (adjustment_of db0 k ou d) counted)) db'"
  using known
proof (induction counted arbitrary: db)
  case Nil
  then show ?case by (simp add: moves_def)
next
  case (Cons x counted)
  obtain li i th v where x: "x = (li, i, th, v)" by (cases x)
  obtain db1 where a: "adjust_one k ou d locked db x = Inr db1" and f: "foldM (adjust_one k ou d locked) db1 counted = Inr db'"
    using Cons.prems(1) by (auto simp: rbind_eq_Inr)
  let ?l = "with_lines (noted x (stock_take_lines db)) db"
  obtain it where it: "map_of locked i = Some it" "si_cost it = item_cost db0 i" using Cons.prems(3) x by auto
  have s: "moves ?l (adjustment_of db0 k ou d x) db1"
  proof (cases "v = 0")
    case True
    then show ?thesis using a x Cons.prems(2) by (auto simp: adjust_one_def adjustment_of_def moves_def noted_def)
  next
    case False
    then have "db1 = post_movement (hd (adjustment_of db0 k ou d x)) ?l"
      using a x it by (simp add: adjust_one_def adjustment_of_def noted_def Let_def)
    then show ?thesis using False x Cons.prems(2) moves_post [of ?l] by (simp add: adjustment_of_def)
  qed
  have lines: "stock_take_lines db1 = noted x (stock_take_lines db)" using stock_only_frame(7) [OF moves_ok(2) [OF s]] by simp
  have "moves (with_lines (fold noted counted (stock_take_lines db1)) ?l) (adjustment_of db0 k ou d x) (with_lines (fold noted counted (stock_take_lines db1)) db1)"
    by (rule moves_with_lines [OF s])
  moreover have "moves (with_lines (fold noted counted (stock_take_lines db1)) db1) (concat (map (adjustment_of db0 k ou d) counted)) db'"
    using Cons.IH [OF f moves_ok(1) [OF s]] Cons.prems(3) by simp
  ultimately have "moves (with_lines (fold noted counted (stock_take_lines db1)) ?l)
      (adjustment_of db0 k ou d x @ concat (map (adjustment_of db0 k ou d) counted)) db'" by (rule moves_trans)
  then show ?case by (simp add: lines)
qed

lemma noted_get:
  "distinct (map fst xs) \<Longrightarrow> t_get (fold noted xs t) li = (case map_of xs li of None \<Rightarrow> t_get t li
     | Some (i, th, v) \<Rightarrow> map_option (\<lambda>l. l\<lparr>tl_theoretical := Some th, tl_variance := Some v\<rparr>) (t_get t li))"
proof (induction xs arbitrary: t)
  case (Cons x xs)
  obtain lj i th v where x: "x = (lj, i, th, v)" by (cases x)
  have n: "map_of xs lj = None" using Cons.prems x by (simp add: map_of_eq_None_iff)
  have "t_get (fold noted (x # xs) t) li = t_get (fold noted xs (noted x t)) li" by simp
  also have "\<dots> = (case map_of xs li of None \<Rightarrow> t_get (noted x t) li
     | Some (i, th, v) \<Rightarrow> map_option (\<lambda>l. l\<lparr>tl_theoretical := Some th, tl_variance := Some v\<rparr>) (t_get (noted x t) li))"
    using Cons by simp
  also have "\<dots> = (case map_of (x # xs) li of None \<Rightarrow> t_get t li
     | Some (i, th, v) \<Rightarrow> map_option (\<lambda>l. l\<lparr>tl_theoretical := Some th, tl_variance := Some v\<rparr>) (t_get t li))"
  proof -
    have "t_get (noted x t) li = (if li = lj then map_option (\<lambda>l. l\<lparr>tl_theoretical := Some th, tl_variance := Some v\<rparr>) (t_get t li) else t_get t li)"
      by (simp add: x noted_def t_get_update_id)
    then show ?thesis unfolding x using n by (cases "li = lj") (simp_all split: option.split)
  qed
  finally show ?case .
qed simp

definition take_lines :: "stock_db \<Rightarrow> nat \<Rightarrow> (nat \<times> take_line) list" where
  "take_lines db k = t_select (\<lambda>_ l. tl_take l = k) (stock_take_lines db)"

lemma take_not_decided_open: "take_not_decided k db = Inr t \<Longrightarrow> t_get (stock_takes db) k = Some t \<and> tk_status t = TakeOpen"
  by (auto simp: take_not_decided_def split: option.splits take_status.splits)

text \<open>The adjustments change the outlet's quantities by the variances.\<close>

lemma change_adjustments:
  "change_at (concat (map (adjustment_of db k ou d) counted)) ou' i
     = (if ou' = ou then sum_list (map (\<lambda>(_, j, _, v). if j = i then v else 0) counted) else 0)"
proof (induction counted)
  case (Cons x counted)
  then show ?case by (cases x) (simp add: adjustment_of_def)
qed simp

lemma variance_sum:
  assumes "distinct (map (tl_item \<circ> snd) ls)"
  shows "sum_list (map (\<lambda>(_, j, _, v). if j = i then v else 0) (map (counted_line db ou) ls))
    = (case find (\<lambda>x. tl_item (snd x) = i) ls of None \<Rightarrow> 0 | Some (_, l) \<Rightarrow> tl_counted l - on_hand db ou i)"
  using assms
proof (induction ls)
  case (Cons x ls)
  obtain li l where x: "x = (li, l)" by fastforce
  have z: "sum_list (map (\<lambda>(_, j, _, v). if j = i then v else 0) (map (counted_line db ou) zs)) = 0"
    if "i \<notin> (tl_item \<circ> snd) ` set zs" for zs
    using that by (induction zs) (auto simp: counted_line_def split: prod.splits)
  have c: "counted_line db ou x = (li, tl_item l, on_hand db ou (tl_item l), tl_counted l - on_hand db ou (tl_item l))"
    by (simp add: x counted_line_def)
  show ?case
  proof (cases "tl_item l = i")
    case True
    then show ?thesis using z [of ls] Cons.prems x c by simp
  next
    case False
    then show ?thesis using Cons x c by simp
  qed
qed simp

lemma if_InrD: "(if c then Inl e else x) = Inr y \<Longrightarrow> x = Inr y"
  by (auto split: if_splits)

lemma complete_effect:
  assumes "completeStockTake k db = Inr db'" "stock_ok db"
  obtains t db1 db2 where "t_get (stock_takes db) k = Some t" "tk_status t = TakeOpen"
    "db1 = with_lines (fold noted (map (counted_line db (tk_outlet t)) (take_lines db k)) (stock_take_lines db)) db"
    "moves db1 (concat (map (adjustment_of db k (tk_outlet t) (trading_date db)) (map (counted_line db (tk_outlet t)) (take_lines db k)))) db2"
    "knows db (concat (map (adjustment_of db k (tk_outlet t) (trading_date db)) (map (counted_line db (tk_outlet t)) (take_lines db k))))"
    "db' = db2\<lparr>stock_takes := t_update (by_id k) (\<lambda>t. t\<lparr>tk_status := TakeCompleted, tk_date := trading_date db\<rparr>) (stock_takes db2)\<rparr>"
proof -
  obtain t where t: "take_not_decided k db = Inr t" using assms(1) by (auto simp: completeStockTake_def rbind_eq_Inr)
  let ?ou = "tk_outlet t" let ?c = "map (counted_line db ?ou) (take_lines db k)"
  let ?ids = "js_unique (map (tl_item \<circ> snd) (take_lines db k))"
  let ?ms = "concat (map (adjustment_of db k ?ou (trading_date db)) ?c)"
  let ?changed = "map (\<lambda>(_, i, _, _). i) (filter (\<lambda>(_, _, _, v). v \<noteq> 0) ?c)"
  obtain locked db1 db2 where l: "lockStockItemsSorted db (resolveLockClosure db ?ids) = Inr locked"
    and f: "foldM (adjust_one k ?ou (trading_date db) locked) db ?c = Inr db1"
    and a: "(if ?changed = [] then Inr db1 else applyStockAvailabilityEffects ?changed ?ou db1) = Inr db2"
    and db': "db' = db2\<lparr>stock_takes := t_update (by_id k) (\<lambda>t. t\<lparr>tk_status := TakeCompleted, tk_date := trading_date db\<rparr>) (stock_takes db2)\<rparr>"
  proof -
    note e = assms(1) [unfolded completeStockTake_def Let_def t rbind_simps, folded take_lines_def]
    show thesis
      apply (rule rbind_InrE [OF e])
      apply (drule if_InrD)
      apply (erule rbind_InrE)
      apply (erule rbind_InrE)
      apply (rule that)
         apply assumption
        apply assumption
       apply assumption
      apply simp
      done
  qed
  have known: "\<exists>it. map_of locked i = Some it \<and> t_get (stock_items db) i = Some it" if "(li, i, th, v) \<in> set ?c" for li i th v
  proof -
    have "i \<in> set ?ids" using that by (force simp: counted_line_def js_unique_def)
    then show ?thesis by (rule locked_closure [OF l])
  qed
  have m: "moves (with_lines (fold noted ?c (stock_take_lines db)) db) ?ms db1"
    by (rule adjust_moves [OF _ f assms(2)]) (use known in \<open>fastforce simp: item_cost_def\<close>)
  moreover have "moves db1 [] db2"
    using a moves_ok(1) [OF m] moves_apply [of ?changed ?ou db1 db2] by (cases "?changed = []") (auto simp: moves_def)
  ultimately have "moves (with_lines (fold noted ?c (stock_take_lines db)) db) ?ms db2" using moves_trans by fastforce
  moreover have "knows db ?ms" using known by (fastforce simp: knows_def adjustment_of_def split: if_splits)
  ultimately show thesis using that take_not_decided_open [OF t] db' by blast
qed

end
