(* ===== verification/StockRuns.thy ===== *)
theory StockRuns
  imports StockDocs
begin

text \<open>
  The stock module as a state machine: every operation is a step, in any order and from any number of users, next to the writes of
  other screens (outlets, staff, menus, orders, trading days). What every reachable state of the books satisfies.
\<close>

section \<open>Steps\<close>

text \<open>What another screen may write between two stock operations.\<close>

definition other_screen :: "stock_db \<Rightarrow> stock_db \<Rightarrow> bool" where
  "other_screen db db' \<longleftrightarrow> stock_items db' = stock_items db \<and> stock_levels db' = stock_levels db \<and> stock_movements db' = stock_movements db
     \<and> transfer_requests db' = transfer_requests db \<and> transfer_request_lines db' = transfer_request_lines db
     \<and> stock_takes db' = stock_takes db \<and> stock_take_lines db' = stock_take_lines db"

inductive stock_step :: "stock_db \<Rightarrow> stock_db \<Rightarrow> bool" where
  sale: "deductStockForSettlement orderId sid items d db = Inr db' \<Longrightarrow> stock_step db db'"
| reversal: "reverseStockForSettlement sid db = Inr db' \<Longrightarrow> stock_step db db'"
| availability: "assertStockAvailableOrOverridden lines reason ou approve db = Inr (is, db') \<Longrightarrow> stock_step db db'"
| create_item: "createStockItem ou category cost reorder db = Inr (i, db') \<Longrightarrow> stock_step db db'"
| update_item: "updateStockItem i changes ou db = Inr db' \<Longrightarrow> stock_step db db'"
| recipe: "upsertMenuItemComponents m components db = Inr db' \<Longrightarrow> stock_step db db'"
| receive: "recordGoodsReceived ou lines3 ref d opening db = Inr db' \<Longrightarrow> stock_step db db'"
| waste: "recordWastage i outlet q reason d db = Inr db' \<Longrightarrow> stock_step db db'"
| transfer: "transferStock i a b q ref2 d db = Inr db' \<Longrightarrow> stock_step db db'"
| ask: "createTransferRequest a b lines user top_up db = Inr (rid, db') \<Longrightarrow> stock_step db db'"
| issue: "issueTransferRequest rid lines user refs d db = Inr db' \<Longrightarrow> \<forall>(i, q) \<in> set lines. 0 \<le> q \<Longrightarrow> stock_step db db'"
| reject: "rejectTransferRequest rid user db = Inr db' \<Longrightarrow> stock_step db db'"
| cancel: "cancelTransferRequest rid user db = Inr db' \<Longrightarrow> stock_step db db'"
| open_take: "openStockTake ou db = Inr (k, db') \<Longrightarrow> stock_step db db'"
| count_line: "recordStockTakeCount k i q db = Inr db' \<Longrightarrow> stock_step db db'"
| complete_take: "completeStockTake k db = Inr db' \<Longrightarrow> stock_step db db'"
| cancel_take: "cancelStockTake k reason db = Inr db' \<Longrightarrow> stock_step db db'"
| other: "other_screen db db' \<Longrightarrow> stock_step db db'"

definition stock_start :: "stock_db \<Rightarrow> bool" where
  "stock_start db \<longleftrightarrow> stock_items db = t_empty \<and> stock_levels db = t_empty \<and> stock_movements db = t_empty
     \<and> transfer_requests db = t_empty \<and> transfer_request_lines db = t_empty \<and> stock_takes db = t_empty \<and> stock_take_lines db = t_empty"

section \<open>The books of every reachable state\<close>

definition stock_inv :: "stock_db \<Rightarrow> bool" where
  "stock_inv db \<longleftrightarrow> stock_ok db \<and> t_wf (stock_items db) \<and> t_wf (stock_movements db)
     \<and> (\<forall>(k, m) \<in> set (rows (stock_movements db)). mv_item m < next_id (stock_items db))"

lemma stock_invD: "stock_inv db \<Longrightarrow> stock_ok db" "stock_inv db \<Longrightarrow> t_wf (stock_items db)" "stock_inv db \<Longrightarrow> t_wf (stock_movements db)"
  by (simp_all add: stock_inv_def)

lemma start_inv: "stock_start db \<Longrightarrow> stock_inv db"
  by (simp add: stock_start_def stock_inv_def stock_ok_def level.right_but_def levels_ok_def hand_def moved_def total.right_at_def
      on_hand_def level_row_def outlet_sum_def item_sum_def levels_total_def item_quantity_def)
    (simp add: t_first_def t_select_def t_empty_def)

lemma fold_insert_rows: "set (rows (fold t_insert ms t)) \<subseteq> set (rows t) \<union> UNIV \<times> set ms" "t_wf t \<Longrightarrow> t_wf (fold t_insert ms t)"
proof (induction ms arbitrary: t)
  case (Cons m ms)
  { case 1
    show ?case using Cons.IH(1) [of "t_insert m t"] by (auto simp: rows_insert)
  next
    case 2
    then show ?case using Cons.IH(2) by simp
  }
qed simp_all

lemma inv_frame:
  assumes "stock_inv db" "stock_ok db'" "stock_movements db' = stock_movements db" "next_id (stock_items db) \<le> next_id (stock_items db')" "t_wf (stock_items db')"
  shows "stock_inv db'"
  using assms by (fastforce simp: stock_inv_def)

lemma inv_moves:
  assumes "stock_inv db" "moves db ms db'" "knows db ms"
  shows "stock_inv db'"
proof -
  have w: "t_wf (stock_items db)" using assms(1) by (simp add: stock_inv_def)
  have n: "next_id (stock_items db') = next_id (stock_items db)" "t_wf (stock_items db')"
    using stock_only_frame(16,17) [OF moves_ok(2) [OF assms(2)]] w by auto
  have "mv_item m < next_id (stock_items db)" if "m \<in> set ms" for m
    using assms(3) that t_get_lt [OF w] by (force simp: knows_def)
  then show ?thesis using assms fold_insert_rows [where ms = ms and t = "stock_movements db"] n by (fastforce simp: stock_inv_def moves_def)
qed

text \<open>An item's columns but its quantity may change freely.\<close>

lemma items_quantity:
  assumes "\<And>it. si_quantity (f it) = si_quantity it"
  shows "item_quantity (db\<lparr>stock_items := t_update (by_id i) f (stock_items db)\<rparr>) = item_quantity db"
proof
  fix j show "item_quantity (db\<lparr>stock_items := t_update (by_id i) f (stock_items db)\<rparr>) j = item_quantity db j"
    using assms by (cases "t_get (stock_items db) j") (auto simp: item_quantity_def t_get_update_id)
qed

lemma upsert_reorder_ok:
  assumes "stock_ok db"
  shows "stock_ok (upsertLevel ou i (\<lambda>l. l\<lparr>sl_reorder := r\<rparr>) db)" (is "stock_ok ?db")
proof -
  have w: "t_wf (stock_levels db)" using assms by simp
  have h: "on_hand ?db ou' i' = on_hand db ou' i'" for ou' i'
    using level_row_upsert [OF w, of "\<lambda>l. l\<lparr>sl_reorder := r\<rparr>" ou i ou' i'] by (auto simp: on_hand_def split: option.split)
  have t: "levels_total ?db j = levels_total db j" for j
  proof (cases "level_row db ou i")
    case None
    then show ?thesis by (simp add: levels_total_def upsertLevel_def t_total_insert)
  next
    case (Some x)
    obtain k l where x: "level_row db ou i = Some (k, l)" using Some by (cases x) auto
    have "t_get (stock_levels db) k = Some l" using t_first_SomeD [OF w] x by (auto simp: level_row_def)
    then show ?thesis using x by (simp add: levels_total_def upsertLevel_def t_total_change_row [OF w])
  qed
  have s: "outlet_sum ?db = outlet_sum db" "item_sum ?db = item_sum db" using sums_movements [of ?db db] by simp_all
  have q: "item_quantity ?db = item_quantity db" by (simp add: item_quantity_def fun_eq_iff)
  show ?thesis using assms h t by (simp add: stock_ok_def level.right_but_def levels_ok_def hand_def moved_def total.right_at_def s q)
qed

lemma carry_ok: "stock_ok (carryCategoryByName ou n db) = stock_ok db" "stock_items (carryCategoryByName ou n db) = stock_items db"
  "stock_movements (carryCategoryByName ou n db) = stock_movements db"
proof -
  show "stock_items (carryCategoryByName ou n db) = stock_items db" "stock_movements (carryCategoryByName ou n db) = stock_movements db"
    by (simp_all add: carryCategoryByName_def carryCategory_def split: option.split)
  moreover have "stock_levels (carryCategoryByName ou n db) = stock_levels db"
    by (simp add: carryCategoryByName_def carryCategory_def split: option.split)
  ultimately show "stock_ok (carryCategoryByName ou n db) = stock_ok db" by (intro stock_ok_frame) (simp_all add: item_quantity_def fun_eq_iff)
qed

lemma item_sum_next: "stock_inv db \<Longrightarrow> item_sum db (next_id (stock_items db)) = 0"
  unfolding item_sum_def by (rule t_total_none) (auto simp: stock_inv_def)

lemma create_item_inv:
  assumes "createStockItem outletId category cost reorder db = Inr (i, db')" "stock_inv db"
  shows "stock_inv db'"
proof -
  obtain name where name: "resolveStockCategoryName db category = Inr name" using assms(1) by (auto simp: createStockItem_def rbind_eq_Inr)
  define it where "it = \<lparr>si_active = True, si_category = name, si_cost = (case cost of None \<Rightarrow> 0 | Some c \<Rightarrow> c), si_quantity = 0,
    si_reorder = (case reorder of None \<Rightarrow> 0 | Some r \<Rightarrow> r)\<rparr>"
  let ?db1 = "db\<lparr>stock_items := t_insert it (stock_items db)\<rparr>"
  have w: "t_wf (stock_items db)" using assms(2) by (simp add: stock_inv_def)
  have "on_hand ?db1 = on_hand db" by (rule on_hand_levels) simp
  moreover have "outlet_sum ?db1 = outlet_sum db" "item_sum ?db1 = item_sum db" using sums_movements [of ?db1 db] by simp_all
  moreover have "total.right_at ?db1 j" for j
    using assms(2) item_sum_next [OF assms(2)] w calculation(3)
    by (auto simp: stock_inv_def stock_ok_def total.right_at_def item_quantity_def t_get_insert it_def)
  ultimately have ok: "stock_ok ?db1"
    using assms(2) by (simp add: stock_inv_def stock_ok_def level.right_but_def levels_ok_def hand_def moved_def levels_total_def)
  have i1: "stock_inv ?db1" by (rule inv_frame [OF assms(2) ok]) (use w in \<open>simp_all add: next_id_simps\<close>)
  have "db' = ?db1 \<or> (\<exists>ou r. db' = carryCategoryByName ou name (upsertLevel ou i (\<lambda>l. l\<lparr>sl_reorder := r\<rparr>) ?db1))"
    using assms(1) name by (auto simp: createStockItem_def rbind_eq_Inr Let_def it_def split: option.splits)
  then show ?thesis
  proof
    assume "\<exists>ou r. db' = carryCategoryByName ou name (upsertLevel ou i (\<lambda>l. l\<lparr>sl_reorder := r\<rparr>) ?db1)"
    then obtain ou r where d: "db' = carryCategoryByName ou name (upsertLevel ou i (\<lambda>l. l\<lparr>sl_reorder := r\<rparr>) ?db1)" by blast
    show ?thesis unfolding d by (rule inv_frame [OF i1]) (use upsert_reorder_ok [OF ok] w in \<open>simp_all add: carry_ok\<close>)
  qed (use i1 in simp)
qed

lemma update_item_inv:
  assumes "updateStockItem i changes outletId db = Inr db'" "stock_inv db"
  shows "stock_inv db'"
proof -
  have f: "stock_inv (db1\<lparr>stock_items := t_update (by_id i) (changed_item changes c r) (stock_items db1)\<rparr>)" if "stock_inv db1" for db1 c r
  proof (rule inv_frame [OF that])
    have "item_quantity (db1\<lparr>stock_items := t_update (by_id i) (changed_item changes c r) (stock_items db1)\<rparr>) = item_quantity db1"
      by (rule items_quantity) (simp add: changed_item_def)
    then show "stock_ok (db1\<lparr>stock_items := t_update (by_id i) (changed_item changes c r) (stock_items db1)\<rparr>)"
      using that by (subst stock_ok_frame [of _ db1]) (simp_all add: stock_inv_def)
  qed (use that in \<open>simp_all add: stock_inv_def\<close>)
  have u: "stock_inv (upsertLevel ou i (\<lambda>l. l\<lparr>sl_reorder := r\<rparr>) db)" for ou r
    by (rule inv_frame [OF assms(2)]) (use upsert_reorder_ok stock_invD [OF assms(2)] in simp_all)
  obtain c where c: "(case (outletId, ic_reorder changes) of
       (Some ou, Some r) \<Rightarrow> rbind (assertOutlet db ou) (\<lambda>_.
           if t_get (stock_items db) i = None then Inl (ValidationError ''STOCK_ITEM_NOT_FOUND'')
           else let db1 = upsertLevel ou i (\<lambda>l. l\<lparr>sl_reorder := r\<rparr>) db
             in Inr (db1\<lparr>stock_items := t_update (by_id i) (changed_item changes c None) (stock_items db1)\<rparr>))
     | _ \<Rightarrow> Inr (db\<lparr>stock_items := t_update (by_id i) (changed_item changes c (ic_reorder changes)) (stock_items db)\<rparr>)) = Inr db'"
    using assms(1) unfolding updateStockItem_def by (rule rbind_InrE)
  show ?thesis
  proof (cases outletId)
    case None
    then show ?thesis using c f [OF assms(2)] by auto
  next
    case (Some ou)
    then show ?thesis using c f [OF assms(2)] f [OF u] by (cases "ic_reorder changes") (auto simp: rbind_eq_Inr Let_def split: if_splits)
  qed
qed

lemma inv_same:
  assumes "stock_inv db" "stock_items db' = stock_items db" "stock_levels db' = stock_levels db" "stock_movements db' = stock_movements db"
  shows "stock_inv db'"
proof (rule inv_frame [OF assms(1)])
  have "stock_ok db' = stock_ok db" by (rule stock_ok_frame) (simp_all add: assms item_quantity_def fun_eq_iff)
  then show "stock_ok db'" using assms(1) by (simp add: stock_inv_def)
qed (use assms in \<open>simp_all add: stock_inv_def\<close>)

lemma sale_inv: "deductStockForSettlement orderId sid items d db = Inr db' \<Longrightarrow> stock_inv db \<Longrightarrow> stock_inv db'"
proof -
  assume a: "deductStockForSettlement orderId sid items d db = Inr db'" and i: "stock_inv db"
  show "stock_inv db'"
  proof (cases "computeStockDeductionsForLines db items = []")
    case True
    then show ?thesis using a i sale_nothing by simp
  next
    case False
    then obtain ou where "t_get (pos_orders db) orderId = Some ou" using a by (auto simp: deductStockForSettlement_def Let_def split: option.splits)
    then show ?thesis using inv_moves [OF i] sale_moves [OF a stock_invD(1) [OF i] False] by blast
  qed
qed

lemma issue_inv:
  assumes "issueTransferRequest rid lines user refs d db = Inr db'" "\<forall>(i, q) \<in> set lines. 0 \<le> q" "stock_inv db"
  shows "stock_inv db'"
proof (rule issue_effect [OF assms(1) stock_invD(1) [OF assms(3)] assms(2)])
  fix r db1 ms
  assume m: "moves db ms db1" "knows db ms"
    and d: "db' = set_request rid (\<lambda>r. r\<lparr>tq_status := RequestIssued, tq_decided_by := user, tq_date := d\<rparr>)
       (db1\<lparr>transfer_request_lines := t_update (\<lambda>_ l. rl_request l = rid) (issued_line lines refs) (transfer_request_lines db1)\<rparr>)"
  show ?thesis by (rule inv_same [OF inv_moves [OF assms(3) m]]) (simp_all add: d set_request_def)
qed

lemma complete_inv:
  assumes "completeStockTake k db = Inr db'" "stock_inv db"
  shows "stock_inv db'"
proof (rule complete_effect [OF assms(1) stock_invD(1) [OF assms(2)]])
  fix t db1 db2
  let ?ms = "concat (map (adjustment_of db k (tk_outlet t) (trading_date db)) (map (counted_line db (tk_outlet t)) (take_lines db k)))"
  assume d1: "db1 = with_lines (fold noted (map (counted_line db (tk_outlet t)) (take_lines db k)) (stock_take_lines db)) db"
    and m: "moves db1 ?ms db2" and kn: "knows db ?ms"
    and d: "db' = db2\<lparr>stock_takes := t_update (by_id k) (\<lambda>t. t\<lparr>tk_status := TakeCompleted, tk_date := trading_date db\<rparr>) (stock_takes db2)\<rparr>"
  have i1: "stock_inv db1" by (rule inv_same [OF assms(2)]) (simp_all add: d1)
  have "knows db1 ?ms" using kn unfolding knows_def d1 by simp
  then show ?thesis by (intro inv_same [OF inv_moves [OF i1 m]]) (simp_all add: d)
qed

lemma step_inv: "stock_step db db' \<Longrightarrow> stock_inv db \<Longrightarrow> stock_inv db'"
proof (induction rule: stock_step.induct)
  case (reversal sid db db')
  then show ?case using inv_moves reverse_moves stock_invD(1) by blast
next
  case (receive ou lines3 ref d initial db db')
  then show ?case using inv_moves receive_moves stock_invD(1) by blast
next
  case (waste i outlet q reason d db db')
  show ?case
    by (rule waste_moves [OF waste(1) stock_invD(1) [OF waste(2)]]) (rule inv_moves [OF waste(2)], assumption, simp add: knows_def)
next
  case (transfer i a b q ref2 d db db')
  note t = transfer_moves [OF transfer(1) stock_invD(1) [OF transfer(2)]]
  show ?case by (rule inv_moves [OF transfer(2) t(1)]) (use t(4) in \<open>auto simp: knows_def\<close>)
next
  case (availability lines reason ou approve db "is" db')
  then have "db' = db \<or> (\<exists>lg. db' = db\<lparr>override_log := lg\<rparr>)"
    by (auto simp: assertStockAvailableOrOverridden_def Let_def rbind_eq_Inr split: if_splits)
  then show ?case using availability(2) by (auto intro: inv_same)
next
  case (ask a b lines user top_up db rid db')
  then show ?case by (auto simp: createTransferRequest_def rbind_eq_Inr Let_def split: if_splits intro!: inv_same [OF ask(2)])
next
  case (other db db')
  then show ?case by (auto simp: other_screen_def intro: inv_same)
next
  case (recipe m components db db')
  then show ?case by (auto simp: upsertMenuItemComponents_def split: if_splits intro!: inv_same [OF recipe(2)])
next
  case (reject rid user db db')
  then show ?case by (auto simp: rejectTransferRequest_def set_request_def rbind_eq_Inr intro!: inv_same [OF reject(2)])
next
  case (cancel rid user db db')
  then show ?case by (auto simp: cancelTransferRequest_def set_request_def rbind_eq_Inr intro!: inv_same [OF cancel(2)])
next
  case (open_take ou db k db')
  then show ?case by (auto simp: openStockTake_def split: if_splits intro!: inv_same [OF open_take(2)])
next
  case (count_line k i q db db')
  then show ?case by (auto simp: recordStockTakeCount_def split: if_splits option.splits intro!: inv_same [OF count_line(2)])
next
  case (cancel_take k reason db db')
  then show ?case by (auto simp: cancelStockTake_def rbind_eq_Inr split: if_splits intro!: inv_same [OF cancel_take(2)])
qed (blast intro: sale_inv issue_inv complete_inv create_item_inv update_item_inv)+

lemma run_inv: "stock_step\<^sup>*\<^sup>* db db' \<Longrightarrow> stock_inv db \<Longrightarrow> stock_inv db'"
  by (induction rule: rtranclp_induct) (auto intro: step_inv)

end
