(* ===== verification/StockDocuments.thy ===== *)
theory StockDocuments
  imports StockRuns
begin

text \<open>
  Requests and stock takes seen alone, as documents with a life of their own: \<open>paper_step\<close> is the abstract machine of the four
  document tables, and every step of the stock module is one of its steps. What holds of every reachable state, and that a decided
  document never changes, is proved there.
\<close>

section \<open>The abstract machine\<close>

type_synonym papers = "transfer_request table \<times> request_line table \<times> stock_take table \<times> take_line table"

definition papers_of :: "stock_db \<Rightarrow> papers" where
  "papers_of db = (transfer_requests db, transfer_request_lines db, stock_takes db, stock_take_lines db)"

definition ask_lines :: "nat \<Rightarrow> (nat \<times> int) list \<Rightarrow> request_line table \<Rightarrow> request_line table" where
  "ask_lines rid ls rl = foldl (\<lambda>t (i, q). t_insert \<lparr>rl_request = rid, rl_item = i, rl_requested = q, rl_issued = None, rl_reference = None\<rparr> t) rl ls"

inductive paper_step :: "papers \<Rightarrow> papers \<Rightarrow> bool" where
  same: "paper_step p p"
| asked: "a \<noteq> b \<Longrightarrow> distinct (map fst ls) \<Longrightarrow>
    (\<And>p. prior = Some p \<Longrightarrow> t_first (live_top_up p) rq = None \<and> (\<exists>r. t_get rq p = Some r \<and> tq_status r = RequestIssued \<and> tq_from r = a \<and> tq_to r = b)) \<Longrightarrow>
    paper_step (rq, rl, tk, cl) (t_insert \<lparr>tq_from = a, tq_to = b, tq_status = RequestPending, tq_top_up_of = prior, tq_by = u, tq_decided_by = None, tq_date = None\<rparr> rq,
      ask_lines (next_id rq) ls rl, tk, cl)"
| refused: "t_get rq rid = Some r \<Longrightarrow> tq_status r = RequestPending \<Longrightarrow> st \<in> {RequestRejected, RequestCancelled} \<Longrightarrow>
    paper_step (rq, rl, tk, cl) (t_update (by_id rid) (\<lambda>r. r\<lparr>tq_status := st, tq_decided_by := u\<rparr>) rq, rl, tk, cl)"
| issued: "t_get rq rid = Some r \<Longrightarrow> tq_status r = RequestPending \<Longrightarrow> distinct (map fst ls) \<Longrightarrow>
    \<forall>(i, q) \<in> set ls. \<exists>l. l \<in> snd ` set (t_select (\<lambda>_ l. rl_request l = rid) rl) \<and> rl_item l = i \<and> q \<le> rl_requested l \<Longrightarrow>
    paper_step (rq, rl, tk, cl) (t_update (by_id rid) (\<lambda>r. r\<lparr>tq_status := RequestIssued, tq_decided_by := u, tq_date := d\<rparr>) rq,
      t_update (\<lambda>_ l. rl_request l = rid) (issued_line ls refs) rl, tk, cl)"
| opened: "paper_step (rq, rl, tk, cl) (rq, rl, t_insert \<lparr>tk_outlet = ou, tk_status = TakeOpen, tk_date = None\<rparr> tk, cl)"
| counted: "t_get tk k = Some t \<Longrightarrow> tk_status t = TakeOpen \<Longrightarrow> t_first (\<lambda>_ l. tl_take l = k \<and> tl_item l = i) cl = None \<Longrightarrow>
    paper_step (rq, rl, tk, cl) (rq, rl, tk, t_insert \<lparr>tl_take = k, tl_item = i, tl_counted = q, tl_theoretical = None, tl_variance = None\<rparr> cl)"
| recounted: "t_get tk k = Some t \<Longrightarrow> tk_status t = TakeOpen \<Longrightarrow>
    paper_step (rq, rl, tk, cl) (rq, rl, tk, t_update (\<lambda>_ l. tl_take l = k \<and> tl_item l = i) (\<lambda>l. l\<lparr>tl_counted := q\<rparr>) cl)"
| completed: "t_get tk k = Some t \<Longrightarrow> tk_status t = TakeOpen \<Longrightarrow> \<forall>x \<in> set xs. \<exists>l. t_get cl (fst x) = Some l \<and> tl_take l = k \<Longrightarrow>
    paper_step (rq, rl, tk, cl) (rq, rl, t_update (by_id k) (\<lambda>t. t\<lparr>tk_status := TakeCompleted, tk_date := d\<rparr>) tk, fold noted xs cl)"
| dropped: "t_get tk k = Some t \<Longrightarrow> tk_status t = TakeOpen \<Longrightarrow>
    paper_step (rq, rl, tk, cl) (rq, rl, t_update (by_id k) (\<lambda>t. t\<lparr>tk_status := TakeCancelled\<rparr>) tk, cl)"

section \<open>Every stock operation is a step of it\<close>

lemma papers_moves: "moves db ms db' \<Longrightarrow> papers_of db' = papers_of db"
  using stock_only_frame [OF moves_ok(2)] by (simp add: papers_of_def)

lemma papers_upsert [simp]: "papers_of (upsertLevel ou i f db) = papers_of db"
  by (simp add: papers_of_def upsert_others)

lemma papers_carry [simp]: "papers_of (carryCategoryByName ou n db) = papers_of db"
  by (simp add: papers_of_def carryCategoryByName_def carryCategory_def split: option.split)

lemma papers_create_item: "createStockItem ou category cost reorder db = Inr (i, db') \<Longrightarrow> papers_of db' = papers_of db"
  by (auto simp: createStockItem_def rbind_eq_Inr Let_def split: option.splits) (simp_all add: papers_of_def)

lemma papers_update_item:
  assumes "updateStockItem i changes ou db = Inr db'"
  shows "papers_of db' = papers_of db"
proof -
  have p: "papers_of (db1\<lparr>stock_items := x\<rparr>) = papers_of db1" for db1 x by (simp add: papers_of_def)
  obtain c where c: "(case (ou, ic_reorder changes) of
       (Some ou, Some r) \<Rightarrow> rbind (assertOutlet db ou) (\<lambda>_.
           if t_get (stock_items db) i = None then Inl (ValidationError ''STOCK_ITEM_NOT_FOUND'')
           else let db1 = upsertLevel ou i (\<lambda>l. l\<lparr>sl_reorder := r\<rparr>) db
             in Inr (db1\<lparr>stock_items := t_update (by_id i) (changed_item changes c None) (stock_items db1)\<rparr>))
     | _ \<Rightarrow> Inr (db\<lparr>stock_items := t_update (by_id i) (changed_item changes c (ic_reorder changes)) (stock_items db)\<rparr>)) = Inr db'"
    using assms unfolding updateStockItem_def by (rule rbind_InrE)
  show ?thesis
    using c by (cases ou; cases "ic_reorder changes") (auto simp: rbind_eq_Inr Let_def p split: if_splits)
qed

lemma paper_ask:
  assumes "createTransferRequest a b lines user prior db = Inr (rid, db')"
  shows "paper_step (papers_of db) (papers_of db')"
proof -
  have db': "db' = db\<lparr>transfer_requests := t_insert \<lparr>tq_from = a, tq_to = b, tq_status = RequestPending, tq_top_up_of = prior, tq_by = user,
        tq_decided_by = None, tq_date = None\<rparr> (transfer_requests db),
      transfer_request_lines := ask_lines (next_id (transfer_requests db)) lines (transfer_request_lines db)\<rparr>"
    and ab: "a \<noteq> b" "distinct (map fst lines)"
    and prior: "(case prior of None \<Rightarrow> Inr () | Some rid \<Rightarrow> assertCanTopUp db rid a b user) = Inr ()"
    using assms by (auto simp: createTransferRequest_def ask_lines_def rbind_eq_Inr Let_def split: if_splits)
  have "t_first (live_top_up p) (transfer_requests db) = None \<and>
      (\<exists>r. t_get (transfer_requests db) p = Some r \<and> tq_status r = RequestIssued \<and> tq_from r = a \<and> tq_to r = b)" if "prior = Some p" for p
    using prior that by (auto simp: assertCanTopUp_def split: option.splits if_splits prod.splits)
  then show ?thesis unfolding papers_of_def db' by (simp, intro paper_step.asked) (use ab in auto)
qed

lemma paper_refuse:
  assumes "lockPendingRequest db rid user = Inr r" "st \<in> {RequestRejected, RequestCancelled}"
  shows "paper_step (papers_of db) (papers_of (set_request rid (\<lambda>r. r\<lparr>tq_status := st, tq_decided_by := user\<rparr>) db))"
  using lock_pending [OF assms(1)] assms(2) by (auto simp: papers_of_def set_request_def intro: paper_step.refused)

lemma paper_issue:
  assumes "issueTransferRequest rid lines user refs d db = Inr db'" "\<forall>(i, q) \<in> set lines. 0 \<le> q" "stock_ok db"
  shows "paper_step (papers_of db) (papers_of db')"
proof (rule issue_effect [OF assms(1,3,2)])
  fix r db1 ms
  assume r: "t_get (transfer_requests db) rid = Some r" "tq_status r = RequestPending" and m: "moves db ms db1"
    and ls: "distinct (map fst lines)" "\<forall>(i, q) \<in> set lines. \<exists>l. l \<in> snd ` set (lines_of db rid) \<and> rl_item l = i \<and> q \<le> rl_requested l"
    and d: "db' = set_request rid (\<lambda>r. r\<lparr>tq_status := RequestIssued, tq_decided_by := user, tq_date := d\<rparr>)
       (db1\<lparr>transfer_request_lines := t_update (\<lambda>_ l. rl_request l = rid) (issued_line lines refs) (transfer_request_lines db1)\<rparr>)"
  show ?thesis
    using papers_moves [OF m] paper_step.issued [OF r ls(1) ls(2) [unfolded lines_of_def]] by (simp add: papers_of_def d set_request_def)
qed

lemma paper_complete:
  assumes "completeStockTake k db = Inr db'" "stock_ok db" "t_wf (stock_take_lines db)"
  shows "paper_step (papers_of db) (papers_of db')"
proof (rule complete_effect [OF assms(1,2)])
  fix t :: stock_take and db1 db2 :: stock_db
  let ?c = "map (counted_line db (tk_outlet t)) (take_lines db k)"
  let ?ms = "concat (map (adjustment_of db k (tk_outlet t) (trading_date db)) ?c)"
  assume t: "t_get (stock_takes db) k = Some t" "tk_status t = TakeOpen"
    and d1: "db1 = with_lines (fold noted ?c (stock_take_lines db)) db" and m: "moves db1 ?ms db2"
    and d: "db' = db2\<lparr>stock_takes := t_update (by_id k) (\<lambda>t. t\<lparr>tk_status := TakeCompleted, tk_date := trading_date db\<rparr>) (stock_takes db2)\<rparr>"
  have "\<forall>x \<in> set ?c. \<exists>l. t_get (stock_take_lines db) (fst x) = Some l \<and> tl_take l = k"
    by (auto simp: take_lines_def counted_line_def t_select_set rows_get [OF assms(3)] assms(3))
  then show ?thesis
    using papers_moves [OF m] paper_step.completed [OF t, of ?c "stock_take_lines db"] by (simp add: papers_of_def d d1)
qed

section \<open>Documents of every reachable state\<close>

definition has_live :: "transfer_request table \<Rightarrow> nat \<Rightarrow> nat \<Rightarrow> bool" where
  "has_live rq p k \<longleftrightarrow> (\<exists>r. t_get rq k = Some r \<and> live_top_up p k r)"

definition requests_ok :: "transfer_request table \<Rightarrow> bool" where
  "requests_ok rq \<longleftrightarrow> t_wf rq \<and> (\<forall>p k k'. has_live rq p k \<longrightarrow> has_live rq p k' \<longrightarrow> k = k')
     \<and> (\<forall>k r. t_get rq k = Some r \<longrightarrow> tq_from r \<noteq> tq_to r)
     \<and> (\<forall>k r p. t_get rq k = Some r \<longrightarrow> tq_top_up_of r = Some p \<longrightarrow>
          (\<exists>r'. t_get rq p = Some r' \<and> tq_status r' = RequestIssued \<and> tq_from r' = tq_from r \<and> tq_to r' = tq_to r))"

definition lines_ok :: "nat \<Rightarrow> request_line table \<Rightarrow> bool" where
  "lines_ok n rl \<longleftrightarrow> t_wf rl \<and> (\<forall>(k, l) \<in> set (rows rl). rl_request l < n \<and> (\<forall>q. rl_issued l = Some q \<longrightarrow> q \<le> rl_requested l))
     \<and> (\<forall>rid. distinct (map (rl_item \<circ> snd) (t_select (\<lambda>_ l. rl_request l = rid) rl)))"

definition counts_ok :: "take_line table \<Rightarrow> bool" where
  "counts_ok cl \<longleftrightarrow> t_wf cl \<and> (\<forall>k. distinct (map (tl_item \<circ> snd) (t_select (\<lambda>_ l. tl_take l = k) cl)))"

definition papers_ok :: "papers \<Rightarrow> bool" where
  "papers_ok p \<longleftrightarrow> (case p of (rq, rl, tk, cl) \<Rightarrow> requests_ok rq \<and> lines_ok (next_id rq) rl \<and> t_wf tk \<and> counts_ok cl)"

text \<open>A change of a pending request's status and decision.\<close>

lemma requests_ok_decide:
  assumes "requests_ok rq" "t_get rq rid = Some r" "tq_status r = RequestPending"
    "\<And>r. tq_from (f r) = tq_from r" "\<And>r. tq_to (f r) = tq_to r" "\<And>r. tq_top_up_of (f r) = tq_top_up_of r"
  shows "requests_ok (t_update (by_id rid) f rq)"
proof -
  have live: "has_live rq p k" if "has_live (t_update (by_id rid) f rq) p k" for p k
    using that assms by (auto simp: has_live_def live_top_up_def t_get_update_id split: if_splits)
  have parent: "\<exists>r'. t_get (t_update (by_id rid) f rq) p = Some r' \<and> tq_status r' = RequestIssued \<and> tq_from r' = a \<and> tq_to r' = b"
    if "t_get rq p = Some r'" "tq_status r' = RequestIssued" "tq_from r' = a" "tq_to r' = b" for p r' a b
    using that assms by (cases "p = rid") (auto simp: t_get_update_id)
  have row: "\<exists>r'. t_get rq k = Some r' \<and> tq_from r' = tq_from x \<and> tq_to r' = tq_to x \<and> tq_top_up_of r' = tq_top_up_of x"
    if "t_get (t_update (by_id rid) f rq) k = Some x" for k x
    using that assms(4-6) by (auto simp: t_get_update_id split: if_splits)
  show ?thesis unfolding requests_ok_def
  proof (intro conjI allI impI)
    show "t_wf (t_update (by_id rid) f rq)" using assms(1) by (simp add: requests_ok_def)
    show "has_live (t_update (by_id rid) f rq) p k \<Longrightarrow> has_live (t_update (by_id rid) f rq) p k' \<Longrightarrow> k = k'" for p k k'
      using live assms(1) unfolding requests_ok_def by blast
    show "t_get (t_update (by_id rid) f rq) k = Some x \<Longrightarrow> tq_from x \<noteq> tq_to x" for k x
      using row [of k x] assms(1) unfolding requests_ok_def by metis
    show "t_get (t_update (by_id rid) f rq) k = Some x \<Longrightarrow> tq_top_up_of x = Some p \<Longrightarrow>
      \<exists>r'. t_get (t_update (by_id rid) f rq) p = Some r' \<and> tq_status r' = RequestIssued \<and> tq_from r' = tq_from x \<and> tq_to r' = tq_to x" for k x p
    proof -
      assume "t_get (t_update (by_id rid) f rq) k = Some x" "tq_top_up_of x = Some p"
      then obtain y where y: "t_get rq k = Some y" "tq_from y = tq_from x" "tq_to y = tq_to x" "tq_top_up_of y = Some p" using row by metis
      then obtain r' where "t_get rq p = Some r'" "tq_status r' = RequestIssued" "tq_from r' = tq_from x" "tq_to r' = tq_to x"
        using assms(1) unfolding requests_ok_def by metis
      then show ?thesis by (rule parent)
    qed
  qed
qed

lemma requests_ok_ask:
  assumes ok: "requests_ok rq" and new: "tq_status r = RequestPending" "tq_from r \<noteq> tq_to r"
    and prior: "\<And>p. tq_top_up_of r = Some p \<Longrightarrow> t_first (live_top_up p) rq = None \<and>
      (\<exists>r'. t_get rq p = Some r' \<and> tq_status r' = RequestIssued \<and> tq_from r' = tq_from r \<and> tq_to r' = tq_to r)"
  shows "requests_ok (t_insert r rq)"
proof -
  have w: "t_wf rq" using ok by (simp add: requests_ok_def)
  have g: "t_get (t_insert r rq) k = (if k = next_id rq then Some r else t_get rq k)" for k using t_get_insert [OF w] by simp
  have none: "\<not> has_live rq p k" if "tq_top_up_of r = Some p" for p k
    using prior [OF that] t_first_NoneD [OF w] by (auto simp: has_live_def)
  have live: "has_live (t_insert r rq) p k \<longleftrightarrow> (if k = next_id rq then tq_top_up_of r = Some p else has_live rq p k)" for p k
    using new by (auto simp: has_live_def g live_top_up_def)
  have parent: "\<exists>r'. t_get (t_insert r rq) p = Some r' \<and> tq_status r' = RequestIssued \<and> tq_from r' = a \<and> tq_to r' = b"
    if "\<exists>r'. t_get rq p = Some r' \<and> tq_status r' = RequestIssued \<and> tq_from r' = a \<and> tq_to r' = b" for p a b
    using that w by (auto simp: g dest: t_get_lt)
  show ?thesis unfolding requests_ok_def
  proof (intro conjI allI impI)
    show "t_wf (t_insert r rq)" using w by simp
    show "has_live (t_insert r rq) p k \<Longrightarrow> has_live (t_insert r rq) p k' \<Longrightarrow> k = k'" for p k k'
      using ok none [of p k] none [of p k'] unfolding live requests_ok_def by (cases "k = next_id rq"; cases "k' = next_id rq") simp_all
    show "t_get (t_insert r rq) k = Some x \<Longrightarrow> tq_from x \<noteq> tq_to x" for k x
      using ok new by (auto simp: g requests_ok_def split: if_splits)
    show "t_get (t_insert r rq) k = Some x \<Longrightarrow> tq_top_up_of x = Some p \<Longrightarrow>
      \<exists>r'. t_get (t_insert r rq) p = Some r' \<and> tq_status r' = RequestIssued \<and> tq_from r' = tq_from x \<and> tq_to r' = tq_to x" for k x p
      using ok prior by (intro parent) (auto simp: g requests_ok_def split: if_splits)
  qed
qed

lemma ask_lines_facts:
  "t_wf rl \<Longrightarrow> t_wf (ask_lines rid ls rl)"
  "(k, l) \<in> set (rows (ask_lines rid ls rl)) \<Longrightarrow> (k, l) \<in> set (rows rl) \<or> rl_request l = rid \<and> rl_issued l = None"
  "map snd (t_select (\<lambda>_ l. rl_request l = j) (ask_lines rid ls rl))
     = map snd (t_select (\<lambda>_ l. rl_request l = j) rl)
       @ (if j = rid then map (\<lambda>(i, q). \<lparr>rl_request = rid, rl_item = i, rl_requested = q, rl_issued = None, rl_reference = None\<rparr>) ls else [])"
proof (induction ls arbitrary: rl)
  case (Cons x ls)
  obtain i q where x: "x = (i, q)" by fastforce
  let ?r = "\<lparr>rl_request = rid, rl_item = i, rl_requested = q, rl_issued = None, rl_reference = None\<rparr>"
  have s: "ask_lines rid (x # ls) t = ask_lines rid ls (t_insert ?r t)" for t by (simp add: ask_lines_def x)
  { case (1 t)
    then show ?case unfolding s using Cons.IH(1) [of "t_insert ?r t"] by simp
  next
    case (2 t)
    show ?case using Cons.IH(2) [OF 2 [unfolded s]] by (auto simp: rows_insert)
  next
    case 3
    show ?case unfolding s Cons.IH(3) by (simp add: t_select_insert x)
  }
qed (simp_all add: ask_lines_def)

lemma lines_ok_ask:
  assumes "lines_ok n rl" "distinct (map fst ls)"
  shows "lines_ok (Suc n) (ask_lines n ls rl)"
proof -
  let ?s = "\<lambda>j rl. t_select (\<lambda>_ l. rl_request l = j) rl"
  have none: "?s n rl = []" using assms(1) by (auto simp: lines_ok_def t_select_def filter_empty_conv)
  have "map (rl_item \<circ> snd) (?s j (ask_lines n ls rl)) = (if j = n then map fst ls else map (rl_item \<circ> snd) (?s j rl))" for j
  proof -
    have "map (rl_item \<circ> snd) (?s j (ask_lines n ls rl)) = map rl_item (map snd (?s j (ask_lines n ls rl)))" by simp
    also have "\<dots> = (if j = n then map fst ls else map (rl_item \<circ> snd) (?s j rl))"
      unfolding ask_lines_facts(3) using none by (simp add: case_prod_beta comp_def)
    finally show ?thesis .
  qed
  then have d: "distinct (map (rl_item \<circ> snd) (?s j (ask_lines n ls rl)))" for j
    using assms unfolding lines_ok_def by simp
  have r: "rl_request l < Suc n \<and> (\<forall>q. rl_issued l = Some q \<longrightarrow> q \<le> rl_requested l)" if "(k, l) \<in> set (rows (ask_lines n ls rl))" for k l
  proof -
    have "\<forall>(k, l) \<in> set (rows rl). rl_request l < n \<and> (\<forall>q. rl_issued l = Some q \<longrightarrow> q \<le> rl_requested l)"
      using assms(1) by (simp add: lines_ok_def)
    then show ?thesis using ask_lines_facts(2) [OF that] by auto
  qed
  have "t_wf (ask_lines n ls rl)" using assms(1) by (simp add: lines_ok_def ask_lines_facts(1))
  then show ?thesis using r d unfolding lines_ok_def by blast
qed

lemma issued_fields [simp]: "rl_request (issued_line ls refs l) = rl_request l" "rl_item (issued_line ls refs l) = rl_item l"
  "rl_requested (issued_line ls refs l) = rl_requested l" "rl_issued (issued_line ls refs l) = map_of ls (rl_item l)"
  by (simp_all add: issued_line_def)

lemma rows_update: "set (rows (t_update Q f t)) = (\<lambda>(k, r). (k, if Q k r then f r else r)) ` set (rows t)"
  by (simp add: t_update_def)

lemma select_items_distinct:
  assumes "distinct (map (g \<circ> snd) xs)" "(k, x) \<in> set xs" "(k', y) \<in> set xs" "g x = g y"
  shows "x = y"
proof -
  have inj: "inj_on (g \<circ> snd) (set xs)" using assms(1) by (simp add: distinct_map)
  have "(k, x) = (k', y)" by (rule inj_onD [OF inj _ assms(2,3)]) (simp add: assms(4))
  then show ?thesis by simp
qed

lemma lines_ok_issue:
  assumes ok: "lines_ok n rl" and d: "distinct (map fst ls)"
    and le: "\<forall>(i, q) \<in> set ls. \<exists>l. l \<in> snd ` set (t_select (\<lambda>_ l. rl_request l = rid) rl) \<and> rl_item l = i \<and> q \<le> rl_requested l"
  shows "lines_ok n (t_update (\<lambda>_ l. rl_request l = rid) (issued_line ls refs) rl)"
proof -
  let ?s = "\<lambda>j rl. t_select (\<lambda>_ l. rl_request l = j) rl"
  have w: "t_wf rl" using ok by (simp add: lines_ok_def)
  have sel: "map (rl_item \<circ> snd) (?s j (t_update (\<lambda>_ l. rl_request l = rid) (issued_line ls refs) rl)) = map (rl_item \<circ> snd) (?s j rl)" for j
    by (simp add: t_select_update if_distrib [of rl_request] cong: if_cong) (simp add: case_prod_beta if_distrib [of rl_item] cong: if_cong)
  have bound: "q \<le> rl_requested l" if b: "(k, l) \<in> set (rows rl)" "rl_request l = rid" "map_of ls (rl_item l) = Some q" for k l q
  proof -
    obtain k' l' where l': "(k', l') \<in> set (?s rid rl)" "rl_item l' = rl_item l" "q \<le> rl_requested l'"
      using le map_of_SomeD [OF b(3)] by force
    have "(k, l) \<in> set (?s rid rl)" using b w by (simp add: t_select_set rows_get)
    then have "l = l'" using ok l' by (intro select_items_distinct [of rl_item "?s rid rl"]) (auto simp: lines_ok_def)
    then show ?thesis using l' by simp
  qed
  have "rl_request l < n \<and> (\<forall>q. rl_issued l = Some q \<longrightarrow> q \<le> rl_requested l)"
    if u: "(k, l) \<in> set (rows (t_update (\<lambda>_ l. rl_request l = rid) (issued_line ls refs) rl))" for k l
  proof -
    obtain l0 where l0: "(k, l0) \<in> set (rows rl)" "l = (if rl_request l0 = rid then issued_line ls refs l0 else l0)"
      using u by (auto simp: rows_update)
    have "rl_request l0 < n \<and> (\<forall>q. rl_issued l0 = Some q \<longrightarrow> q \<le> rl_requested l0)" using ok l0(1) by (auto simp: lines_ok_def)
    then show ?thesis using l0 bound [OF l0(1)] by auto
  qed
  then show ?thesis using ok sel unfolding lines_ok_def by auto
qed

lemma noted_fields:
  "map (h \<circ> snd) (t_select (\<lambda>_ l. P (h l)) (fold noted xs cl)) = map (h \<circ> snd) (t_select (\<lambda>_ l. P (h l)) cl)"
  if h: "\<And>l th v. h (l\<lparr>tl_theoretical := th, tl_variance := v\<rparr>) = h l"
proof (induction xs arbitrary: cl)
  case (Cons x xs)
  obtain li i th v where x: "x = (li, i, th, v)" by (cases x)
  have "map (h \<circ> snd) (t_select (\<lambda>_ l. P (h l)) (noted x cl)) = map (h \<circ> snd) (t_select (\<lambda>_ l. P (h l)) cl)"
    by (simp add: noted_def x t_select_update if_distrib [of h] h cong: if_cong) (simp add: case_prod_beta if_distrib [of h] h cong: if_cong)
  with Cons.IH [of "noted x cl"] show ?case by (simp only: fold_simps)
qed simp

lemma items_of_noted:
  "map (tl_item \<circ> snd) (t_select (\<lambda>_ l. tl_take l = k) (fold noted xs cl)) = map (tl_item \<circ> snd) (t_select (\<lambda>_ l. tl_take l = k) cl)"
proof -
  have m: "map (\<lambda>x. (tl_take (snd x), tl_item (snd x))) (t_select (\<lambda>_ l. fst (tl_take l, tl_item l) = k) (fold noted xs cl))
      = map (\<lambda>x. (tl_take (snd x), tl_item (snd x))) (t_select (\<lambda>_ l. fst (tl_take l, tl_item l) = k) cl)"
    using noted_fields [of "\<lambda>l. (tl_take l, tl_item l)" "\<lambda>y. fst y = k" xs cl] by (simp add: comp_def)
  show ?thesis using arg_cong [OF m, of "map snd"] by (simp add: comp_def)
qed

lemma noted_wf: "t_wf cl \<Longrightarrow> t_wf (fold noted xs cl)"
  by (induction xs arbitrary: cl) (auto simp: noted_def)

lemma counts_ok_steps:
  "counts_ok cl \<Longrightarrow> counts_ok (fold noted xs cl)"
  "counts_ok cl \<Longrightarrow> counts_ok (t_update (\<lambda>_ l. tl_take l = k \<and> tl_item l = i) (\<lambda>l. l\<lparr>tl_counted := q\<rparr>) cl)"
  "counts_ok cl \<Longrightarrow> t_first (\<lambda>_ l. tl_take l = k \<and> tl_item l = i) cl = None \<Longrightarrow> tl_take l = k \<Longrightarrow> tl_item l = i \<Longrightarrow> counts_ok (t_insert l cl)"
proof -
  show "counts_ok cl \<Longrightarrow> counts_ok (fold noted xs cl)" by (simp add: counts_ok_def noted_wf items_of_noted [unfolded comp_def] comp_def)
  have e: "tl_take (if b then l\<lparr>tl_counted := q\<rparr> else l) = tl_take l" "tl_item (if b then l\<lparr>tl_counted := q\<rparr> else l) = tl_item l" for b l by auto
  show "counts_ok cl \<Longrightarrow> counts_ok (t_update (\<lambda>_ l. tl_take l = k \<and> tl_item l = i) (\<lambda>l. l\<lparr>tl_counted := q\<rparr>) cl)"
    by (simp add: counts_ok_def t_select_update e comp_def case_prod_beta)
  assume ok: "counts_ok cl" and n: "t_first (\<lambda>_ l. tl_take l = k \<and> tl_item l = i) cl = None" and l: "tl_take l = k" "tl_item l = i"
  have w: "t_wf cl" using ok by (simp add: counts_ok_def)
  have "i \<notin> (tl_item \<circ> snd) ` set (t_select (\<lambda>_ l. tl_take l = k) cl)"
    by (auto simp: t_select_set [OF w] dest: t_first_NoneD [OF w n])
  then show "counts_ok (t_insert l cl)" using ok l by (auto simp: counts_ok_def t_select_insert comp_def image_def)
qed

lemma paper_step_ok: "paper_step p p' \<Longrightarrow> papers_ok p \<Longrightarrow> papers_ok p'"
proof (induction rule: paper_step.induct)
  case (asked a b ls prior rq rl tk cl u)
  then show ?case by (auto simp: papers_ok_def intro!: requests_ok_ask lines_ok_ask)
next
  case (refused rq rid r st rl tk cl u)
  then show ?case by (auto simp: papers_ok_def intro!: requests_ok_decide)
next
  case (issued rq rid r ls rl tk cl u d refs)
  then show ?case by (auto simp: papers_ok_def intro!: requests_ok_decide lines_ok_issue)
qed (auto simp: papers_ok_def intro: counts_ok_steps)

section \<open>A decided document never changes\<close>

definition frozen_request :: "papers \<Rightarrow> nat \<Rightarrow> (transfer_request \<times> request_line list) option" where
  "frozen_request p rid = (case p of (rq, rl, tk, cl) \<Rightarrow> (case t_get rq rid of None \<Rightarrow> None
     | Some r \<Rightarrow> if tq_status r = RequestPending then None else Some (r, map snd (t_select (\<lambda>_ l. rl_request l = rid) rl))))"

definition frozen_take :: "papers \<Rightarrow> nat \<Rightarrow> (stock_take \<times> take_line list) option" where
  "frozen_take p k = (case p of (rq, rl, tk, cl) \<Rightarrow> (case t_get tk k of None \<Rightarrow> None
     | Some t \<Rightarrow> if tk_status t = TakeOpen then None else Some (t, map snd (t_select (\<lambda>_ l. tl_take l = k) cl))))"

lemma frozen_requestD:
  "frozen_request (rq, rl, tk, cl) rid = Some v \<Longrightarrow>
   \<exists>r. t_get rq rid = Some r \<and> tq_status r \<noteq> RequestPending \<and> v = (r, map snd (t_select (\<lambda>_ l. rl_request l = rid) rl))"
  by (auto simp: frozen_request_def split: option.splits if_splits)

lemma frozen_takeD:
  "frozen_take (rq, rl, tk, cl) k = Some v \<Longrightarrow>
   \<exists>t. t_get tk k = Some t \<and> tk_status t \<noteq> TakeOpen \<and> v = (t, map snd (t_select (\<lambda>_ l. tl_take l = k) cl))"
  by (auto simp: frozen_take_def split: option.splits if_splits)

lemma select_update_other:
  assumes "\<And>i r. (i, r) \<in> set (rows t) \<Longrightarrow> Q i r \<Longrightarrow> \<not> P i r \<and> \<not> P i (f r)"
  shows "t_select P (t_update Q f t) = t_select P t"
proof -
  have "filter (\<lambda>(i, r). P i r) (map (\<lambda>(i, r). (i, if Q i r then f r else r)) xs) = filter (\<lambda>(i, r). P i r) xs"
    if "\<And>i r. (i, r) \<in> set xs \<Longrightarrow> Q i r \<Longrightarrow> \<not> P i r \<and> \<not> P i (f r)" for xs
    using that
  proof (induction xs)
    case (Cons x xs)
    obtain i r where x: "x = (i, r)" by fastforce
    have "filter (\<lambda>(i, r). P i r) (map (\<lambda>(i, r). (i, if Q i r then f r else r)) xs) = filter (\<lambda>(i, r). P i r) xs"
      using Cons by simp
    then show ?case using Cons.prems [of i r] x by (cases "Q i r") simp_all
  qed simp
  then show ?thesis using assms by (simp add: t_select_def t_update_def)
qed

lemma freezes_request: "paper_step p p' \<Longrightarrow> papers_ok p \<Longrightarrow> frozen_request p rid = Some v \<Longrightarrow> frozen_request p' rid = Some v"
proof (induction rule: paper_step.induct)
  case (asked a b ls prior rq rl tk cl u)
  obtain r where r: "t_get rq rid = Some r" "tq_status r \<noteq> RequestPending" "v = (r, map snd (t_select (\<lambda>_ l. rl_request l = rid) rl))"
    using frozen_requestD [OF asked(5)] by blast
  have w: "t_wf rq" using asked(4) by (simp add: papers_ok_def requests_ok_def)
  have "rid \<noteq> next_id rq" using t_get_lt [OF w r(1)] by simp
  then show ?case using r by (simp add: frozen_request_def t_get_insert [OF w] ask_lines_facts(3))
next
  case (refused rq rid' r st rl tk cl u)
  then show ?case by (auto simp: frozen_request_def t_get_update_id split: option.splits if_splits)
next
  case (issued rq rid' r ls rl tk cl u d refs)
  obtain x where x: "t_get rq rid = Some x" "tq_status x \<noteq> RequestPending" "v = (x, map snd (t_select (\<lambda>_ l. rl_request l = rid) rl))"
    using frozen_requestD [OF issued(6)] by blast
  then have n: "rid \<noteq> rid'" using issued(1,2) by auto
  then have "t_select (\<lambda>_ l. rl_request l = rid) (t_update (\<lambda>_ l. rl_request l = rid') (issued_line ls refs) rl) = t_select (\<lambda>_ l. rl_request l = rid) rl"
    by (intro select_update_other) simp
  then show ?case using x n by (simp add: frozen_request_def t_get_update_id)
qed (auto simp: frozen_request_def)

lemma noted_other:
  assumes "t_wf cl" "\<forall>x \<in> set xs. \<exists>l. t_get cl (fst x) = Some l \<and> tl_take l = k" "j \<noteq> k"
  shows "t_select (\<lambda>_ l. tl_take l = j) (fold noted xs cl) = t_select (\<lambda>_ l. tl_take l = j) cl"
  using assms(1,2)
proof (induction xs arbitrary: cl)
  case (Cons x xs)
  obtain li i th v where x: "x = (li, i, th, v)" by (cases x)
  have g: "t_get (noted x cl) n = (if n = li then map_option (\<lambda>l. l\<lparr>tl_theoretical := Some th, tl_variance := Some v\<rparr>) (t_get cl n) else t_get cl n)" for n
    by (simp add: x noted_def t_get_update_id)
  have "t_select (\<lambda>_ l. tl_take l = j) (noted x cl) = t_select (\<lambda>_ l. tl_take l = j) cl"
  proof -
    obtain l where l: "t_get cl li = Some l" "tl_take l = k" using Cons.prems(2) x by auto
    then show ?thesis unfolding x noted_def prod.case using assms(3)
      by (intro select_update_other) (auto simp: rows_get [OF Cons.prems(1)])
  qed
  moreover have "t_select (\<lambda>_ l. tl_take l = j) (fold noted xs (noted x cl)) = t_select (\<lambda>_ l. tl_take l = j) (noted x cl)"
  proof (rule Cons.IH)
    show "t_wf (noted x cl)" using noted_wf [OF Cons.prems(1), of "[x]"] by simp
    show "\<forall>y \<in> set xs. \<exists>l. t_get (noted x cl) (fst y) = Some l \<and> tl_take l = k" using Cons.prems(2) by (auto simp: g)
  qed
  ultimately show ?case by simp
qed simp

lemma freezes_take: "paper_step p p' \<Longrightarrow> papers_ok p \<Longrightarrow> frozen_take p j = Some v \<Longrightarrow> frozen_take p' j = Some v"
proof (induction rule: paper_step.induct)
  case (opened rq rl tk cl ou)
  obtain t where t: "t_get tk j = Some t" "tk_status t \<noteq> TakeOpen" "v = (t, map snd (t_select (\<lambda>_ l. tl_take l = j) cl))"
    using frozen_takeD [OF opened(2)] by blast
  have w: "t_wf tk" using opened(1) by (simp add: papers_ok_def)
  have "j \<noteq> next_id tk" using t_get_lt [OF w t(1)] by simp
  then show ?case using t by (simp add: frozen_take_def t_get_insert [OF w])
next
  case (counted tk k t i cl rq rl q)
  obtain t' where t': "t_get tk j = Some t'" "tk_status t' \<noteq> TakeOpen" "v = (t', map snd (t_select (\<lambda>_ l. tl_take l = j) cl))"
    using frozen_takeD [OF counted(5)] by blast
  then have "j \<noteq> k" using counted(1,2) by auto
  then show ?case using t' by (simp add: frozen_take_def t_select_insert)
next
  case (recounted tk k t rq rl cl i q)
  obtain t' where t': "t_get tk j = Some t'" "tk_status t' \<noteq> TakeOpen" "v = (t', map snd (t_select (\<lambda>_ l. tl_take l = j) cl))"
    using frozen_takeD [OF recounted(4)] by blast
  then have "j \<noteq> k" using recounted(1,2) by auto
  then have "t_select (\<lambda>_ l. tl_take l = j) (t_update (\<lambda>_ l. tl_take l = k \<and> tl_item l = i) (\<lambda>l. l\<lparr>tl_counted := q\<rparr>) cl) = t_select (\<lambda>_ l. tl_take l = j) cl"
    by (intro select_update_other) simp
  then show ?case using t' by (simp add: frozen_take_def)
next
  case (completed tk k t xs cl rq rl d)
  obtain t' where t': "t_get tk j = Some t'" "tk_status t' \<noteq> TakeOpen" "v = (t', map snd (t_select (\<lambda>_ l. tl_take l = j) cl))"
    using frozen_takeD [OF completed(5)] by blast
  then have n: "j \<noteq> k" using completed(1,2) by auto
  have "t_wf cl" using completed(4) by (simp add: papers_ok_def counts_ok_def)
  then show ?case using t' n noted_other [OF _ completed(3) n] by (simp add: frozen_take_def t_get_update_id)
next
  case (dropped tk k t rq rl cl)
  obtain t' where t': "t_get tk j = Some t'" "tk_status t' \<noteq> TakeOpen" "v = (t', map snd (t_select (\<lambda>_ l. tl_take l = j) cl))"
    using frozen_takeD [OF dropped(4)] by blast
  then have n: "j \<noteq> k" using dropped(1,2) by auto
  then show ?case using t' by (simp add: frozen_take_def t_get_update_id)
qed (auto simp: frozen_take_def)

section \<open>Runs of the stock module\<close>

definition stock_safe :: "stock_db \<Rightarrow> bool" where
  "stock_safe db \<longleftrightarrow> stock_inv db \<and> papers_ok (papers_of db)"

lemma stock_safeD: "stock_safe db \<Longrightarrow> stock_inv db" "stock_safe db \<Longrightarrow> papers_ok (papers_of db)" "stock_safe db \<Longrightarrow> stock_ok db"
  "stock_safe db \<Longrightarrow> t_wf (stock_take_lines db)" "stock_safe db \<Longrightarrow> distinct (map (tl_item \<circ> snd) (take_lines db k))"
  by (simp_all add: stock_safe_def stock_inv_def papers_ok_def papers_of_def counts_ok_def take_lines_def)

lemma start_safe: "stock_start db \<Longrightarrow> stock_safe db"
  using start_inv [of db]
  by (simp add: stock_safe_def stock_start_def papers_ok_def papers_of_def requests_ok_def lines_ok_def counts_ok_def has_live_def)
    (simp add: t_select_def t_empty_def)

lemma step_papers: "stock_step db db' \<Longrightarrow> stock_safe db \<Longrightarrow> paper_step (papers_of db) (papers_of db')"
proof (induction rule: stock_step.induct)
  case (sale orderId sid items d db db')
  show ?case
  proof (cases "computeStockDeductionsForLines db items = []")
    case True
    then show ?thesis using sale(1) sale_nothing by (simp add: paper_step.same)
  next
    case False
    then obtain ou where "t_get (pos_orders db) orderId = Some ou" using sale(1) by (auto simp: deductStockForSettlement_def Let_def split: option.splits)
    then show ?thesis using papers_moves [OF sale_moves(1) [OF sale(1) stock_safeD(3) [OF sale(2)] False]] by (simp add: paper_step.same)
  qed
next
  case (reversal sid db db')
  show ?case using papers_moves [OF reverse_moves(1) [OF reversal(1) stock_safeD(3) [OF reversal(2)]]] by (simp add: paper_step.same)
next
  case (availability lines reason ou approve db "is" db')
  then have "papers_of db' = papers_of db"
    by (auto simp: assertStockAvailableOrOverridden_def Let_def rbind_eq_Inr papers_of_def split: if_splits)
  then show ?case by (simp add: paper_step.same)
next
  case (create_item ou category cost reorder db i db')
  then show ?case using papers_create_item paper_step.same by simp
next
  case (update_item i changes ou db db')
  then show ?case using papers_update_item paper_step.same by simp
next
  case (recipe m components db db')
  then have "papers_of db' = papers_of db" by (auto simp: upsertMenuItemComponents_def papers_of_def split: if_splits)
  then show ?case by (simp add: paper_step.same)
next
  case (receive ou lines3 ref d initial db db')
  show ?case using papers_moves [OF receive_moves(1) [OF receive(1) stock_safeD(3) [OF receive(2)]]] by (simp add: paper_step.same)
next
  case (waste i outlet q reason d db db')
  show ?case by (rule waste_moves [OF waste(1) stock_safeD(3) [OF waste(2)]]) (drule papers_moves, simp add: paper_step.same)
next
  case (transfer i a b q ref2 d db db')
  show ?case using papers_moves [OF transfer_moves(1) [OF transfer(1) stock_safeD(3) [OF transfer(2)]]] by (simp add: paper_step.same)
next
  case (ask a b lines user top_up db rid db')
  then show ?case using paper_ask by blast
next
  case (issue rid lines user refs d db db')
  then show ?case using paper_issue stock_safeD(3) by blast
next
  case (reject rid user db db')
  then show ?case using paper_refuse by (auto simp: rejectTransferRequest_def rbind_eq_Inr)
next
  case (cancel rid user db db')
  then show ?case using paper_refuse by (auto simp: cancelTransferRequest_def rbind_eq_Inr)
next
  case (open_take ou db k db')
  then show ?case by (auto simp: openStockTake_def papers_of_def split: if_splits intro: paper_step.opened)
next
  case (count_line k i q db db')
  then show ?case
    by (auto simp: recordStockTakeCount_def papers_of_def split: if_splits option.splits intro: paper_step.counted paper_step.recounted)
next
  case (complete_take k db db')
  then show ?case using paper_complete stock_safeD(3,4) by blast
next
  case (cancel_take k reason db db')
  then obtain t where t: "take_not_decided k db = Inr t"
    and db': "db' = db\<lparr>stock_takes := t_update (by_id k) (\<lambda>t. t\<lparr>tk_status := TakeCancelled\<rparr>) (stock_takes db)\<rparr>"
    by (auto simp: cancelStockTake_def rbind_eq_Inr split: if_splits)
  have "t_get (stock_takes db) k = Some t" "tk_status t = TakeOpen" using take_not_decided_open [OF t] by simp_all
  then show ?case unfolding papers_of_def db' by (simp add: paper_step.dropped)
next
  case (other db db')
  then have "papers_of db' = papers_of db" by (simp add: other_screen_def papers_of_def)
  then show ?case by (simp add: paper_step.same)
qed

lemma step_safe: "stock_step db db' \<Longrightarrow> stock_safe db \<Longrightarrow> stock_safe db'"
  unfolding stock_safe_def using step_papers paper_step_ok step_inv by (metis stock_safe_def)

lemma run_safe: "stock_step\<^sup>*\<^sup>* db db' \<Longrightarrow> stock_safe db \<Longrightarrow> stock_safe db'"
  by (induction rule: rtranclp_induct) (auto intro: step_safe)

definition safe_step :: "stock_db \<Rightarrow> stock_db \<Rightarrow> bool" where "safe_step db db' \<longleftrightarrow> stock_safe db \<and> stock_step db db'"

lemma safe_run: "stock_step\<^sup>*\<^sup>* db db' \<Longrightarrow> stock_safe db \<Longrightarrow> safe_step\<^sup>*\<^sup>* db db'"
proof (induction rule: rtranclp_induct)
  case (step db1 db2)
  then show ?case using run_safe by (meson rtranclp.rtrancl_into_rtrancl safe_step_def)
qed simp

interpretation request: write_once safe_step "\<lambda>db rid. frozen_request (papers_of db) rid"
  by unfold_locales (auto simp: safe_step_def stock_safe_def intro: freezes_request dest: step_papers [unfolded stock_safe_def])

interpretation take: write_once safe_step "\<lambda>db k. frozen_take (papers_of db) k"
  by unfold_locales (auto simp: safe_step_def stock_safe_def intro: freezes_take dest: step_papers [unfolded stock_safe_def])

end
