(* ===== verification/StockProps.thy ===== *)
theory StockProps
  imports StockDocuments
begin

text \<open>
  What the stock module promises: the quantities it shows are those of the movement ledger; sales, reversals, transfers, issues and
  stock takes do to them exactly what they say; documents are decided once; the locks are taken in one order.
\<close>

section \<open>A small hotel\<close>

text \<open>A store and a bar that sells one drink, a quarter of a unit of one item each.\<close>

definition bare_stock :: stock_db where
  "bare_stock = \<lparr>outlets = t_insert \<lparr>o_type = ''bar'', o_status = ''active'', o_service_charge_percent = None, o_qr_service_charge_mode = ''none''\<rparr> (t_insert \<lparr>o_type = ''store'', o_status = ''active'', o_service_charge_percent = None, o_qr_service_charge_mode = ''none''\<rparr> t_empty),
     property_access = t_empty, outlet_assignments = t_empty, stock_items = t_empty, stock_levels = t_empty, stock_movements = t_empty,
     menu_item_components = t_empty, menu_items = t_insert \<lparr>mi_status = ''active'', mi_category = ''Drinks'', mi_price = 150000, mi_modifiers = []\<rparr> t_empty,
     outlet_menu_items = t_empty, menu_categories = t_insert ''Drinks'' t_empty, stock_item_categories = t_empty,
     outlet_categories = t_insert \<lparr>oc_outlet = 2, oc_category = 1\<rparr> t_empty, pos_orders = t_insert 2 t_empty,
     transfer_requests = t_empty, transfer_request_lines = t_empty, stock_takes = t_empty, stock_take_lines = t_empty,
     trading_date = None, alert_log = [], override_log = []\<rparr>"

definition drink :: "int \<Rightarrow> stock_item" where
  "drink q = \<lparr>si_active = True, si_category = None, si_cost = 130, si_quantity = q, si_reorder = 500\<rparr>"

definition shelf :: "nat \<Rightarrow> int \<Rightarrow> stock_level" where "shelf ou q = \<lparr>sl_outlet = ou, sl_item = 1, sl_quantity = q, sl_reorder = 500\<rparr>"

definition carried :: "string \<Rightarrow> nat \<Rightarrow> int \<Rightarrow> stock_movement" where
  "carried ref ou q = (plain_movement ou 1 StockTransferred q 130 None)\<lparr>mv_reference := Some ref\<rparr>"

definition delivered :: stock_movement where "delivered = plain_movement 1 1 GoodsReceived 2000 130 None"

text \<open>Two units delivered to the store, six tenths of one carried to the bar, two drinks sold there, and the sale voided.\<close>

definition stocked :: stock_db where
  "stocked = bare_stock\<lparr>stock_items := t_insert (drink 2000) t_empty, stock_levels := t_insert (shelf 1 2000) t_empty,
     stock_movements := t_insert delivered t_empty, menu_item_components := t_insert \<lparr>cp_menu = 1, cp_item = 1, cp_quantity = 250\<rparr> t_empty\<rparr>"

definition bar_filled :: stock_db where
  "bar_filled = stocked\<lparr>stock_levels := fold t_insert [shelf 1 1400, shelf 2 600] t_empty,
     stock_movements := fold t_insert [delivered, carried ''TRF-1'' 1 (- 600), carried ''TRF-1'' 2 600] t_empty\<rparr>"

definition sold_two :: stock_movement where
  "sold_two = (plain_movement 2 1 GoodsSold (- 500) 130 None)\<lparr>mv_order := Some 1, mv_settlement := Some 1\<rparr>"

definition two_sold :: stock_db where
  "two_sold = bar_filled\<lparr>stock_items := t_insert (drink 1500) t_empty, stock_levels := fold t_insert [shelf 1 1400, shelf 2 100] t_empty,
     stock_movements := fold t_insert [delivered, carried ''TRF-1'' 1 (- 600), carried ''TRF-1'' 2 600, sold_two] t_empty,
     alert_log := [ReorderLevelReached 1 2 100]\<rparr>"

definition voided :: stock_db where
  "voided = bar_filled\<lparr>stock_movements := fold t_insert [delivered, carried ''TRF-1'' 1 (- 600), carried ''TRF-1'' 2 600, sold_two,
       (plain_movement 2 1 SaleReversed 500 130 None)\<lparr>mv_order := Some 1, mv_settlement := Some 1, mv_reversed := Some 4\<rparr>] t_empty,
     alert_log := [ReorderLevelReached 1 2 100]\<rparr>"

lemma small_hotel: "transferStock 1 1 2 600 ''TRF-1'' None stocked = Inr bar_filled"
  "deductStockForSettlement 1 1 [(1, 2)] None bar_filled = Inr two_sold"
  by code_simp+

definition made :: stock_db where
  "made = bare_stock\<lparr>stock_items := t_insert \<lparr>si_active = True, si_category = None, si_cost = 120, si_quantity = 0, si_reorder = 500\<rparr> t_empty\<rparr>"

definition mixed :: stock_db where
  "mixed = made\<lparr>menu_item_components := t_insert \<lparr>cp_menu = 1, cp_item = 1, cp_quantity = 250\<rparr> t_empty\<rparr>"

lemma stocked_run: "stock_step\<^sup>*\<^sup>* bare_stock stocked"
proof -
  have c: "createStockItem None None (Some 120) (Some 500) bare_stock = Inr (1, made)" "upsertMenuItemComponents 1 [(1, 250)] made = Inr mixed"
    "recordGoodsReceived 1 [(1, 2000, 130)] None None False mixed = Inr stocked" by code_simp+
  have s: "stock_step bare_stock made" "stock_step made mixed" "stock_step mixed stocked"
    using stock_step.create_item [OF c(1)] stock_step.recipe [OF c(2)] stock_step.receive [OF c(3)] by blast+
  have "stock_step\<^sup>*\<^sup>* bare_stock made" using s(1) by (rule r_into_rtranclp)
  then have "stock_step\<^sup>*\<^sup>* bare_stock mixed" using s(2) by (rule rtranclp.rtrancl_into_rtrancl)
  then show ?thesis using s(3) by (rule rtranclp.rtrancl_into_rtrancl)
qed

lemma sold_run: "stock_step\<^sup>*\<^sup>* bare_stock two_sold"
  using stocked_run stock_step.transfer [OF small_hotel(1)] stock_step.sale [OF small_hotel(2)] by (meson rtranclp.rtrancl_into_rtrancl)

lemma bare_start: "stock_start bare_stock"
  by (simp add: stock_start_def bare_stock_def)

lemma small_hotel_safe: "stock_safe bar_filled" "stock_safe stocked" "stock_safe two_sold"
  using run_safe [OF _ start_safe [OF bare_start]] stocked_run sold_run stock_step.transfer [OF small_hotel(1)]
  by (meson rtranclp.rtrancl_into_rtrancl)+

section \<open>Quantities\<close>

text \<open>
  C6: In every state the stock module can reach, whatever operations ran and in whatever order, the on-hand quantity of an item at an
  outlet is the sum of its movements there, and the property-wide quantity is both the sum of all its movements and the sum of what
  the outlets hold.
\<close>

theorem stock_quantities_derived:
  assumes "stock_start db0" "stock_step\<^sup>*\<^sup>* db0 db" "t_get (stock_items db) i = Some it"
  shows "on_hand db ou i = outlet_sum db ou i \<and> si_quantity it = item_sum db i \<and> si_quantity it = levels_total db i"
proof -
  have "stock_ok db" using run_safe [OF assms(2) start_safe [OF assms(1)]] by (rule stock_safeD(3))
  then show ?thesis using stock_ok_hand stock_ok_total [OF _ assms(3)] stock_ok_levels_total by metis
qed

theorem stock_quantities_derived_witness:
  "on_hand two_sold 2 1 = outlet_sum two_sold 2 1 \<and> si_quantity (the (t_get (stock_items two_sold) 1)) = item_sum two_sold 1
   \<and> si_quantity (the (t_get (stock_items two_sold) 1)) = levels_total two_sold 1 \<and> on_hand two_sold 2 1 = 100 \<and> item_sum two_sold 1 = 1500"
proof -
  have "t_get (stock_items two_sold) 1 = Some (the (t_get (stock_items two_sold) 1))" "on_hand two_sold 2 1 = 100" "item_sum two_sold 1 = 1500"
    by code_simp+
  then show ?thesis using stock_quantities_derived [OF bare_start sold_run, of 1 _ 2] by blast
qed

section \<open>Sales\<close>

text \<open>
  C9: A sale that passed the availability guard and was deducted takes from its outlet exactly what the recipes of its lines need, and
  from no other outlet. An item it leaves at or below zero was listed by the guard, and overridden with a reason that is on record.
\<close>

theorem guarded_sale_exact:
  assumes "stock_ok db" "assertStockAvailableOrOverridden lines reason ou approve db = Inr (overridden, db1)"
    "deductStockForSettlement orderId sid lines d db1 = Inr db2" "t_get (pos_orders db) orderId = Some ou"
  shows "on_hand db2 o' i = on_hand db o' i - (if o' = ou then needs db lines i else 0)
    \<and> (needs db lines i = 0 \<or> 0 < on_hand db2 ou i
       \<or> i \<in> set overridden \<and> (\<exists>why. reason = Some why \<and> js_trim why \<noteq> []) \<and> (i, on_hand db2 ou i) \<in> set (override_log db2))"
proof -
  let ?ds = "computeStockDeductionsForLines db lines"
  have g: "if affected_items db lines ou = [] then overridden = [] \<and> db1 = db
    else js_trim (case reason of None \<Rightarrow> [] | Some r \<Rightarrow> r) \<noteq> [] \<and> overridden = map fst (affected_items db lines ou)
      \<and> db1 = db\<lparr>override_log := override_log db @ affected_items db lines ou\<rparr>"
    using assms(2) by (auto simp: assertStockAvailableOrOverridden_def Let_def rbind_eq_Inr split: if_splits)
  then have f: "stock_levels db1 = stock_levels db" "stock_movements db1 = stock_movements db" "stock_items db1 = stock_items db"
    "menu_item_components db1 = menu_item_components db" "pos_orders db1 = pos_orders db"
    by (auto split: if_splits)
  have ok1: "stock_ok db1" using stock_ok_frame [OF f(1,2)] assms(1) f(3) by (simp add: item_quantity_def fun_eq_iff)
  have ds1: "computeStockDeductionsForLines db1 lines = ?ds" by (simp add: computeStockDeductionsForLines_def f)
  have h1: "on_hand db1 = on_hand db" by (rule on_hand_levels [OF f(1)])
  show ?thesis
  proof (cases "?ds = []")
    case True
    then have "needs db lines j = 0" for j using deductions_need [of db lines j] by simp
    then show ?thesis using assms(3) sale_nothing [of db1 lines] ds1 True h1 by simp
  next
    case False
    let ?ms = "map (sale_of db1 ou orderId sid d) ?ds"
    have m: "moves db1 ?ms db2" "knows db1 ?ms" using sale_moves [OF assms(3) ok1] assms(4) False by (simp_all add: ds1 f)
    have "change_at (map (sale_of db1 ou orderId sid d) xs) o' j = (if o' = ou then - amount_of xs j else 0)" for xs o' j
      by (induction xs) auto
    then have hand: "on_hand db2 o' j = on_hand db o' j - (if o' = ou then needs db lines j else 0)" for o' j
      using moves_hand [OF ok1 m(1), of o' j] by (simp add: h1 deductions_need)
    have over: "i \<in> set overridden \<and> (\<exists>why. reason = Some why \<and> js_trim why \<noteq> []) \<and> (i, on_hand db2 ou i) \<in> set (override_log db2)"
      if n: "needs db lines i \<noteq> 0" "on_hand db2 ou i \<le> 0"
    proof -
      have q: "map_of ?ds i = Some (needs db lines i)"
        using n(1) amount_map_of [OF deductions_distinct, of db lines i] deductions_need [of db lines i] by (auto split: option.splits)
      then have "i \<in> fst ` set ?ds" by (force dest: map_of_SomeD)
      then have "t_get (stock_items db1) i \<noteq> None" using m(2) by (force simp: knows_def)
      then obtain it where "(i, it) \<in> set (rows (stock_items db))" by (auto simp: f t_get_def dest: map_of_SomeD)
      then have a: "(i, on_hand db2 ou i) \<in> set (affected_items db lines ou)"
        using q n(2) hand [of ou i] by (force simp: affected_items_def Let_def List.map_filter_def)
      then have "affected_items db lines ou \<noteq> []" by auto
      then have r: "js_trim (case reason of None \<Rightarrow> [] | Some r \<Rightarrow> r) \<noteq> []" "overridden = map fst (affected_items db lines ou)"
        "override_log db1 = override_log db @ affected_items db lines ou" using g by auto
      moreover have "override_log db2 = override_log db1" using stock_only_frame(12) [OF moves_ok(2) [OF m(1)]] .
      ultimately show ?thesis using a by (cases reason) (force simp: js_trim_def)+
    qed
    then show ?thesis using hand by fastforce
  qed
qed

theorem guarded_sale_exact_witness:
  "on_hand two_sold 2 1 = on_hand bar_filled 2 1 - needs bar_filled [(1, 2)] 1 \<and> needs bar_filled [(1, 2)] 1 = 500"
proof -
  have c: "assertStockAvailableOrOverridden [(1, 2)] None 2 None bar_filled = Inr ([], bar_filled)"
    "t_get (pos_orders bar_filled) 1 = Some 2" "needs bar_filled [(1, 2)] 1 = 500" by code_simp+
  show ?thesis using guarded_sale_exact [OF stock_safeD(3) [OF small_hotel_safe(1)] c(1) small_hotel(2) c(2), of 2 1] c(3) by simp
qed

definition of_settlement :: "nat \<Rightarrow> nat \<Rightarrow> stock_movement \<Rightarrow> bool" where
  "of_settlement sid k m \<longleftrightarrow> mv_settlement m = Some sid"

lemma select_inserts:
  "map snd (t_select (\<lambda>_. P) (fold t_insert ms t)) = map snd (t_select (\<lambda>_. P) t) @ filter P ms"
  by (induction ms arbitrary: t) (auto simp: t_select_insert)

lemma total_inserts: "t_total (\<lambda>_. P) g (fold t_insert ms t) = t_total (\<lambda>_. P) g t + sum_list (map g (filter P ms))"
  by (induction ms arbitrary: t) (auto simp: t_total_insert)

lemma change_map: "change_at (map f xs) ou i = sum_list (map (\<lambda>x. if mv_outlet (f x) = ou \<and> mv_item (f x) = i then mv_quantity (f x) else 0) xs)"
  by (induction xs) auto

lemma cost_minus: "extended_cost_cents c (- q) = - extended_cost_cents c q"
  by (simp add: extended_cost_cents_def round_half_up_minus)

lemma reversal_cost: "mv_total_cost (reversal_of x) = - extended_cost_cents (mv_unit_cost (snd x)) (mv_quantity (snd x))"
  by (simp add: reversal_of_def cost_minus split: prod.split)

lemma reversal_settlement [simp]: "mv_settlement (reversal_of x) = mv_settlement (snd x)"
  by (simp add: reversal_of_def split: prod.split)

lemma reversal_sum:
  assumes "\<And>x. x \<in> set xs \<Longrightarrow> mv_settlement (snd x) = Some sid \<and> mv_total_cost (reversal_of x) = - mv_total_cost (snd x)"
  shows "sum_list (map mv_total_cost (filter (\<lambda>m. mv_settlement m = Some sid) (map reversal_of xs))) = - sum_list (map mv_total_cost (map snd xs))"
  using assms
proof (induction xs)
  case (Cons x xs)
  have "mv_settlement (snd x) = Some sid" "mv_total_cost (reversal_of x) = - mv_total_cost (snd x)" using Cons.prems [of x] by simp_all
  moreover have "sum_list (map mv_total_cost (filter (\<lambda>m. mv_settlement m = Some sid) (map reversal_of xs))) = - sum_list (map mv_total_cost (map snd xs))"
    using Cons.IH Cons.prems by simp
  ultimately show ?case by simp
qed simp

lemma sale_cost [simp]: "mv_total_cost (sale_of db ou orderId sid d x) = extended_cost_cents (item_cost db (fst x)) (- snd x)"
  "mv_unit_cost (sale_of db ou orderId sid d x) = item_cost db (fst x)"
  by (simp_all add: sale_of_def split: prod.split)

text \<open>
  C17: Voiding a settlement gives back exactly what its sale took, at every outlet and for every item, and the cost of the goods to
  the cent, whatever other movements were posted in between and however recipes or costs changed.
\<close>

theorem void_restores_stock:
  assumes "stock_ok db" "t_select (of_settlement sid) (stock_movements db) = []" "deductStockForSettlement orderId sid items d db = Inr db1"
    "stock_ok db2" "t_select (of_settlement sid) (stock_movements db2) = t_select (of_settlement sid) (stock_movements db1)"
    "reverseStockForSettlement sid db2 = Inr db3"
  shows "on_hand db3 ou i - on_hand db2 ou i = on_hand db ou i - on_hand db1 ou i
    \<and> t_total (of_settlement sid) mv_total_cost (stock_movements db3) = 0"
proof -
  let ?P = "\<lambda>m. mv_settlement m = Some sid"
  have P: "of_settlement sid = (\<lambda>_. ?P)" by (simp add: of_settlement_def fun_eq_iff)
  have "\<exists>ms. moves db ms db1 \<and> (\<forall>m \<in> set ms. mv_type m = GoodsSold \<and> ?P m \<and> mv_total_cost m = extended_cost_cents (mv_unit_cost m) (mv_quantity m))"
  proof (cases "computeStockDeductionsForLines db items = []")
    case True
    then show ?thesis using sale_nothing assms(1,3) by (intro exI [of _ "[]"]) (simp add: moves_def)
  next
    case False
    then obtain ou where "t_get (pos_orders db) orderId = Some ou" using assms(3) by (auto simp: deductStockForSettlement_def Let_def split: option.splits)
    then show ?thesis using sale_moves(1) [OF assms(3,1) False] by fastforce
  qed
  then obtain ms where ms: "moves db ms db1" "\<And>m. m \<in> set ms \<Longrightarrow> mv_type m = GoodsSold \<and> ?P m \<and> mv_total_cost m = extended_cost_cents (mv_unit_cost m) (mv_quantity m)" by blast
  let ?os = "t_select (sold_by sid) (stock_movements db2)"
  note r = reverse_moves(1) [OF assms(6,4)]
  have s2: "map snd (t_select (of_settlement sid) (stock_movements db2)) = ms"
    using assms(2,5) ms select_inserts [of ?P ms "stock_movements db"] by (simp add: P moves_def)
  have sold: "sold_by sid k m \<longleftrightarrow> of_settlement sid k m \<and> mv_type m = GoodsSold" for k m by (auto simp: sold_by_def of_settlement_def)
  have "?os = filter (\<lambda>x. mv_type (snd x) = GoodsSold) (t_select (of_settlement sid) (stock_movements db2))"
    unfolding t_select_def filter_filter by (rule filter_cong) (auto simp: sold)
  also have "\<dots> = t_select (of_settlement sid) (stock_movements db2)"
  proof -
    have "snd x \<in> set ms" if "x \<in> set (t_select (of_settlement sid) (stock_movements db2))" for x
      using that s2 by (metis imageI list.set_map)
    then show ?thesis using ms(2) by (intro filter_True) blast
  qed
  finally have os: "map snd ?os = ms" using s2 by simp
  have given_back: "change_at (map reversal_of ?os) ou i = - change_at ms ou i"
  proof -
    have "change_at (map reversal_of xs) ou i = - change_at (map snd xs) ou i" for xs
      by (induction xs) auto
    then show ?thesis by (simp add: os)
  qed
  have "t_total (of_settlement sid) mv_total_cost (stock_movements db2) = sum_list (map mv_total_cost ms)"
  proof -
    have "map (\<lambda>(k, m). mv_total_cost m) xs = map mv_total_cost (map snd xs)" for xs :: "(nat \<times> stock_movement) list" by auto
    then show ?thesis unfolding t_total_def using s2 by (simp only:)
  qed
  moreover have "sum_list (map mv_total_cost (filter ?P (map reversal_of ?os))) = - sum_list (map mv_total_cost ms)"
  proof -
    have "mv_settlement (snd x) = Some sid \<and> mv_total_cost (reversal_of x) = - mv_total_cost (snd x)" if "x \<in> set ?os" for x
    proof -
      have "snd x \<in> set ms" using that os by (metis imageI list.set_map)
      then show ?thesis using ms(2) [of "snd x"] reversal_cost [of x] by metis
    qed
    from reversal_sum [OF this] show ?thesis by (simp only: os)
  qed
  moreover have "stock_movements db3 = fold t_insert (map reversal_of ?os) (stock_movements db2)" using r by (simp add: moves_def)
  ultimately have "t_total (of_settlement sid) mv_total_cost (stock_movements db3) = 0"
    using total_inserts [of ?P mv_total_cost "map reversal_of ?os" "stock_movements db2"] by (simp add: P)
  then show ?thesis using moves_hand [OF assms(4) r, of ou i] moves_hand [OF assms(1) ms(1), of ou i] given_back by simp
qed

theorem void_restores_stock_witness:
  "on_hand voided 2 1 - on_hand two_sold 2 1 = on_hand bar_filled 2 1 - on_hand two_sold 2 1
   \<and> t_total (of_settlement 1) mv_total_cost (stock_movements voided) = 0 \<and> on_hand voided 2 1 = 600"
proof -
  have c: "t_select (of_settlement 1) (stock_movements bar_filled) = []" "reverseStockForSettlement 1 two_sold = Inr voided" "on_hand voided 2 1 = 600"
    by code_simp+
  show ?thesis
    using void_restores_stock [OF stock_safeD(3) [OF small_hotel_safe(1)] c(1) small_hotel(2) stock_safeD(3) [OF small_hotel_safe(3)] refl c(2), of 2 1] c(3)
    by simp
qed

end
