(* ===== verification/StockDocProps.thy ===== *)
theory StockDocProps
  imports StockProps
begin

text \<open>
  Transfers, requests, stock takes, the menu guard and the lock order: the properties, on the small hotel of \<open>StockProps\<close>.
\<close>

section \<open>Transfers and requests\<close>

text \<open>
  C10: A transfer takes from its source what it gives to its destination, never more than the source holds, and leaves every other
  quantity, the property-wide total and the value of the stock as they were.
\<close>

theorem transfer_conserves:
  assumes "stock_ok db" "transferStock i a b q ref d db = Inr db'"
  shows "on_hand db' ou j = on_hand db ou j + (if j \<noteq> i then 0 else if ou = a then - q else if ou = b then q else 0)
    \<and> 0 \<le> on_hand db' a i \<and> item_sum db' j = item_sum db j
    \<and> t_total (\<lambda>_ m. mv_item m = j) mv_total_cost (stock_movements db') = t_total (\<lambda>_ m. mv_item m = j) mv_total_cost (stock_movements db)"
proof -
  note t = transfer_moves [OF assms(2,1)]
  have h: "on_hand db' ou j = on_hand db ou j + (if j \<noteq> i then 0 else if ou = a then - q else if ou = b then q else 0)" for ou j
    using moves_hand [OF assms(1) t(1), of ou j] t(2) by auto
  have m: "stock_movements db' = fold t_insert [leg_of db i ref d a (- q), leg_of db i ref d b q] (stock_movements db)"
    using t(1) by (simp add: moves_def)
  have "item_sum db' j = item_sum db j" unfolding item_sum_def m total_inserts by simp
  moreover have "t_total (\<lambda>_ m. mv_item m = j) mv_total_cost (stock_movements db') = t_total (\<lambda>_ m. mv_item m = j) mv_total_cost (stock_movements db)"
    unfolding m total_inserts by (simp add: cost_minus)
  ultimately show ?thesis using h [of ou j] h [of a i] t(3) by simp
qed

theorem transfer_conserves_witness:
  "on_hand bar_filled 1 1 = on_hand stocked 1 1 + - 600 \<and> item_sum bar_filled 1 = item_sum stocked 1 \<and> on_hand bar_filled 1 1 = 1400"
proof -
  have "on_hand bar_filled 1 1 = 1400" by code_simp
  then show ?thesis using transfer_conserves [OF stock_safeD(3) [OF small_hotel_safe(2)] small_hotel(1), of 1 1] by simp
qed

lemma issued_all:
  assumes "distinct (map fst lines)" "length lines = length ls" "distinct (map rl_item ls)"
    "\<forall>(i, q) \<in> set lines. \<exists>l \<in> set ls. rl_item l = i \<and> q \<le> rl_requested l" "l \<in> set ls"
  shows "\<exists>q. map_of lines (rl_item l) = Some q \<and> q \<le> rl_requested l"
proof -
  have sub: "fst ` set lines \<subseteq> rl_item ` set ls" using assms(4) by fastforce
  have "card (fst ` set lines) = length lines" "card (rl_item ` set ls) = length ls"
    using distinct_card [OF assms(1)] distinct_card [OF assms(3)] by simp_all
  then have "fst ` set lines = rl_item ` set ls" using card_subset_eq [OF _ sub] assms(2) by simp
  then obtain q where q: "(rl_item l, q) \<in> set lines" using assms(5) by force
  then obtain l' where l': "l' \<in> set ls" "rl_item l' = rl_item l" "q \<le> rl_requested l'" using assms(4) by blast
  then have "l' = l" using assms(3,5) by (auto simp: distinct_map dest: inj_onD)
  then show ?thesis using q l' assms(1) by (intro exI [of _ q]) simp
qed

text \<open>
  C18: Issuing a pending request moves exactly the quantities given, from the outlet asked to the outlet asking. Every line is answered
  once, none above what was asked; nothing is sent that the source does not hold; and the request is then issued.
\<close>

theorem issue_sends_what_was_given:
  assumes "stock_safe db" "issueTransferRequest rid lines user refs d db = Inr db'" "\<forall>(i, q) \<in> set lines. 0 \<le> q"
  shows "\<exists>r. t_get (transfer_requests db) rid = Some r \<and> tq_status r = RequestPending
    \<and> t_get (transfer_requests db') rid = Some (r\<lparr>tq_status := RequestIssued, tq_decided_by := user, tq_date := d\<rparr>)
    \<and> (\<forall>ou i. on_hand db' ou i = on_hand db ou i + send_change (tq_from r) (tq_to r) lines ou i)
    \<and> (\<forall>i. 0 < amount_of lines i \<longrightarrow> 0 \<le> on_hand db' (tq_from r) i)
    \<and> map snd (lines_of db' rid) = map (issued_line lines refs) (map snd (lines_of db rid))
    \<and> (\<forall>l \<in> set (map snd (lines_of db' rid)). \<exists>q. rl_issued l = Some q \<and> q \<le> rl_requested l)"
proof (rule issue_effect [OF assms(2) stock_safeD(3) [OF assms(1)] assms(3)])
  fix r db1 ms
  assume r: "t_get (transfer_requests db) rid = Some r" "tq_status r = RequestPending" and m: "moves db ms db1"
    and ch: "\<And>ou i. change_at ms ou i = send_change (tq_from r) (tq_to r) lines ou i"
    and ls: "distinct (map fst lines)" "length lines = length (lines_of db rid)"
      "\<forall>(i, q) \<in> set lines. \<exists>l. l \<in> snd ` set (lines_of db rid) \<and> rl_item l = i \<and> q \<le> rl_requested l"
    and enough: "\<forall>(i, q) \<in> set lines. 0 < q \<longrightarrow> q \<le> on_hand db (tq_from r) i" and ab: "tq_from r \<noteq> tq_to r"
    and d: "db' = set_request rid (\<lambda>r. r\<lparr>tq_status := RequestIssued, tq_decided_by := user, tq_date := d\<rparr>)
       (db1\<lparr>transfer_request_lines := t_update (\<lambda>_ l. rl_request l = rid) (issued_line lines refs) (transfer_request_lines db1)\<rparr>)"
  have p: "transfer_requests db1 = transfer_requests db" "transfer_request_lines db1 = transfer_request_lines db"
    using papers_moves [OF m] by (simp_all add: papers_of_def)
  have hand: "on_hand db' ou i = on_hand db ou i + send_change (tq_from r) (tq_to r) lines ou i" for ou i
    using moves_hand [OF stock_safeD(3) [OF assms(1)] m, of ou i] on_hand_levels [of db' db1] by (simp add: d set_request_def ch)
  have "0 \<le> on_hand db' (tq_from r) i" if "0 < amount_of lines i" for i
  proof -
    have "i \<in> fst ` set lines" using that amount_absent by fastforce
    then obtain q where "(i, q) \<in> set lines" by force
    then have "amount_of lines i = q" "q \<le> on_hand db (tq_from r) i" using amount_distinct [OF ls(1)] enough that by force+
    then show ?thesis using hand [of "tq_from r" i] ab by (simp add: send_change_def)
  qed
  moreover have sel: "map snd (lines_of db' rid) = map (issued_line lines refs) (map snd (lines_of db rid))"
  proof -
    have "map snd (filter (\<lambda>(i, l). rl_request l = rid) (map (\<lambda>(i, l). (i, if rl_request l = rid then issued_line lines refs l else l)) xs))
        = map (issued_line lines refs) (map snd (filter (\<lambda>(i, l). rl_request l = rid) xs))" for xs :: "(nat \<times> request_line) list"
      by (induction xs) (auto split: if_splits)
    then show ?thesis by (simp add: d set_request_def p lines_of_def t_select_def t_update_def)
  qed
  moreover have "\<exists>q. rl_issued l = Some q \<and> q \<le> rl_requested l" if l: "l \<in> set (map snd (lines_of db' rid))" for l
  proof -
    obtain l0 where l0: "l0 \<in> set (map snd (lines_of db rid))" "l = issued_line lines refs l0" using l sel by auto
    have di: "distinct (map rl_item (map snd (lines_of db rid)))"
      using stock_safeD(2) [OF assms(1)] by (simp add: papers_ok_def papers_of_def lines_ok_def lines_of_def comp_def)
    have g: "\<forall>(i, q) \<in> set lines. \<exists>l \<in> set (map snd (lines_of db rid)). rl_item l = i \<and> q \<le> rl_requested l" using ls(3) by fastforce
    have "\<exists>q. map_of lines (rl_item l0) = Some q \<and> q \<le> rl_requested l0"
      by (rule issued_all [OF ls(1) _ di g l0(1)]) (simp add: ls(2))
    then show ?thesis by (simp add: l0(2))
  qed
  ultimately show ?thesis using r hand by (intro exI [of _ r]) (simp add: d set_request_def t_get_update_id p)
qed

definition asked :: stock_db where
  "asked = stocked\<lparr>transfer_requests := t_insert \<lparr>tq_from = 1, tq_to = 2, tq_status = RequestPending, tq_top_up_of = None, tq_by = Some 7,
       tq_decided_by = None, tq_date = None\<rparr> t_empty,
     transfer_request_lines := t_insert \<lparr>rl_request = 1, rl_item = 1, rl_requested = 800, rl_issued = None, rl_reference = None\<rparr> t_empty\<rparr>"

definition answered :: stock_db where
  "answered = asked\<lparr>stock_levels := fold t_insert [shelf 1 1500, shelf 2 500] t_empty,
     stock_movements := fold t_insert [delivered, carried ''TRF-2'' 1 (- 500), carried ''TRF-2'' 2 500] t_empty,
     transfer_requests := t_insert \<lparr>tq_from = 1, tq_to = 2, tq_status = RequestIssued, tq_top_up_of = None, tq_by = Some 7,
       tq_decided_by = Some 9, tq_date = None\<rparr> t_empty,
     transfer_request_lines := t_insert \<lparr>rl_request = 1, rl_item = 1, rl_requested = 800, rl_issued = Some 500, rl_reference = Some ''TRF-2''\<rparr> t_empty\<rparr>"

lemma asked_issued: "issueTransferRequest 1 [(1, 500)] (Some 9) (\<lambda>_. ''TRF-2'') None asked = Inr answered"
  "createTransferRequest 1 2 [(1, 800)] (Some 7) None stocked = Inr (1, asked)"
  by code_simp+

lemma asked_run: "stock_step\<^sup>*\<^sup>* bare_stock asked"
  using stocked_run stock_step.ask [OF asked_issued(2)] by (rule rtranclp.rtrancl_into_rtrancl)

lemma answered_run: "stock_step asked answered"
  by (rule stock_step.issue [OF asked_issued(1)]) simp

theorem issue_sends_what_was_given_witness:
  "\<exists>r. t_get (transfer_requests asked) 1 = Some r \<and> on_hand answered 2 1 = on_hand asked 2 1 + send_change (tq_from r) (tq_to r) [(1, 500)] 2 1"
  using issue_sends_what_was_given [OF run_safe [OF asked_run start_safe [OF bare_start]] asked_issued(1)] by auto





end
