(* ===== verification/StockGuardProps.thy ===== *)
theory StockGuardProps
  imports StockDocProps
begin

text \<open>
  Stock takes, the lock order of the stock module, and the guard that takes a menu item off the menu of an outlet that ran out.
\<close>

section \<open>Stock takes\<close>

lemma complete_guard:
  assumes "completeStockTake k db = Inr db'" "t_get (stock_takes db) k = Some t" "t_get (outlets db) (tk_outlet t) = Some x" "o_type x \<noteq> STORE_OUTLET_TYPE"
    "active_stores db \<noteq> []" "(li, l) \<in> set (take_lines db k)"
  shows "tl_counted l \<le> on_hand db (tk_outlet t) (tl_item l)"
proof -
  have t: "take_not_decided k db = Inr t" using assms(1,2) by (auto simp: completeStockTake_def take_not_decided_def rbind_eq_Inr split: take_status.splits)
  have "filter (\<lambda>(_, _, _, v). v > 0) (map (counted_line db (tk_outlet t)) (take_lines db k)) = []"
    using assms(1,3-5) unfolding completeStockTake_def Let_def t rbind_simps take_lines_def
    by (intro ccontr [of "_ = []"]) (auto simp: rbind_eq_Inr split: if_splits)
  then show ?thesis using assms(6) by (auto simp: filter_empty_conv counted_line_def)
qed

text \<open>
  C19: Completing a stock take makes what its outlet holds of every counted item what was counted, writes the difference on the line,
  and changes no other quantity. Away from a store, at a property that has one, it never raises a quantity.
\<close>

theorem stock_take_sets_counts:
  assumes "stock_safe db" "completeStockTake k db = Inr db'"
  shows "\<exists>t. t_get (stock_takes db) k = Some t \<and> tk_status t = TakeOpen
    \<and> t_get (stock_takes db') k = Some (t\<lparr>tk_status := TakeCompleted, tk_date := trading_date db\<rparr>)
    \<and> (\<forall>(li, l) \<in> set (take_lines db k). on_hand db' (tk_outlet t) (tl_item l) = tl_counted l
        \<and> t_get (stock_take_lines db') li = Some (l\<lparr>tl_theoretical := Some (on_hand db (tk_outlet t) (tl_item l)),
             tl_variance := Some (tl_counted l - on_hand db (tk_outlet t) (tl_item l))\<rparr>))
    \<and> (\<forall>ou i. ou \<noteq> tk_outlet t \<or> i \<notin> tl_item ` snd ` set (take_lines db k) \<longrightarrow> on_hand db' ou i = on_hand db ou i)
    \<and> (case t_get (outlets db) (tk_outlet t) of None \<Rightarrow> True
       | Some x \<Rightarrow> o_type x = STORE_OUTLET_TYPE \<or> active_stores db = [] \<or> (\<forall>i. on_hand db' (tk_outlet t) i \<le> on_hand db (tk_outlet t) i))"
proof (rule complete_effect [OF assms(2) stock_safeD(3) [OF assms(1)]])
  fix t :: stock_take and db1 db2 :: stock_db
  let ?ls = "take_lines db k" and ?ou = "tk_outlet t"
  let ?c = "map (counted_line db ?ou) ?ls"
  assume t: "t_get (stock_takes db) k = Some t" "tk_status t = TakeOpen"
    and d1: "db1 = with_lines (fold noted ?c (stock_take_lines db)) db"
    and m: "moves db1 (concat (map (adjustment_of db k ?ou (trading_date db)) ?c)) db2"
    and d: "db' = db2\<lparr>stock_takes := t_update (by_id k) (\<lambda>t. t\<lparr>tk_status := TakeCompleted, tk_date := trading_date db\<rparr>) (stock_takes db2)\<rparr>"
  note w = stock_safeD(4) [OF assms(1)] and di = stock_safeD(5) [OF assms(1), of k]
  have ok1: "stock_ok db1" using stock_safeD(3) [OF assms(1)] by (simp add: d1)
  have "on_hand db1 = on_hand db" "on_hand db' = on_hand db2" by (rule on_hand_levels, simp add: d1 d)+
  then have hand: "on_hand db' ou i = on_hand db ou i
      + (if ou = ?ou then (case find (\<lambda>x. tl_item (snd x) = i) ?ls of None \<Rightarrow> 0 | Some (_, l) \<Rightarrow> tl_counted l - on_hand db ?ou i) else 0)" for ou i
    using moves_hand [OF ok1 m, of ou i] variance_sum [OF di, of i db ?ou] unfolding change_adjustments by simp
  have line: "find (\<lambda>x. tl_item (snd x) = tl_item l) ?ls = Some (li, l)" if "(li, l) \<in> set ?ls" for li l
  proof -
    have "find (\<lambda>x. tl_item (snd x) = tl_item l) xs = Some (li, l)" if "(li, l) \<in> set xs" "distinct (map (tl_item \<circ> snd) xs)" for xs
      using that by (induction xs) force+
    then show ?thesis using that di by blast
  qed
  have frame: "stock_takes db2 = stock_takes db" "stock_take_lines db2 = fold noted ?c (stock_take_lines db)"
    using stock_only_frame(6,7) [OF moves_ok(2) [OF m]] by (simp_all add: d1)
  have "on_hand db' ?ou (tl_item l) = tl_counted l
      \<and> t_get (stock_take_lines db') li = Some (l\<lparr>tl_theoretical := Some (on_hand db ?ou (tl_item l)), tl_variance := Some (tl_counted l - on_hand db ?ou (tl_item l))\<rparr>)"
    if l: "(li, l) \<in> set ?ls" for li l
  proof
    show "on_hand db' ?ou (tl_item l) = tl_counted l" by (simp add: hand line [OF l])
    have ids: "map fst ?c = map fst ?ls" by (simp add: counted_line_def case_prod_beta comp_def)
    have dc: "distinct (map fst ?c)" unfolding ids using t_select_distinct [OF w] by (simp add: take_lines_def)
    have "(li, tl_item l, on_hand db ?ou (tl_item l), tl_counted l - on_hand db ?ou (tl_item l)) \<in> set ?c" using l by (force simp: counted_line_def)
    then have "map_of ?c li = Some (tl_item l, on_hand db ?ou (tl_item l), tl_counted l - on_hand db ?ou (tl_item l))" using dc by simp
    moreover have "t_get (stock_take_lines db) li = Some l" using l by (simp add: take_lines_def t_select_set [OF w])
    ultimately show "t_get (stock_take_lines db') li = Some (l\<lparr>tl_theoretical := Some (on_hand db ?ou (tl_item l)), tl_variance := Some (tl_counted l - on_hand db ?ou (tl_item l))\<rparr>)"
      using noted_get [OF dc, of "stock_take_lines db" li] by (simp add: d frame)
  qed
  moreover have other: "on_hand db' ou i = on_hand db ou i" if "ou \<noteq> ?ou \<or> i \<notin> tl_item ` snd ` set ?ls" for ou i
  proof (cases "ou = ?ou")
    case True
    then have "find (\<lambda>x. tl_item (snd x) = i) ?ls = None" using that by (force simp: find_None_iff)
    then show ?thesis using hand [of ou i] by simp
  qed (use hand [of ou i] in simp)
  moreover have "case t_get (outlets db) ?ou of None \<Rightarrow> True
       | Some x \<Rightarrow> o_type x = STORE_OUTLET_TYPE \<or> active_stores db = [] \<or> (\<forall>i. on_hand db' ?ou i \<le> on_hand db ?ou i)"
  proof (cases "t_get (outlets db) ?ou")
    case (Some x)
    have "on_hand db' ?ou i \<le> on_hand db ?ou i" if "o_type x \<noteq> STORE_OUTLET_TYPE" "active_stores db \<noteq> []" for i
    proof (cases "i \<in> tl_item ` snd ` set ?ls")
      case True
      then obtain li l where "(li, l) \<in> set ?ls" "i = tl_item l" by force
      then show ?thesis using complete_guard [OF assms(2) t(1) Some that] calculation(1) by fastforce
    qed (use other in simp)
    then show ?thesis using Some by auto
  qed simp
  ultimately show ?thesis using t by (intro exI [of _ t]) (auto simp: d frame t_get_update_id)
qed

definition opened :: stock_db where
  "opened = answered\<lparr>stock_takes := t_insert \<lparr>tk_outlet = 2, tk_status = TakeOpen, tk_date = None\<rparr> t_empty\<rparr>"

definition counting :: stock_db where
  "counting = opened\<lparr>stock_take_lines := t_insert \<lparr>tl_take = 1, tl_item = 1, tl_counted = 450, tl_theoretical = None, tl_variance = None\<rparr> t_empty\<rparr>"

definition counted_bar :: stock_db where
  "counted_bar = counting\<lparr>stock_items := t_insert (drink 1950) t_empty, stock_levels := fold t_insert [shelf 1 1500, shelf 2 450] t_empty,
     stock_movements := fold t_insert [delivered, carried ''TRF-2'' 1 (- 500), carried ''TRF-2'' 2 500,
       (plain_movement 2 1 CountAdjusted (- 50) 130 None)\<lparr>mv_take := Some 1\<rparr>] t_empty,
     stock_takes := t_insert \<lparr>tk_outlet = 2, tk_status = TakeCompleted, tk_date = None\<rparr> t_empty,
     stock_take_lines := t_insert \<lparr>tl_take = 1, tl_item = 1, tl_counted = 450, tl_theoretical = Some 500, tl_variance = Some (- 50)\<rparr> t_empty\<rparr>"

lemma counting_safe: "stock_safe counting"
proof -
  have "openStockTake 2 answered = Inr (1, opened)" "recordStockTakeCount 1 1 450 opened = Inr counting" by code_simp+
  then have "stock_step answered opened" "stock_step opened counting" using stock_step.open_take stock_step.count_line by blast+
  then show ?thesis using step_safe run_safe [OF asked_run start_safe [OF bare_start]] answered_run by blast
qed

theorem stock_take_sets_counts_witness:
  "\<exists>t. t_get (stock_takes counting) 1 = Some t \<and> t_get (stock_takes counted_bar) 1 = Some (t\<lparr>tk_status := TakeCompleted, tk_date := None\<rparr>)
     \<and> on_hand counting 2 1 = 500 \<and> on_hand counted_bar 2 1 = 450"
proof -
  have "completeStockTake 1 counting = Inr counted_bar" "on_hand counting 2 1 = 500" "on_hand counted_bar 2 1 = 450" "trading_date counting = None" by code_simp+
  then show ?thesis using stock_take_sets_counts [OF counting_safe, of 1 counted_bar] by auto
qed

section \<open>Locks\<close>

lemma lock_ids: "lockStockItemsSorted db ids = Inr locked \<Longrightarrow> map fst locked = sort (js_unique ids)"
proof -
  assume a: "lockStockItemsSorted db ids = Inr locked"
  have "foldM (\<lambda>locked i. case t_get (stock_items db) i of None \<Rightarrow> Inl (ValidationError ''STOCK_ITEM_NOT_FOUND'') | Some r \<Rightarrow> Inr (locked @ [(i, r)])) acc xs
      = Inr locked \<Longrightarrow> map fst locked = map fst acc @ xs" for acc xs
    by (induction xs arbitrary: acc) (force split: option.splits)+
  then show ?thesis using a by (fastforce simp: lockStockItemsSorted_def)
qed

lemma lock_succeeds:
  assumes "\<forall>i \<in> set ids. t_get (stock_items db) i \<noteq> None"
  shows "\<exists>locked. lockStockItemsSorted db ids = Inr locked"
proof -
  have "\<forall>i \<in> set xs. t_get (stock_items db) i \<noteq> None \<Longrightarrow>
    \<exists>locked. foldM (\<lambda>locked i. case t_get (stock_items db) i of None \<Rightarrow> Inl (ValidationError ''STOCK_ITEM_NOT_FOUND'') | Some r \<Rightarrow> Inr (locked @ [(i, r)])) acc xs = Inr locked"
    for acc xs by (induction xs arbitrary: acc) auto
  then show ?thesis using assms by (simp add: lockStockItemsSorted_def js_unique_def)
qed

lemma closure_locks: "set sub \<subseteq> set ids \<Longrightarrow> menu_item_components db' = menu_item_components db \<Longrightarrow> set (effect_locks db' sub) \<subseteq> set (resolveLockClosure db ids)"
proof -
  assume s: "set sub \<subseteq> set ids" and c: "menu_item_components db' = menu_item_components db"
  have u: "set (js_unique xs) = set xs" for xs :: "nat list" by (simp add: js_unique_def)
  have m: "set (menus_using db' sub) \<subseteq> set (menus_using db (js_unique ids))"
    using s by (auto simp: menus_using_def c u t_select_def)
  show ?thesis
  proof (cases "menus_using db (js_unique ids) = []")
    case True
    then have "menus_using db' sub = []" using m by simp
    then show ?thesis using s True by (simp add: effect_locks_def resolveLockClosure_def Let_def u t_select_def)
  next
    case False
    then show ?thesis using s m by (auto simp: effect_locks_def resolveLockClosure_def Let_def u c t_select_def js_unique_def menus_using_def)
  qed
qed



section \<open>The menu follows the stock\<close>

lemma setting_upsert:
  assumes "t_wf (outlet_menu_items db)"
  shows "applyOutletSetting (switch_menu_item ou m a b db) ou' m' = (if ou' = ou \<and> m' = m then (a, b) else applyOutletSetting db ou' m')"
    "t_wf (outlet_menu_items (switch_menu_item ou m a b db))"
proof -
  show "t_wf (outlet_menu_items (switch_menu_item ou m a b db))" using assms by (simp add: upsertOutletMenuSetting_def split: option.split prod.split)
  show "applyOutletSetting (switch_menu_item ou m a b db) ou' m' = (if ou' = ou \<and> m' = m then (a, b) else applyOutletSetting db ou' m')"
  proof (cases "setting_row db ou m")
    case None
    then show ?thesis by (auto simp: upsertOutletMenuSetting_def applyOutletSetting_def setting_row_def t_first_insert split: option.split)
  next
    case (Some x)
    obtain k s where x: "setting_row db ou m = Some (k, s)" using Some by (cases x) auto
    have k: "t_get (outlet_menu_items db) k = Some s" "ms_outlet s = ou" "ms_menu s = m"
      using t_first_SomeD [OF assms] x by (auto simp: setting_row_def)
    have u: "setting_row (switch_menu_item ou m a b db) ou' m'
        = map_option (\<lambda>(j, r). (j, if j = k then r\<lparr>ms_available := a, ms_auto_off := b\<rparr> else r)) (setting_row db ou' m')"
      using x by (simp add: upsertOutletMenuSetting_def) (simp add: setting_row_def t_first_update)
    show ?thesis
    proof (cases "ou' = ou \<and> m' = m")
      case True
      then show ?thesis using u x by (simp add: applyOutletSetting_def)
    next
      case False
      have "j \<noteq> k" if "setting_row db ou' m' = Some (j, r)" for j r
        using t_first_SomeD [OF assms that [unfolded setting_row_def]] k False by auto
      then show ?thesis using u False by (cases "setting_row db ou' m'") (auto simp: applyOutletSetting_def)
    qed
  qed
qed

definition guard_setting :: "bool \<Rightarrow> bool \<times> bool \<Rightarrow> bool \<times> bool" where
  "guard_setting depleted s = (case s of (available, autoOff) \<Rightarrow>
     if depleted \<and> available then (False, True) else if \<not> depleted \<and> \<not> available \<and> autoOff then (True, False) else (available, autoOff))"

definition ran_out :: "stock_db \<Rightarrow> nat \<Rightarrow> nat \<Rightarrow> bool" where
  "ran_out db ou m \<longleftrightarrow> list_ex (\<lambda>i. on_hand db ou i \<le> 0) (components_of db m)"

definition on_sale :: "stock_db \<Rightarrow> string list \<Rightarrow> nat \<Rightarrow> bool" where
  "on_sale db sold m \<longleftrightarrow> (case t_get (menu_items db) m of None \<Rightarrow> False
     | Some mi \<Rightarrow> mi_status mi = ''active'' \<and> nameKey (mi_category mi) \<in> set sold)"

lemma effect_setting:
  assumes "t_wf (outlet_menu_items db)"
  shows "applyOutletSetting (availability_effect ou sold False m db) ou' m' =
    (if ou' = ou \<and> m' = m \<and> on_sale db sold m
     then guard_setting (ran_out db ou m) (applyOutletSetting db ou m) else applyOutletSetting db ou' m')"
    "t_wf (outlet_menu_items (availability_effect ou sold False m db))"
  using assms setting_upsert
  by (auto simp: availability_effect_def guard_setting_def ran_out_def on_sale_def Let_def split: option.split prod.split)

lemma ran_out_frame: "settings_only db db' \<Longrightarrow> ran_out db' ou m = ran_out db ou m" "settings_only db db' \<Longrightarrow> menu_items db' = menu_items db"
proof -
  assume s: "settings_only db db'"
  note f = stock_only_frame [OF settings_frame(1) [OF s]]
  show "menu_items db' = menu_items db" by (rule f(3))
  show "ran_out db' ou m = ran_out db ou m" by (simp add: ran_out_def components_of_def f(2) settings_frame(3) [OF s])
qed

lemma fold_effect_setting:
  assumes "t_wf (outlet_menu_items db)" "distinct ms"
  shows "applyOutletSetting (fold (availability_effect ou sold False) ms db) ou' m =
    (if ou' = ou \<and> m \<in> set ms \<and> on_sale db sold m
     then guard_setting (ran_out db ou m) (applyOutletSetting db ou m) else applyOutletSetting db ou' m)"
  using assms
proof (induction ms arbitrary: db)
  case (Cons n ms)
  let ?db = "availability_effect ou sold False n db"
  have f: "ran_out ?db ou m = ran_out db ou m" "on_sale ?db sold m = on_sale db sold m"
    using ran_out_frame [OF availability_effect_only] by (simp_all add: on_sale_def)
  have dm: "distinct ms" using Cons.prems(2) by simp
  note ih = Cons.IH [OF effect_setting(2) [OF Cons.prems(1), of ou sold n] dm, unfolded f]
  show ?case
  proof (cases "m = n")
    case True
    then have "m \<notin> set ms" using Cons.prems(2) by simp
    then show ?thesis using ih effect_setting(1) [OF Cons.prems(1), of ou sold n ou' m] True by simp
  next
    case False
    then show ?thesis using ih effect_setting(1) [OF Cons.prems(1), of ou sold n] by simp
  qed
qed simp



end
