(* ===== verification/Till.thy ===== *)
theory Till
  imports DiscountPricing Payments Reservations StockOps
begin

text \<open>
  The tables of the Register (\<open>modules/pos/service.js\<close>) next to those of the hotel and of stock, the checks on an order line
  (\<open>shared/pos-line-input.js\<close>), and the discounts and vouchers of a check (\<open>modules/discounts/store.js\<close>, \<open>voucher-store.js\<close>). The columns of
  \<open>pos_orders\<close> and \<open>pos_order_settlements\<close> that the payment module reads are the tables \<open>orders\<close> and \<open>settlements\<close> of the hotel; the others are
  kept here by the same id, as is the check a Register payment is for. Money is cents; reasons of a void and the codes printed on
  receipts, which nothing reads back, are left out.
\<close>

section \<open>Rows\<close>

text \<open>The columns of a tab beside its outlet and status, which are in the hotel's \<open>orders\<close>.\<close>

record tab =
  tb_terminal :: "nat option"
  tb_opened_by :: "nat option"
  tb_owner :: "nat option"
  tb_label :: "string option"
  tb_source :: string
  tb_ticket_done :: bool

record order_item =
  oi_order :: nat
  oi_menu :: nat
  oi_quantity :: int
  oi_unit_price :: int
  oi_modifiers :: "(string \<times> string \<times> int) list"
  oi_group :: "nat option"
  oi_created :: int
  oi_voided :: bool

text \<open>The columns of a settlement beside its order, payment, tip line and void stamp, which are in the hotel's \<open>settlements\<close>.\<close>

record sale =
  sa_group :: "nat option"
  sa_method :: string
  sa_tender :: string
  sa_subtotal :: int
  sa_tax :: int
  sa_tip :: int
  sa_service :: int
  sa_currency :: string
  sa_date :: "date option"
  sa_shift :: "nat option"
  sa_folio :: "nat option"
  sa_line :: "nat option"
  sa_provider :: "string option"
  sa_reference :: "string option"
  sa_account_label :: "string option"
  sa_account_last4 :: "string option"

record shift =
  sh_terminal :: nat
  sh_user :: nat
  sh_float :: int
  sh_open :: bool
  sh_counted :: "int option"
  sh_expected :: "int option"
  sh_variance :: "int option"

record pos_terminal =
  tm_outlet :: nat
  tm_status :: string

datatype discount_status = DiscountPending | DiscountActive | DiscountApplied | DiscountRemoved | DiscountExpired

record discount_row =
  ds_order :: nat
  ds_status :: discount_status
  ds_kind :: string
  ds_scope :: string
  ds_type :: string
  ds_value :: int
  ds_max_amount :: "int option"
  ds_menu_item :: "nat option"
  ds_order_item :: "nat option"
  ds_by :: nat
  ds_approved_by :: "nat option"

record settlement_discount =
  sd_settlement :: nat
  sd_discount :: nat
  sd_kind :: string
  sd_base :: int
  sd_amount :: int

record voucher =
  vc_status :: string
  vc_from :: date
  vc_to :: date
  vc_max_uses :: "nat option"
  vc_used :: nat

datatype redemption_status = VoucherAttached | VoucherRedeemed | VoucherReversed | VoucherReleased

record redemption =
  vr_discount :: nat
  vr_voucher :: nat
  vr_status :: redemption_status
  vr_amount :: int
  vr_settlement :: "nat option"

record till =
  desk :: front_office
  shelf :: stock_db
  base_currency :: string
  tabs :: "nat \<Rightarrow> tab option"
  order_items :: "order_item table"
  sales :: "nat \<Rightarrow> sale option"
  intents :: "nat \<Rightarrow> (nat option \<times> string) option"
  guest_orders :: "nat \<Rightarrow> string option"
  shifts :: "shift table"
  pos_terminals :: "pos_terminal table"
  outlet_accounts :: "(nat \<times> terminal_account) table"
  discount_rows :: "discount_row table"
  discount_limits :: "(string \<times> int) list"
  settlement_discounts :: "settlement_discount table"
  vouchers :: "voucher table"
  voucher_outlets :: "(nat \<times> nat) list"
  redemptions :: "redemption table"

abbreviation books :: "till \<Rightarrow> hotel" where "books t \<equiv> house (desk t)"

definition set_books :: "hotel \<Rightarrow> till \<Rightarrow> till" where
  "set_books db t = t\<lparr>desk := (desk t)\<lparr>house := db\<rparr>\<rparr>"

text \<open>An operation of the ledger, and one of the stock module, which reads the outlet of an order.\<close>

definition on_books :: "(hotel \<Rightarrow> ('a \<times> hotel) result) \<Rightarrow> till \<Rightarrow> ('a \<times> till) result" where
  "on_books f t = map_sum id (\<lambda>(x, db). (x, set_books db t)) (f (books t))"

definition order_outlets :: "till \<Rightarrow> nat table" where
  "order_outlets t = \<lparr>next_id = next_id (orders (books t)), rows = map (\<lambda>(k, r). (k, po_outlet r)) (rows (orders (books t)))\<rparr>"

definition on_shelf :: "(stock_db \<Rightarrow> stock_db result) \<Rightarrow> till \<Rightarrow> till result" where
  "on_shelf f t = map_sum id (\<lambda>db. t\<lparr>shelf := db\<rparr>) (f ((shelf t)\<lparr>pos_orders := order_outlets t\<rparr>))"

section \<open>Order lines\<close>

definition MAX_LINE_QUANTITY :: nat where "MAX_LINE_QUANTITY = 999"

text \<open>A number arrives as its text; a whole number is digits alone.\<close>

definition whole_quantity :: "string \<Rightarrow> int result" where
  "whole_quantity s = (if s \<noteq> [] \<and> list_all is_digit s \<and> 1 \<le> of_digits 10 s \<and> of_digits 10 s \<le> MAX_LINE_QUANTITY
     then Inr (int (of_digits 10 s)) else Inl (ValidationFieldError ''INVALID_QUANTITY'' ''quantity'' ''invalid''))"

definition normalizeQuantity :: "js_value \<Rightarrow> int result" where
  "normalizeQuantity raw = (case raw of JUndefined \<Rightarrow> Inr 1 | JNull \<Rightarrow> Inr 1 | JNum n \<Rightarrow> whole_quantity n
     | JStr s \<Rightarrow> whole_quantity (js_trim s) | JOther \<Rightarrow> Inl (ValidationFieldError ''INVALID_QUANTITY'' ''quantity'' ''invalid''))"

definition modifierError :: app_error where
  "modifierError = ValidationFieldError ''INVALID_MODIFIERS'' ''modifiers'' ''invalid''"

text \<open>A choice names a group and an option; what it costs is the catalogue's own price.\<close>

definition select_modifier ::
    "modifier_group list \<Rightarrow> (string \<times> string \<times> int) list \<Rightarrow> js_value \<times> js_value \<Rightarrow> (string \<times> string \<times> int) list result" where
  "select_modifier catalogue taken entry = (case entry of
     (JStr name, JStr choice) \<Rightarrow> (case find (\<lambda>g. nameKey (fst g) = nameKey name) catalogue of
         None \<Rightarrow> Inl modifierError
       | Some g \<Rightarrow>
           if nameKey (fst g) \<in> (\<lambda>m. nameKey (fst m)) ` set taken then Inl modifierError
           else (case find (\<lambda>x. nameKey (fst x) = nameKey choice) (snd g) of
               None \<Rightarrow> Inl modifierError
             | Some x \<Rightarrow> Inr (taken @ [(fst g, fst x, snd x)])))
   | _ \<Rightarrow> Inl modifierError)"

definition resolveModifierSelections ::
    "menu_item \<Rightarrow> (js_value \<times> js_value) list option \<Rightarrow> (string \<times> string \<times> int) list result" where
  "resolveModifierSelections mi chosen = (case chosen of
     None \<Rightarrow> Inr []
   | Some cs \<Rightarrow>
       if cs = [] then Inr []
       else if mi_modifiers mi = [] then Inl modifierError
       else if length cs > length (mi_modifiers mi) then Inl modifierError
       else foldM (select_modifier (mi_modifiers mi)) [] cs)"

definition resolveOrderLine ::
    "menu_item \<Rightarrow> int \<Rightarrow> js_value \<Rightarrow> (js_value \<times> js_value) list option \<Rightarrow> (int \<times> (string \<times> string \<times> int) list) result" where
  "resolveOrderLine mi unitPrice quantity modifiers =
     rbind (normalizeQuantity quantity) (\<lambda>q.
     rbind (resolveModifierSelections mi modifiers) (\<lambda>ms.
       if unitPrice + sum_list (map (snd \<circ> snd) ms) < 0 then Inl modifierError else Inr (q, ms)))"

definition check_item_of :: "nat \<times> order_item \<Rightarrow> check_item" where
  "check_item_of x = (case x of (k, it) \<Rightarrow> \<lparr>ci_id = k, ci_group = oi_group it, ci_unit_price = oi_unit_price it,
     ci_quantity = oi_quantity it, ci_modifiers = map (\<lambda>(_, _, d). Some d) (oi_modifiers it), ci_menu_item = oi_menu it\<rparr>)"

text \<open>The lines of an order that are not voided.\<close>

definition live_items :: "till \<Rightarrow> nat \<Rightarrow> check_item list" where
  "live_items t oid = map check_item_of (t_select (\<lambda>_ it. oi_order it = oid \<and> \<not> oi_voided it) (order_items t))"

section \<open>Discounts of a check\<close>

definition discount_of :: "nat \<times> discount_row \<Rightarrow> discount" where
  "discount_of x = (case x of (k, r) \<Rightarrow> \<lparr>d_id = k, d_scope = ds_scope r, d_type = ds_type r, d_value = ds_value r,
     d_max_amount = ds_max_amount r, d_menu_item = ds_menu_item r, d_order_item = ds_order_item r\<rparr>)"

definition activeForOrder :: "till \<Rightarrow> nat \<Rightarrow> (nat \<times> discount_row) list" where
  "activeForOrder t oid = t_select (\<lambda>_ r. ds_order r = oid \<and> ds_status r = DiscountActive) (discount_rows t)"

definition priceOrNull :: "check_item list \<Rightarrow> (nat \<times> discount_row) list \<Rightarrow> priced option" where
  "priceOrNull items ds = (if ds = [] then None else Some (applyDiscounts items (map discount_of ds)))"

text \<open>Percentages are hundredths.\<close>

definition DEFAULT_LIMITS :: "(string \<times> int) list" where
  "DEFAULT_LIMITS = [(''pos_operator'', 500), (''manager'', 2500), (''admin'', 5000), (''super_admin'', 10000)]"

definition limitPercentFor :: "till \<Rightarrow> string \<Rightarrow> int" where
  "limitPercentFor t role = (case map_of (discount_limits t) role of Some p \<Rightarrow> p
     | None \<Rightarrow> (case map_of DEFAULT_LIMITS role of Some p \<Rightarrow> p | None \<Rightarrow> 0))"

definition within_giver_limit :: "till \<Rightarrow> priced \<Rightarrow> nat \<times> discount_row \<Rightarrow> bool" where
  "within_giver_limit t p x = (case x of (k, r) \<Rightarrow>
     ds_approved_by r \<noteq> None
     \<or> (case find (\<lambda>e. p_discount e = k) (discounts_out p) of
          None \<Rightarrow> True
        | Some e \<Rightarrow> isWithinPercentLimit (p_amount e) (p_base_before e)
            (case t_first (\<lambda>_ a. ua_user a = ds_by r) (property_access (shelf t)) of None \<Rightarrow> 0 | Some (_, a) \<Rightarrow> limitPercentFor t (ua_role a))))"

definition assertUnapprovedWithinLimit :: "till \<Rightarrow> (nat \<times> discount_row) list \<Rightarrow> priced \<Rightarrow> unit result" where
  "assertUnapprovedWithinLimit t ds p = (case find (\<lambda>x. \<not> within_giver_limit t p x) ds of
     None \<Rightarrow> Inr () | Some (k, _) \<Rightarrow> Inl (DiscountNeedsApprovalError k))"

definition markApplied :: "nat list \<Rightarrow> till \<Rightarrow> till" where
  "markApplied ids t = t\<lparr>discount_rows := t_update (\<lambda>k r. k \<in> set ids \<and> ds_status r = DiscountActive)
     (\<lambda>r. r\<lparr>ds_status := DiscountApplied\<rparr>) (discount_rows t)\<rparr>"

definition recordSettlementDiscounts :: "nat \<Rightarrow> part list \<Rightarrow> (nat \<times> discount_row) list \<Rightarrow> till \<Rightarrow> till" where
  "recordSettlementDiscounts sid ps ds t = t\<lparr>settlement_discounts := foldl (\<lambda>tab p. t_insert \<lparr>sd_settlement = sid,
     sd_discount = p_discount p, sd_kind = (case map_of ds (p_discount p) of None \<Rightarrow> [] | Some r \<Rightarrow> ds_kind r),
     sd_base = p_base_before p, sd_amount = p_amount p\<rparr> tab) (settlement_discounts t) ps\<rparr>"

section \<open>Vouchers\<close>

definition VOUCHER_KIND :: string where "VOUCHER_KIND = ''voucher''"

definition problemFor :: "voucher option \<Rightarrow> nat \<Rightarrow> date option \<Rightarrow> nat list \<Rightarrow> string option" where
  "problemFor v outletId businessDate outletIds = (case v of
     None \<Rightarrow> Some ''missing''
   | Some vc \<Rightarrow>
       if vc_status vc \<noteq> ''active'' then Some ''disabled''
       else if (case businessDate of None \<Rightarrow> False | Some d \<Rightarrow> d < vc_from vc) then Some ''not_yet''
       else if (case businessDate of None \<Rightarrow> False | Some d \<Rightarrow> vc_to vc < d) then Some ''expired''
       else if (case vc_max_uses vc of None \<Rightarrow> False | Some n \<Rightarrow> n \<le> vc_used vc) then Some ''used_up''
       else if outletIds \<noteq> [] \<and> outletId \<notin> set outletIds then Some ''wrong_outlet''
       else None)"

definition outletIdsOf :: "till \<Rightarrow> nat \<Rightarrow> nat list" where
  "outletIdsOf t v = map snd (filter (\<lambda>x. fst x = v) (voucher_outlets t))"

definition liveVoucherDiscounts :: "till \<Rightarrow> nat \<Rightarrow> (nat \<times> discount_row) list" where
  "liveVoucherDiscounts t oid = filter (\<lambda>(_, r). ds_kind r = VOUCHER_KIND) (activeForOrder t oid)"

text \<open>The first voucher of a check that can no longer be redeemed, and why.\<close>

definition voucher_problem :: "till \<Rightarrow> nat \<Rightarrow> nat \<Rightarrow> string option" where
  "voucher_problem t outletId k = (case t_first (\<lambda>_ l. vr_discount l = k) (redemptions t) of
     None \<Rightarrow> problemFor None outletId (business_date (books t)) []
   | Some (_, l) \<Rightarrow> problemFor (t_get (vouchers t) (vr_voucher l)) outletId (business_date (books t)) (outletIdsOf t (vr_voucher l)))"

definition previewProblem :: "till \<Rightarrow> nat \<Rightarrow> nat \<Rightarrow> (nat \<times> string) option" where
  "previewProblem t oid outletId = (case List.map_filter (\<lambda>(k, _). map_option (Pair k) (voucher_problem t outletId k)) (liveVoucherDiscounts t oid) of
     [] \<Rightarrow> None | x # _ \<Rightarrow> Some x)"

text \<open>One use of the voucher of a discount: the voucher is read under its lock.\<close>

definition redeem_one :: "nat \<Rightarrow> part list \<Rightarrow> till \<Rightarrow> nat \<Rightarrow> till result" where
  "redeem_one outletId amounts t k = (case t_first (\<lambda>_ l. vr_discount l = k) (redemptions t) of
     None \<Rightarrow> Inl (VoucherNoLongerAvailableError ''missing'' k)
   | Some (j, l) \<Rightarrow>
       if vr_status l \<noteq> VoucherAttached then Inl (VoucherNoLongerAvailableError ''missing'' k)
       else (case problemFor (t_get (vouchers t) (vr_voucher l)) outletId (business_date (books t)) (outletIdsOf t (vr_voucher l)) of
           Some reason \<Rightarrow> Inl (VoucherNoLongerAvailableError reason k)
         | None \<Rightarrow> Inr (t\<lparr>vouchers := t_update (by_id (vr_voucher l)) (\<lambda>v. v\<lparr>vc_used := vc_used v + 1\<rparr>) (vouchers t),
             redemptions := t_update (by_id j) (\<lambda>l. l\<lparr>vr_status := VoucherRedeemed,
               vr_amount := (case find (\<lambda>e. p_discount e = k) amounts of None \<Rightarrow> 0 | Some e \<Rightarrow> p_amount e)\<rparr>) (redemptions t)\<rparr>)))"

definition redeemForOrder :: "nat list \<Rightarrow> priced \<Rightarrow> nat \<Rightarrow> till \<Rightarrow> till result" where
  "redeemForOrder ks p outletId t = foldM (redeem_one outletId (discounts_out p)) t ks"

definition linkSettlement :: "nat list \<Rightarrow> nat \<Rightarrow> till \<Rightarrow> till" where
  "linkSettlement ks sid t = t\<lparr>redemptions := t_update (\<lambda>_ l. vr_discount l \<in> set ks \<and> vr_settlement l = None)
     (\<lambda>l. l\<lparr>vr_settlement := Some sid\<rparr>) (redemptions t)\<rparr>"

definition still_standing :: "till \<Rightarrow> nat \<Rightarrow> nat \<Rightarrow> bool" where
  "still_standing t sid k \<longleftrightarrow> t_first (\<lambda>_ d. sd_discount d = k \<and> sd_settlement d \<noteq> sid
     \<and> (case t_get (settlements (books t)) (sd_settlement d) of None \<Rightarrow> False | Some s \<Rightarrow> \<not> s_voided s)) (settlement_discounts t) \<noteq> None"

definition restore_one :: "nat \<Rightarrow> till \<Rightarrow> nat \<Rightarrow> till" where
  "restore_one sid t k =
     (if still_standing t sid k then t
      else (case t_first (\<lambda>_ l. vr_discount l = k \<and> vr_status l = VoucherRedeemed) (redemptions t) of
          None \<Rightarrow> t
        | Some (j, l) \<Rightarrow> t\<lparr>redemptions := t_update (by_id j) (\<lambda>l. l\<lparr>vr_status := VoucherReversed\<rparr>) (redemptions t),
            vouchers := t_update (by_id (vr_voucher l)) (\<lambda>v. v\<lparr>vc_used := vc_used v - 1\<rparr>) (vouchers t)\<rparr>))"

definition restoreForSettlement :: "nat \<Rightarrow> till \<Rightarrow> till" where
  "restoreForSettlement sid t = foldl (restore_one sid) t
     (map (sd_discount \<circ> snd) (t_select (\<lambda>_ d. sd_settlement d = sid \<and> sd_kind d = VOUCHER_KIND) (settlement_discounts t)))"

definition releaseForDiscount :: "nat \<Rightarrow> till \<Rightarrow> till" where
  "releaseForDiscount k t = t\<lparr>redemptions := t_update (\<lambda>_ l. vr_discount l = k \<and> vr_status l = VoucherAttached)
     (\<lambda>l. l\<lparr>vr_status := VoucherReleased\<rparr>) (redemptions t)\<rparr>"

section \<open>Register payments of a check\<close>

definition open_register_payment :: "payment_status \<Rightarrow> bool" where
  "open_register_payment s \<longleftrightarrow> s \<in> {INITIATED, PENDING, CAPTURED}"

text \<open>A payment that already backs a settlement is not in flight any more.\<close>

definition backs_live_settlement :: "till \<Rightarrow> nat \<Rightarrow> bool" where
  "backs_live_settlement t pid \<longleftrightarrow> t_first (\<lambda>_ s. s_payment s = Some pid \<and> \<not> s_voided s) (settlements (books t)) \<noteq> None"

definition listUnsettledRegisterPayments :: "till \<Rightarrow> nat \<Rightarrow> (nat \<times> payment) list" where
  "listUnsettledRegisterPayments t oid = t_select (\<lambda>pid p. p_order p = Some oid \<and> p_target p = ''pos_register''
     \<and> open_register_payment (p_status p) \<and> \<not> backs_live_settlement t pid) (payments (books t))"

definition hasCapturedUnsettledPayment :: "till \<Rightarrow> nat \<Rightarrow> bool" where
  "hasCapturedUnsettledPayment t oid \<longleftrightarrow> t_first (\<lambda>pid p. p_order p = Some oid \<and> p_target p = ''pos_register'' \<and> p_status p = CAPTURED
     \<and> \<not> backs_live_settlement t pid) (payments (books t)) \<noteq> None"

end
