(* ===== verification/Register.thy ===== *)
theory Register
  imports Till
begin

text \<open>
  Working a tab, \<open>modules/pos/service.js\<close>: opening it, adding, voiding and splitting lines, renaming, handing over and voiding it, and the
  kitchen ticket. Each is one transaction that locks the order first; a refusal writes nothing. Permissions, the active staff and the
  clock are arguments.
\<close>

section \<open>Whose tab it is\<close>

record actor =
  ac_user :: nat
  ac_for_others :: bool
  ac_reason :: "string option"

definition tabOwnerId :: "tab \<Rightarrow> nat option" where
  "tabOwnerId b = or_else (tb_owner b) (tb_opened_by b)"

definition cleanOverrideReason :: "string option \<Rightarrow> string option" where
  "cleanOverrideReason v = (case v of None \<Rightarrow> None | Some s \<Rightarrow> if js_trim s = [] then None else Some (take 500 (js_trim s)))"

text \<open>The owner acted for, when it is somebody else.\<close>

definition assertCanChangeTab :: "nat \<Rightarrow> tab \<Rightarrow> actor \<Rightarrow> bool \<Rightarrow> nat option result" where
  "assertCanChangeTab oid b ac reasonRequired = (case tabOwnerId b of
     None \<Rightarrow> Inr None
   | Some u \<Rightarrow>
       if u = ac_user ac then Inr None
       else if \<not> ac_for_others ac then Inl (TabNotYoursError oid)
       else if reasonRequired \<and> cleanOverrideReason (ac_reason ac) = None
       then Inl (ValidationFieldError ''OVERRIDE_REASON_REQUIRED'' ''override_reason'' ''missing'')
       else Inr (Some u))"

definition lock_open_order :: "till \<Rightarrow> nat \<Rightarrow> (pos_order \<times> tab) result" where
  "lock_open_order t oid = (case t_get (orders (books t)) oid of
     None \<Rightarrow> Inl (ValidationError ''ORDER_NOT_FOUND'')
   | Some r \<Rightarrow>
       if po_status r \<noteq> ''open'' then Inl (OrderNotOpenError oid (po_status r))
       else (case tabs t oid of None \<Rightarrow> Inl TypeError | Some b \<Rightarrow> Inr (r, b)))"

section \<open>Opening and filling a tab\<close>

definition assertRegisterOutlet :: "outlet option \<Rightarrow> unit result" where
  "assertRegisterOutlet x =
     (if \<not> isPointOfSaleOutlet x then Inl StoreOutletNotAPointOfSaleError
      else if isSupermarketOutlet x then Inl SupermarketOutletNotARegisterError else Inr ())"

definition openOrder :: "nat \<Rightarrow> nat option \<Rightarrow> nat option \<Rightarrow> string option \<Rightarrow> string \<Rightarrow> till \<Rightarrow> (nat \<times> till) result" where
  "openOrder outletId terminalId openedBy label source t = (case t_get (outlets (shelf t)) outletId of
     None \<Rightarrow> Inl (ValidationError ''OUTLET_NOT_FOUND'')
   | Some x \<Rightarrow> rbind (assertRegisterOutlet (Some x)) (\<lambda>_.
       if (case terminalId of None \<Rightarrow> False | Some k \<Rightarrow> (case t_get (pos_terminals t) k of None \<Rightarrow> True | Some m \<Rightarrow> tm_outlet m \<noteq> outletId))
       then Inl (ValidationError ''TERMINAL_NOT_FOUND'')
       else let oid = next_id (orders (books t));
                db = (books t)\<lparr>orders := t_insert \<lparr>po_outlet = outletId, po_status = ''open''\<rparr> (orders (books t))\<rparr>
         in Inr (oid, (set_books db t)\<lparr>tabs := (tabs t)(oid \<mapsto> \<lparr>tb_terminal = terminalId, tb_opened_by = openedBy, tb_owner = None,
              tb_label = label, tb_source = source, tb_ticket_done = False\<rparr>)\<rparr>)))"

definition set_tab :: "nat \<Rightarrow> (tab \<Rightarrow> tab) \<Rightarrow> till \<Rightarrow> till" where
  "set_tab oid f t = t\<lparr>tabs := (tabs t)(oid := map_option f (tabs t oid))\<rparr>"

definition set_order_status :: "nat \<Rightarrow> string \<Rightarrow> till \<Rightarrow> till" where
  "set_order_status oid s t = set_books ((books t)\<lparr>orders := t_update (by_id oid) (\<lambda>r. r\<lparr>po_status := s\<rparr>) (orders (books t))\<rparr>) t"

definition set_item :: "nat \<Rightarrow> (order_item \<Rightarrow> order_item) \<Rightarrow> till \<Rightarrow> till" where
  "set_item k f t = t\<lparr>order_items := t_update (by_id k) f (order_items t)\<rparr>"

text \<open>The approval of an override is asked for inside the same transaction.\<close>

definition approvalHook :: "unit result option \<Rightarrow> ((nat \<times> int) list \<Rightarrow> unit result) option" where
  "approvalHook approve = map_option (\<lambda>r _. r) approve"

definition addItem ::
    "nat \<Rightarrow> nat \<Rightarrow> js_value \<Rightarrow> (js_value \<times> js_value) list option \<Rightarrow> string option \<Rightarrow> unit result option \<Rightarrow> actor \<Rightarrow> int \<Rightarrow> till \<Rightarrow> till result" where
  "addItem oid m quantity modifiers stockReason approve ac now t =
     rbind (lock_open_order t oid) (\<lambda>(r, b).
     rbind (assertCanChangeTab oid b ac True) (\<lambda>_.
     if hasCapturedUnsettledPayment t oid then Inl (OrderPaymentInProgressError oid)
     else (case menuItemAtOutlet (shelf t) (po_outlet r) m of
         None \<Rightarrow> Inl (ValidationError ''MENU_ITEM_NOT_FOUND'')
       | Some (mi, available) \<Rightarrow>
           if \<not> available then Inl (ValidationError ''POS_ITEM_UNAVAILABLE'')
           else let price = outlet_price (shelf t) (po_outlet r) m mi
             in rbind (resolveOrderLine mi price quantity modifiers) (\<lambda>(q, ms).
                rbind (assertStockAvailableOrOverridden [(m, q)] stockReason (po_outlet r) (approvalHook approve) (shelf t)) (\<lambda>(_, db).
                Inr (set_tab oid (\<lambda>b. b\<lparr>tb_ticket_done := False\<rparr>) (t\<lparr>shelf := db,
                  order_items := t_insert \<lparr>oi_order = oid, oi_menu = m, oi_quantity = q, oi_unit_price = price, oi_modifiers = ms,
                    oi_group = None, oi_created = now, oi_voided = False\<rparr> (order_items t)\<rparr>)))))))"

section \<open>Changing a line\<close>

definition lockOrderAndItem :: "till \<Rightarrow> nat \<Rightarrow> (nat \<times> tab \<times> order_item) result" where
  "lockOrderAndItem t k = (case t_get (order_items t) k of
     None \<Rightarrow> Inl (ValidationError ''ORDER_ITEM_NOT_FOUND'')
   | Some it \<Rightarrow> (case t_get (orders (books t)) (oi_order it) of
       None \<Rightarrow> Inl TypeError
     | Some r \<Rightarrow>
         if po_status r \<noteq> ''open'' then Inl (OrderNotOpenError (oi_order it) (po_status r))
         else if oi_voided it then Inl (OrderItemAlreadyVoidedError k)
         else (case tabs t (oi_order it) of None \<Rightarrow> Inl TypeError | Some b \<Rightarrow> Inr (oi_order it, b, it))))"

text \<open>\<open>POS_VOID_GRACE_SECONDS\<close>, parsed.\<close>

definition voidGraceSeconds :: "int option \<Rightarrow> int" where
  "voidGraceSeconds parsed = (case parsed of None \<Rightarrow> 120 | Some n \<Rightarrow> if n > 0 then n else 120)"

definition withinGraceWindow :: "int option \<Rightarrow> tab \<Rightarrow> order_item \<Rightarrow> int \<Rightarrow> bool" where
  "withinGraceWindow env b it now \<longleftrightarrow> \<not> tb_ticket_done b \<and> now - oi_created it \<le> voidGraceSeconds env * 1000"

definition orphaned_discount :: "till \<Rightarrow> nat \<Rightarrow> discount_row \<Rightarrow> bool" where
  "orphaned_discount t oid r =
     (let remaining = live_items t oid
      in remaining = []
         \<or> ds_scope r = ''line'' \<and> \<not> list_ex (\<lambda>it. case ds_menu_item r of Some m \<Rightarrow> ci_menu_item it = m | None \<Rightarrow> ds_order_item r = Some (ci_id it)) remaining)"

definition remove_discount :: "till \<Rightarrow> nat \<times> discount_row \<Rightarrow> till" where
  "remove_discount t x = (case x of (k, r) \<Rightarrow>
     (let t1 = t\<lparr>discount_rows := t_update (by_id k) (\<lambda>r. r\<lparr>ds_status := DiscountRemoved\<rparr>) (discount_rows t)\<rparr>
      in if ds_kind r = VOUCHER_KIND then releaseForDiscount k t1 else t1))"

definition removeOrphanedDiscounts :: "nat \<Rightarrow> till \<Rightarrow> till" where
  "removeOrphanedDiscounts oid t = foldl remove_discount t
     (filter (\<lambda>(_, r). orphaned_discount t oid r)
       (t_select (\<lambda>_ r. ds_order r = oid \<and> (ds_status r = DiscountPending \<or> ds_status r = DiscountActive)) (discount_rows t)))"

definition voidOrderItem :: "nat \<Rightarrow> string option \<Rightarrow> actor \<Rightarrow> int option \<Rightarrow> int \<Rightarrow> till \<Rightarrow> till result" where
  "voidOrderItem k reason ac env now t =
     rbind (lockOrderAndItem t k) (\<lambda>(oid, b, it).
     rbind (assertCanChangeTab oid b ac False) (\<lambda>_.
     if hasCapturedUnsettledPayment t oid then Inl (OrderPaymentInProgressError oid)
     else if \<not> given (map_option js_trim reason) \<and> \<not> withinGraceWindow env b it now
     then Inl (ValidationFieldError ''MISSING_FIELD'' ''reason'' ''missing'')
     else Inr (removeOrphanedDiscounts oid (set_item k (\<lambda>it. it\<lparr>oi_voided := True\<rparr>) t))))"

definition assignItemSplitGroup :: "nat \<Rightarrow> nat option \<Rightarrow> actor \<Rightarrow> till \<Rightarrow> till result" where
  "assignItemSplitGroup k g ac t =
     rbind (lockOrderAndItem t k) (\<lambda>(oid, b, it).
     rbind (assertCanChangeTab oid b ac True) (\<lambda>_. Inr (set_item k (\<lambda>it. it\<lparr>oi_group := g\<rparr>) t)))"

section \<open>Changing a tab\<close>

definition renameOrder :: "nat \<Rightarrow> string option \<Rightarrow> actor \<Rightarrow> till \<Rightarrow> till result" where
  "renameOrder oid label ac t =
     (let n = js_trim (case label of None \<Rightarrow> [] | Some s \<Rightarrow> s)
      in if n = [] then Inl (ValidationFieldError ''INVALID_TAB_NAME'' ''table_label'' ''missing'')
         else if length n > 60 then Inl (ValidationFieldError ''INVALID_TAB_NAME'' ''table_label'' ''too_long'')
         else rbind (lock_open_order t oid) (\<lambda>(r, b).
              rbind (assertCanChangeTab oid b ac True) (\<lambda>_. Inr (set_tab oid (\<lambda>b. b\<lparr>tb_label := Some n\<rparr>) t))))"

definition cancel_open_payments :: "nat list \<Rightarrow> string \<Rightarrow> till \<Rightarrow> till" where
  "cancel_open_payments ids why t = set_books ((books t)\<lparr>payments := t_update
     (\<lambda>pid p. pid \<in> set ids \<and> (p_status p = INITIATED \<or> p_status p = PENDING))
     (\<lambda>p. p\<lparr>p_status := CANCELLED, p_failure := Some why\<rparr>) (payments (books t))\<rparr>) t"

text \<open>The transaction that follows the verification of pending payments, each of which is a step of its own.\<close>

definition voidOrder :: "nat \<Rightarrow> string option \<Rightarrow> actor \<Rightarrow> till \<Rightarrow> till result" where
  "voidOrder oid reason ac t =
     (if \<not> given reason then Inl (ValidationFieldError ''MISSING_FIELD'' ''reason'' ''missing'')
      else rbind (lock_open_order t oid) (\<lambda>(r, b).
           rbind (assertCanChangeTab oid b ac False) (\<lambda>_.
           let unsettled = listUnsettledRegisterPayments t oid
           in (case find (\<lambda>x. p_status (snd x) = CAPTURED) unsettled of
               Some (pid, _) \<Rightarrow> Inl (OrderHasCapturedPaymentError oid pid)
             | None \<Rightarrow> Inr (set_order_status oid ''void''
                 (cancel_open_payments (map fst unsettled) ''The Register tab was voided before payment.'' t))))))"

definition MAX_TABS_PER_TRANSFER :: nat where "MAX_TABS_PER_TRANSFER = 50"

definition invalidTransfer :: "string \<Rightarrow> string \<Rightarrow> app_error" where
  "invalidTransfer code field = ValidationFieldError code field ''invalid''"

definition may_hand_over :: "till \<Rightarrow> actor \<Rightarrow> unit \<Rightarrow> nat \<times> pos_order \<Rightarrow> unit result" where
  "may_hand_over t ac u x = (case x of (oid, r) \<Rightarrow>
     if po_status r \<noteq> ''open'' then Inl (OrderNotOpenError oid (po_status r))
     else (case tabs t oid of
         None \<Rightarrow> Inl TypeError
       | Some b \<Rightarrow> if tabOwnerId b = None then Inl (TabNotTransferableError oid)
           else rbind (assertCanChangeTab oid b ac True) (\<lambda>_. Inr ())))"

definition transferTabs ::
    "(nat \<Rightarrow> bool) \<Rightarrow> (string \<Rightarrow> bool) \<Rightarrow> nat list \<Rightarrow> nat option \<Rightarrow> actor \<Rightarrow> till \<Rightarrow> till result" where
  "transferTabs activeUser mayOperate ids toUser ac t =
     (if ids = [] then Inl (invalidTransfer ''TRANSFER_NO_TABS'' ''order_ids'')
      else if length ids > MAX_TABS_PER_TRANSFER then Inl (invalidTransfer ''TRANSFER_TOO_MANY_TABS'' ''order_ids'')
      else if \<not> distinct ids then Inl (invalidTransfer ''TRANSFER_INVALID_TABS'' ''order_ids'')
      else (case toUser of
          None \<Rightarrow> Inl (invalidTransfer ''TRANSFER_RECIPIENT_REQUIRED'' ''to_user_id'')
        | Some u \<Rightarrow>
            let found = t_select (\<lambda>k _. k \<in> set ids) (orders (books t)); mine = outletScopeForUser (shelf t) (Some (ac_user ac))
            in if length found \<noteq> length ids \<or> list_ex (\<lambda>(_, r). \<not> scopeCovers mine [po_outlet r]) found then Inl (ValidationError ''ORDER_NOT_FOUND'')
               else rbind (foldM (may_hand_over t ac) () found) (\<lambda>_.
                 (case t_first (\<lambda>_ a. ua_user a = u \<and> activeUser u) (property_access (shelf t)) of
                    None \<Rightarrow> Inl (invalidTransfer ''TRANSFER_RECIPIENT_INVALID'' ''to_user_id'')
                  | Some (_, a) \<Rightarrow>
                      if \<not> mayOperate (ua_role a) then Inl (invalidTransfer ''TRANSFER_RECIPIENT_INVALID'' ''to_user_id'')
                      else if list_ex (\<lambda>(_, r). \<not> scopeCovers (outletScopeForUser (shelf t) (Some u)) [po_outlet r]) found
                      then Inl (invalidTransfer ''TRANSFER_RECIPIENT_NOT_AT_OUTLET'' ''to_user_id'')
                      else Inr (t\<lparr>tabs := (\<lambda>k. if k \<in> set ids then map_option (\<lambda>b. b\<lparr>tb_owner := Some u\<rparr>) (tabs t k) else tabs t k)\<rparr>)))))"

section \<open>Kitchen tickets\<close>

definition markTicketDone :: "nat \<Rightarrow> till \<Rightarrow> till result" where
  "markTicketDone oid t = (case t_get (orders (books t)) oid of
     None \<Rightarrow> Inr t
   | Some r \<Rightarrow>
       if po_status r = ''void'' then Inl (OrderNotOpenError oid (po_status r))
       else if (case tabs t oid of None \<Rightarrow> False | Some b \<Rightarrow> tb_source b = ''guest'')
         \<and> (case guest_orders t oid of None \<Rightarrow> False | Some s \<Rightarrow> s \<noteq> ''preparing'' \<and> s \<noteq> ''on_the_way'')
       then Inl (ValidationError ''POS_TICKET_GUEST_ORDER_NOT_ACCEPTED'')
       else Inr (set_tab oid (\<lambda>b. b\<lparr>tb_ticket_done := True\<rparr>) t))"

end
